(* ===== verification/Prelude.thy ===== *)
theory Prelude
  imports Main "HOL-Library.Word" "HOL-Library.Signed_Division"
begin

text \<open>
  The base of the development: the machine types of the platform the client is modelled on
  (64-bit Unix: \<open>long\<close>, \<open>size_t\<close> and \<open>int64_t\<close> have 64 bits), C strings, the
  \<open><ctype.h>\<close>, \<open><string.h>\<close> and \<open><stdlib.h>\<close> functions of the C locale which the source
  calls, the ways in which the process can be ended, and the lemma collections the component
  theories share.

  A NUL-terminated string is a \<open>string\<close> without NUL characters; a \<open>char *\<close> which may be
  NULL is a \<open>string option\<close>.
\<close>

section \<open>Types\<close>

type_synonym u8 = "8 word"
type_synonym u16 = "16 word"
type_synonym u32 = "32 word"
type_synonym u64 = "64 word"

text \<open>
  Calls which do not return: \<open>putil_int\<close> and a failed \<open>assert\<close> abort the process,
  \<open>putil_die\<close> and \<open>putil_syserr(2, ...)\<close> exit with status 2. \<open>Fault\<close> is an execution
  whose behaviour C leaves undefined (an access outside an object, a division by zero).
\<close>

datatype exn = Abort string | Exit nat | Fault string

type_synonym 'a result = "exn + 'a"

definition bindR :: "'a result \<Rightarrow> ('a \<Rightarrow> 'b result) \<Rightarrow> 'b result" where
  "bindR r f = (case r of Inl e \<Rightarrow> Inl e | Inr a \<Rightarrow> f a)"

lemma bindR_simps [simp]:
  "bindR (Inl e) f = Inl e"
  "bindR (Inr a) f = f a"
  by (simp_all add: bindR_def)

lemma bindR_eq_Inr:
  "bindR r f = Inr b \<longleftrightarrow> (\<exists>a. r = Inr a \<and> f a = Inr b)"
  by (cases r) simp_all

text \<open>Division and remainder of signed C integers truncate towards zero.\<close>

definition c_div :: "'a::len word \<Rightarrow> 'a word \<Rightarrow> 'a word" where
  "c_div a b = word_of_int (sint a sdiv sint b)"

definition c_rem :: "'a::len word \<Rightarrow> 'a word \<Rightarrow> 'a word" where
  "c_rem a b = word_of_int (sint a smod sint b)"

lemma quot_rem_nonneg:
  "0 \<le> (a :: int) \<Longrightarrow> 0 < b \<Longrightarrow> a sdiv b = a div b \<and> a smod b = a mod b"
  by (simp add: signed_divide_int_def signed_modulo_int_def sgn_if
      minus_div_mult_eq_mod split: if_splits)

named_theorems c_simps \<open>evaluation rules for the C library functions\<close>

section \<open>Characters\<close>

abbreviation ascii :: "char \<Rightarrow> nat" where
  "ascii c \<equiv> of_char c"

definition nul :: char where "nul = CHR 0x00"
definition newline :: char where "newline = CHR 0x0A"
definition backslash :: char where "backslash = CHR 0x5C"
definition dquote :: char where "dquote = CHR 0x22"

definition first_char :: "string \<Rightarrow> char" where
  \<comment> \<open>\<open>*s\<close>\<close>
  "first_char s = (case s of [] \<Rightarrow> nul | c # _ \<Rightarrow> c)"

definition isdigit :: "char \<Rightarrow> bool" where
  "isdigit c = (48 \<le> ascii c \<and> ascii c \<le> 57)"

definition isupper :: "char \<Rightarrow> bool" where
  "isupper c = (65 \<le> ascii c \<and> ascii c \<le> 90)"

definition islower :: "char \<Rightarrow> bool" where
  "islower c = (97 \<le> ascii c \<and> ascii c \<le> 122)"

definition isalpha :: "char \<Rightarrow> bool" where
  "isalpha c = (isupper c \<or> islower c)"

definition isalnum :: "char \<Rightarrow> bool" where
  "isalnum c = (isalpha c \<or> isdigit c)"

definition isspace :: "char \<Rightarrow> bool" where
  "isspace c = (ascii c = 32 \<or> (9 \<le> ascii c \<and> ascii c \<le> 13))"

definition isxdigit :: "char \<Rightarrow> bool" where
  "isxdigit c = (isdigit c \<or> (65 \<le> ascii c \<and> ascii c \<le> 70)
                 \<or> (97 \<le> ascii c \<and> ascii c \<le> 102))"

definition tolower :: "char \<Rightarrow> char" where
  "tolower c = (if isupper c then char_of (ascii c + 32) else c)"

definition toupper :: "char \<Rightarrow> char" where
  "toupper c = (if islower c then char_of (ascii c - 32) else c)"

lemmas ctype_defs =
  isdigit_def isupper_def islower_def isalpha_def isalnum_def isspace_def isxdigit_def

lemma ascii_tolower:
  "ascii (tolower c) = (if isupper c then ascii c + 32 else ascii c)"
  by (auto simp: tolower_def isupper_def)

lemma ascii_toupper:
  "ascii (toupper c) = (if islower c then ascii c - 32 else ascii c)"
  by (auto simp: toupper_def islower_def)

lemma tolower_tolower [simp]: "tolower (tolower c) = tolower c"
  by (auto simp: tolower_def isupper_def)

lemma toupper_tolower [simp]: "tolower (toupper c) = tolower c"
  by (auto simp: tolower_def toupper_def isupper_def islower_def)

section \<open>Strings\<close>

text \<open>
  \<open>strcmp\<close> compares as \<open>unsigned char\<close>. Only the sign of its result is specified; the
  model returns -1, 0 or 1.
\<close>

fun c_strcmp :: "string \<Rightarrow> string \<Rightarrow> int" where
  "c_strcmp [] [] = 0"
| "c_strcmp [] (y # ys) = -1"
| "c_strcmp (x # xs) [] = 1"
| "c_strcmp (x # xs) (y # ys) =
     (if ascii x < ascii y then -1 else if ascii y < ascii x then 1 else c_strcmp xs ys)"

definition c_stricmp :: "string \<Rightarrow> string \<Rightarrow> int" where
  "c_stricmp s t = c_strcmp (map tolower s) (map tolower t)"

definition strneq0 :: "string \<Rightarrow> string \<Rightarrow> nat \<Rightarrow> bool" where
  \<comment> \<open>\<open>!strncmp(s, t, n)\<close>: the first \<open>n\<close> characters agree, up to the terminator\<close>
  "strneq0 s t n = (take n s = take n t)"

definition strnieq0 :: "string \<Rightarrow> string \<Rightarrow> nat \<Rightarrow> bool" where
  "strnieq0 s t n = (take n (map tolower s) = take n (map tolower t))"

definition prefix_of :: "string \<Rightarrow> string \<Rightarrow> bool" where
  "prefix_of p s = (take (length p) s = p)"

fun has_substring :: "string \<Rightarrow> string \<Rightarrow> bool" where
  \<comment> \<open>\<open>strstr(s, p) != NULL\<close>\<close>
  "has_substring p [] = (p = [])"
| "has_substring p (x # xs) = (prefix_of p (x # xs) \<or> has_substring p xs)"

definition split_at :: "char \<Rightarrow> string \<Rightarrow> (string \<times> string) option" where
  \<comment> \<open>\<open>if ((p = strchr(s, c))) *p++ = 0\<close>: the parts before and after the first \<open>c\<close>\<close>
  "split_at c s =
     (if c \<in> set s then Some (takeWhile (\<lambda>x. x \<noteq> c) s, tl (dropWhile (\<lambda>x. x \<noteq> c) s))
      else None)"

lemma c_strcmp_eq_0 [simp]: "c_strcmp s t = 0 \<longleftrightarrow> s = t"
  by (induction s t rule: c_strcmp.induct) auto

lemma c_strcmp_refl: "c_strcmp s s = 0"
  by simp

lemma c_strcmp_range: "c_strcmp s t \<in> {-1, 0, 1}"
  by (induction s t rule: c_strcmp.induct) auto

lemma c_strcmp_antisym: "c_strcmp t s = - c_strcmp s t"
  by (induction s t rule: c_strcmp.induct) auto

lemma c_strcmp_lexord:
  "c_strcmp s t < 0 \<longleftrightarrow> (map ascii s, map ascii t) \<in> lexord {(a, b). a < (b :: nat)}"
proof (induction s t rule: c_strcmp.induct)
  case (4 x xs y ys)
  show ?case
  proof (cases "ascii x = ascii y")
    case True
    with "4.IH" show ?thesis by simp
  next
    case False
    then have "x \<noteq> y" by auto
    with False show ?thesis by simp
  qed
qed simp_all

lemma c_strcmp_trans:
  assumes "c_strcmp s t < 0" and "c_strcmp t u < 0"
  shows "c_strcmp s u < 0"
proof -
  have "trans (lexord {(a, b). a < (b :: nat)})"
    by (rule lexord_transI) (auto simp: trans_def)
  then show ?thesis
    using assms unfolding c_strcmp_lexord by (rule transD)
qed

lemma c_stricmp_eq_0: "c_stricmp s t = 0 \<longleftrightarrow> map tolower s = map tolower t"
  by (simp add: c_stricmp_def)

lemma split_at_None [simp]: "split_at c s = None \<longleftrightarrow> c \<notin> set s"
  by (simp add: split_at_def)

lemma split_at_append:
  "c \<notin> set a \<Longrightarrow> split_at c (a @ c # b) = Some (a, b)"
  by (simp add: split_at_def takeWhile_append1 dropWhile_append1 takeWhile_append dropWhile_append)

lemma split_at_Some:
  "split_at c s = Some (a, b) \<Longrightarrow> s = a @ c # b \<and> c \<notin> set a"
proof -
  assume a: "split_at c s = Some (a, b)"
  then obtain x y where s: "s = x @ c # y" "c \<notin> set x"
    by (auto simp: split_at_def split: if_splits dest: split_list_first)
  with a show ?thesis by (simp add: split_at_append)
qed

end
