(* ===== verification/Radix.thy ===== *)
theory Radix
  imports Prelude
begin

text \<open>
  Integers as text. \<open>strtoul\<close>, \<open>strtol\<close> and the unsigned conversions of \<open>printf\<close> are
  those of the C library; \<open>util_format_to_radix\<close> (\<open>src/util.c\<close>) is the client's own
  formatter, which fills a caller-supplied buffer from its end. The lemmas say when the
  buffer is large enough, that what it then holds is the numeral of the value, and that the
  numeral parses back.
\<close>

section \<open>Numerals\<close>

text \<open>The string literal \<open>CHRS\<close> of \<open>src/util.c\<close>.\<close>

definition CHRS :: string where
  "CHRS = ''0123456789abcdefghijklmnopqrstuvwxyzABCDEFGHIJKLMNOPQRSTUVWXYZ''"

fun nat_to_radix :: "nat \<Rightarrow> nat \<Rightarrow> string" where
  \<comment> \<open>the numeral of a value, most significant digit first\<close>
  "nat_to_radix r n =
     (if r < 2 \<or> n < r then [CHRS ! (n mod r)]
      else nat_to_radix r (n div r) @ [CHRS ! (n mod r)])"

declare nat_to_radix.simps [simp del]

definition fmt_lu :: "u64 \<Rightarrow> string" where
  \<comment> \<open>the conversions \<open>%lu\<close> and \<open>PRIu64\<close> of \<open>printf\<close>\<close>
  "fmt_lu v = nat_to_radix 10 (unat v)"

definition fmt_d :: "int \<Rightarrow> string" where
  \<comment> \<open>the conversions \<open>%d\<close> and \<open>%ld\<close>\<close>
  "fmt_d i = (if i < 0 then CHR ''-'' # nat_to_radix 10 (nat (- i)) else nat_to_radix 10 (nat i))"

definition snprintf :: "nat \<Rightarrow> string \<Rightarrow> string" where
  \<comment> \<open>the string \<open>snprintf\<close> leaves in a buffer of the given size\<close>
  "snprintf bufmax s = take (bufmax - 1) s"

definition fmt_pad :: "nat \<Rightarrow> string \<Rightarrow> string" where
  \<comment> \<open>the conversion \<open>%*s\<close>\<close>
  "fmt_pad n s = replicate (n - length s) CHR '' '' @ s"

section \<open>strtoul and strtol\<close>

definition digit_val :: "char \<Rightarrow> nat option" where
  "digit_val c =
     (if isdigit c then Some (ascii c - 48)
      else if islower c then Some (ascii c - 87)
      else if isupper c then Some (ascii c - 55)
      else None)"

definition is_digit_of :: "nat \<Rightarrow> char \<Rightarrow> bool" where
  "is_digit_of b c = (case digit_val c of Some d \<Rightarrow> d < b | None \<Rightarrow> False)"

definition digits_val :: "nat \<Rightarrow> string \<Rightarrow> nat" where
  "digits_val b s = foldl (\<lambda>a c. a * b + the (digit_val c)) 0 s"

definition skip_sign :: "string \<Rightarrow> bool \<times> string" where
  "skip_sign s = (case s of [] \<Rightarrow> (False, [])
     | c # t \<Rightarrow> if c = CHR ''-'' then (True, t) else if c = CHR ''+'' then (False, t)
               else (False, c # t))"

definition skip_0x :: "nat \<Rightarrow> string \<Rightarrow> string" where
  \<comment> \<open>base 16 accepts an \<open>0x\<close> prefix when a hexadecimal digit follows it\<close>
  "skip_0x b s = (case s of c # x # d # t \<Rightarrow>
       if b = 16 \<and> c = CHR ''0'' \<and> tolower x = CHR ''x'' \<and> isxdigit d then d # t else s
     | _ \<Rightarrow> s)"

definition scan_number :: "nat \<Rightarrow> string \<Rightarrow> bool \<times> nat" where
  "scan_number b s =
     (case skip_sign (dropWhile isspace s) of (neg, t) \<Rightarrow>
        (neg, digits_val b (takeWhile (is_digit_of b) (skip_0x b t))))"

text \<open>\<open>strtoul\<close> saturates at \<open>ULONG_MAX\<close> and negates in the unsigned type.\<close>

definition c_strtoul :: "nat \<Rightarrow> string \<Rightarrow> u64" where
  "c_strtoul b s = (case scan_number b s of (neg, v) \<Rightarrow>
     if 2 ^ 64 \<le> v then - 1 else if neg then - of_nat v else of_nat v)"

text \<open>\<open>strtol\<close> and \<open>strtoll\<close> saturate at the bounds of the signed type.\<close>

definition c_strtol :: "nat \<Rightarrow> string \<Rightarrow> u64" where
  "c_strtol b s = (case scan_number b s of (neg, v) \<Rightarrow>
     if neg then (if 2 ^ 63 < v then of_nat (2 ^ 63) else - of_nat v)
     else (if 2 ^ 63 \<le> v then of_nat (2 ^ 63 - 1) else of_nat v))"

section \<open>util_format_to_radix\<close>

text \<open>
  The loop \<open>do { assert(p >= buf); d = val % radix; *--p = CHRS[d]; val /= radix; }
  while (val > 0)\<close>. \<open>p\<close> is the index of the pointer in the buffer: with \<open>p = buf\<close> the
  assertion still holds and the store goes to the byte before the buffer.
\<close>

fun radix_loop :: "nat \<Rightarrow> string \<Rightarrow> nat \<Rightarrow> nat \<Rightarrow> (string \<times> nat) result" where
  "radix_loop radix buf 0 val = Inl (Fault ''store before the buffer'')"
| "radix_loop radix buf (Suc p) val =
     (let d = val mod radix; buf' = buf[p := CHRS ! d]; val' = val div radix
      in if 0 < val' then radix_loop radix buf' p val' else Inr (buf', p))"

definition buf_string :: "string \<Rightarrow> string" where
  \<comment> \<open>the C string a buffer holds\<close>
  "buf_string buf = takeWhile (\<lambda>c. c \<noteq> nul) buf"

definition strcpy_down :: "string \<Rightarrow> nat \<Rightarrow> string" where
  \<comment> \<open>\<open>strcpy(buf, buf + p)\<close>\<close>
  "strcpy_down buf p = (let s = buf_string (drop p buf) in s @ nul # drop (Suc (length s)) buf)"

definition util_format_to_radix :: "nat \<Rightarrow> nat \<Rightarrow> u64 \<Rightarrow> string result" where
  "util_format_to_radix radix len val =
     (if \<not> radix < 63 then Inl (Abort ''radix < sizeof(CHRS)'')
      else if len = 0 then Inl (Abort ''p >= buf'')
      else if radix = 0 then Inl (Fault ''division by zero'')
      else bindR (radix_loop radix (replicate len nul) (len - 1) (unat val))
        (\<lambda>(buf, p). Inr (if 0 < p then strcpy_down buf p else buf)))"

section \<open>Lemmas\<close>

lemma length_CHRS [simp]: "length CHRS = 62"
  by (simp add: CHRS_def)

lemma nat_to_radix_less:
  "2 \<le> r \<Longrightarrow> n < r \<Longrightarrow> nat_to_radix r n = [CHRS ! n]"
  by (simp add: nat_to_radix.simps)

lemma nat_to_radix_ge:
  "2 \<le> r \<Longrightarrow> r \<le> n \<Longrightarrow> nat_to_radix r n = nat_to_radix r (n div r) @ [CHRS ! (n mod r)]"
  by (subst nat_to_radix.simps) simp

lemma nat_to_radix_not_Nil [simp]: "nat_to_radix r n \<noteq> []"
  by (subst nat_to_radix.simps) simp

lemma CHRS_nth_not_nul: "d < 62 \<Longrightarrow> CHRS ! d \<noteq> nul"
proof -
  have "nul \<notin> set CHRS" by (simp add: CHRS_def nul_def)
  moreover assume "d < 62"
  ultimately show ?thesis by (metis length_CHRS nth_mem)
qed

lemma CHRS_alnum: "list_all isalnum CHRS"
  by (simp add: CHRS_def ctype_defs)

lemma digit_val_CHRS: "d < 36 \<Longrightarrow> digit_val (CHRS ! d) = Some d"
proof -
  have "\<forall>d \<in> set [0..<36]. digit_val (CHRS ! d) = Some d"
    by (simp add: CHRS_def upt_rec ctype_defs digit_val_def)
  moreover assume "d < 36"
  ultimately show ?thesis by simp
qed

lemma digit_val_space: "isspace c \<Longrightarrow> digit_val c = None"
  by (auto simp: digit_val_def ctype_defs)

lemma nat_to_radix_alnum:
  "1 \<le> r \<Longrightarrow> r \<le> 62 \<Longrightarrow> c \<in> set (nat_to_radix r n) \<Longrightarrow> isalnum c"
proof (induction r n rule: nat_to_radix.induct)
  case (1 r n)
  have d: "CHRS ! (n mod r) \<in> set CHRS"
    using "1.prems"(1,2) by (intro nth_mem) (simp add: order.strict_trans2 [OF mod_less_divisor])
  have "c \<in> set (nat_to_radix r (n div r)) \<and> \<not> (r < 2 \<or> n < r) \<or> c = CHRS ! (n mod r)"
    using "1.prems"(3) by (subst (asm) nat_to_radix.simps) (auto split: if_splits)
  then show ?case
    using d CHRS_alnum "1.IH" "1.prems"(1,2) by (auto simp: list_all_iff)
qed

lemma isalnum_not_special:
  "isalnum c \<Longrightarrow> c \<noteq> nul \<and> c \<noteq> newline \<and> c \<noteq> CHR '','' \<and> c \<noteq> CHR ''.'' \<and> c \<noteq> CHR ''-''
     \<and> c \<noteq> CHR ''+'' \<and> c \<noteq> CHR ''%'' \<and> \<not> isspace c"
  by (auto simp: ctype_defs nul_def newline_def)

lemma nat_to_radix_no_special:
  assumes "1 \<le> r" and "r \<le> 62"
  shows "nul \<notin> set (nat_to_radix r n)" and "CHR '','' \<notin> set (nat_to_radix r n)"
    and "newline \<notin> set (nat_to_radix r n)" and "CHR ''.'' \<notin> set (nat_to_radix r n)"
  using nat_to_radix_alnum [OF assms] isalnum_not_special by blast+

lemma fmt_lu_no_special [simp]:
  "nul \<notin> set (fmt_lu v)" "CHR '','' \<notin> set (fmt_lu v)" "newline \<notin> set (fmt_lu v)"
  by (simp_all add: fmt_lu_def nat_to_radix_no_special)

lemma digits_val_snoc [simp]:
  "digits_val b (s @ [c]) = digits_val b s * b + the (digit_val c)"
  by (simp add: digits_val_def)

lemma digits_val_nat_to_radix:
  "2 \<le> r \<Longrightarrow> r \<le> 36 \<Longrightarrow> digits_val r (nat_to_radix r n) = n"
proof (induction r n rule: nat_to_radix.induct)
  case (1 r n)
  show ?case
  proof (cases "n < r")
    case True
    with 1 show ?thesis
      by (simp add: nat_to_radix_less digits_val_def digit_val_CHRS)
  next
    case False
    then have "digits_val r (nat_to_radix r (n div r)) = n div r"
      using 1 by simp
    with False 1 show ?thesis
      by (simp add: nat_to_radix_ge digit_val_CHRS order.strict_trans2 [OF mod_less_divisor]
          div_mult_mod_eq)
  qed
qed

lemma is_digit_of_CHRS: "d < r \<Longrightarrow> r \<le> 36 \<Longrightarrow> is_digit_of r (CHRS ! d)"
  by (simp add: is_digit_of_def digit_val_CHRS)

lemma nat_to_radix_digits:
  "2 \<le> r \<Longrightarrow> r \<le> 36 \<Longrightarrow> c \<in> set (nat_to_radix r n) \<Longrightarrow> is_digit_of r c"
proof (induction r n rule: nat_to_radix.induct)
  case (1 r n)
  have "c \<in> set (nat_to_radix r (n div r)) \<and> \<not> (r < 2 \<or> n < r) \<or> c = CHRS ! (n mod r)"
    using "1.prems"(3) by (subst (asm) nat_to_radix.simps) (auto split: if_splits)
  then show ?case
    using "1.IH" "1.prems"(1,2) by (auto intro!: is_digit_of_CHRS)
qed

definition no_digit_start :: "nat \<Rightarrow> string \<Rightarrow> bool" where
  "no_digit_start b s = (case s of [] \<Rightarrow> True | c # _ \<Rightarrow> \<not> is_digit_of b c)"

lemma no_digit_start_simps [simp]:
  "no_digit_start b []"
  "no_digit_start b (c # s) = (\<not> is_digit_of b c)"
  by (simp_all add: no_digit_start_def)

lemma scan_nat_to_radix:
  assumes r: "2 \<le> r" "r \<le> 36" "r \<noteq> 16" and rest: "no_digit_start r rest"
  shows "scan_number r (nat_to_radix r n @ rest) = (False, n)"
proof -
  obtain c t where ct: "nat_to_radix r n = c # t"
    by (cases "nat_to_radix r n") simp_all
  then have "isalnum c" using nat_to_radix_alnum [of r c n] r by simp
  then have c: "c \<noteq> CHR ''-''" "c \<noteq> CHR ''+''" "\<not> isspace c"
    using isalnum_not_special by blast+
  have "takeWhile (is_digit_of r) (nat_to_radix r n @ rest) = nat_to_radix r n"
    using rest r nat_to_radix_digits
    by (cases rest) (auto simp: no_digit_start_def takeWhile_append)
  moreover have "skip_0x r s = s" for s
    using r(3) by (simp add: skip_0x_def split: list.split)
  moreover have "skip_sign (dropWhile isspace (nat_to_radix r n @ rest)) =
      (False, nat_to_radix r n @ rest)"
    using c by (simp add: ct skip_sign_def)
  ultimately show ?thesis
    using digits_val_nat_to_radix [OF r(1,2)] by (simp add: scan_number_def)
qed

lemma c_strtoul_nat_to_radix:
  assumes "2 \<le> r" "r \<le> 36" "r \<noteq> 16" and "no_digit_start r rest" and "n < 2 ^ 64"
  shows "c_strtoul r (nat_to_radix r n @ rest) = of_nat n"
  using assms by (simp add: c_strtoul_def scan_nat_to_radix)

lemma c_strtoul_fmt_lu [simp]: "c_strtoul 10 (fmt_lu v) = v"
  using c_strtoul_nat_to_radix [of 10 "[]" "unat v"] unsigned_less [of v]
  by (simp add: fmt_lu_def)

lemma c_strtol_nat_to_radix:
  assumes "2 \<le> r" "r \<le> 36" "r \<noteq> 16" and "no_digit_start r rest"
  shows "c_strtol r (nat_to_radix r n @ rest) =
    (if 2 ^ 63 \<le> n then of_nat (2 ^ 63 - 1) else of_nat n)"
  using assms by (simp add: c_strtol_def scan_nat_to_radix)

section \<open>The buffer of util_format_to_radix\<close>

text \<open>
  The loop stores the numeral so that it ends just before index \<open>p\<close>, if there is room for
  it below \<open>p\<close>; otherwise it stores before the buffer.
\<close>

lemma radix_loop_fits:
  assumes "2 \<le> r" and "length (nat_to_radix r n) \<le> p" and "p \<le> length buf"
  shows "radix_loop r buf p n =
    (let q = p - length (nat_to_radix r n)
     in Inr (take q buf @ nat_to_radix r n @ drop p buf, q))"
  using assms
proof (induction r buf p n rule: radix_loop.induct)
  case (1 r buf n)
  then show ?case by simp
next
  case (2 r buf p n)
  let ?c = "CHRS ! (n mod r)"
  have upd: "drop p (buf[p := ?c]) = ?c # drop (Suc p) buf"
    using "2.prems"(3) by (simp add: Cons_nth_drop_Suc [symmetric])
  show ?case
  proof (cases "n < r")
    case True
    with 2 show ?thesis
      by (simp add: nat_to_radix_less upd_conv_take_nth_drop)
  next
    case False
    then have n: "0 < n div r" "nat_to_radix r n = nat_to_radix r (n div r) @ [?c]"
      using "2.prems"(1) by (simp_all add: nat_to_radix_ge div_greater_zero_iff)
    have "radix_loop r (buf[p := ?c]) p (n div r) =
      (let q = p - length (nat_to_radix r (n div r))
       in Inr (take q (buf[p := ?c]) @ nat_to_radix r (n div r) @ drop p (buf[p := ?c]), q))"
      using n "2.prems" by (intro "2.IH") auto
    with n upd show ?thesis by (simp add: Let_def)
  qed
qed

lemma radix_loop_overflow:
  "2 \<le> r \<Longrightarrow> p < length (nat_to_radix r n) \<Longrightarrow>
   radix_loop r buf p n = Inl (Fault ''store before the buffer'')"
proof (induction r buf p n rule: radix_loop.induct)
  case (2 r buf p n)
  then have "\<not> n < r" by (auto simp: nat_to_radix_less)
  with 2 show ?case by (simp add: nat_to_radix_ge div_greater_zero_iff)
qed simp

lemma buf_string_append:
  "nul \<notin> set s \<Longrightarrow> buf_string (s @ nul # t) = s"
  by (simp add: buf_string_def takeWhile_append)

lemma buf_string_strcpy_down:
  "buf_string (strcpy_down buf p) = buf_string (drop p buf)"
proof -
  have "nul \<notin> set (buf_string (drop p buf))"
    by (auto simp: buf_string_def dest: set_takeWhileD)
  then show ?thesis by (simp add: strcpy_down_def Let_def buf_string_append)
qed

lemma format_to_radix_fits:
  assumes r: "2 \<le> r" "r < 63" and len: "length (nat_to_radix r (unat v)) < len"
  shows "\<exists>buf. util_format_to_radix r len v = Inr buf \<and>
     buf_string buf = nat_to_radix r (unat v)"
proof -
  let ?n = "nat_to_radix r (unat v)" and ?b = "replicate len nul"
  let ?q = "len - 1 - length ?n"
  have "drop (len - 1) ?b = [nul]" using len by (simp add: Suc_diff_Suc)
  then have loop: "radix_loop r ?b (len - 1) (unat v) = Inr (take ?q ?b @ ?n @ [nul], ?q)"
    using radix_loop_fits [of r "unat v" "len - 1" ?b] r len by (simp add: Let_def)
  have "nul \<notin> set ?n" using nat_to_radix_no_special r by simp
  then have s: "buf_string (?n @ [nul]) = ?n" by (rule buf_string_append)
  have "drop ?q (take ?q ?b @ ?n @ [nul]) = ?n @ [nul]" using len by simp
  then show ?thesis
    using loop r len s
    by (cases "0 < ?q") (auto simp: util_format_to_radix_def buf_string_strcpy_down)
qed

lemma format_to_radix_overflow:
  assumes "2 \<le> r" "r < 63" and "0 < len" and "len \<le> length (nat_to_radix r (unat v))"
  shows "util_format_to_radix r len v = Inl (Fault ''store before the buffer'')"
  using assms by (simp add: util_format_to_radix_def radix_loop_overflow)

lemma length_nat_to_radix:
  assumes "2 \<le> r"
  shows "n < r ^ k \<Longrightarrow> 0 < k \<Longrightarrow> length (nat_to_radix r n) \<le> k"
proof (induction k arbitrary: n)
  case (Suc k)
  show ?case
  proof (cases "n < r")
    case True
    with assms show ?thesis by (simp add: nat_to_radix_less)
  next
    case False
    then have "k \<noteq> 0" using Suc.prems by (cases k) auto
    moreover have "n div r < r ^ k"
      using Suc.prems assms by (simp add: less_mult_imp_div_less mult.commute)
    ultimately show ?thesis
      using Suc.IH [of "n div r"] False assms by (simp add: nat_to_radix_ge)
  qed
qed simp

lemma length_radix36: "length (nat_to_radix 36 (unat (v :: u64))) \<le> 13"
proof (rule length_nat_to_radix)
  have "unat v < 2 ^ 64" using unsigned_less [of v] by simp
  then show "unat v < 36 ^ 13" by simp
qed simp_all

lemma length_fmt_lu: "length (fmt_lu v) \<le> 20"
  unfolding fmt_lu_def
proof (rule length_nat_to_radix)
  have "unat v < 2 ^ 64" using unsigned_less [of v] by simp
  then show "unat v < 10 ^ 20" by simp
qed simp_all

end
