(* ===== verification/Moment.thy ===== *)
theory Moment
  imports Radix
begin

text \<open>
  Timestamps (\<open>src/moment.c\<close>, \<open>src/MOMENT.h\<close>): a \<open>moment_s\<close> holds seconds and
  nanoseconds, both 64-bit signed integers kept as words in two's complement. The comparison
  works on the total number of nanoseconds in unsigned 64-bit arithmetic and rounds it to the
  precision of the property \<open>Shop.Time.Precision\<close>; formatting and parsing use base 36.
\<close>

section \<open>Data\<close>

record moment_s =
  ntv_sec :: u64
  ntv_nsec :: u64

definition MOMENT_BUFMAX :: nat where "MOMENT_BUFMAX = 32"
definition CSV_RADIX :: nat where "CSV_RADIX = 36"
definition NANOS_PER_SECOND :: u64 where "NANOS_PER_SECOND = 1000000000"
definition NANOS_PER_MILLI :: u64 where "NANOS_PER_MILLI = 1000000"
definition MILLIS_PER_SECOND :: u64 where "MILLIS_PER_SECOND = 1000"

lemmas moment_consts =
  MOMENT_BUFMAX_def CSV_RADIX_def NANOS_PER_SECOND_def NANOS_PER_MILLI_def MILLIS_PER_SECOND_def

definition zero_moment :: moment_s where
  "zero_moment = \<lparr>ntv_sec = 0, ntv_nsec = 0\<rparr>"

section \<open>Operations\<close>

definition moment_is_set :: "moment_s \<Rightarrow> bool" where
  "moment_is_set m = (0 < sint (ntv_sec m + c_div (ntv_nsec m) NANOS_PER_SECOND))"

text \<open>
  \<open>gettimeofday\<close> delivers \<open>tv_sec\<close> and \<open>tv_usec\<close>; \<open>utimes\<close> takes the same pair.
\<close>

definition moment_get_systime :: "u64 \<times> u64 \<Rightarrow> moment_s" where
  "moment_get_systime tv = \<lparr>ntv_sec = fst tv, ntv_nsec = snd tv * 1000\<rparr>"

definition moment_set_mtime :: "moment_s option \<Rightarrow> (u64 \<times> u64) option" where
  \<comment> \<open>the argument of \<open>utimes(path, tvp)\<close>, \<open>None\<close> for NULL (the current time)\<close>
  "moment_set_mtime mptr =
     (case mptr of Some m \<Rightarrow> Some (ntv_sec m, c_div (ntv_nsec m) 1000) | None \<Rightarrow> None)"

text \<open>
  The static \<open>roundoff\<close> is computed in the first call of \<open>moment_cmp\<close> from the property
  \<open>Shop.Time.Precision\<close>: \<open>(long)pow((double)10, (9 - precision))\<close>. A precision above 9
  makes it 0, and the division in that same call traps.
\<close>

definition moment_roundoff :: "u64 \<Rightarrow> u64 result" where
  "moment_roundoff precision =
     (let e = 9 - sint precision
      in if e < 0 then Inl (Fault ''division by zero'')
         else if 18 < e then Inl (Fault ''conversion out of range'')
         else Inr (10 ^ nat e))"

text \<open>\<open>moment_cmp\<close> with the roundoff initialised: the order and the delta.\<close>

definition moment_cmp :: "u64 \<Rightarrow> moment_s \<Rightarrow> moment_s \<Rightarrow> int \<times> moment_s" where
  "moment_cmp roundoff left right =
     (let l = ntv_sec left * NANOS_PER_SECOND + ntv_nsec left;
          r = ntv_sec right * NANOS_PER_SECOND + ntv_nsec right;
          d = l - r;
          delta = \<lparr>ntv_sec = c_div d NANOS_PER_SECOND, ntv_nsec = c_rem d NANOS_PER_SECOND\<rparr>;
          d' = (if roundoff \<noteq> - 1
                then (l div roundoff) * roundoff - (r div roundoff) * roundoff else d)
      in (if d' = 0 then 0 else if 1 < sint d' then 1 else - 1, delta))"

definition moment_since :: "u64 \<Rightarrow> u64 \<times> u64 \<Rightarrow> moment_s \<Rightarrow> int \<times> moment_s" where
  "moment_since roundoff tv since = moment_cmp roundoff (moment_get_systime tv) since"

definition moment_duration :: "u64 \<Rightarrow> moment_s \<Rightarrow> moment_s \<Rightarrow> u64" where
  "moment_duration roundoff ended started =
     (let delta = snd (moment_cmp roundoff ended started)
      in ntv_sec delta * MILLIS_PER_SECOND + c_div (ntv_nsec delta) NANOS_PER_MILLI)"

text \<open>
  \<open>moment_parse\<close> copies its argument into a buffer of \<open>MOMENT_BUFMAX\<close> bytes first. The
  pair is the return code and the moment stored.
\<close>

definition moment_parse :: "string \<Rightarrow> (int \<times> moment_s) result" where
  "moment_parse str =
     (if MOMENT_BUFMAX \<le> length str then Inl (Fault ''strcpy past mbuf'')
      else case split_at CHR ''.'' str of
        Some (sec, nsec) \<Rightarrow>
          Inr (0, \<lparr>ntv_sec = c_strtol CSV_RADIX sec, ntv_nsec = c_strtol CSV_RADIX nsec\<rparr>)
      | None \<Rightarrow> Inr (1, zero_moment))"

definition moment_format :: "moment_s \<Rightarrow> nat \<Rightarrow> string result" where
  "moment_format m bufmax =
     bindR (util_format_to_radix CSV_RADIX MOMENT_BUFMAX (ntv_sec m)) (\<lambda>secbuf.
     bindR (util_format_to_radix CSV_RADIX MOMENT_BUFMAX (ntv_nsec m)) (\<lambda>nsecbuf.
       Inr (snprintf bufmax (buf_string secbuf @ ''.'' @ buf_string nsecbuf))))"

definition fmt_03d :: "int \<Rightarrow> string" where
  \<comment> \<open>the conversion \<open>%03ld\<close>\<close>
  "fmt_03d i = (let s = fmt_d i in
     if i < 0 then CHR ''-'' # replicate (3 - length s) CHR ''0'' @ tl s
     else replicate (3 - length s) CHR ''0'' @ s)"

definition moment_format_milli :: "moment_s \<Rightarrow> nat \<Rightarrow> string" where
  "moment_format_milli m bufmax = snprintf bufmax
     (fmt_d (sint (ntv_sec m)) @ ''.'' @ fmt_03d (sint (c_div (ntv_nsec m) NANOS_PER_MILLI)))"

text \<open>The \<open>timespec\<close> that \<open>moment_millisleep\<close> hands to \<open>nanosleep\<close>.\<close>

definition moment_millisleep :: "u32 \<Rightarrow> u32 \<times> u32" where
  "moment_millisleep millis = (c_div millis 1000, c_rem millis 1000 * 1000000)"

section \<open>The value of a moment\<close>

definition ns :: "moment_s \<Rightarrow> int" where
  \<comment> \<open>nanoseconds since the epoch\<close>
  "ns m = sint (ntv_sec m) * 1000000000 + sint (ntv_nsec m)"

text \<open>
  The moments on which \<open>moment_cmp\<close> neither overflows a signed product nor wraps: from the
  epoch up to the year 2262.
\<close>

definition moment_ok :: "moment_s \<Rightarrow> bool" where
  "moment_ok m = (0 \<le> ns m \<and> ns m < 2 ^ 63)"

definition norm_moment :: "moment_s \<Rightarrow> bool" where
  \<comment> \<open>both fields are non-negative, as in every file time after the epoch\<close>
  "norm_moment m = (0 \<le> sint (ntv_sec m) \<and> 0 \<le> sint (ntv_nsec m))"

definition mword :: "moment_s \<Rightarrow> u64" where
  \<comment> \<open>the value \<open>moment_cmp\<close> computes for a moment\<close>
  "mword m = ntv_sec m * NANOS_PER_SECOND + ntv_nsec m"

lemma mword_ns: "mword m = word_of_int (ns m)"
  by (simp add: mword_def ns_def NANOS_PER_SECOND_def)

lemma uint_mword: "moment_ok m \<Longrightarrow> uint (mword m) = ns m"
  by (simp add: moment_ok_def uint_word_of_int mword_ns)

lemma mword_diff: "mword l - mword r = word_of_int (ns l - ns r)"
  by (simp add: mword_ns)

lemma sint_word_of_int_range:
  "- (2 ^ 63) \<le> i \<Longrightarrow> i < 2 ^ 63 \<Longrightarrow> sint (word_of_int i :: u64) = i"
  by (simp add: sint_sbintrunc' signed_take_bit_int_eq_self)

lemma sint_u64:
  "sint (v :: u64) = (if uint v < 2 ^ 63 then uint v else uint v - 2 ^ 64)"
proof (cases "uint v < 2 ^ 63")
  case True
  moreover have "0 \<le> uint v" by simp
  then have "- (2 ^ 63) \<le> uint v" by (rule order.trans [rotated]) simp
  ultimately show ?thesis using sint_word_of_int_range [of "uint v"] by simp
next
  case False
  have v: "word_of_int (uint v - 2 ^ 64) = v" by simp
  have "uint v < 2 ^ 64" using unsigned_less [of v] by simp
  with False have "sint (word_of_int (uint v - 2 ^ 64) :: u64) = uint v - 2 ^ 64"
    by (intro sint_word_of_int_range) simp_all
  with False show ?thesis by (simp only: v if_False)
qed

section \<open>Comparison\<close>

lemma moment_cmp_alt:
  "moment_cmp ro l r =
     (let d = mword l - mword r;
          d' = (if ro \<noteq> - 1 then (mword l div ro) * ro - (mword r div ro) * ro else d)
      in (if d' = 0 then 0 else if 1 < sint d' then 1 else - 1,
          \<lparr>ntv_sec = c_div d NANOS_PER_SECOND, ntv_nsec = c_rem d NANOS_PER_SECOND\<rparr>))"
  by (simp add: moment_cmp_def mword_def Let_def)

lemma rounded_word:
  assumes m: "moment_ok m"
  shows "(mword m div ro) * ro = word_of_int (ns m div uint ro * uint ro)"
proof -
  have "uint (mword m div ro) = ns m div uint ro"
    using uint_mword [OF m] by (simp add: uint_div_distrib)
  then have "mword m div ro = word_of_int (ns m div uint ro)"
    by (metis word_of_int_uint)
  then show ?thesis by simp
qed

lemma rounded_range:
  assumes "moment_ok m" and "0 < R"
  shows "0 \<le> ns m div R * R" and "ns m div R * R < 2 ^ 63"
proof -
  from assms show "0 \<le> ns m div R * R"
    by (simp add: moment_ok_def pos_imp_zdiv_nonneg_iff)
  have "ns m div R * R \<le> ns m"
    using assms by (metis div_mult_mod_eq le_add_same_cancel1 pos_mod_sign)
  with assms show "ns m div R * R < 2 ^ 63" by (simp add: moment_ok_def)
qed

lemma moment_cmp_rounded:
  assumes l: "moment_ok l" and r: "moment_ok r" and ro: "2 \<le> uint ro" "ro \<noteq> - 1"
  shows "fst (moment_cmp ro l r) = sgn (ns l div uint ro - ns r div uint ro)"
proof -
  let ?R = "uint ro"
  let ?D = "(ns l div ?R - ns r div ?R) * ?R"
  have pos: "0 < ?R" using ro by simp
  have eq: "(mword l div ro) * ro - (mword r div ro) * ro = word_of_int ?D"
    unfolding rounded_word [OF l] rounded_word [OF r] by (simp add: left_diff_distrib)
  have s: "sint (word_of_int ?D :: u64) = ?D"
    using rounded_range [OF l pos] rounded_range [OF r pos]
    by (intro sint_word_of_int_range) (simp_all add: left_diff_distrib)
  obtain W :: u64 where W: "word_of_int ?D = W" and sW: "sint W = ?D" using s by blast
  have z: "W = 0 \<longleftrightarrow> ?D = 0" using sW by (metis signed_0 signed_eq_0_iff)
  have big: "1 < ?D \<longleftrightarrow> 0 < ns l div ?R - ns r div ?R"
  proof
    assume "0 < ns l div ?R - ns r div ?R"
    then have "1 * 2 \<le> ?D" using ro by (intro mult_mono) simp_all
    then show "1 < ?D" by simp
  next
    assume "1 < ?D"
    then have "0 < ?D" by simp
    then show "0 < ns l div ?R - ns r div ?R" using pos by (simp add: zero_less_mult_iff)
  qed
  have "fst (moment_cmp ro l r) = (if W = 0 then 0 else if 1 < sint W then 1 else - 1)"
    using ro by (simp only: moment_cmp_alt Let_def eq W fst_conv simp_thms if_True)
  also have "\<dots> = (if ?D = 0 then 0 else if 1 < ?D then 1 else - 1)"
    by (simp only: z sW)
  also have "\<dots> = sgn (ns l div ?R - ns r div ?R)"
    using pos unfolding big by (simp add: sgn_if)
  finally show ?thesis .
qed

lemma moment_roundoff_Inr:
  assumes "moment_roundoff p = Inr ro" and "sint p \<le> 8"
  shows "ro \<noteq> - 1" and "2 \<le> uint ro" and "uint ro = 10 ^ nat (9 - sint p)"
proof -
  define e where "e = nat (9 - sint p)"
  from assms have e: "ro = 10 ^ e" "1 \<le> e" "e \<le> 18"
    by (auto simp: moment_roundoff_def Let_def e_def split: if_splits)
  have le: "(10 :: int) ^ e \<le> 10 ^ 18" using e by (intro power_increasing) simp_all
  have "(10 ^ e :: u64) = word_of_int (10 ^ e)" by simp
  then have "uint (10 ^ e :: u64) = 10 ^ e mod 2 ^ 64"
    by (simp only: uint_word_of_int) simp
  with le have u: "uint (10 ^ e :: u64) = 10 ^ e" by simp
  then show "uint ro = 10 ^ nat (9 - sint p)" using e by (simp add: e_def)
  have "(10 :: int) ^ 1 \<le> 10 ^ e" using e by (intro power_increasing) simp_all
  with u e show "2 \<le> uint ro" by simp
  have "uint (- 1 :: u64) = 2 ^ 64 - 1" by (simp add: unsigned_minus_1_eq_mask mask_eq_exp_minus_1)
  with le u e show "ro \<noteq> - 1" by auto
qed

text \<open>
  C39. For every setting of \<open>Shop.Time.Precision\<close> up to 8 digits, and moments between the
  epoch and 2262, \<open>moment_cmp\<close> is the three-way comparison of the two times cut to that many
  decimal digits of a second.
\<close>

theorem moment_cmp_order:
  assumes "moment_roundoff p = Inr ro" and "sint p \<le> 8" and "moment_ok l" and "moment_ok r"
  shows "fst (moment_cmp ro l r) =
    sgn (ns l div 10 ^ nat (9 - sint p) - ns r div 10 ^ nat (9 - sint p))"
  using moment_cmp_rounded moment_roundoff_Inr assms by metis

theorem moment_cmp_order_witness:
  "fst (moment_cmp 1000 \<lparr>ntv_sec = 5, ntv_nsec = 7999\<rparr> \<lparr>ntv_sec = 5, ntv_nsec = 7001\<rparr>) = 0"
  using moment_cmp_order [of 6 1000 "\<lparr>ntv_sec = 5, ntv_nsec = 7999\<rparr>" "\<lparr>ntv_sec = 5, ntv_nsec = 7001\<rparr>"]
  by (simp add: moment_roundoff_def moment_ok_def ns_def)

text \<open>
  With the full precision of 9 digits the comparison is not antisymmetric: a moment
  exactly one nanosecond later than another is reported as the earlier one.
\<close>

theorem moment_cmp_one_nanosecond:
  assumes "moment_ok l" and "moment_ok r" and "ns l = ns r + 1"
  shows "moment_roundoff 9 = Inr 1 \<and> fst (moment_cmp 1 l r) = - 1 \<and> fst (moment_cmp 1 r l) = - 1"
proof -
  have "mword l - mword r = 1" and "mword r - mword l = - 1"
    using assms(3) by (simp_all add: mword_ns)
  moreover from this have "mword l \<noteq> mword r" by auto
  ultimately show ?thesis
    by (simp add: moment_roundoff_def moment_cmp_alt Let_def)
qed

theorem moment_cmp_one_nanosecond_witness:
  "fst (moment_cmp 1 \<lparr>ntv_sec = 5, ntv_nsec = 8\<rparr> \<lparr>ntv_sec = 5, ntv_nsec = 7\<rparr>) = - 1"
  using moment_cmp_one_nanosecond [of "\<lparr>ntv_sec = 5, ntv_nsec = 8\<rparr>" "\<lparr>ntv_sec = 5, ntv_nsec = 7\<rparr>"]
  by (simp add: moment_ok_def ns_def)

section \<open>Durations\<close>

lemma delta_fields:
  assumes "moment_ok l" and "moment_ok r" and "ns r \<le> ns l"
  shows "ntv_sec (snd (moment_cmp ro l r)) = word_of_int ((ns l - ns r) div 1000000000)"
    and "ntv_nsec (snd (moment_cmp ro l r)) = word_of_int ((ns l - ns r) mod 1000000000)"
proof -
  have "sint (mword l - mword r) = ns l - ns r"
    unfolding mword_diff
    using assms by (intro sint_word_of_int_range) (simp_all add: moment_ok_def)
  then show "ntv_sec (snd (moment_cmp ro l r)) = word_of_int ((ns l - ns r) div 1000000000)"
    and "ntv_nsec (snd (moment_cmp ro l r)) = word_of_int ((ns l - ns r) mod 1000000000)"
    using assms(3)
    by (simp_all add: moment_cmp_alt Let_def c_div_def c_rem_def NANOS_PER_SECOND_def
        quot_rem_nonneg)
qed

text \<open>
  The duration of a command that ends no earlier than it starts is the elapsed time in
  whole milliseconds, whatever the comparison precision.
\<close>

theorem moment_duration_elapsed:
  assumes "moment_ok s" and "moment_ok e" and "ns s \<le> ns e"
  shows "uint (moment_duration ro e s) = (ns e - ns s) div 1000000"
proof -
  let ?d = "ns e - ns s"
  have d: "0 \<le> ?d" "?d < 2 ^ 63" using assms by (simp_all add: moment_ok_def)
  have "sint (word_of_int (?d mod 1000000000) :: u64) = ?d mod 1000000000"
    by (intro sint_word_of_int_range order.strict_trans [OF pos_mod_bound]
        order.trans [OF _ pos_mod_sign]) simp_all
  then have "moment_duration ro e s =
      word_of_int (?d div 1000000000 * 1000 + ?d mod 1000000000 div 1000000)"
    using assms by (simp add: moment_duration_def Let_def delta_fields c_div_def moment_consts
        quot_rem_nonneg)
  also have "?d div 1000000000 * 1000 + ?d mod 1000000000 div 1000000 = ?d div 1000000"
  proof -
    have "?d = ?d mod 1000000000 + (?d div 1000000000 * 1000) * 1000000" by simp
    then have "?d div 1000000 = (?d mod 1000000000 + (?d div 1000000000 * 1000) * 1000000) div 1000000"
      by (rule arg_cong)
    also have "\<dots> = ?d div 1000000000 * 1000 + ?d mod 1000000000 div 1000000"
      by (rule div_mult_self1) simp
    finally show ?thesis by (rule sym)
  qed
  finally have "uint (moment_duration ro e s) = (?d div 1000000) mod 2 ^ 64"
    by (simp add: uint_word_of_int)
  with d show ?thesis by simp
qed

theorem moment_duration_elapsed_witness:
  "uint (moment_duration 1000 \<lparr>ntv_sec = 7, ntv_nsec = 1000000\<rparr> \<lparr>ntv_sec = 5, ntv_nsec = 2000000\<rparr>) = 1999"
  using moment_duration_elapsed [of "\<lparr>ntv_sec = 5, ntv_nsec = 2000000\<rparr>" "\<lparr>ntv_sec = 7, ntv_nsec = 1000000\<rparr>" 1000]
  by (simp add: moment_ok_def ns_def)

section \<open>Formatting and parsing\<close>

definition moment_str :: "moment_s \<Rightarrow> string" where
  \<comment> \<open>the canonical text of a moment\<close>
  "moment_str m = nat_to_radix 36 (unat (ntv_sec m)) @ ''.'' @ nat_to_radix 36 (unat (ntv_nsec m))"

lemma moment_str_no_special [simp]:
  "nul \<notin> set (moment_str m)" "CHR '','' \<notin> set (moment_str m)" "newline \<notin> set (moment_str m)"
  using nat_to_radix_no_special [of 36]
  by (simp_all add: moment_str_def nul_def newline_def)

lemma length_moment_str: "length (moment_str m) \<le> 27"
  using length_radix36 [of "ntv_sec m"] length_radix36 [of "ntv_nsec m"]
  by (simp add: moment_str_def)

lemma format_csv_radix:
  "13 < len \<Longrightarrow> \<exists>buf. util_format_to_radix 36 len v = Inr buf \<and>
     buf_string buf = nat_to_radix 36 (unat v)"
  by (rule format_to_radix_fits) (use length_radix36 [of v] in simp_all)

lemma moment_format_str [simp]: "moment_format m MOMENT_BUFMAX = Inr (moment_str m)"
proof -
  obtain a where a: "util_format_to_radix 36 32 (ntv_sec m) = Inr a"
    "buf_string a = nat_to_radix 36 (unat (ntv_sec m))"
    using format_csv_radix [of 32] by auto
  obtain b where b: "util_format_to_radix 36 32 (ntv_nsec m) = Inr b"
    "buf_string b = nat_to_radix 36 (unat (ntv_nsec m))"
    using format_csv_radix [of 32] by auto
  have "snprintf 32 (moment_str m) = moment_str m"
    using length_moment_str [of m] by (simp add: snprintf_def)
  with a b show ?thesis by (simp add: moment_format_def moment_consts moment_str_def)
qed

lemma split_moment_str:
  "split_at CHR ''.'' (moment_str m) =
     Some (nat_to_radix 36 (unat (ntv_sec m)), nat_to_radix 36 (unat (ntv_nsec m)))"
  using split_at_append [OF nat_to_radix_no_special(4) [of 36 "unat (ntv_sec m)"]]
  by (simp add: moment_str_def)

lemma strtol_radix36:
  "c_strtol 36 (nat_to_radix 36 (unat (v :: u64))) = (if 0 \<le> sint v then v else of_nat (2 ^ 63 - 1))"
proof -
  have "0 \<le> sint v \<longleftrightarrow> \<not> 2 ^ 63 \<le> unat v"
  proof -
    obtain n where n: "unat v = n" "uint v = int n" by simp
    have "uint v < 2 ^ 64" using unsigned_less [of v] by simp
    then show ?thesis unfolding sint_u64 n by auto
  qed
  moreover have "c_strtol 36 (nat_to_radix 36 (unat v)) =
      (if 2 ^ 63 \<le> unat v then of_nat (2 ^ 63 - 1) else of_nat (unat v))"
    using c_strtol_nat_to_radix [of 36 "[]" "unat v"] by simp
  moreover have "of_nat (unat v) = v" by simp
  ultimately show ?thesis by (cases "2 ^ 63 \<le> unat v") (simp_all only: if_True if_False not_True_eq_False not_False_eq_True)
qed

lemma moment_parse_str:
  "moment_parse (moment_str m) = Inr (0,
     \<lparr>ntv_sec = (if 0 \<le> sint (ntv_sec m) then ntv_sec m else of_nat (2 ^ 63 - 1)),
      ntv_nsec = (if 0 \<le> sint (ntv_nsec m) then ntv_nsec m else of_nat (2 ^ 63 - 1))\<rparr>)"
  using length_moment_str [of m]
  by (simp add: moment_parse_def moment_consts split_moment_str strtol_radix36)

text \<open>
  Formatting a time at or after the epoch in the canonical form never overruns or
  truncates the \<open>MOMENT_BUFMAX\<close> buffers, and \<open>moment_parse\<close> reads the same moment back and
  reports success.
\<close>

theorem moment_roundtrip:
  assumes "norm_moment m"
  shows "bindR (moment_format m MOMENT_BUFMAX) moment_parse = Inr (0, m)"
  using assms by (simp add: moment_parse_str norm_moment_def)

theorem moment_roundtrip_witness:
  "bindR (moment_format \<lparr>ntv_sec = 1300000000, ntv_nsec = 123456789\<rparr> MOMENT_BUFMAX) moment_parse
     = Inr (0, \<lparr>ntv_sec = 1300000000, ntv_nsec = 123456789\<rparr>)"
  by (rule moment_roundtrip) (simp add: norm_moment_def)

text \<open>
  A time before the epoch does not survive the canonical form: its seconds are printed
  as an unsigned value and read back as the largest signed one, \<open>INT64_MAX\<close>.
\<close>

theorem moment_roundtrip_before_epoch:
  assumes "sint (ntv_sec m) < 0"
  shows "\<exists>n. bindR (moment_format m MOMENT_BUFMAX) moment_parse =
    Inr (0, \<lparr>ntv_sec = of_nat (2 ^ 63 - 1), ntv_nsec = n\<rparr>)"
  using assms by (simp add: moment_parse_str)

theorem moment_roundtrip_before_epoch_witness:
  "\<exists>n. bindR (moment_format \<lparr>ntv_sec = - 1, ntv_nsec = 0\<rparr> MOMENT_BUFMAX) moment_parse =
    Inr (0, \<lparr>ntv_sec = of_nat (2 ^ 63 - 1), ntv_nsec = n\<rparr>)"
  by (rule moment_roundtrip_before_epoch) simp

end
