(* ===== verification/Util.thy ===== *)
theory Util
  imports Radix
begin

text \<open>
  The string and I/O utilities of \<open>src/util.c\<close>: path comparison, quoting of an argument
  vector, case mapping and trimming, \<open>strsep\<close>, the minimal URL encoding and its inverse,
  parameter substitution, the string hash, the temp-file test and the loops that complete a
  partial \<open>send\<close>, \<open>read\<close> or \<open>write\<close>. The operating system's answers (the outcome of each
  system call, the current directory, the \<open>uname\<close> data) are arguments.
\<close>

section \<open>Comparison and case\<close>

definition util_pathcmp :: "string \<Rightarrow> string \<Rightarrow> int" where
  "util_pathcmp left right = c_strcmp left right"

definition util_strdown :: "string \<Rightarrow> string" where
  "util_strdown str = map (\<lambda>c. if isupper c then tolower c else c) str"

definition util_strup :: "string \<Rightarrow> string" where
  "util_strup str = map (\<lambda>c. if islower c then toupper c else c) str"

text \<open>
  On a string of white space only, the second loop of \<open>util_strtrim\<close> reads before the
  buffer.
\<close>

definition util_strtrim :: "string \<Rightarrow> string result" where
  "util_strtrim str =
     (let s = dropWhile isspace str
      in if s = [] then Inl (Fault ''read before the buffer'')
         else Inr (rev (dropWhile isspace (rev s))))"

section \<open>Quoting an argument vector\<close>

definition squote :: char where "squote = CHR 0x27"

definition plain_char :: "char \<Rightarrow> bool" where
  "plain_char c = (isalnum c \<or> c \<in> set ''!%+,-./=:@_'')"

text \<open>The scan of a word for the quote it needs; a single quote ends it.\<close>

fun pick_quote :: "char option \<Rightarrow> string \<Rightarrow> char option" where
  "pick_quote q [] = q"
| "pick_quote q (c # cs) =
     (if \<not> plain_char c then (if c = squote then Some dquote else pick_quote (Some squote) cs)
      else pick_quote q cs)"

definition word_quote :: "string \<Rightarrow> char option" where
  "word_quote word = (if word \<noteq> [] then pick_quote None word else Some dquote)"

fun copy_word :: "char option \<Rightarrow> string \<Rightarrow> string" where
  "copy_word quote [] = []"
| "copy_word quote (c # w) =
     (if quote = Some dquote then
        if c = backslash then
          if prefix_of [newline] w then copy_word quote w
          else backslash # c # copy_word quote w
        else if c \<in> {CHR ''$'', dquote, newline, CHR 0x60} then backslash # c # copy_word quote w
        else c # copy_word quote w
      else c # copy_word quote w)"

definition quoted_word :: "string \<Rightarrow> string" where
  "quoted_word word =
     (case word_quote word of
        Some q \<Rightarrow> q # copy_word (Some q) word @ [q]
      | None \<Rightarrow> copy_word None word)"

fun join_words :: "string list \<Rightarrow> string" where
  "join_words [] = []"
| "join_words [w] = quoted_word w"
| "join_words (w # v # ws) = quoted_word w @ '' '' @ join_words (v # ws)"

text \<open>An empty vector leaves the buffer unset before \<open>strlen\<close> is applied to it.\<close>

definition util_requote_argv :: "string list \<Rightarrow> string result" where
  "util_requote_argv argv =
     (if argv = [] then Inl (Fault ''strlen of an unset buffer'') else Inr (join_words argv))"

definition requote_bufsize :: "string list \<Rightarrow> nat" where
  \<comment> \<open>the size allocated for the result, \<open>cmdlen\<close>\<close>
  "requote_bufsize argv = sum_list (map (\<lambda>w. length w * 2 + 3) argv)"

section \<open>strsep and the minimal encoding\<close>

fun strsep_scan :: "string \<Rightarrow> string \<Rightarrow> string \<times> string option" where
  "strsep_scan delim [] = ([], None)"
| "strsep_scan delim (c # s) =
     (if c \<in> set delim then ([], Some s)
      else case strsep_scan delim s of (tok, rest) \<Rightarrow> (c # tok, rest))"

definition util_strsep :: "string option \<Rightarrow> string \<Rightarrow> (string \<times> string option) option" where
  \<comment> \<open>the token and the new value of \<open>*stringp\<close>; \<open>None\<close> when \<open>*stringp\<close> is NULL\<close>
  "util_strsep stringp delim =
     (case stringp of None \<Rightarrow> None | Some s \<Rightarrow> Some (strsep_scan delim s))"

definition hex_upper :: "nat \<Rightarrow> char" where
  "hex_upper d = ''0123456789ABCDEF'' ! d"

definition encode_char :: "char \<Rightarrow> string" where
  "encode_char c =
     (if c = CHR ''%'' \<or> c = CHR '','' \<or> c = newline
      then [CHR ''%'', hex_upper (ascii c div 16), hex_upper (ascii c mod 16)] else [c])"

definition util_encode_minimal :: "string \<Rightarrow> string" where
  "util_encode_minimal instring = concat (map encode_char instring)"

text \<open>
  The countdown is the number of characters still wanted. A length beyond the terminator
  reads outside the string.
\<close>

fun unescape_loop :: "nat \<Rightarrow> string \<Rightarrow> string result" where
  "unescape_loop 0 s = Inr []"
| "unescape_loop (Suc n) [] = (if n = 0 then Inr [nul] else Inl (Fault ''read past the string''))"
| "unescape_loop (Suc n) (c # s) =
     (if c = CHR ''%'' \<and> 2 \<le> length s \<and> isxdigit (s ! 0) \<and> isxdigit (s ! 1)
      then bindR (unescape_loop (n - 2) (drop 2 s))
        (\<lambda>ns. Inr (char_of (unat (c_strtol 16 (take 2 s))) # ns))
      else bindR (unescape_loop n s) (\<lambda>ns. Inr (c # ns)))"

definition util_unescape :: "string \<Rightarrow> nat \<Rightarrow> (string \<times> nat) result" where
  \<comment> \<open>the buffer and \<open>*olen\<close>\<close>
  "util_unescape s len =
     bindR (unescape_loop (if len \<noteq> 0 then len else length s) s) (\<lambda>ns. Inr (ns, length ns))"

section \<open>Parameter substitution\<close>

record subst_env =
  se_base_dir :: "string option"       \<comment> \<open>\<open>prop_get_str(P_BASE_DIR)\<close>\<close>
  se_project_name :: "string option"   \<comment> \<open>\<open>prop_get_str(P_PROJECT_NAME)\<close>\<close>
  se_logname :: "string option"        \<comment> \<open>\<open>util_get_logname()\<close>\<close>
  se_machine :: string                 \<comment> \<open>the fields of \<open>putil_uname\<close>\<close>
  se_nodename :: string
  se_release :: string
  se_sysname :: string

definition subst_replacement :: "subst_env \<Rightarrow> char \<Rightarrow> string option" where
  "subst_replacement env c =
     (if c = CHR ''%'' then Some ''%''
      else if c \<in> {CHR ''b'', CHR ''B''} then se_base_dir env
      else if c \<in> {CHR ''m'', CHR ''M''} then Some (se_machine env)
      else if c \<in> {CHR ''n'', CHR ''N''} then Some (se_nodename env)
      else if c \<in> {CHR ''p'', CHR ''P''} then se_project_name env
      else if c \<in> {CHR ''u'', CHR ''U''} then se_logname env
      else if c \<in> {CHR ''r'', CHR ''R''} then Some (se_release env)
      else if c \<in> {CHR ''s'', CHR ''S''} then Some (se_sysname env)
      else None)"

text \<open>A percent sign at the end of the input moves the index past the terminator.\<close>

fun subst_loop :: "subst_env \<Rightarrow> string \<Rightarrow> (string \<times> bool) result" where
  "subst_loop env [] = Inr ([], False)"
| "subst_loop env [c] = (if c = CHR ''%'' then Inl (Fault ''read past the input'') else Inr ([c], False))"
| "subst_loop env (c # d # s) =
     (if c = CHR ''%'' then
        (case subst_replacement env d of
           Some r \<Rightarrow> bindR (subst_loop env s) (\<lambda>(out, changed).
             if r \<noteq> ''%'' then Inr ((if isupper d then util_strup r else r) @ out, True)
             else Inr (r @ out, changed))
         | None \<Rightarrow> bindR (subst_loop env s) (\<lambda>(out, changed). Inr (CHR ''%'' # d # out, changed)))
      else bindR (subst_loop env (d # s)) (\<lambda>(out, changed). Inr (c # out, changed)))"

definition util_substitute_params :: "subst_env \<Rightarrow> string \<Rightarrow> (string \<times> bool) result" where
  "util_substitute_params env input = subst_loop env input"

section \<open>The string hash\<close>

definition randbox :: "u64 list" where
  "randbox =
    [0x49848f1b, 0xe6255dba, 0x36da5bdc, 0x47bf94e9,
     0x8cbcce22, 0x559fc06a, 0xd268f536, 0xe10af79a,
     0xc1af4d69, 0x1d2917b5, 0xec4c304d, 0x9ee5016c,
     0x69232f74, 0xfead7bb3, 0xe9089ab6, 0xf012f6ae]"

unbundle bit_operations_syntax

definition hash_char :: "char \<Rightarrow> u64 \<Rightarrow> u64" where
  \<comment> \<open>one iteration of the loop, for a non-zero character\<close>
  "hash_char c acc =
     (let ch = of_nat (ascii c);
          acc = acc XOR randbox ! unat ((ch + acc) AND 0xf);
          acc = push_bit 1 acc OR drop_bit 31 acc;
          acc = acc AND 0xffffffff;
          acc = acc XOR randbox ! unat ((drop_bit 4 ch + acc) AND 0xf);
          acc = push_bit 2 acc OR drop_bit 30 acc
      in acc AND 0xffffffff)"

definition util_hash_fun_default :: "string \<Rightarrow> u64" where
  "util_hash_fun_default key = foldl (\<lambda>acc c. hash_char c acc) 0 key"

section \<open>Temp files and directories\<close>

text \<open>
  The static \<open>basedir\<close> is set in the first call that finds the property \<open>Base.Dir\<close>; the
  local \<open>baselen\<close> is assigned in that call only. In every later call it has whatever value is
  in its place, the argument \<open>junk\<close>.
\<close>

definition util_is_tmp ::
  "nat \<Rightarrow> string option \<Rightarrow> string option \<Rightarrow> string \<Rightarrow> (bool \<times> string option) result" where
  "util_is_tmp junk basedir prop_base_dir path =
     (let tail = (if length path < 4 then None else Some (drop (length path - 4) path));
          test = (if has_substring ''/tmp/'' path then Inr True
                  else case tail of
                    None \<Rightarrow> Inl (Fault ''read before the path'')
                  | Some t \<Rightarrow> Inr (util_pathcmp t ''/tmp'' = 0 \<or> util_pathcmp t ''.tmp'' = 0));
          base = (case basedir of Some b \<Rightarrow> Some b | None \<Rightarrow> prop_base_dir);
          baselen = (case basedir of Some _ \<Rightarrow> junk | None \<Rightarrow> (case prop_base_dir of Some b \<Rightarrow> length b | None \<Rightarrow> junk))
      in case base of
           Some b \<Rightarrow> if strneq0 b path baselen then Inr (False, base) else bindR test (\<lambda>r. Inr (r, base))
         | None \<Rightarrow> bindR test (\<lambda>r. Inr (r, base)))"

definition util_get_rwd :: "string option \<Rightarrow> string option \<Rightarrow> string option" where
  \<comment> \<open>from \<open>util_get_cwd()\<close> and \<open>prop_get_str(P_BASE_DIR)\<close>\<close>
  "util_get_rwd cwd pbase =
     (case cwd of
        Some d \<Rightarrow> (case pbase of
          Some b \<Rightarrow> if strneq0 d b (length b)
            then Some (dropWhile (\<lambda>c. c = CHR ''/'' \<or> c = backslash) (drop (length b) d))
            else Some ''.''
        | None \<Rightarrow> Some ''.'')
      | None \<Rightarrow> None)"

definition util_get_umask :: "nat \<Rightarrow> nat \<Rightarrow> string" where
  \<comment> \<open>from the mask and the size of the buffer\<close>
  "util_get_umask tmask len = take (len - 1) (CHR ''0'' # nat_to_radix 8 (tmask mod 2 ^ 12))"

definition util_print_elapsed :: "int \<Rightarrow> int \<Rightarrow> int \<Rightarrow> string \<Rightarrow> string option" where
  \<comment> \<open>the line printed, from \<open>time(NULL)\<close> and the arguments\<close>
  "util_print_elapsed now since minimum msg =
     (let elapsed = now - since
      in if minimum \<noteq> 0 \<and> minimum \<le> elapsed then
           let hours = elapsed sdiv 3600; seconds = elapsed smod 60;
               minutes = (elapsed - hours * 3600 - seconds + 30) sdiv 60
           in Some (msg @ '': '' @ fmt_d hours @ ''h'' @ fmt_d minutes @ ''m'' @ fmt_d seconds @ ''s'')
         else None)"

text \<open>\<open>dirname\<close> and \<open>basename\<close> of the C library.\<close>

definition c_dirname :: "string \<Rightarrow> string" where
  "c_dirname path =
     (let strip = (\<lambda>s. dropWhile (\<lambda>c. c = CHR ''/'') s);
          r = strip (rev path);
          r = dropWhile (\<lambda>c. c \<noteq> CHR ''/'') r
      in if strip (rev path) = [] then (if path = [] then ''.'' else ''/'')
         else if r = [] then ''.''
         else if strip r = [] then ''/'' else rev (strip r))"

definition c_basename :: "string \<Rightarrow> string" where
  "c_basename path =
     (let r = dropWhile (\<lambda>c. c = CHR ''/'') (rev path)
      in if path = [] then ''.'' else if r = [] then ''/''
         else rev (takeWhile (\<lambda>c. c \<noteq> CHR ''/'') r))"

section \<open>Completing partial transfers\<close>

text \<open>
  The outcome of one system call: the number of bytes transferred, or -1 with an
  \<open>errno\<close>. The loops consume a list of outcomes; they return \<open>None\<close> while they still
  wait for one.
\<close>

datatype io = Done nat | Fail nat

definition EINTR :: nat where "EINTR = 4"
definition EAGAIN :: nat where "EAGAIN = 11"

text \<open>
  \<open>util_send_all\<close>: the pair is the return value and the bytes handed to the socket.
  \<open>total\<close> is a \<open>size_t\<close>, to which the -1 of an interrupted call is added.
\<close>

fun send_loop :: "io list \<Rightarrow> string \<Rightarrow> u64 \<Rightarrow> string \<Rightarrow> (u64 \<times> string) option" where
  "send_loop outs buf tot sent =
     (if tot < of_nat (length buf) then
        (case outs of
           [] \<Rightarrow> None
         | Fail e # os \<Rightarrow> if e \<noteq> EINTR then Some (- 1, sent) else send_loop os buf (tot - 1) sent
         | Done n # os \<Rightarrow> send_loop os buf (tot + of_nat n)
                            (sent @ take n (drop (unat tot) buf)))
      else Some (tot, sent))"

definition util_send_all :: "io list \<Rightarrow> string \<Rightarrow> (u64 \<times> string) option" where
  "util_send_all outs buf = send_loop outs buf 0 []"

text \<open>
  \<open>util_read_all\<close>: \<open>input\<close> is what the descriptor still delivers. The loop returns the
  number of bytes still missing (\<open>None\<close> for an error) and the bytes stored. A \<open>read\<close>
  transfers at most what was asked for.
\<close>

fun read_loop :: "io list \<Rightarrow> string \<Rightarrow> nat \<Rightarrow> string \<Rightarrow> (nat option \<times> string) option" where
  "read_loop outs input nleft got =
     (if 0 < nleft then
        (case outs of
           [] \<Rightarrow> None
         | Fail e # os \<Rightarrow> if e = EINTR then read_loop os input nleft got else Some (None, got)
         | Done n # os \<Rightarrow> if n = 0 then Some (Some nleft, got)
                          else read_loop os (drop n input) (nleft - n) (got @ take n input))
      else Some (Some nleft, got))"

definition util_read_all :: "io list \<Rightarrow> int \<Rightarrow> string \<Rightarrow> nat \<Rightarrow> (int \<times> string) option" where
  "util_read_all outs fd input n =
     (if fd < 0 then Some (- 1, [])
      else case read_loop outs input n [] of
        None \<Rightarrow> None
      | Some (None, got) \<Rightarrow> Some (- 1, got)
      | Some (Some nleft, got) \<Rightarrow> Some (int n - int nleft, got))"

text \<open>
  \<open>util_write_all\<close>: the update \<open>total += sofar\<close> of the inner loop runs only after a retry,
  when \<open>sofar\<close> is still 0; a successful \<open>write\<close> leaves the loop by \<open>break\<close>.
\<close>

fun write_loop :: "io list \<Rightarrow> string \<Rightarrow> int \<Rightarrow> string \<Rightarrow> (int \<times> string) option" where
  "write_loop outs p tot out =
     (if 0 < length p then
        (case outs of
           [] \<Rightarrow> None
         | Fail e # os \<Rightarrow> if e \<noteq> EAGAIN \<and> e \<noteq> EINTR then Some (- 1, out)
                          else write_loop os p (tot + 0) out
         | Done w # os \<Rightarrow> write_loop os (drop w p) tot (out @ take w p))
      else Some (tot, out))"

definition util_write_all :: "io list \<Rightarrow> string \<Rightarrow> (int \<times> string) option" where
  "util_write_all outs buf = write_loop outs buf 0 []"

declare send_loop.simps [simp del] read_loop.simps [simp del] write_loop.simps [simp del]

section \<open>Fields and encoding\<close>

lemma strsep_scan_last [simp]:
  "set x \<inter> set delim = {} \<Longrightarrow> strsep_scan delim x = (x, None)"
  by (induction x) auto

lemma strsep_scan_next [simp]:
  "set x \<inter> set delim = {} \<Longrightarrow> d \<in> set delim \<Longrightarrow> strsep_scan delim (x @ d # r) = (x, Some r)"
  by (induction x) auto

lemma encode_char_cases:
  "encode_char c = (if c = CHR ''%'' then ''%25'' else if c = CHR '','' then ''%2C''
     else if c = newline then ''%0A'' else [c])"
  by (simp add: encode_char_def hex_upper_def newline_def)

lemma encode_char_safe: "CHR '','' \<notin> set (encode_char c) \<and> newline \<notin> set (encode_char c)"
  by (simp add: encode_char_cases newline_def)

lemma encode_minimal_safe [simp]:
  "CHR '','' \<notin> set (util_encode_minimal s)" "newline \<notin> set (util_encode_minimal s)"
  using encode_char_safe by (auto simp: util_encode_minimal_def)

lemma encode_minimal_simps [simp]:
  "util_encode_minimal [] = []"
  "util_encode_minimal (c # s) = encode_char c @ util_encode_minimal s"
  by (simp_all add: util_encode_minimal_def)

lemma encode_minimal_Nil [simp]: "util_encode_minimal s = [] \<longleftrightarrow> s = []"
  by (cases s) (simp_all add: encode_char_cases)

lemma hex_pair [simp]:
  "c_strtol 16 ''25'' = 37" "c_strtol 16 ''2C'' = 44" "c_strtol 16 ''0A'' = 10"
  by (simp_all add: c_strtol_def scan_number_def skip_sign_def skip_0x_def digits_val_def
      is_digit_of_def digit_val_def ctype_defs)

lemma unescape_encode:
  "unescape_loop (length (util_encode_minimal s)) (util_encode_minimal s) = Inr s"
proof (induction s)
  case (Cons c s)
  have "isxdigit CHR ''2''" "isxdigit CHR ''5''" "isxdigit CHR ''C''" "isxdigit CHR ''0''"
    "isxdigit CHR ''A''"
    by (simp_all add: ctype_defs)
  moreover have "char_of (37 :: nat) = CHR ''%''" "char_of (44 :: nat) = CHR '',''"
    "char_of (10 :: nat) = newline"
    by (simp_all add: char_of_def bit_0 bit_Suc newline_def)
  ultimately show ?case using Cons by (simp add: encode_char_cases)
qed simp

text \<open>
  The minimal encoding removes every comma and newline, and \<open>util_unescape\<close> restores
  the original string and reports its length.
\<close>

theorem encode_unescape_roundtrip:
  "util_unescape (util_encode_minimal s) 0 = Inr (s, length s) \<and>
   CHR '','' \<notin> set (util_encode_minimal s) \<and> newline \<notin> set (util_encode_minimal s)"
  by (simp add: util_unescape_def unescape_encode)

section \<open>Quoting\<close>

text \<open>
  The specification of the quoting: how a POSIX shell splits a line without expansions into
  words. The mode is the quoting in force, the option the word read so far. Metacharacters
  outside quotes and expansions inside double quotes give \<open>None\<close>.
\<close>

datatype sh_mode = Unquoted | Single | Double

definition sh_add :: "char \<Rightarrow> string option \<Rightarrow> string option" where
  "sh_add c w = Some ((case w of None \<Rightarrow> [] | Some v \<Rightarrow> v) @ [c])"

definition sh_open :: "string option \<Rightarrow> string option" where
  "sh_open w = Some (case w of None \<Rightarrow> [] | Some v \<Rightarrow> v)"

fun sh_split :: "sh_mode \<Rightarrow> string option \<Rightarrow> string \<Rightarrow> string list option" where
  "sh_split Unquoted w [] = Some (case w of None \<Rightarrow> [] | Some v \<Rightarrow> [v])"
| "sh_split m w [] = None"
| "sh_split Unquoted w (c # s) =
     (if c = CHR '' '' then
        (case sh_split Unquoted None s of
           None \<Rightarrow> None
         | Some vs \<Rightarrow> Some ((case w of None \<Rightarrow> [] | Some v \<Rightarrow> [v]) @ vs))
      else if c = squote then sh_split Single (sh_open w) s
      else if c = dquote then sh_split Double (sh_open w) s
      else if plain_char c then sh_split Unquoted (sh_add c w) s
      else None)"
| "sh_split Single w (c # s) =
     (if c = squote then sh_split Unquoted w s else sh_split Single (sh_add c w) s)"
| "sh_split Double w (c # s) =
     (if c = dquote then sh_split Unquoted w s
      else if c = CHR ''$'' \<or> c = CHR 0x60 then None
      else if c = backslash then
        (case s of
           [] \<Rightarrow> None
         | d # t \<Rightarrow>
             if d = newline then sh_split Double w t
             else if d \<in> {CHR ''$'', CHR 0x60, dquote, backslash} then sh_split Double (sh_add d w) t
             else sh_split Double (sh_add c w) s)
      else sh_split Double (sh_add c w) s)"

lemma pick_quote_plain: "pick_quote None w = None \<Longrightarrow> list_all plain_char w"
proof -
  have q: "pick_quote (Some x) w \<noteq> None" for x w by (induction w arbitrary: x) auto
  show "pick_quote None w = None \<Longrightarrow> list_all plain_char w"
    by (induction w) (auto simp: q split: if_splits)
qed

lemma pick_quote_cases:
  "pick_quote q w \<in> {q, Some squote, Some dquote}"
  by (induction w arbitrary: q) (auto split: if_splits)

lemma pick_quote_single: "q \<noteq> Some dquote \<Longrightarrow> squote \<in> set w \<Longrightarrow> pick_quote q w = Some dquote"
  by (induction w arbitrary: q) (auto simp: squote_def dquote_def plain_char_def ctype_defs)

lemma copy_word_id [simp]: "q \<noteq> Some dquote \<Longrightarrow> copy_word q w = w"
  by (induction w) auto

definition word_ok :: "string \<Rightarrow> bool" where
  \<comment> \<open>the words the quoting can express\<close>
  "word_ok w = (\<not> (squote \<in> set w \<and> newline \<in> set w))"

lemma split_plain:
  "list_all plain_char w \<Longrightarrow> sh_split Unquoted (Some v) (w @ s) = sh_split Unquoted (Some (v @ w)) s"
proof (induction w arbitrary: v)
  case (Cons c w)
  have "c \<noteq> CHR '' ''" "c \<noteq> squote" "c \<noteq> dquote"
    using Cons.prems by (auto simp: plain_char_def ctype_defs squote_def dquote_def)
  with Cons show ?case by (simp add: sh_add_def)
qed simp

lemma split_single:
  "squote \<notin> set w \<Longrightarrow>
     sh_split Single (Some v) (w @ squote # s) = sh_split Unquoted (Some (v @ w)) s"
  by (induction w arbitrary: v) (auto simp: sh_add_def)

lemma split_double:
  "newline \<notin> set w \<Longrightarrow>
     sh_split Double (Some v) (copy_word (Some dquote) w @ dquote # s) =
     sh_split Unquoted (Some (v @ w)) s"
proof (induction w arbitrary: v)
  case (Cons c w)
  have "\<not> prefix_of [newline] w" using Cons.prems by (cases w) (auto simp: prefix_of_def)
  then show ?case
    using Cons by (auto simp: sh_add_def backslash_def dquote_def newline_def)
qed simp

lemma split_quoted_word:
  assumes "word_ok w"
  shows "sh_split Unquoted None (quoted_word w @ s) = sh_split Unquoted (Some w) s"
proof (cases "word_quote w")
  case None
  then have w: "w \<noteq> []" "list_all plain_char w"
    by (auto simp: word_quote_def pick_quote_plain split: if_splits)
  then obtain c t where ct: "w = c # t" by (cases w) auto
  have "c \<noteq> CHR '' ''" "c \<noteq> squote" "c \<noteq> dquote"
    using w ct by (auto simp: plain_char_def ctype_defs squote_def dquote_def)
  with None w ct show ?thesis by (simp add: quoted_word_def sh_add_def split_plain)
next
  case (Some q)
  have ne: "squote \<noteq> dquote" "squote \<noteq> CHR '' ''" "dquote \<noteq> CHR '' ''"
    by (simp_all add: squote_def dquote_def)
  have nodq: "squote \<notin> set w" if "q \<noteq> dquote"
    using Some that pick_quote_single [of None w] by (auto simp: word_quote_def split: if_splits)
  show ?thesis
  proof (cases "q = dquote")
    case True
    have "newline \<notin> set w"
    proof
      assume nl: "newline \<in> set w"
      with assms have "squote \<notin> set w" by (simp add: word_ok_def)
      moreover have "w \<noteq> []" using nl by auto
      moreover have "squote \<notin> set u \<Longrightarrow> r \<noteq> Some dquote \<Longrightarrow> pick_quote r u \<noteq> Some dquote" for u r
        by (induction u arbitrary: r) (auto simp: ne)
      ultimately show False using Some True by (simp add: word_quote_def)
    qed
    with Some True ne show ?thesis
      by (simp add: quoted_word_def sh_open_def split_double)
  next
    case False
    with Some have "q = squote"
      using pick_quote_cases [of None w] by (auto simp: word_quote_def split: if_splits)
    with Some False ne nodq show ?thesis
      by (simp add: quoted_word_def sh_open_def split_single)
  qed
qed

lemma split_join:
  "argv \<noteq> [] \<Longrightarrow> list_all word_ok argv \<Longrightarrow> sh_split Unquoted None (join_words argv) = Some argv"
proof (induction argv rule: join_words.induct)
  case (2 w)
  then show ?case using split_quoted_word [of w "[]"] by simp
next
  case (3 w v ws)
  then show ?case by (simp add: split_quoted_word)
qed simp

text \<open>
  C40. The line \<open>util_requote_argv\<close> builds is split by a shell into the original argument
  vector, whatever characters the words contain, as long as no single word has both a single
  quote and a newline.
\<close>

theorem requote_argv_splits_back:
  assumes "argv \<noteq> []" and "list_all word_ok argv"
  shows "\<exists>line. util_requote_argv argv = Inr line \<and> sh_split Unquoted None line = Some argv"
  using assms by (simp add: util_requote_argv_def split_join)

theorem requote_argv_splits_back_witness:
  "\<exists>line. util_requote_argv [''cc'', ''-DX=\"a b\"'', ''it$s'', [], [squote, CHR ''$'']] = Inr line \<and>
     sh_split Unquoted None line = Some [''cc'', ''-DX=\"a b\"'', ''it$s'', [], [squote, CHR ''$'']]"
  by (rule requote_argv_splits_back) (simp_all add: word_ok_def newline_def squote_def)

lemma length_copy_word: "length (copy_word q w) \<le> 2 * length w"
  by (induction w rule: copy_word.induct) auto

lemma length_quoted_word: "length (quoted_word w) \<le> 2 * length w + 2"
  using length_copy_word [of _ w] by (auto simp: quoted_word_def split: option.split)

text \<open>
  The worst-case size computed in advance is enough: the line and its terminator always
  fit the buffer that is allocated.
\<close>

theorem requote_argv_fits:
  assumes "util_requote_argv argv = Inr line"
  shows "length line + 1 \<le> requote_bufsize argv"
proof -
  have "argv \<noteq> [] \<Longrightarrow> length (join_words argv) + 1 \<le> requote_bufsize argv"
  proof (induction argv rule: join_words.induct)
    case (2 w)
    then show ?case using length_quoted_word [of w] by (simp add: requote_bufsize_def)
  next
    case (3 w v ws)
    then show ?case using length_quoted_word [of w] by (simp add: requote_bufsize_def)
  qed simp
  with assms show ?thesis by (simp add: util_requote_argv_def split: if_splits)
qed

theorem requote_argv_fits_witness:
  "length ''cc'' + 1 \<le> requote_bufsize [''cc'']"
  by (rule requote_argv_fits)
     (simp add: util_requote_argv_def quoted_word_def word_quote_def plain_char_def ctype_defs)

section \<open>The string hash on 32 bits\<close>

text \<open>
  The specification: the same hash on a 32-bit accumulator with rotations, which is what the
  shifts and masks of the 64-bit code are meant to compute.
\<close>

definition hash_char32 :: "char \<Rightarrow> u32 \<Rightarrow> u32" where
  "hash_char32 c acc =
     (let box = (\<lambda>i. ucast (randbox ! (i mod 16)));
          acc = word_rotl 1 (acc XOR box (ascii c + unat acc))
      in word_rotl 2 (acc XOR box (ascii c div 16 + unat acc)))"

definition hash32 :: "string \<Rightarrow> u32" where
  "hash32 key = foldl (\<lambda>acc c. hash_char32 c acc) 0 key"

lemma ascii_less: "ascii c < 256"
  by (simp add: of_char_def)

lemma rotl_bit:
  assumes "n < 32" "k < 32"
  shows "bit (word_rotl n (w :: u32)) k = bit w (if k < n then k + (32 - n) else k - n)"
proof -
  have "(k + (32 - n)) mod 32 = (if k < n then k + (32 - n) else k - n)"
  proof (cases "k < n")
    case True
    with assms show ?thesis by simp
  next
    case False
    then have "k + (32 - n) = (k - n) + 32" using assms by simp
    then show ?thesis using False assms by (simp only: mod_add_self2 if_False) simp
  qed
  then show ?thesis using assms by (simp add: bit_word_rotl_iff)
qed

lemma rotl_ucast:
  assumes "n < 32"
  shows "(push_bit n (ucast (w :: u32)) OR drop_bit (32 - n) (ucast w)) AND 0xffffffff
     = (ucast (word_rotl n w) :: u64)"
proof -
  have m: "(0xffffffff :: u64) = mask 32" by (simp add: mask_eq_exp_minus_1)
  have h: "k < 32" if "bit w k" for k using bit_imp_le_length [OF that] by simp
  show ?thesis
  proof (rule bit_word_eqI)
    fix k :: nat
    assume k: "k < LENGTH(64)"
    show "bit ((push_bit n (ucast w) OR drop_bit (32 - n) (ucast w)) AND 0xffffffff :: u64) k =
        bit (ucast (word_rotl n w) :: u64) k"
    proof (cases "k < 32")
      case True
      then show ?thesis using k assms h [of "k + (32 - n)"]
        unfolding m by (auto simp: bit_simps rotl_bit add.commute simp del: bit_word_rotl_iff)
    next
      case False
      then show ?thesis unfolding m by (simp add: bit_simps del: bit_word_rotl_iff) (auto dest: bit_imp_le_length)
    qed
  qed
qed

lemma low_nibble: "unat ((of_nat m + ucast (a :: u32)) AND 0xf :: u64) = (m + unat a) mod 16"
proof -
  have m: "(0xf :: u64) = mask 4" by (simp add: mask_eq_exp_minus_1)
  have a: "ucast a = (of_nat (unat a) :: u64)" by (simp add: word_eq_iff_unsigned)
  have "unat ((of_nat m + ucast a) AND 0xf :: u64) = unat (take_bit 4 (of_nat (m + unat a) :: u64))"
    unfolding m a by (simp only: take_bit_eq_mask of_nat_add)
  also have "\<dots> = unat (of_nat (m + unat a) :: u64) mod 16"
    by (simp only: unsigned_take_bit_eq) (simp add: take_bit_eq_mod)
  also have "\<dots> = (m + unat a) mod 2 ^ 64 mod 16"
    by (simp only: unat_of_nat) simp
  also have "\<dots> = (m + unat a) mod 16" by (rule mod_mod_cancel) simp
  finally show ?thesis .
qed

lemma high_nibble:
  assumes "n < 256"
  shows "drop_bit 4 (of_nat n :: u64) = of_nat (n div 16)"
proof -
  have "unat (drop_bit 4 (of_nat n :: u64)) = drop_bit 4 (unat (of_nat n :: u64))"
    by (simp add: unat_div_distrib drop_bit_eq_div)
  also have "\<dots> = unat (of_nat (n div 16) :: u64)"
    using assms by (simp add: unsigned_of_nat drop_bit_eq_div take_bit_nat_eq_self)
  finally show ?thesis by (simp only: word_unat_eq_iff)
qed

lemma randbox_ucast: "i < 16 \<Longrightarrow> ucast (ucast (randbox ! i) :: u32) = randbox ! i"
proof -
  have "\<forall>i \<in> set [0..<16]. ucast (ucast (randbox ! i) :: u32) = randbox ! i"
    by (simp add: upt_rec randbox_def)
  moreover assume "i < 16"
  ultimately show ?thesis by simp
qed

lemma hash_char_ucast: "hash_char c (ucast acc) = ucast (hash_char32 c acc)"
proof -
  let ?box = "\<lambda>i. ucast (randbox ! (i mod 16)) :: u32"
  have step: "ucast a XOR randbox ! unat ((of_nat m + ucast a) AND 0xf :: u64) =
      (ucast (a XOR ?box (m + unat a)) :: u64)" for a :: u32 and m :: nat
  proof -
    have "randbox ! ((m + unat a) mod 16) = ucast (?box (m + unat a))"
      by (rule sym) (rule randbox_ucast, simp)
    then show ?thesis unfolding low_nibble unsigned_xor_eq by (rule arg_cong)
  qed
  have d4: "drop_bit 4 (of_nat (ascii c) :: u64) = of_nat (ascii c div 16)"
    by (rule high_nibble) (use ascii_less [of c] in simp)
  have r1: "(push_bit 1 (ucast w) OR drop_bit 31 (ucast w)) AND 0xffffffff = (ucast (word_rotl 1 w) :: u64)"
    for w :: u32 using rotl_ucast [of 1 w] by simp
  have r2: "(push_bit 2 (ucast w) OR drop_bit 30 (ucast w)) AND 0xffffffff = (ucast (word_rotl 2 w) :: u64)"
    for w :: u32 using rotl_ucast [of 2 w] by simp
  show ?thesis
    unfolding hash_char_def hash_char32_def Let_def d4 step r1 r2 ..
qed

text \<open>
  The 64-bit arithmetic of \<open>util_hash_fun_default\<close> computes the 32-bit rotating hash, so
  the result is the same on every platform and below \<open>2^32\<close>.
\<close>

theorem hash_is_32_bit:
  "util_hash_fun_default key = ucast (hash32 key) \<and> uint (util_hash_fun_default key) < 2 ^ 32"
proof -
  have "foldl (\<lambda>acc c. hash_char c acc) (ucast a) key =
      ucast (foldl (\<lambda>acc c. hash_char32 c acc) a key)" for a
    by (induction key arbitrary: a) (simp_all add: hash_char_ucast)
  from this [of 0] have "util_hash_fun_default key = ucast (hash32 key)"
    by (simp add: util_hash_fun_default_def hash32_def)
  moreover have "uint (ucast (hash32 key) :: u64) < 2 ^ 32"
    using unsigned_less [of "hash32 key", where 'a = int] unsigned_greater_eq [of "hash32 key"]
    by (simp add: unsigned_ucast_eq take_bit_int_eq_self)
  ultimately show ?thesis by simp
qed

section \<open>Transfers\<close>

fun io_ok :: "io list \<Rightarrow> nat \<Rightarrow> bool" where
  \<comment> \<open>no call transfers more than it was asked to\<close>
  "io_ok [] n = True"
| "io_ok (Fail e # os) n = io_ok os n"
| "io_ok (Done k # os) n = (k \<le> n \<and> io_ok os (n - k))"

fun accepted :: "io list \<Rightarrow> nat" where
  \<comment> \<open>the bytes a list of outcomes transfers\<close>
  "accepted [] = 0"
| "accepted (Fail e # os) = accepted os"
| "accepted (Done k # os) = k + accepted os"

definition transient :: "io \<Rightarrow> bool" where
  "transient o1 = (case o1 of Done k \<Rightarrow> True | Fail e \<Rightarrow> e = EAGAIN \<or> e = EINTR)"

lemma write_loop_steps [simp]:
  "write_loop outs [] tot out = Some (tot, out)"
  "p \<noteq> [] \<Longrightarrow> write_loop [] p tot out = None"
  "p \<noteq> [] \<Longrightarrow> write_loop (Fail e # os) p tot out =
     (if e = EAGAIN \<or> e = EINTR then write_loop os p tot out else Some (- 1, out))"
  "p \<noteq> [] \<Longrightarrow> write_loop (Done w # os) p tot out = write_loop os (drop w p) tot (out @ take w p)"
  by (subst write_loop.simps; simp)+

lemma read_loop_steps [simp]:
  "read_loop outs input 0 got = Some (Some 0, got)"
  "0 < n \<Longrightarrow> read_loop [] input n got = None"
  "0 < n \<Longrightarrow> read_loop (Fail e # os) input n got =
     (if e = EINTR then read_loop os input n got else Some (None, got))"
  "0 < n \<Longrightarrow> read_loop (Done k # os) input n got =
     (if k = 0 then Some (Some n, got)
      else read_loop os (drop k input) (n - k) (got @ take k input))"
  by (subst read_loop.simps; simp)+

lemma send_loop_steps [simp]:
  "\<not> tot < of_nat (length buf) \<Longrightarrow> send_loop outs buf tot sent = Some (tot, sent)"
  "tot < of_nat (length buf) \<Longrightarrow> send_loop [] buf tot sent = None"
  "tot < of_nat (length buf) \<Longrightarrow> send_loop (Fail e # os) buf tot sent =
     (if e = EINTR then send_loop os buf (tot - 1) sent else Some (- 1, sent))"
  "tot < of_nat (length buf) \<Longrightarrow> send_loop (Done k # os) buf tot sent =
     send_loop os buf (tot + of_nat k) (sent @ take k (drop (unat tot) buf))"
  by (subst send_loop.simps; simp)+

lemma write_loop_returns:
  "list_all transient outs \<Longrightarrow> length p \<le> accepted outs \<Longrightarrow>
     write_loop outs p tot out = Some (tot, out @ p)"
proof (induction outs arbitrary: p out)
  case (Cons o1 outs)
  then show ?case by (cases "p = []"; cases o1) (auto simp: transient_def)
qed simp

text \<open>
  \<open>util_write_all\<close> gets past every interruption: as soon as the calls have accepted as
  many bytes as the buffer holds it returns, and then exactly the buffer has been written.
  The value it returns is 0, not the number of bytes written its contract announces.
\<close>

theorem write_all_delivers:
  assumes "list_all transient outs" and "length buf \<le> accepted outs"
  shows "util_write_all outs buf = Some (0, buf)"
  using write_loop_returns [OF assms] by (simp add: util_write_all_def)

theorem write_all_delivers_witness:
  "util_write_all [Done 2, Fail EINTR, Fail EAGAIN, Done 1, Done 7] ''hello'' = Some (0, ''hello'')"
  by (rule write_all_delivers) (simp_all add: transient_def EINTR_def EAGAIN_def)

lemma read_loop_result:
  "read_loop outs input nleft got = Some (Some left', got') \<Longrightarrow> io_ok outs nleft \<Longrightarrow>
     accepted outs \<le> length input \<Longrightarrow>
     left' \<le> nleft \<and> got' = got @ take (nleft - left') input \<and> nleft - left' \<le> length input \<and>
     (left' = 0 \<or> Done 0 \<in> set outs)"
proof (induction outs arbitrary: input nleft got)
  case Nil
  then show ?case by (cases "nleft = 0") auto
next
  case (Cons o1 outs)
  consider (stop) "nleft = 0" | (fail) e where "0 < nleft" "o1 = Fail e"
    | (eof) "0 < nleft" "o1 = Done 0" | (some) k where "0 < nleft" "0 < k" "o1 = Done k"
    by (cases o1) auto
  then show ?case
  proof cases
    case (some k)
    with Cons.prems Cons.IH [of "drop k input" "nleft - k" "got @ take k input"] have IH:
        "left' \<le> nleft - k" "got' = (got @ take k input) @ take (nleft - k - left') (drop k input)"
        "nleft - k - left' \<le> length input - k" "left' = 0 \<or> Done 0 \<in> set outs"
      by auto
    have eq: "nleft - left' = k + (nleft - k - left')"
    proof -
      have "k \<le> nleft" using Cons.prems some by simp
      with IH(1) show ?thesis by linarith
    qed
    then have "take (nleft - left') input = take k input @ take (nleft - k - left') (drop k input)"
      by (simp only: take_add)
    moreover have "nleft - left' \<le> length input"
    proof -
      have "k \<le> length input" using Cons.prems some by simp
      with IH(3) eq show ?thesis by linarith
    qed
    moreover have "left' \<le> nleft" using IH(1) by linarith
    ultimately show ?thesis using IH(2,4) by (simp del: take_append) auto
  qed (use Cons.prems Cons.IH [of input nleft got] in \<open>auto split: if_splits\<close>)
qed

text \<open>
  A count \<open>util_read_all\<close> returns is the number of bytes it stored, these are the next
  bytes of the input in order, and it is less than what was asked for only after an end of
  file.
\<close>

theorem read_all_result:
  assumes "util_read_all outs fd input n = Some (r, got)" and "r \<noteq> - 1"
    and "io_ok outs n" and "accepted outs \<le> length input"
  shows "r = int (length got) \<and> got = take (length got) input \<and>
    (length got = n \<or> Done 0 \<in> set outs)"
proof -
  from assms obtain left' where l: "read_loop outs input n [] = Some (Some left', got)"
    and r: "r = int n - int left'"
    by (auto simp: util_read_all_def split: if_splits option.splits)
  from read_loop_result [OF l assms(3,4)] have *:
    "left' \<le> n" "got = take (n - left') input" "n - left' \<le> length input"
    "left' = 0 \<or> Done 0 \<in> set outs" by auto
  then have "length got = n - left'" by simp
  with * r show ?thesis by auto
qed

theorem read_all_result_witness:
  "(4 :: int) = int (length ''abcd'') \<and> ''abcd'' = take (length ''abcd'') ''abcd'' \<and>
    (length ''abcd'' = 9 \<or> Done 0 \<in> set [Done 3, Fail EINTR, Done 1, Done 0])"
  by (rule read_all_result [of "[Done 3, Fail EINTR, Done 1, Done 0]" 3 "''abcd''" 9])
     (simp_all add: util_read_all_def read_loop.simps EINTR_def)

lemma send_loop_result:
  assumes "length buf < 2 ^ 63"
  shows "send_loop outs buf (of_nat t) (take t buf) = Some (r, sent) \<Longrightarrow> t \<le> length buf \<Longrightarrow>
     io_ok outs (length buf - t) \<Longrightarrow> Fail EINTR \<notin> set outs \<Longrightarrow>
     r = - 1 \<or> (r = of_nat (length buf) \<and> sent = buf)"
proof (induction outs arbitrary: t)
  case Nil
  have "of_nat t < (of_nat (length buf) :: u64) \<longleftrightarrow> t < length buf"
    using assms Nil.prems(2) by (simp add: word_less_nat_alt unat_of_nat)
  with Nil show ?case by (cases "t < length buf") auto
next
  case (Cons o1 outs)
  have lt: "of_nat t < (of_nat (length buf) :: u64) \<longleftrightarrow> t < length buf" and u: "unat (of_nat t :: u64) = t"
    using assms Cons.prems(2) by (simp_all add: word_less_nat_alt unat_of_nat)
  show ?case
  proof (cases "t < length buf")
    case True
    show ?thesis
    proof (cases o1)
      case (Done k)
      have "send_loop outs buf (of_nat (t + k)) (take (t + k) buf) = Some (r, sent)"
        using Cons.prems(1) lt u True Done by (simp add: take_add)
      moreover have "t + k \<le> length buf"
      proof -
        have "k \<le> length buf - t" using Cons.prems(3) Done by simp
        with Cons.prems(2) show ?thesis by linarith
      qed
      ultimately show ?thesis using Cons.IH [of "t + k"] Cons.prems Done by simp
    qed (use Cons lt True in \<open>auto split: if_splits\<close>)
  qed (use Cons lt in auto)
qed

text \<open>
  When no call is interrupted, \<open>util_send_all\<close> either fails or sends exactly the buffer
  and returns its length.
\<close>

theorem send_all_complete:
  assumes "length buf < 2 ^ 63" and "io_ok outs (length buf)" and "Fail EINTR \<notin> set outs"
    and "util_send_all outs buf = Some (r, sent)" and "r \<noteq> - 1"
  shows "r = of_nat (length buf) \<and> sent = buf"
  using send_loop_result [of buf outs 0 r sent] assms by (auto simp: util_send_all_def)

theorem send_all_complete_witness:
  "(5 :: u64) = of_nat (length ''hello'') \<and> ''hello'' = ''hello''"
  by (rule send_all_complete [of "''hello''" "[Done 2, Done 3]"]) (simp_all add: util_send_all_def)

text \<open>
  An interrupted \<open>send\<close> takes one byte off the count. Before the first byte the count
  wraps and the call fails with nothing sent; later the byte before the interruption is sent
  a second time, and the returned length hides it.
\<close>

theorem send_all_interrupted:
  assumes "0 < k" and "k < length buf" and "length buf < 2 ^ 63"
  shows "util_send_all (Fail EINTR # os) buf = Some (- 1, []) \<and>
    util_send_all [Done k, Fail EINTR, Done (length buf - k + 1)] buf =
      Some (of_nat (length buf), take k buf @ drop (k - 1) buf)"
proof -
  obtain j where k: "k = Suc j" using assms(1) by (cases k) auto
  let ?n = "of_nat (length buf) :: u64"
  have lts: "(0 :: u64) < ?n" "of_nat (Suc j) < ?n" "of_nat j < ?n" and u: "unat (of_nat j :: u64) = j"
    using assms k by (simp_all only: word_less_nat_alt unat_of_nat) auto
  have "\<not> (- 1 :: u64) < ?n" by (simp add: not_less)
  then have first: "util_send_all (Fail EINTR # os) buf = Some (- 1, [])"
    using lts by (simp add: util_send_all_def)
  have e: "of_nat j + of_nat (length buf - k + 1) = ?n"
    using assms k by (simp flip: of_nat_add)
  have j1: "of_nat (Suc j) - 1 = (of_nat j :: u64)" by simp
  have "util_send_all [Done k, Fail EINTR, Done (length buf - k + 1)] buf =
      send_loop [Fail EINTR, Done (length buf - k + 1)] buf (of_nat (Suc j)) (take k buf)"
    using lts(1) k by (simp add: util_send_all_def)
  also have "\<dots> = send_loop [Done (length buf - k + 1)] buf (of_nat j) (take k buf)"
    using send_loop_steps(3) [OF lts(2)] by (simp only: j1) simp
  also have "\<dots> = send_loop [] buf ?n (take k buf @ take (length buf - k + 1) (drop j buf))"
    by (simp only: send_loop_steps(4) [OF lts(3)] u e)
  also have "\<dots> = Some (?n, take k buf @ drop (k - 1) buf)" using assms k by simp
  finally show ?thesis using first by simp
qed

theorem send_all_interrupted_witness:
  "util_send_all [Done 2, Fail EINTR, Done 4] ''hello'' = Some (5, ''heello'')"
proof -
  have "length ''hello'' - 2 + 1 = 4" by simp
  then show ?thesis using send_all_interrupted [of 2 "''hello''" "[]"] by (simp only:) simp
qed

section \<open>Working directories and elapsed time\<close>

text \<open>
  Below the project base directory \<open>util_get_rwd\<close> is the path relative to it. The test
  is a bare string prefix: in a sibling directory whose name extends that of the base
  (\<open>/p/base\<close> and \<open>/p/base2/x\<close>) the rest of the name is taken for a relative directory.
\<close>

theorem get_rwd_relative:
  assumes "c \<noteq> CHR ''/''" and "c \<noteq> backslash"
  shows "util_get_rwd (Some (b @ ''/'' @ c # s)) (Some b) = Some (c # s) \<and>
    util_get_rwd (Some (b @ c # s)) (Some b) = Some (c # s)"
  using assms by (simp add: util_get_rwd_def strneq0_def)

theorem get_rwd_relative_witness:
  "util_get_rwd (Some ''/p/base/x'') (Some ''/p/base'') = Some ''x'' \<and>
   util_get_rwd (Some ''/p/base2/x'') (Some ''/p/base'') = Some ''2/x''"
  using get_rwd_relative [of "CHR ''x''" "''/p/base''" "[]"]
    get_rwd_relative [of "CHR ''2''" "''/p/base''" "''/x''"]
  by (simp add: backslash_def)

lemma elapsed_split:
  assumes "0 \<le> (e :: int)"
  shows "(e - e div 3600 * 3600 - e mod 60 + 30) div 60 = e mod 3600 div 60"
proof -
  have "e - e div 3600 * 3600 = e mod 3600" by (simp add: minus_div_mult_eq_mod)
  moreover have "e mod 3600 mod 60 = e mod 60" by (rule mod_mod_cancel) simp
  moreover have "e mod 3600 = e mod 3600 div 60 * 60 + e mod 3600 mod 60" by simp
  ultimately have "e - e div 3600 * 3600 - e mod 60 + 30 = 30 + e mod 3600 div 60 * 60" by linarith
  then show ?thesis by simp
qed

text \<open>
  The elapsed time printed is a decomposition of the number of seconds: the rounding term
  of the minutes never shows.
\<close>

theorem print_elapsed_decomposes:
  assumes "since \<le> now" and "minimum \<noteq> 0" and "minimum \<le> now - since"
  shows "\<exists>h m s. util_print_elapsed now since minimum msg =
      Some (msg @ '': '' @ fmt_d h @ ''h'' @ fmt_d m @ ''m'' @ fmt_d s @ ''s'') \<and>
    h * 3600 + m * 60 + s = now - since \<and> 0 \<le> m \<and> m < 60 \<and> 0 \<le> s \<and> s < 60"
proof -
  define e where "e = now - since"
  have e: "0 \<le> e" using assms by (simp add: e_def)
  then have "0 \<le> e - e div 3600 * 3600 - e mod 60 + 30"
  proof -
    have "e - e div 3600 * 3600 = e mod 3600" by (simp add: minus_div_mult_eq_mod)
    moreover have "e mod 60 = e mod 3600 mod 60" by (rule mod_mod_cancel [symmetric]) simp
    moreover have "e mod 3600 mod 60 \<le> e mod 3600" by (rule zmod_le_nonneg_dividend) simp
    ultimately show ?thesis by linarith
  qed
  then have out: "util_print_elapsed now since minimum msg = Some (msg @ '': '' @ fmt_d (e div 3600)
      @ ''h'' @ fmt_d (e mod 3600 div 60) @ ''m'' @ fmt_d (e mod 60) @ ''s'')"
    using assms e elapsed_split [OF e]
    by (simp add: util_print_elapsed_def Let_def quot_rem_nonneg flip: e_def)
  have "e mod 3600 mod 60 = e mod 60" by (rule mod_mod_cancel) simp
  moreover have "e mod 3600 = e mod 3600 div 60 * 60 + e mod 3600 mod 60" by simp
  moreover have "e = e div 3600 * 3600 + e mod 3600" by simp
  ultimately have "e div 3600 * 3600 + e mod 3600 div 60 * 60 + e mod 60 = e" by linarith
  moreover have "e mod 3600 div 60 < 60" using pos_mod_bound [of 3600 e] by (simp add: div_less_iff_less_mult)
  ultimately show ?thesis
    using out by (intro exI [of _ "e div 3600"] exI [of _ "e mod 3600 div 60"] exI [of _ "e mod 60"])
      (simp add: e_def pos_imp_zdiv_nonneg_iff)
qed

theorem print_elapsed_decomposes_witness:
  "\<exists>h m s. util_print_elapsed 3754 29 10 ''built in'' =
      Some (''built in'' @ '': '' @ fmt_d h @ ''h'' @ fmt_d m @ ''m'' @ fmt_d s @ ''s'') \<and>
    h * 3600 + m * 60 + s = 3754 - 29 \<and> 0 \<le> m \<and> m < 60 \<and> 0 \<le> s \<and> s < 60"
  by (rule print_elapsed_decomposes) simp_all

section \<open>Substitution\<close>

lemma subst_replacement_percent [simp]: "subst_replacement env CHR ''%'' = Some ''%''"
  by (simp add: subst_replacement_def)

text \<open>
  Doubling the percent signs of a text protects it: the substitution gives the text back
  and reports no change.
\<close>

theorem substitute_escaped:
  "util_substitute_params env (concat (map (\<lambda>c. if c = CHR ''%'' then ''%%'' else [c]) s)) = Inr (s, False)"
proof -
  let ?esc = "\<lambda>s. concat (map (\<lambda>c. if c = CHR ''%'' then ''%%'' else [c]) s)"
  have plain: "subst_loop env (c # t) = bindR (subst_loop env t) (\<lambda>(out, changed). Inr (c # out, changed))"
    if "c \<noteq> CHR ''%''" for c t
    using that by (cases t) simp_all
  have "subst_loop env (?esc s) = Inr (s, False)"
    by (induction s) (simp_all add: plain)
  then show ?thesis by (simp only: util_substitute_params_def)
qed

end
