(* ===== verification/PropTable.thy ===== *)
theory PropTable
  imports Prelude
begin

text \<open>
  The property table (\<open>proptab\<close> in \<open>src/prop.c\<close>) and the enumeration \<open>prop_e\<close> of
  \<open>src/PROP.h\<close>: the name, description, default, flags and padding of every property, with the
  defaults of the Unix build. The values, which change, are in the state of theory \<open>Prop\<close>.
\<close>

unbundle bit_operations_syntax

text \<open>The enumerators of \<open>prop_e\<close>; \<open>P_BADPROP\<close> (-1) is \<open>None\<close> of \<open>prop_e option\<close>.\<close>

datatype (plugins only: ) prop_e =
    P_APP | P_ABSOLUTE_PATHS | P_ACTIVATION_PROG_RE | P_AGGREGATED_SUBCMD
  | P_AGGREGATION_LINE_BREAK_RE | P_AGGREGATION_LINE_STRONG_RE | P_AGGREGATION_LINE_WEAK_RE | P_AGGREGATION_PROG_BREAK_RE
  | P_AGGREGATION_PROG_STRONG_RE | P_AGGREGATION_PROG_WEAK_RE | P_AGGREGATION_STYLE | P_AGGRESSIVE_SERVER
  | P_ALLOWED_WRITE_PATH_RE | P_AUDIT_IGNORE_PATH_RE | P_AUDIT_IGNORE_PROG_RE | P_AUDIT_ONLY
  | P_BASE_DIR | P_DCODE_ALL | P_DCODE_CACHE_SECS | P_DEPTH
  | P_DOC_PAGER | P_DOWNLOAD_ONLY | P_EXECUTE_ONLY | P_GIT
  | P_GIT_DIR | P_IDENTITY_HASH | P_LEAVE_ROADMAP | P_LOG_FILE
  | P_LOG_FILE_TEMP | P_LOG_TIME_STAMP | P_MAKE_DEPENDS | P_MAKE_FILE
  | P_MAKE_ONESHELL | P_MEMBERS_ONLY | P_MMAP_LARGER_THAN | P_MONITOR_LISTENERS
  | P_MONITOR_HOST | P_MONITOR_PLATFORM | P_MONITOR_PORT | P_MONITOR_TIMEOUT_SECS
  | P_NO_MONITOR | P_ORIGINAL_DATESTAMP | P_OUTPUT_FILE | P_PCCODE
  | P_PCMDID | P_PERL_CMD | P_PRINT_ELAPSED | P_PROGNAME
  | P_PROJECT_BASE_GLOB | P_PROJECT_NAME | P_PTX_STRATEGY | P_REUSE_ROADMAP
  | P_ROADMAPFILE | P_SERVER | P_SERVER_CONTEXT | P_SERVER_LOG_LEVEL
  | P_SESSIONID | P_SESSION_TIMEOUT_SECS | P_SHOP_IGNORE_PATH_RE | P_SHOP_TIME_PRECISION
  | P_STRICT | P_STRICT_AUDIT | P_STRICT_DOWNLOAD | P_STRICT_ERROR
  | P_STRICT_UPLOAD | P_SYNCHRONOUS_TRANSFERS | P_TRACK_ENV_RE | P_UNCOMPRESSED_TRANSFERS
  | P_UPLOAD_ONLY | P_UPLOAD_READS | P_VERBOSITY | P_WFLAG

definition prop_enum :: "prop_e list" where
  \<comment> \<open>the enumerators in the order of their integer values\<close>
  "prop_enum =
    [P_APP, P_ABSOLUTE_PATHS, P_ACTIVATION_PROG_RE, P_AGGREGATED_SUBCMD,
     P_AGGREGATION_LINE_BREAK_RE, P_AGGREGATION_LINE_STRONG_RE, P_AGGREGATION_LINE_WEAK_RE, P_AGGREGATION_PROG_BREAK_RE,
     P_AGGREGATION_PROG_STRONG_RE, P_AGGREGATION_PROG_WEAK_RE, P_AGGREGATION_STYLE, P_AGGRESSIVE_SERVER,
     P_ALLOWED_WRITE_PATH_RE, P_AUDIT_IGNORE_PATH_RE, P_AUDIT_IGNORE_PROG_RE, P_AUDIT_ONLY,
     P_BASE_DIR, P_DCODE_ALL, P_DCODE_CACHE_SECS, P_DEPTH,
     P_DOC_PAGER, P_DOWNLOAD_ONLY, P_EXECUTE_ONLY, P_GIT,
     P_GIT_DIR, P_IDENTITY_HASH, P_LEAVE_ROADMAP, P_LOG_FILE,
     P_LOG_FILE_TEMP, P_LOG_TIME_STAMP, P_MAKE_DEPENDS, P_MAKE_FILE,
     P_MAKE_ONESHELL, P_MEMBERS_ONLY, P_MMAP_LARGER_THAN, P_MONITOR_LISTENERS,
     P_MONITOR_HOST, P_MONITOR_PLATFORM, P_MONITOR_PORT, P_MONITOR_TIMEOUT_SECS,
     P_NO_MONITOR, P_ORIGINAL_DATESTAMP, P_OUTPUT_FILE, P_PCCODE,
     P_PCMDID, P_PERL_CMD, P_PRINT_ELAPSED, P_PROGNAME,
     P_PROJECT_BASE_GLOB, P_PROJECT_NAME, P_PTX_STRATEGY, P_REUSE_ROADMAP,
     P_ROADMAPFILE, P_SERVER, P_SERVER_CONTEXT, P_SERVER_LOG_LEVEL,
     P_SESSIONID, P_SESSION_TIMEOUT_SECS, P_SHOP_IGNORE_PATH_RE, P_SHOP_TIME_PRECISION,
     P_STRICT, P_STRICT_AUDIT, P_STRICT_DOWNLOAD, P_STRICT_ERROR,
     P_STRICT_UPLOAD, P_SYNCHRONOUS_TRANSFERS, P_TRACK_ENV_RE, P_UNCOMPRESSED_TRANSFERS,
     P_UPLOAD_ONLY, P_UPLOAD_READS, P_VERBOSITY, P_WFLAG]"

record prop_entry =
  pr_name :: string
  pr_desc :: "string option"
  pr_dflt :: "string option"
  pr_flags :: u32
  pr_pad :: int
  pr_index :: prop_e

definition PROP_FLAG_INTERNAL :: u32 where "PROP_FLAG_INTERNAL = 0"
definition PROP_FLAG_PRIVATE :: u32 where "PROP_FLAG_PRIVATE = PROP_FLAG_INTERNAL"
definition PROP_FLAG_PUBLIC :: u32 where "PROP_FLAG_PUBLIC = 1"
definition PROP_FLAG_EXPORT :: u32 where "PROP_FLAG_EXPORT = 2"

definition PROP_NULL :: string where "PROP_NULL = ''<NULL>''"
definition PROP_TRUE :: string where "PROP_TRUE = ''<TRUE>''"
definition PROP_FALSE :: string where "PROP_FALSE = ''<FALSE>''"
definition PROP_REQUIRED :: string where "PROP_REQUIRED = ''<REQUIRED>''"

lemmas prop_consts =
  PROP_FLAG_INTERNAL_def PROP_FLAG_PRIVATE_def PROP_FLAG_PUBLIC_def PROP_FLAG_EXPORT_def
  PROP_NULL_def PROP_TRUE_def PROP_FALSE_def PROP_REQUIRED_def

definition proptab_1 :: "prop_entry list" where
  "proptab_1 =
  [
   \<lparr>pr_name = ''APP'', pr_desc = Some ''Base name of the application'',
     pr_dflt = Some ''ao'', pr_flags = PROP_FLAG_INTERNAL, pr_pad = 0, pr_index = P_APP\<rparr>,
   \<lparr>pr_name = ''Absolute.Paths'', pr_desc = Some ''Show member paths as absolute'',
     pr_dflt = Some PROP_FALSE, pr_flags = PROP_FLAG_PUBLIC, pr_pad = 0, pr_index = P_ABSOLUTE_PATHS\<rparr>,
   \<lparr>pr_name = ''Activation.Prog.RE'', pr_desc = Some ''Regular expression describing programs which trigger an audit'',
     pr_dflt = None, pr_flags = (PROP_FLAG_PRIVATE OR PROP_FLAG_EXPORT), pr_pad = 0, pr_index = P_ACTIVATION_PROG_RE\<rparr>,
   \<lparr>pr_name = ''Aggregated.Subcmd'', pr_desc = Some ''Boolean - disable build avoidance within aggregated subcommands'',
     pr_dflt = Some PROP_FALSE, pr_flags = (PROP_FLAG_PRIVATE OR PROP_FLAG_EXPORT), pr_pad = 0, pr_index = P_AGGREGATED_SUBCMD\<rparr>,
   \<lparr>pr_name = ''Aggregation.Line.Break.RE'', pr_desc = Some ''Break-aggregation RE based on cmd line'',
     pr_dflt = None, pr_flags = PROP_FLAG_PUBLIC, pr_pad = 0, pr_index = P_AGGREGATION_LINE_BREAK_RE\<rparr>,
   \<lparr>pr_name = ''Aggregation.Line.Strong.RE'', pr_desc = Some ''Strong-aggregation RE based on cmd line'',
     pr_dflt = Some (''^(?:(?:/usr|/usr/xpg4)?/bin/)?[a-z]*sh'' @ [backslash] @ ''s+|libtool|^/'' @ [backslash] @ ''S*/perl'' @ [backslash] @ ''s+'' @ [backslash] @ ''S+gcc''), pr_flags = PROP_FLAG_PUBLIC, pr_pad = 0, pr_index = P_AGGREGATION_LINE_STRONG_RE\<rparr>,
   \<lparr>pr_name = ''Aggregation.Line.Weak.RE'', pr_desc = Some ''Weak-aggregation RE based on cmd line'',
     pr_dflt = None, pr_flags = PROP_FLAG_PUBLIC, pr_pad = 0, pr_index = P_AGGREGATION_LINE_WEAK_RE\<rparr>,
   \<lparr>pr_name = ''Aggregation.Prog.Break.RE'', pr_desc = Some ''Break-aggregation RE based on prog name'',
     pr_dflt = Some ''make$'', pr_flags = PROP_FLAG_PUBLIC, pr_pad = 0, pr_index = P_AGGREGATION_PROG_BREAK_RE\<rparr>,
   \<lparr>pr_name = ''Aggregation.Prog.Strong.RE'', pr_desc = Some ''Strong-aggregation RE based on prog name'',
     pr_dflt = Some (''('' @ [backslash] @ ''bcc|'' @ [backslash] @ ''bCC|gcc|gcc-.*|[cg][+]{2}|[cg][+]{2}-.*|ccache)$''), pr_flags = PROP_FLAG_PUBLIC, pr_pad = 0, pr_index = P_AGGREGATION_PROG_STRONG_RE\<rparr>,
   \<lparr>pr_name = ''Aggregation.Prog.Weak.RE'', pr_desc = Some ''Weak-aggregation RE based on prog name'',
     pr_dflt = Some ''java$'', pr_flags = PROP_FLAG_PUBLIC, pr_pad = 0, pr_index = P_AGGREGATION_PROG_WEAK_RE\<rparr>,
   \<lparr>pr_name = ''Aggregation.Style'', pr_desc = Some ''Whether to aggregate all, some, or none'',
     pr_dflt = None, pr_flags = PROP_FLAG_PRIVATE, pr_pad = 0, pr_index = P_AGGREGATION_STYLE\<rparr>,
   \<lparr>pr_name = ''Aggressive.Server'', pr_desc = Some ''Temporary hack to request aggressive server-side optimization'',
     pr_dflt = Some PROP_FALSE, pr_flags = PROP_FLAG_PRIVATE, pr_pad = 0, pr_index = P_AGGRESSIVE_SERVER\<rparr>,
   \<lparr>pr_name = ''Allowed.Write.Path.RE'', pr_desc = Some ''Regular expression specifying legal paths for write ops'',
     pr_dflt = None, pr_flags = (PROP_FLAG_PRIVATE OR PROP_FLAG_EXPORT), pr_pad = 0, pr_index = P_ALLOWED_WRITE_PATH_RE\<rparr>]"

definition proptab_2 :: "prop_entry list" where
  "proptab_2 =
  [
   \<lparr>pr_name = ''Audit.Ignore.Path.RE'', pr_desc = Some ''Regular expression matching pathnames to be completely ignored'',
     pr_dflt = Some (''/tmp'' @ [backslash] @ ''d+'' @ [backslash] @ ''b|/tmp/[^/]+$|'' @ [backslash] @ ''b('' @ [backslash] @ ''.bak|'' @ [backslash] @ ''.BAK)|'' @ [backslash] @ ''.cmake'' @ [backslash] @ ''.state$''), pr_flags = (PROP_FLAG_PUBLIC OR PROP_FLAG_EXPORT), pr_pad = 0, pr_index = P_AUDIT_IGNORE_PATH_RE\<rparr>,
   \<lparr>pr_name = ''Audit.Ignore.Prog.RE'', pr_desc = Some ''Regular expression matching programs to be completely ignored'',
     pr_dflt = None, pr_flags = (PROP_FLAG_PRIVATE OR PROP_FLAG_EXPORT), pr_pad = 0, pr_index = P_AUDIT_IGNORE_PROG_RE\<rparr>,
   \<lparr>pr_name = ''Audit.Only'', pr_desc = Some ''Audit file and command activity but do no uploads or downloads'',
     pr_dflt = Some PROP_FALSE, pr_flags = PROP_FLAG_PUBLIC, pr_pad = 0, pr_index = P_AUDIT_ONLY\<rparr>,
   \<lparr>pr_name = ''Base.Dir'', pr_desc = Some ''The root of this project tree'',
     pr_dflt = Some PROP_REQUIRED, pr_flags = (PROP_FLAG_PUBLIC OR PROP_FLAG_EXPORT), pr_pad = 0, pr_index = P_BASE_DIR\<rparr>,
   \<lparr>pr_name = ''Dcode.All'', pr_desc = Some ''Derive the data-code for all involved files'',
     pr_dflt = None, pr_flags = PROP_FLAG_PRIVATE, pr_pad = 0, pr_index = P_DCODE_ALL\<rparr>,
   \<lparr>pr_name = ''Dcode.Cache.Secs'', pr_desc = Some ''Timestamp offset from start time for dcode cache'',
     pr_dflt = Some ''-1'', pr_flags = PROP_FLAG_PRIVATE, pr_pad = 0, pr_index = P_DCODE_CACHE_SECS\<rparr>,
   \<lparr>pr_name = ''DEPTH'', pr_desc = Some ''Special modifiable EV carrying the cmd depth'',
     pr_dflt = None, pr_flags = (PROP_FLAG_INTERNAL OR PROP_FLAG_EXPORT), pr_pad = 10, pr_index = P_DEPTH\<rparr>,
   \<lparr>pr_name = ''Doc.Pager'', pr_desc = Some ''Pipe help output through specified pager'',
     pr_dflt = None, pr_flags = PROP_FLAG_PRIVATE, pr_pad = 0, pr_index = P_DOC_PAGER\<rparr>,
   \<lparr>pr_name = ''Download.Only'', pr_desc = Some ''Allow downloads but no uploads'',
     pr_dflt = None, pr_flags = PROP_FLAG_PUBLIC, pr_pad = 0, pr_index = P_DOWNLOAD_ONLY\<rparr>,
   \<lparr>pr_name = ''Execute.Only'', pr_desc = Some ''Suppress auditing and just run the command'',
     pr_dflt = Some PROP_FALSE, pr_flags = PROP_FLAG_PUBLIC, pr_pad = 0, pr_index = P_EXECUTE_ONLY\<rparr>,
   \<lparr>pr_name = ''Git'', pr_desc = Some ''Boolean - pass audit data to git'',
     pr_dflt = Some PROP_FALSE, pr_flags = PROP_FLAG_PRIVATE, pr_pad = 0, pr_index = P_GIT\<rparr>,
   \<lparr>pr_name = ''Git.Dir'', pr_desc = Some ''The location of an optional Git repository'',
     pr_dflt = None, pr_flags = (PROP_FLAG_PRIVATE OR PROP_FLAG_EXPORT), pr_pad = 0, pr_index = P_GIT_DIR\<rparr>,
   \<lparr>pr_name = ''Identity.Hash'', pr_desc = Some ''Name of identity hash (CRC, SHA1, GIT)'',
     pr_dflt = Some ''GIT'', pr_flags = (PROP_FLAG_PRIVATE OR PROP_FLAG_EXPORT), pr_pad = 0, pr_index = P_IDENTITY_HASH\<rparr>,
   \<lparr>pr_name = ''Leave.Roadmap'', pr_desc = Some ''Boolean - don't unlink roadmap file when done'',
     pr_dflt = Some PROP_FALSE, pr_flags = PROP_FLAG_PRIVATE, pr_pad = 0, pr_index = P_LEAVE_ROADMAP\<rparr>,
   \<lparr>pr_name = ''Log.File'', pr_desc = Some ''Path for automatically generated logfile'',
     pr_dflt = None, pr_flags = PROP_FLAG_PUBLIC, pr_pad = 0, pr_index = P_LOG_FILE\<rparr>]"

definition proptab_3 :: "prop_entry list" where
  "proptab_3 =
  [
   \<lparr>pr_name = ''Log.File.Temp'', pr_desc = Some ''Log to a temp file, uploaded and removed'',
     pr_dflt = Some PROP_FALSE, pr_flags = PROP_FLAG_PUBLIC, pr_pad = 0, pr_index = P_LOG_FILE_TEMP\<rparr>,
   \<lparr>pr_name = ''Log.Time.Stamp'', pr_desc = Some ''Prepend a timestamp to each line of logfile'',
     pr_dflt = Some PROP_FALSE, pr_flags = PROP_FLAG_PUBLIC, pr_pad = 0, pr_index = P_LOG_TIME_STAMP\<rparr>,
   \<lparr>pr_name = ''Make.Depends'', pr_desc = Some ''Dump makefile dependency info to .d files'',
     pr_dflt = None, pr_flags = PROP_FLAG_PUBLIC, pr_pad = 0, pr_index = P_MAKE_DEPENDS\<rparr>,
   \<lparr>pr_name = ''Make.File'', pr_desc = Some ''Generate a Makefile in the named file'',
     pr_dflt = None, pr_flags = PROP_FLAG_PUBLIC, pr_pad = 0, pr_index = P_MAKE_FILE\<rparr>,
   \<lparr>pr_name = ''Make.OneShell'', pr_desc = Some ''Ask make to use a single shell for each recipe'',
     pr_dflt = Some PROP_FALSE, pr_flags = PROP_FLAG_PRIVATE, pr_pad = 0, pr_index = P_MAKE_ONESHELL\<rparr>,
   \<lparr>pr_name = ''Members.Only'', pr_desc = Some ''Show and consider only project member files'',
     pr_dflt = Some PROP_FALSE, pr_flags = PROP_FLAG_PUBLIC, pr_pad = 0, pr_index = P_MEMBERS_ONLY\<rparr>,
   \<lparr>pr_name = ''MMap.Larger.Than'', pr_desc = Some ''Use memory mapping to read files larger than this size'',
     pr_dflt = Some ''32768'', pr_flags = PROP_FLAG_PRIVATE, pr_pad = 0, pr_index = P_MMAP_LARGER_THAN\<rparr>,
   \<lparr>pr_name = ''Monitor.Listeners'', pr_desc = Some ''Number of ports on which to listen for audit deliveries'',
     pr_dflt = Some ''3'', pr_flags = PROP_FLAG_PRIVATE, pr_pad = 0, pr_index = P_MONITOR_LISTENERS\<rparr>,
   \<lparr>pr_name = ''Monitor.Host'', pr_desc = Some ''Host on which monitor is running for audit delivery connections'',
     pr_dflt = Some ''127.0.0.1'', pr_flags = (PROP_FLAG_PRIVATE OR PROP_FLAG_EXPORT), pr_pad = 0, pr_index = P_MONITOR_HOST\<rparr>,
   \<lparr>pr_name = ''Monitor.Platform'', pr_desc = Some ''Type of client platform: Unix, Windows, Cygwin, ...'',
     pr_dflt = Some ''u'', pr_flags = PROP_FLAG_PRIVATE, pr_pad = 0, pr_index = P_MONITOR_PLATFORM\<rparr>,
   \<lparr>pr_name = ''Monitor.Port'', pr_desc = Some ''Port(s) on which monitor listens for audit delivery connections'',
     pr_dflt = None, pr_flags = (PROP_FLAG_PRIVATE OR PROP_FLAG_EXPORT), pr_pad = 0, pr_index = P_MONITOR_PORT\<rparr>,
   \<lparr>pr_name = ''Monitor.Timeout.Secs'', pr_desc = Some ''How often to check health of audited process, in seconds'',
     pr_dflt = Some ''30'', pr_flags = PROP_FLAG_PRIVATE, pr_pad = 0, pr_index = P_MONITOR_TIMEOUT_SECS\<rparr>,
   \<lparr>pr_name = ''NO.MONITOR'', pr_desc = Some ''Boolean - dump truly raw audit data without aggregation'',
     pr_dflt = Some PROP_FALSE, pr_flags = (PROP_FLAG_INTERNAL OR PROP_FLAG_EXPORT), pr_pad = 0, pr_index = P_NO_MONITOR\<rparr>,
   \<lparr>pr_name = ''Original.Datestamp'', pr_desc = Some ''Boolean - set mod time of downloaded files back to uploaded time'',
     pr_dflt = Some ''1'', pr_flags = (PROP_FLAG_PRIVATE OR PROP_FLAG_EXPORT), pr_pad = 0, pr_index = P_ORIGINAL_DATESTAMP\<rparr>,
   \<lparr>pr_name = ''Output.File'', pr_desc = Some ''Dump output data to specified file'',
     pr_dflt = None, pr_flags = (PROP_FLAG_PUBLIC OR PROP_FLAG_EXPORT), pr_pad = 0, pr_index = P_OUTPUT_FILE\<rparr>,
   \<lparr>pr_name = ''PCCODE'', pr_desc = Some ''Special modifiable EV holding the parent cmd code'',
     pr_dflt = None, pr_flags = (PROP_FLAG_INTERNAL OR PROP_FLAG_EXPORT), pr_pad = 64, pr_index = P_PCCODE\<rparr>]"

definition proptab_4 :: "prop_entry list" where
  "proptab_4 =
  [
   \<lparr>pr_name = ''PCMDID'', pr_desc = Some ''Special modifiable EV holding the parent pid'',
     pr_dflt = None, pr_flags = (PROP_FLAG_INTERNAL OR PROP_FLAG_EXPORT), pr_pad = 10, pr_index = P_PCMDID\<rparr>,
   \<lparr>pr_name = ''Perl.Cmd'', pr_desc = Some ''Name of or path to the preferred Perl binary'',
     pr_dflt = Some ''perl'', pr_flags = PROP_FLAG_PRIVATE, pr_pad = 0, pr_index = P_PERL_CMD\<rparr>,
   \<lparr>pr_name = ''Print.Elapsed'', pr_desc = Some ''Print the elapsed wall-clock time at exit'',
     pr_dflt = None, pr_flags = PROP_FLAG_PUBLIC, pr_pad = 0, pr_index = P_PRINT_ELAPSED\<rparr>,
   \<lparr>pr_name = ''PROGNAME'', pr_desc = Some ''Name of the running program (best guess)'',
     pr_dflt = None, pr_flags = PROP_FLAG_INTERNAL, pr_pad = 0, pr_index = P_PROGNAME\<rparr>,
   \<lparr>pr_name = ''Project.Base.GLOB'', pr_desc = Some ''Pattern matching base dir of project'',
     pr_dflt = None, pr_flags = PROP_FLAG_PRIVATE, pr_pad = 0, pr_index = P_PROJECT_BASE_GLOB\<rparr>,
   \<lparr>pr_name = ''Project.Name'', pr_desc = Some ''Assign a name to this project'',
     pr_dflt = None, pr_flags = (PROP_FLAG_PUBLIC OR PROP_FLAG_EXPORT), pr_pad = 0, pr_index = P_PROJECT_NAME\<rparr>,
   \<lparr>pr_name = ''PTX.Strategy'', pr_desc = Some ''Selection criteria for downloadable PTXes'',
     pr_dflt = Some ''30,-1,10,10'', pr_flags = PROP_FLAG_PUBLIC, pr_pad = 0, pr_index = P_PTX_STRATEGY\<rparr>,
   \<lparr>pr_name = ''Reuse.Roadmap'', pr_desc = Some ''Boolean - use the pre-existing roadmap (debugging use only)'',
     pr_dflt = Some PROP_FALSE, pr_flags = PROP_FLAG_PRIVATE, pr_pad = 0, pr_index = P_REUSE_ROADMAP\<rparr>,
   \<lparr>pr_name = ''Roadmap.File'', pr_desc = Some ''Path to the file containing the CA/PS/PTX database'',
     pr_dflt = None, pr_flags = PROP_FLAG_PRIVATE, pr_pad = 0, pr_index = P_ROADMAPFILE\<rparr>,
   \<lparr>pr_name = ''Server'', pr_desc = Some ''Name of server in <host>:<port> format'',
     pr_dflt = None, pr_flags = PROP_FLAG_PUBLIC, pr_pad = 0, pr_index = P_SERVER\<rparr>,
   \<lparr>pr_name = ''SERVER.CONTEXT'', pr_desc = Some ''The webapp 'context' string'',
     pr_dflt = Some ''AO'', pr_flags = PROP_FLAG_INTERNAL, pr_pad = 0, pr_index = P_SERVER_CONTEXT\<rparr>,
   \<lparr>pr_name = ''Server.Log.Level'', pr_desc = Some ''Server-side log4j level (OFF, ALL, DEBUG, ...)'',
     pr_dflt = None, pr_flags = PROP_FLAG_PRIVATE, pr_pad = 0, pr_index = P_SERVER_LOG_LEVEL\<rparr>,
   \<lparr>pr_name = ''SESSIONID'', pr_desc = Some ''The HTTP session id cookie value received from the server'',
     pr_dflt = None, pr_flags = PROP_FLAG_INTERNAL, pr_pad = 0, pr_index = P_SESSIONID\<rparr>,
   \<lparr>pr_name = ''Session.Timeout.Secs'', pr_desc = Some ''The HTTP session timeout used during a build, in seconds'',
     pr_dflt = Some ''0'', pr_flags = PROP_FLAG_PRIVATE, pr_pad = 0, pr_index = P_SESSION_TIMEOUT_SECS\<rparr>,
   \<lparr>pr_name = ''Shop.Ignore.Path.RE'', pr_desc = Some ''Regular expression matching pathnames to ignore when shopping'',
     pr_dflt = None, pr_flags = PROP_FLAG_PUBLIC, pr_pad = 0, pr_index = P_SHOP_IGNORE_PATH_RE\<rparr>]"

definition proptab_5 :: "prop_entry list" where
  "proptab_5 =
  [
   \<lparr>pr_name = ''Shop.Time.Precision'', pr_desc = Some ''Number of decimal digits to consider in timestamp comparisons'',
     pr_dflt = Some ''6'', pr_flags = PROP_FLAG_PRIVATE, pr_pad = 0, pr_index = P_SHOP_TIME_PRECISION\<rparr>,
   \<lparr>pr_name = ''Strict'', pr_desc = Some ''A shorthand for all strict options'',
     pr_dflt = Some PROP_FALSE, pr_flags = PROP_FLAG_PRIVATE, pr_pad = 0, pr_index = P_STRICT\<rparr>,
   \<lparr>pr_name = ''Strict.Audit'', pr_desc = Some ''Abort if any command cannot be audited'',
     pr_dflt = None, pr_flags = PROP_FLAG_PRIVATE, pr_pad = 0, pr_index = P_STRICT_AUDIT\<rparr>,
   \<lparr>pr_name = ''Strict.Download'', pr_desc = Some ''Abort if any audited objects cannot be downloaded'',
     pr_dflt = None, pr_flags = PROP_FLAG_PRIVATE, pr_pad = 0, pr_index = P_STRICT_DOWNLOAD\<rparr>,
   \<lparr>pr_name = ''Strict.Error'', pr_desc = Some ''Abort after any error message'',
     pr_dflt = None, pr_flags = PROP_FLAG_PRIVATE, pr_pad = 0, pr_index = P_STRICT_ERROR\<rparr>,
   \<lparr>pr_name = ''Strict.Upload'', pr_desc = Some ''Abort if any audited objects cannot be uploaded'',
     pr_dflt = None, pr_flags = PROP_FLAG_PRIVATE, pr_pad = 0, pr_index = P_STRICT_UPLOAD\<rparr>,
   \<lparr>pr_name = ''Synchronous.Transfers'', pr_desc = Some ''Upload files in the foreground, for debugging'',
     pr_dflt = Some PROP_FALSE, pr_flags = PROP_FLAG_PUBLIC, pr_pad = 0, pr_index = P_SYNCHRONOUS_TRANSFERS\<rparr>,
   \<lparr>pr_name = ''Track.Env.RE'', pr_desc = Some ''Regular expression matching environment variables to show in audit'',
     pr_dflt = None, pr_flags = (PROP_FLAG_PRIVATE OR PROP_FLAG_EXPORT), pr_pad = 0, pr_index = P_TRACK_ENV_RE\<rparr>,
   \<lparr>pr_name = ''Uncompressed.Transfers'', pr_desc = Some ''Boolean - handle compression/decompression on server'',
     pr_dflt = Some PROP_FALSE, pr_flags = PROP_FLAG_PRIVATE, pr_pad = 0, pr_index = P_UNCOMPRESSED_TRANSFERS\<rparr>,
   \<lparr>pr_name = ''Upload.Only'', pr_desc = Some ''Disable downloads and build avoidance'',
     pr_dflt = Some PROP_FALSE, pr_flags = PROP_FLAG_PUBLIC, pr_pad = 0, pr_index = P_UPLOAD_ONLY\<rparr>,
   \<lparr>pr_name = ''Upload.Reads'', pr_desc = Some ''Boolean - upload files read as well as written'',
     pr_dflt = Some PROP_FALSE, pr_flags = PROP_FLAG_PUBLIC, pr_pad = 0, pr_index = P_UPLOAD_READS\<rparr>,
   \<lparr>pr_name = ''Verbosity'', pr_desc = Some ''Set verbosity flags'',
     pr_dflt = Some ''STD'', pr_flags = (PROP_FLAG_PUBLIC OR PROP_FLAG_EXPORT), pr_pad = 0, pr_index = P_VERBOSITY\<rparr>,
   \<lparr>pr_name = ''WFlag'', pr_desc = Some ''Extension flags directed to subsystems'',
     pr_dflt = None, pr_flags = PROP_FLAG_PRIVATE, pr_pad = 0, pr_index = P_WFLAG\<rparr>]"

definition proptab :: "prop_entry list" where
  "proptab = proptab_1 @ proptab_2 @ proptab_3 @ proptab_4 @ proptab_5"

lemmas proptab_defs = proptab_def proptab_1_def proptab_2_def proptab_3_def proptab_4_def proptab_5_def prop_consts

section \<open>Facts about the table\<close>

lemma proptab_order: "map pr_index proptab = prop_enum"
  by (simp add: proptab_defs prop_enum_def)

lemma prop_enum_all: "p \<in> set prop_enum"
  by (cases p) (simp_all add: prop_enum_def)

definition name_ok :: "string \<Rightarrow> bool" where
  \<comment> \<open>what the parser of properties files and the environment rely on\<close>
  "name_ok n = (CHR ''_'' \<notin> set n \<and> CHR ''='' \<notin> set n \<and> CHR '':'' \<notin> set n \<and> list_all (\<lambda>c. \<not> isspace c) n
     \<and> backslash \<notin> set n \<and> n \<noteq> [] \<and> hd n \<noteq> CHR ''#'' \<and> hd n \<noteq> CHR ''!'' \<and> length n \<le> 32)"

lemma proptab_names: "list_all (\<lambda>e. name_ok (pr_name e)) proptab"
  by (simp add: proptab_defs name_ok_def isspace_def backslash_def)

lemma proptab_lower: "distinct (map (\<lambda>e. map tolower (pr_name e)) proptab)"
  by (simp add: proptab_defs tolower_def isupper_def)

end
