(* ===== verification/Prop.thy ===== *)
theory Prop
  imports PropTable Util "HOL-Library.Multiset"
begin

text \<open>
  Properties (\<open>src/prop.c\<close>): the values and flags of the table, their export to the
  environment for child processes, and the two sources they are loaded from, the environment
  and properties files. Warnings on the standard error are not modelled.
\<close>

section \<open>The table and its state\<close>

definition prop_ord :: "prop_e \<Rightarrow> nat" where
  "prop_ord p = length (takeWhile (\<lambda>q. q \<noteq> p) prop_enum)"

definition prop_entry_of :: "prop_e \<Rightarrow> prop_entry" where
  "prop_entry_of p = proptab ! prop_ord p"

text \<open>
  \<open>pvals\<close> and \<open>pflags\<close> are the columns of \<open>proptab\<close> which change, \<open>environ\<close> the process
  environment, \<open>env_prefix\<close> the static \<open>PropEnvPrefix\<close>.
\<close>

record prop_state =
  pvals :: "prop_e \<Rightarrow> string option"
  pflags :: "prop_e \<Rightarrow> u32"
  env_prefix :: string
  environ :: "string list"

definition prop_start :: "string list \<Rightarrow> prop_state" where
  "prop_start env = \<lparr>pvals = (\<lambda>p. None), pflags = (\<lambda>p. pr_flags (prop_entry_of p)),
     env_prefix = [], environ = env\<rparr>"

definition exported :: "prop_state \<Rightarrow> prop_e \<Rightarrow> bool" where
  \<comment> \<open>\<open>pr_flags & PROP_FLAG_EXPORT\<close>\<close>
  "exported st p = (pflags st p AND PROP_FLAG_EXPORT \<noteq> 0)"

definition PROP_NAME_MAX :: nat where "PROP_NAME_MAX = 128"
definition PROP_STR_MAX :: nat where "PROP_STR_MAX = 898"

section \<open>The environment\<close>

fun getenv :: "string \<Rightarrow> string list \<Rightarrow> string option" where
  "getenv name [] = None"
| "getenv name (e # es) =
     (if prefix_of (name @ ''='') e then Some (drop (length name + 1) e) else getenv name es)"

text \<open>\<open>putenv\<close> replaces the first entry with the name or appends a new one.\<close>

fun putenv :: "string \<Rightarrow> string \<Rightarrow> string list \<Rightarrow> string list" where
  "putenv name val [] = [name @ ''='' @ val]"
| "putenv name val (e # es) =
     (if prefix_of (name @ ''='') e then (name @ ''='' @ val) # es else e # putenv name val es)"

text \<open>
  \<open>putil_unsetenv\<close> (\<open>src/Putil/putil.h\<close>) moves the following entries down, and then goes on
  with the entry after the one moved into the gap.
\<close>

fun putil_unsetenv :: "string \<Rightarrow> string list \<Rightarrow> string list" where
  "putil_unsetenv name [] = []"
| "putil_unsetenv name (e # es) =
     (if prefix_of (name @ ''='') e
      then (case es of [] \<Rightarrow> [] | f # fs \<Rightarrow> f # putil_unsetenv name fs)
      else e # putil_unsetenv name es)"

section \<open>Names\<close>

definition prop_replace_char :: "string \<Rightarrow> char \<Rightarrow> char \<Rightarrow> string" where
  "prop_replace_char bp newchar oldchar = map (\<lambda>c. if c = oldchar then newchar else c) bp"

definition prop_from_name :: "string \<Rightarrow> prop_e option" where
  \<comment> \<open>the loop returns the position of the first match\<close>
  "prop_from_name name =
     (let i = length (takeWhile (\<lambda>e. c_stricmp name (pr_name e) \<noteq> 0) proptab)
      in if i < length proptab then Some (prop_enum ! i) else None)"

definition prop_to_name :: "prop_e \<Rightarrow> string" where
  "prop_to_name p = pr_name (prop_entry_of p)"

definition prop_to_ev :: "prop_state \<Rightarrow> prop_e \<Rightarrow> nat \<Rightarrow> string" where
  "prop_to_ev st p len =
     util_strup (prop_replace_char (snprintf len (env_prefix st @ prop_to_name p)) CHR ''_'' CHR ''.'')"

definition prop_matches_ev_name :: "prop_state \<Rightarrow> string \<Rightarrow> nat" where
  "prop_matches_ev_name st name =
     (let pfx = env_prefix st; plen = length pfx
      in if strneq0 name pfx plen then plen
         else if strneq0 name (tl pfx) (plen - 1) then plen - 1 else 0)"

section \<open>Reading values\<close>

definition prop_get_app :: "prop_state \<Rightarrow> string option" where
  "prop_get_app st =
     (case pvals st P_APP of Some v \<Rightarrow> Some v | None \<Rightarrow> pr_dflt (prop_entry_of P_APP))"

definition prop_get_value :: "prop_state \<Rightarrow> prop_e \<Rightarrow> string option result" where
  "prop_get_value st p =
     (if prop_get_app st \<noteq> None \<and> pr_index (prop_entry_of p) \<noteq> p then Inl (Exit 2)
      else Inr (pvals st p))"

text \<open>\<open>_prop_get_str\<close>; a missing required property ends the program if \<open>isfatal\<close>.\<close>

definition prop_get_str_i :: "prop_state \<Rightarrow> prop_e \<Rightarrow> bool \<Rightarrow> string option result" where
  "prop_get_str_i st p isfatal =
     bindR (prop_get_value st p) (\<lambda>value.
       let dflt = pr_dflt (prop_entry_of p);
           res = (case value of Some v \<Rightarrow> if v = PROP_NULL then None else Some v | None \<Rightarrow> dflt)
       in if res = None \<and> dflt = Some PROP_REQUIRED \<and> isfatal then Inl (Exit 2) else Inr res)"

definition prop_get_str :: "prop_state \<Rightarrow> prop_e \<Rightarrow> string option result" where
  "prop_get_str st p = prop_get_str_i st p True"

definition true_word :: "string \<Rightarrow> bool" where
  "true_word s = (c_stricmp s ''true'' = 0 \<or> c_stricmp s PROP_TRUE = 0 \<or> c_stricmp s ''yes'' = 0)"

definition number_base :: "string \<Rightarrow> nat" where
  "number_base s = (if 2 \<le> length s \<and> s ! 0 = CHR ''0'' \<and> (s ! 1 = CHR ''x'' \<or> s ! 1 = CHR ''X'')
     then 16 else 10)"

definition prop_get_ulong :: "prop_state \<Rightarrow> prop_e \<Rightarrow> u64 result" where
  "prop_get_ulong st p =
     bindR (prop_get_str st p) (\<lambda>s. case s of
       None \<Rightarrow> Inr 0
     | Some str \<Rightarrow> if true_word str then Inr 1 else Inr (c_strtoul (number_base str) str))"

definition prop_get_long :: "prop_state \<Rightarrow> prop_e \<Rightarrow> u64 result" where
  "prop_get_long st p =
     bindR (prop_get_str st p) (\<lambda>s. case s of
       None \<Rightarrow> Inr 0
     | Some str \<Rightarrow> if true_word str then Inr 1 else Inr (c_strtol (number_base str) str))"

definition prop_is_true :: "prop_state \<Rightarrow> prop_e \<Rightarrow> bool result" where
  "prop_is_true st p = bindR (prop_get_ulong st p) (\<lambda>v. Inr (v \<noteq> 0))"

definition prop_has_value :: "prop_state \<Rightarrow> prop_e \<Rightarrow> bool" where
  "prop_has_value st p = (case pvals st p of Some v \<Rightarrow> v \<noteq> [] | None \<Rightarrow> False)"

definition prop_is_public :: "prop_state \<Rightarrow> prop_e \<Rightarrow> bool" where
  "prop_is_public st p = (pflags st p AND PROP_FLAG_PUBLIC \<noteq> 0)"

definition prop_value_from_name :: "prop_state \<Rightarrow> string \<Rightarrow> string option result" where
  "prop_value_from_name st name =
     (case prop_from_name name of Some p \<Rightarrow> prop_get_str st p | None \<Rightarrow> Inr None)"

definition prop_desc :: "prop_e \<Rightarrow> string option" where
  "prop_desc p = pr_desc (prop_entry_of p)"

definition prop_assert :: "prop_state \<Rightarrow> prop_e \<Rightarrow> unit result" where
  "prop_assert st p =
     bindR (prop_get_str st p) (\<lambda>s. if s = None then Inl (Exit 2) else Inr ())"

section \<open>Setting values\<close>

definition prop_export :: "prop_state \<Rightarrow> prop_e \<Rightarrow> prop_state result" where
  "prop_export st p =
     bindR (prop_get_str st p) (\<lambda>s. case s of
       None \<Rightarrow> Inl (Exit 2)
     | Some val \<Rightarrow>
         let ev = prop_to_ev st p PROP_NAME_MAX;
             name = (if p = P_BASE_DIR \<or> p = P_PROJECT_NAME then tl ev else ev)
         in if getenv name (environ st) = Some val then Inr st
            else Inr (st\<lparr>environ := putenv name val (environ st)\<rparr>))"

definition prop_unexport :: "prop_state \<Rightarrow> prop_e \<Rightarrow> bool \<Rightarrow> prop_state" where
  "prop_unexport st p forever =
     (let st = st\<lparr>environ := putil_unsetenv (prop_to_ev st p PROP_NAME_MAX) (environ st)\<rparr>
      in if forever
         then st\<lparr>pflags := (pflags st)(p := pflags st p AND NOT PROP_FLAG_EXPORT)\<rparr> else st)"

definition prop_put_str_i :: "prop_state \<Rightarrow> prop_e \<Rightarrow> string \<Rightarrow> prop_state result" where
  \<comment> \<open>\<open>_prop_put_str\<close>\<close>
  "prop_put_str_i st p val =
     bindR (prop_get_value st p) (\<lambda>old. case old of
       Some v \<Rightarrow> Inr st
     | None \<Rightarrow>
         let st = st\<lparr>pvals := (pvals st)(p := Some val)\<rparr>
         in if exported st p then prop_export st p else Inr st)"

definition prop_put_str :: "prop_state \<Rightarrow> prop_e \<Rightarrow> string \<Rightarrow> prop_state result" where
  "prop_put_str st p val =
     (let pad = pr_pad (prop_entry_of p)
      in if 0 < pad then prop_put_str_i st p (snprintf (nat pad + 1) (fmt_pad (nat pad) val))
         else prop_put_str_i st p val)"

definition prop_unset :: "prop_state \<Rightarrow> prop_e \<Rightarrow> bool \<Rightarrow> prop_state" where
  "prop_unset st p unexport =
     (if pvals st p \<noteq> None then
        let st = st\<lparr>pvals := (pvals st)(p := None)\<rparr>
        in if unexport \<and> exported st p then prop_unexport st p False else st
      else st)"

definition prop_override_str :: "prop_state \<Rightarrow> prop_e \<Rightarrow> string \<Rightarrow> prop_state result" where
  "prop_override_str st p val = prop_put_str (prop_unset st p False) p val"

definition prop_put_long :: "prop_state \<Rightarrow> prop_e \<Rightarrow> u64 \<Rightarrow> prop_state result" where
  "prop_put_long st p val = prop_put_str st p (snprintf 64 (fmt_d (sint val)))"

definition prop_put_ulong :: "prop_state \<Rightarrow> prop_e \<Rightarrow> u64 \<Rightarrow> prop_state result" where
  "prop_put_ulong st p val = prop_put_str st p (snprintf 64 (fmt_lu val))"

definition prop_override_ulong :: "prop_state \<Rightarrow> prop_e \<Rightarrow> u64 \<Rightarrow> prop_state result" where
  "prop_override_ulong st p val = prop_put_ulong (prop_unset st p False) p val"

definition prop_set_true :: "prop_state \<Rightarrow> prop_e \<Rightarrow> prop_state result" where
  "prop_set_true st p = prop_put_ulong st p 1"

definition prop_override_true :: "prop_state \<Rightarrow> prop_e \<Rightarrow> prop_state result" where
  "prop_override_true st p = prop_set_true (prop_unset st p False) p"

definition prop_init :: "prop_state \<Rightarrow> string \<Rightarrow> prop_state result" where
  "prop_init st app =
     (if pvals st P_APP \<noteq> None then Inl (Abort ''!proptab[P_APP].pr_value'')
      else let v = util_strdown app; st = st\<lparr>pvals := (pvals st)(P_APP := Some v)\<rparr>
           in bindR (prop_assert st P_APP) (\<lambda>_.
                Inr (st\<lparr>env_prefix := util_strup (snprintf 128 (''_'' @ v @ ''_''))\<rparr>)))"

definition prop_fini :: "prop_state \<Rightarrow> prop_state" where
  "prop_fini st = foldl (\<lambda>st e. prop_unset st (pr_index e) False) st proptab"

section \<open>Properties files\<close>

text \<open>
  The scan of a key. A backslash is removed and the character after it is taken over as it
  is; \<open>None\<close> is a backslash at the end of the line.
\<close>

fun scan_key :: "string \<Rightarrow> (string \<times> string) option" where
  "scan_key [] = Some ([], [])"
| "scan_key (c # cs) =
     (if isspace c \<or> c = CHR ''='' \<or> c = CHR '':'' then Some ([], c # cs)
      else if c = backslash then
        (case cs of [] \<Rightarrow> None
         | d # ds \<Rightarrow> (case scan_key ds of None \<Rightarrow> None | Some (k, r) \<Rightarrow> Some (d # k, r)))
      else (case scan_key cs of None \<Rightarrow> None | Some (k, r) \<Rightarrow> Some (c # k, r)))"

definition key_value :: "string \<Rightarrow> string" where
  \<comment> \<open>from the character which ends the key to the value\<close>
  "key_value r = dropWhile isspace
     (if isspace (hd r) then
        (let e = dropWhile isspace r
         in if e \<noteq> [] \<and> (hd e = CHR ''='' \<or> hd e = CHR '':'') then tl e else e)
      else tl r)"

text \<open>
  The pair of \<open>_prop_process_line\<close> is the return code (1 for a malformed line) and the new
  state. Trailing white space is removed from the end with no check for the start of the
  buffer; after a backslash at the end of the trimmed line the scan continues behind the
  terminator, where another one stands if anything was trimmed.
\<close>

definition prop_process_line :: "prop_state \<Rightarrow> string \<Rightarrow> bool \<Rightarrow> (int \<times> prop_state) result" where
  "prop_process_line st line win =
     (let buf = snprintf 1024 line;
          trimmed = rev (dropWhile isspace (rev buf));
          bp = dropWhile isspace trimmed
      in if length buf = 1 then Inr (0, st)
         else if trimmed = [] then Inl (Fault ''access before the buffer'')
         else if hd bp = CHR ''#'' \<or> hd bp = CHR ''!'' then Inr (0, st)
         else case scan_key bp of
           None \<Rightarrow> if length trimmed < length buf then Inr (1, st)
                   else Inl (Fault ''read past the line'')
         | Some (key, r) \<Rightarrow>
             if r = [] then Inr (1, st)
             else case prop_from_name key of
               None \<Rightarrow> Inr (0, st)
             | Some p \<Rightarrow>
                 let st = (if win then prop_unset st p False else st)
                 in bindR (prop_put_str st p (key_value r)) (\<lambda>st. Inr (0, st)))"

definition fgets :: "nat \<Rightarrow> string \<Rightarrow> (string \<times> string) option" where
  \<comment> \<open>the line stored in a buffer of the given size and the rest of the file\<close>
  "fgets n inp =
     (if inp = [] then None
      else let k = min (n - 1) (Suc (length (takeWhile (\<lambda>c. c \<noteq> newline) inp)))
           in Some (take k inp, drop k inp))"

text \<open>The inner loop of \<open>prop_load\<close>, which joins continuation lines.\<close>

function join_lines :: "string \<Rightarrow> string \<Rightarrow> (string \<times> string) result" where
  "join_lines buf inp =
     (let l = takeWhile (\<lambda>c. c \<noteq> newline) buf
      in if newline \<in> set buf \<and> l \<noteq> [] \<and> last l = backslash then
           (case fgets PROP_STR_MAX inp of
              None \<Rightarrow> Inr (butlast l, inp)
            | Some (pstr, inp1) \<Rightarrow>
                let tp = dropWhile isspace pstr
                in if PROP_STR_MAX \<le> length (butlast l) + length tp then Inl (Fault ''strcpy past buf'')
                   else join_lines (butlast l @ tp) inp1)
         else Inr (buf, inp))"
  by pat_completeness auto

lemma fgets_shorter:
  "fgets n inp = Some (l, r) \<Longrightarrow> 2 \<le> n \<Longrightarrow> length r < length inp"
  by (auto simp: fgets_def Let_def split: if_splits)

termination join_lines
  by (relation "measure (length \<circ> snd)")
     (auto simp: PROP_STR_MAX_def dest: fgets_shorter [OF sym] fgets_shorter)

lemma join_lines_shorter:
  "join_lines buf inp = Inr (l, r) \<Longrightarrow> length r \<le> length inp"
proof (induction buf inp rule: join_lines.induct)
  case (1 buf inp)
  show ?case
  proof (cases "fgets PROP_STR_MAX inp")
    case None
    with "1.prems" show ?thesis by (subst (asm) join_lines.simps) (auto simp: Let_def split: if_splits)
  next
    case (Some pr)
    then obtain pstr inp1 where f: "fgets PROP_STR_MAX inp = Some (pstr, inp1)" by (cases pr) auto
    have "length inp1 < length inp" by (rule fgets_shorter [OF f]) (simp add: PROP_STR_MAX_def)
    moreover have "length r \<le> length inp \<or> length r \<le> length inp1"
      using "1.prems" "1.IH" [OF refl _ f refl refl] f
      unfolding join_lines.simps [of buf inp] by (auto simp: Let_def split: if_splits)
    ultimately show ?thesis by linarith
  qed
qed

declare join_lines.simps [simp del]

function load_lines :: "prop_state \<Rightarrow> string \<Rightarrow> bool \<Rightarrow> prop_state result" where
  "load_lines st inp win =
     (case fgets PROP_STR_MAX inp of
        None \<Rightarrow> Inr st
      | Some (buf, rest) \<Rightarrow>
          (case join_lines buf rest of
             Inl e \<Rightarrow> Inl e
           | Inr (line, rest') \<Rightarrow>
               (case prop_process_line st line win of
                  Inl e \<Rightarrow> Inl e
                | Inr (rc, st') \<Rightarrow> load_lines st' rest' win)))"
  by pat_completeness auto

termination load_lines
proof (relation "measure (\<lambda>(st, inp, win). length inp)", goal_cases)
  case (2 st inp win pr buf rest jr line rest' pl rc st')
  then have "length rest < length inp" "length rest' \<le> length rest"
    using fgets_shorter [of PROP_STR_MAX inp buf rest] join_lines_shorter [of buf rest line rest']
    by (auto simp: PROP_STR_MAX_def)
  then show ?case by simp
qed simp

declare load_lines.simps [simp del]

section \<open>The environment as a source\<close>

definition prop_load_from_ev :: "prop_state \<Rightarrow> string \<Rightarrow> prop_state result" where
  "prop_load_from_ev st buf =
     (case split_at CHR ''='' buf of
        None \<Rightarrow> Inr st
      | Some (name, val) \<Rightarrow>
          (case prop_from_name (prop_replace_char name CHR ''.'' CHR ''_'') of
             None \<Rightarrow> Inr st
           | Some p \<Rightarrow>
               let st = (if \<not> exported st p then prop_unexport st p False else st)
               in prop_put_str st p val))"

text \<open>
  The walk over \<open>environ\<close> while the loads remove entries from it and, exporting what they
  set, replace or append entries. The walk goes by index over the array \<open>environ\<close> pointed to
  at its start. An append lets the C library move the environment to a larger array; from
  then on the walk sees the old array as it was, which \<open>moved\<close> holds.
\<close>

function env_walk :: "prop_state \<Rightarrow> string list option \<Rightarrow> nat \<Rightarrow> prop_state result" where
  "env_walk st moved i =
     (let w = (case moved of None \<Rightarrow> environ st | Some es \<Rightarrow> es)
      in if i < length w then
           (let offset = prop_matches_ev_name st (w ! i); ev = drop offset (w ! i)
            in if offset = 0 then env_walk st moved (Suc i)
               else if PROP_STR_MAX \<le> length ev then Inl (Fault ''strcpy past buf'')
               else (case prop_load_from_ev st ev of
                       Inl e \<Rightarrow> Inl e
                     | Inr st' \<Rightarrow>
                         env_walk st'
                           (if moved = None \<and> length (environ st') \<le> length (environ st) then None
                            else Some w) (Suc i)))
         else Inr st)"
  by pat_completeness auto

termination env_walk
  by (relation "measure (\<lambda>(st, moved, i).
        length (case moved of None \<Rightarrow> environ st | Some es \<Rightarrow> es) - i)")
     (auto split: option.splits)

declare env_walk.simps [simp del]

text \<open>
  \<open>prop_load\<close>. The file system is the argument: the contents of the file if it can be opened.
  Without a file name the environment is loaded.
\<close>

definition prop_load :: "(string \<Rightarrow> string option) \<Rightarrow> prop_state \<Rightarrow> string option \<Rightarrow> bool \<Rightarrow> prop_state result"
  where
  "prop_load files st fname win =
     (case fname of
        Some f \<Rightarrow> (case files f of Some contents \<Rightarrow> load_lines st contents win | None \<Rightarrow> Inr st)
      | None \<Rightarrow> env_walk st None 0)"

section \<open>Changing an exported value in place\<close>

text \<open>
  \<open>_prop_modify_env_val\<close>: \<open>envp\<close> is a caller's environment, or \<open>None\<close> for \<open>environ\<close>. The
  value is overwritten within the space of the old one. The first component is the result,
  which is always read back from \<open>environ\<close>; the last one the environment that was searched.
\<close>

definition prop_modify_env_val ::
  "prop_state \<Rightarrow> string list option \<Rightarrow> string \<Rightarrow> string \<Rightarrow> (string option \<times> prop_state \<times> string list) result"
  where
  "prop_modify_env_val st envp name nval =
     (let es = (case envp of None \<Rightarrow> environ st | Some l \<Rightarrow> l)
      in case getenv name es of
        None \<Rightarrow> Inl (Abort ''EV not found in specified env'')
      | Some oval \<Rightarrow>
          if oval \<noteq> nval \<and> length oval < length nval then Inl (Abort ''EV has no room for value'')
          else
            let es' = (if oval \<noteq> nval then putenv name (fmt_pad (length oval) nval) es else es);
                st' = (if envp = None then st\<lparr>environ := es'\<rparr> else st);
                res = getenv name (environ st')
            in case res of
              Some r \<Rightarrow> if length r \<noteq> length oval then Inl (Abort ''EV failed to update'')
                         else Inr (res, st', es')
            | None \<Rightarrow> Inr (res, st', es'))"

text \<open>
  \<open>prop_mod_str\<close>. \<open>same\<close> says that \<open>val\<close> is the pointer stored in the table. A result of NULL
  from the environment update only prints a warning.
\<close>

definition prop_mod_str ::
  "prop_state \<Rightarrow> prop_e \<Rightarrow> string \<Rightarrow> bool \<Rightarrow> string list option \<Rightarrow> (prop_state \<times> string list) result" where
  "prop_mod_str st p val same envp =
     (if \<not> exported st p then Inl (Abort ''pr_flags & PROP_FLAG_EXPORT'')
      else case pvals st p of
        None \<Rightarrow> Inl (Abort ''property is not set'')
      | Some old \<Rightarrow>
          if \<not> same \<and> length old < length val then Inl (Abort ''property has no room for value'')
          else
            let st = (if same then st
                      else st\<lparr>pvals := (pvals st)(p := Some (snprintf (length old + 1) (fmt_pad (length old) val)))\<rparr>)
            in bindR (prop_modify_env_val st envp (prop_to_ev st p PROP_NAME_MAX) val)
                 (\<lambda>(_, st, es). Inr (st, es)))"

definition prop_mod_ulong ::
  "prop_state \<Rightarrow> prop_e \<Rightarrow> u64 \<Rightarrow> string list option \<Rightarrow> (prop_state \<times> string list) result" where
  "prop_mod_ulong st p val envp =
     (if \<not> exported st p then Inl (Abort ''pr_flags & PROP_FLAG_EXPORT'')
      else if pvals st p = None then Inl (Abort ''property not set'')
      else prop_mod_str st p (snprintf 64 (fmt_lu val)) False envp)"

section \<open>A custom environment for a child process\<close>

definition exportable :: "prop_state \<Rightarrow> (prop_e \<times> string) list" where
  \<comment> \<open>the properties with a value and the export flag, in the order of the table\<close>
  "exportable st = concat (map (\<lambda>p. case pvals st p of
       Some v \<Rightarrow> if exported st p then [(p, v)] else [] | None \<Rightarrow> []) prop_enum)"

definition prop_new_env_block_sizeA :: "prop_state \<Rightarrow> string list \<Rightarrow> nat" where
  "prop_new_env_block_sizeA st cenv =
     sum_list (map (\<lambda>e. length e + 1 + 8) cenv) + 8
     + sum_list (map (\<lambda>(p, v). length (prop_to_ev st p PROP_NAME_MAX) + length v + 2 + 8) (exportable st))
     + 8"

fun env_insert :: "string \<Rightarrow> string list \<Rightarrow> string list" where
  "env_insert x [] = [x]"
| "env_insert x (y # ys) = (if c_strcmp x y \<le> 0 then x # y # ys else y # env_insert x ys)"

definition env_sort :: "string list \<Rightarrow> string list" where
  \<comment> \<open>\<open>qsort\<close> by \<open>_prop_qsort_nenvA\<close>, a total order\<close>
  "env_sort es = foldr env_insert es []"

definition prop_custom_envA :: "prop_state \<Rightarrow> string list \<Rightarrow> string list" where
  "prop_custom_envA st cenv =
     (let tenvp = filter (\<lambda>e. prop_matches_ev_name st e = 0) cenv
                @ map (\<lambda>(p, v). prop_to_ev st p PROP_NAME_MAX @ ''='' @ v) (exportable st)
      in env_sort tenvp)"

definition env_block_used :: "string list \<Rightarrow> nat" where
  \<comment> \<open>the bytes written: the pointer at the front, the array with its NULL, the strings\<close>
  "env_block_used envp = 8 + 8 * (length envp + 1) + sum_list (map (\<lambda>e. length e + 1) envp)"

section \<open>The listing of the properties\<close>

definition fmt_left :: "nat \<Rightarrow> string \<Rightarrow> string" where
  \<comment> \<open>the conversion \<open>%-<n>s\<close>\<close>
  "fmt_left n s = s @ replicate (n - length s) CHR '' ''"

definition prop_help_entry :: "prop_state \<Rightarrow> bool \<Rightarrow> bool \<Rightarrow> nat \<Rightarrow> string result" where
  "prop_help_entry st all verbose i =
     (let e = proptab ! i; p = prop_enum ! i
      in if pflags st p AND PROP_FLAG_PUBLIC = 0 \<and> \<not> all then Inr []
         else bindR (prop_get_str_i st p False) (\<lambda>v.
           let val = (case v of Some s \<Rightarrow> s | None \<Rightarrow> PROP_NULL);
               desc = (case pr_desc e of
                 Some d \<Rightarrow> if verbose then
                     (if all \<and> exported st p then CHR ''*'' else CHR ''#'') # '' '' @ d @ '':'' @ [newline]
                   else []
               | None \<Rightarrow> []);
               name = snprintf PROP_NAME_MAX (pr_name e @ '':'')
           in Inr (desc @ fmt_left 28 name @ '' '' @ val @ [newline]
                   @ (if verbose \<and> i + 1 < length proptab then [newline] else []))))"

text \<open>\<open>prop_help\<close> up to the list of the files the properties were loaded from.\<close>

definition prop_help :: "prop_state \<Rightarrow> bool \<Rightarrow> bool \<Rightarrow> string result" where
  "prop_help st all verbose =
     foldl (\<lambda>out i. bindR out (\<lambda>o1. bindR (prop_help_entry st all verbose i) (\<lambda>o2. Inr (o1 @ o2))))
       (Inr (if verbose then newline # ''PROPERTIES [current values]:'' @ [newline, newline] else []))
       [0..<length proptab]"

section \<open>Facts about the table\<close>

lemma length_proptab [simp]: "length proptab = length prop_enum"
  by (simp flip: proptab_order)

lemma takeWhile_index: "x \<in> set xs \<Longrightarrow> length (takeWhile (\<lambda>y. y \<noteq> x) xs) < length xs
    \<and> xs ! length (takeWhile (\<lambda>y. y \<noteq> x) xs) = x"
  by (induction xs) auto

lemma prop_ord_less [simp]: "prop_ord p < length prop_enum"
  using takeWhile_index [OF prop_enum_all] by (simp add: prop_ord_def)

lemma prop_enum_ord [simp]: "prop_enum ! prop_ord p = p"
  using takeWhile_index [OF prop_enum_all] by (simp add: prop_ord_def)

lemma pr_index_entry [simp]: "pr_index (prop_entry_of p) = p"
proof -
  have "pr_index (proptab ! prop_ord p) = map pr_index proptab ! prop_ord p" by simp
  then show ?thesis by (simp add: prop_entry_of_def proptab_order)
qed

lemma prop_get_value_simp [simp]: "prop_get_value st p = Inr (pvals st p)"
  by (simp add: prop_get_value_def)

text \<open>
  The table is in the order of the enumeration, as the code requires: the entry found by
  indexing with an enumerator is that enumerator's, so the check of \<open>_prop_get_value\<close> for a
  skewed table never ends the program.
\<close>

theorem proptab_in_sync:
  "pr_index (prop_entry_of p) = p \<and> prop_get_value st p = Inr (pvals st p)"
  by simp

section \<open>Names\<close>

lemma prop_name_ok: "name_ok (prop_to_name p)"
proof -
  have "prop_entry_of p \<in> set proptab" by (simp add: prop_entry_of_def)
  then show ?thesis using proptab_names by (auto simp: prop_to_name_def list_all_iff)
qed

lemma takeWhile_find:
  "i < length xs \<Longrightarrow> \<not> P (xs ! i) \<Longrightarrow> (\<And>j. j < i \<Longrightarrow> P (xs ! j)) \<Longrightarrow> length (takeWhile P xs) = i"
proof (induction xs arbitrary: i)
  case (Cons x xs)
  show ?case
  proof (cases i)
    case (Suc k)
    have "P (xs ! j)" if "j < k" for j using Cons.prems(3) [of "Suc j"] Suc that by simp
    with Suc Cons.prems Cons.IH [of k] show ?thesis using Cons.prems(3) [of 0] by simp
  qed (use Cons.prems in simp)
qed simp

lemma prop_from_name_same:
  assumes "map tolower n = map tolower (prop_to_name p)"
  shows "prop_from_name n = Some p"
proof -
  let ?P = "\<lambda>e. c_stricmp n (pr_name e) \<noteq> 0"
  let ?i = "prop_ord p"
  have hit: "\<not> ?P (proptab ! ?i)"
    using assms by (simp add: c_stricmp_eq_0 prop_to_name_def prop_entry_of_def)
  have miss: "?P (proptab ! j)" if "j < ?i" for j
  proof -
    have j: "j < length proptab" using that prop_ord_less [of p] by (simp del: prop_ord_less)
    have i: "?i < length proptab" by simp
    have "map tolower (pr_name (proptab ! j)) \<noteq> map tolower (pr_name (proptab ! ?i))"
    proof -
      have "(map (\<lambda>e. map tolower (pr_name e)) proptab) ! j \<noteq>
          (map (\<lambda>e. map tolower (pr_name e)) proptab) ! ?i"
        using proptab_lower that j i by (simp add: nth_eq_iff_index_eq del: nth_map)
      then show ?thesis using i j by simp
    qed
    then show ?thesis using assms
      by (simp add: c_stricmp_eq_0 prop_to_name_def prop_entry_of_def)
  qed
  have "length (takeWhile ?P proptab) = ?i"
  proof (rule takeWhile_find)
    show "?i < length proptab" by simp
  qed (use hit miss in auto)
  then show ?thesis by (simp add: prop_from_name_def Let_def)
qed

definition ev_char :: "char \<Rightarrow> char" where
  "ev_char c = (let d = if c = CHR ''.'' then CHR ''_'' else c in if islower d then toupper d else d)"

lemma toupper_letter: "islower c \<Longrightarrow> 65 \<le> ascii (toupper c) \<and> ascii (toupper c) \<le> 90"
proof -
  assume a: "islower c"
  then have "97 \<le> ascii c \<and> ascii c \<le> 122" by (simp add: islower_def)
  moreover have "ascii (toupper c) = ascii c - 32" using a by (simp add: ascii_toupper)
  ultimately show ?thesis by linarith
qed

lemma ev_char_eq: "ev_char c = CHR ''_'' \<longleftrightarrow> c = CHR ''_'' \<or> c = CHR ''.''"
  and ev_char_eqsign: "ev_char c = CHR ''='' \<longleftrightarrow> c = CHR ''=''"
proof -
  have "toupper c \<noteq> CHR ''_'' \<and> toupper c \<noteq> CHR ''=''" if "islower c"
    using toupper_letter [OF that] by auto
  then show "ev_char c = CHR ''_'' \<longleftrightarrow> c = CHR ''_'' \<or> c = CHR ''.''"
    and "ev_char c = CHR ''='' \<longleftrightarrow> c = CHR ''=''"
    by (auto simp: ev_char_def Let_def islower_def)
qed

lemma ev_char_lower: "c \<noteq> CHR ''.'' \<Longrightarrow> tolower (ev_char c) = tolower c"
  by (simp add: ev_char_def)

text \<open>The name of the environment variable of a property, without the application's prefix.\<close>

definition ev_name :: "prop_e \<Rightarrow> string" where
  "ev_name p = util_strup (prop_replace_char (prop_to_name p) CHR ''_'' CHR ''.'')"

lemma ev_name_map: "ev_name p = map ev_char (prop_to_name p)"
  by (simp add: ev_name_def util_strup_def prop_replace_char_def ev_char_def Let_def comp_def)

lemma ev_name_back: "prop_from_name (prop_replace_char (ev_name p) CHR ''.'' CHR ''_'') = Some p"
proof (rule prop_from_name_same)
  have c: "tolower (if ev_char c = CHR ''_'' then CHR ''.'' else ev_char c) = tolower c"
    if "c \<noteq> CHR ''_''" for c
    using that by (cases "c = CHR ''.''") (simp_all add: ev_char_eq ev_char_lower)
  have n: "CHR ''_'' \<notin> set (prop_to_name p)" using prop_name_ok [of p] by (simp add: name_ok_def)
  have "map (\<lambda>c. tolower (if ev_char c = CHR ''_'' then CHR ''.'' else ev_char c)) (prop_to_name p)
      = map tolower (prop_to_name p)"
  proof (rule map_cong [OF refl])
    fix x
    assume "x \<in> set (prop_to_name p)"
    with n have "x \<noteq> CHR ''_''" by blast
    then show "tolower (if ev_char x = CHR ''_'' then CHR ''.'' else ev_char x) = tolower x"
      by (rule c)
  qed
  then show "map tolower (prop_replace_char (ev_name p) CHR ''.'' CHR ''_'') = map tolower (prop_to_name p)"
    unfolding ev_name_map prop_replace_char_def map_map comp_def .
qed

lemma ev_name_inj: "ev_name p = ev_name q \<Longrightarrow> p = q"
  by (metis ev_name_back option.inject)

lemma ev_name_eqsign: "CHR ''='' \<notin> set (ev_name p)"
proof -
  have "CHR ''='' \<notin> set (prop_to_name p)" using prop_name_ok [of p] by (simp add: name_ok_def)
  then show ?thesis unfolding ev_name_map set_map image_iff by (metis ev_char_eqsign)
qed

text \<open>
  The prefixes \<open>prop_init\<close> makes of an application's name: an underscore, the upper-case
  name, an underscore.
\<close>

definition prefix_ok :: "string \<Rightarrow> bool" where
  "prefix_ok pfx = (2 \<le> length pfx \<and> length pfx \<le> 90 \<and> hd pfx = CHR ''_'' \<and> hd (tl pfx) \<noteq> CHR ''_''
     \<and> CHR ''='' \<notin> set pfx \<and> util_strup pfx = pfx \<and> CHR ''.'' \<notin> set pfx)"

lemma prop_to_ev_ok:
  assumes "prefix_ok (env_prefix st)"
  shows "prop_to_ev st p PROP_NAME_MAX = env_prefix st @ ev_name p"
proof -
  have "length (prop_to_name p) \<le> 32" using prop_name_ok [of p] by (simp add: name_ok_def)
  moreover have "length (env_prefix st) \<le> 90" using assms by (simp add: prefix_ok_def)
  ultimately have "length (env_prefix st @ prop_to_name p) \<le> 127" by simp
  then have "snprintf 128 (env_prefix st @ prop_to_name p) = env_prefix st @ prop_to_name p"
    by (simp add: snprintf_def del: length_append take_append)
  moreover have "prop_replace_char (env_prefix st) CHR ''_'' CHR ''.'' = env_prefix st"
    using assms by (auto simp: prop_replace_char_def prefix_ok_def intro: map_idI)
  moreover have "util_strup (x @ y) = util_strup x @ util_strup y" for x y
    by (simp add: util_strup_def)
  ultimately show ?thesis using assms
    by (simp add: prop_to_ev_def PROP_NAME_MAX_def ev_name_def prop_replace_char_def prefix_ok_def)
qed

definition export_name :: "prop_state \<Rightarrow> prop_e \<Rightarrow> string" where
  \<comment> \<open>the variable \<open>_prop_export\<close> sets\<close>
  "export_name st p = (let ev = prop_to_ev st p PROP_NAME_MAX
     in if p = P_BASE_DIR \<or> p = P_PROJECT_NAME then tl ev else ev)"

lemma export_name_inj:
  assumes "prefix_ok (env_prefix st)" and "export_name st p = export_name st q"
  shows "p = q"
proof -
  let ?b = "\<lambda>p. p = P_BASE_DIR \<or> p = P_PROJECT_NAME"
  obtain a r where pfx: "env_prefix st = CHR ''_'' # a # r" "a \<noteq> CHR ''_''"
    using assms(1) by (cases "env_prefix st"; cases "tl (env_prefix st)") (auto simp: prefix_ok_def)
  have "export_name st p = (if ?b p then a # r @ ev_name p else CHR ''_'' # a # r @ ev_name p)" for p
    by (simp add: export_name_def Let_def prop_to_ev_ok [OF assms(1)] pfx(1))
  with assms(2) pfx(2) have "ev_name p = ev_name q" by (auto split: if_splits)
  then show ?thesis by (rule ev_name_inj)
qed

lemma export_name_eqsign:
  assumes "prefix_ok (env_prefix st)"
  shows "CHR ''='' \<notin> set (export_name st p)"
proof -
  have "CHR ''='' \<notin> set (env_prefix st @ ev_name p)"
    using assms ev_name_eqsign by (simp add: prefix_ok_def)
  moreover have "CHR ''='' \<notin> set xs \<Longrightarrow> CHR ''='' \<notin> set (tl xs)" for xs :: string
    by (cases xs) simp_all
  ultimately show ?thesis
    by (simp only: export_name_def Let_def prop_to_ev_ok [OF assms] split: if_split) blast
qed

section \<open>The environment holds what is exported\<close>

lemma prefix_of_iff: "prefix_of x e \<longleftrightarrow> (\<exists>v. e = x @ v)"
  by (metis prefix_of_def append_eq_conv_conj append_take_drop_id)

lemma env_entry_neq:
  assumes "n \<noteq> m" and "CHR ''='' \<notin> set n" and "CHR ''='' \<notin> set m"
  shows "n @ CHR ''='' # x \<noteq> m @ CHR ''='' # y"
proof
  assume "n @ CHR ''='' # x = m @ CHR ''='' # y"
  then have "split_at CHR ''='' (n @ CHR ''='' # x) = split_at CHR ''='' (m @ CHR ''='' # y)"
    by (rule arg_cong)
  with assms show False by (simp add: split_at_append)
qed

lemma getenv_putenv_same [simp]: "getenv n (putenv n v es) = Some v"
  by (induction es) (auto simp: prefix_of_def)

lemma getenv_putenv_other:
  assumes "n \<noteq> m" and "CHR ''='' \<notin> set n" and "CHR ''='' \<notin> set m"
  shows "getenv m (putenv n v es) = getenv m es"
proof -
  note neq = env_entry_neq [OF assms]
  have "\<not> prefix_of (m @ ''='') (n @ ''='' @ v)"
    using neq by (auto simp: prefix_of_iff)
  moreover have "\<not> prefix_of (m @ ''='') e" if "prefix_of (n @ ''='') e" for e
    using that neq by (auto simp: prefix_of_iff)
  ultimately show ?thesis by (induction es) simp_all
qed

lemma getenv_unsetenv_other:
  assumes "n \<noteq> m" and "CHR ''='' \<notin> set n" and "CHR ''='' \<notin> set m"
  shows "getenv m (putil_unsetenv n es) = getenv m es"
proof -
  have "\<not> prefix_of (m @ ''='') e" if "prefix_of (n @ ''='') e" for e
    using that env_entry_neq [OF assms] by (auto simp: prefix_of_iff)
  then show ?thesis
    by (induction n es rule: putil_unsetenv.induct) (auto split: list.splits)
qed

definition prop_inv :: "prop_state \<Rightarrow> bool" where
  "prop_inv st = (prefix_ok (env_prefix st) \<and>
     (\<forall>p v. exported st p \<longrightarrow> pvals st p = Some v \<longrightarrow>
        getenv (export_name st p) (environ st) = Some v))"

lemma export_name_cong [simp]:
  "export_name (st\<lparr>environ := e\<rparr>) p = export_name st p"
  "export_name (st\<lparr>pvals := f\<rparr>) p = export_name st p"
  "export_name (st\<lparr>pflags := g\<rparr>) p = export_name st p"
  by (simp_all add: export_name_def prop_to_ev_def)

lemma exported_cong [simp]:
  "exported (st\<lparr>environ := e\<rparr>) p = exported st p"
  "exported (st\<lparr>pvals := f\<rparr>) p = exported st p"
  by (simp_all add: exported_def)

lemma prop_get_str_Some:
  "pvals st p = Some v \<Longrightarrow> v \<noteq> PROP_NULL \<Longrightarrow> prop_get_str st p = Inr (Some v)"
  by (simp add: prop_get_str_def prop_get_str_i_def Let_def)

lemma prop_get_str_NULL:
  "pvals st p = Some PROP_NULL \<Longrightarrow> prop_get_str st p = Inl (Exit 2) \<or> prop_get_str st p = Inr None"
  by (simp add: prop_get_str_def prop_get_str_i_def Let_def)

lemma prop_export_value:
  assumes "pvals st p = Some v"
  shows "prop_export st p =
    (if v = PROP_NULL then Inl (Exit 2)
     else if getenv (export_name st p) (environ st) = Some v then Inr st
     else Inr (st\<lparr>environ := putenv (export_name st p) v (environ st)\<rparr>))"
proof (cases "v = PROP_NULL")
  case True
  with assms prop_get_str_NULL [of st p] show ?thesis by (auto simp: prop_export_def)
next
  case False
  with assms prop_get_str_Some show ?thesis
    by (simp add: prop_export_def export_name_def Let_def)
qed

lemma prop_put_str_i_inv:
  assumes "prop_inv st" and "prop_put_str_i st p v = Inr st'"
  shows "prop_inv st'"
proof (cases "pvals st p")
  case (Some old)
  with assms show ?thesis by (simp add: prop_put_str_i_def)
next
  case None
  let ?st = "st\<lparr>pvals := (pvals st)(p := Some v)\<rparr>"
  have pfx: "prefix_ok (env_prefix st)" using assms(1) by (simp add: prop_inv_def)
  have other: "getenv (export_name st q) (putenv (export_name st p) v es) = getenv (export_name st q) es"
    if "q \<noteq> p" for q es
    using that export_name_inj [OF pfx] export_name_eqsign [OF pfx]
    by (intro getenv_putenv_other) metis+
  show ?thesis
  proof (cases "exported st p")
    case True
    with assms None have "prop_export ?st p = Inr st'" by (simp add: prop_put_str_i_def Let_def)
    then have "st' = ?st \<and> getenv (export_name st p) (environ st) = Some v \<or>
        st' = ?st\<lparr>environ := putenv (export_name st p) v (environ st)\<rparr>"
      using prop_export_value [of ?st p v] by (auto split: if_splits)
    then show ?thesis
      using assms(1) other by (auto simp: prop_inv_def split: if_splits)
  next
    case False
    with assms None show ?thesis
      by (auto simp: prop_put_str_i_def prop_inv_def split: if_splits)
  qed
qed

lemma prop_put_str_inv: "prop_inv st \<Longrightarrow> prop_put_str st p v = Inr st' \<Longrightarrow> prop_inv st'"
  by (auto simp: prop_put_str_def Let_def intro: prop_put_str_i_inv split: if_splits)

lemma getenv_unexport_other:
  assumes pfx: "prefix_ok (env_prefix st)" and "q \<noteq> p"
  shows "getenv (export_name st q) (putil_unsetenv (prop_to_ev st p PROP_NAME_MAX) es) =
    getenv (export_name st q) es"
proof (rule getenv_unsetenv_other)
  have ev: "prop_to_ev st p PROP_NAME_MAX = env_prefix st @ ev_name p" by (rule prop_to_ev_ok [OF pfx])
  then show "CHR ''='' \<notin> set (prop_to_ev st p PROP_NAME_MAX)"
    using pfx ev_name_eqsign by (simp add: prefix_ok_def)
  show "CHR ''='' \<notin> set (export_name st q)" by (rule export_name_eqsign [OF pfx])
  show "prop_to_ev st p PROP_NAME_MAX \<noteq> export_name st q"
  proof
    assume eq: "prop_to_ev st p PROP_NAME_MAX = export_name st q"
    obtain a r where "env_prefix st = CHR ''_'' # a # r" "a \<noteq> CHR ''_''"
      using pfx by (cases "env_prefix st"; cases "tl (env_prefix st)") (auto simp: prefix_ok_def)
    with eq have "ev_name p = ev_name q"
      by (auto simp: export_name_def Let_def prop_to_ev_ok [OF pfx] split: if_splits)
    with assms(2) ev_name_inj show False by metis
  qed
qed

lemma prop_unset_inv:
  assumes "prop_inv st"
  shows "prop_inv (prop_unset st p u)"
proof -
  have "prefix_ok (env_prefix st)" using assms by (simp add: prop_inv_def)
  from getenv_unexport_other [OF this] assms show ?thesis
    by (auto simp: prop_unset_def prop_unexport_def prop_inv_def Let_def prop_to_ev_def)
qed

lemma prop_unexport_inv:
  assumes "prop_inv st"
  shows "prop_inv (prop_unexport st p True)"
proof -
  have pfx: "prefix_ok (env_prefix st)" using assms by (simp add: prop_inv_def)
  let ?st' = "prop_unexport st p True"
  have "(f AND NOT 2) AND 2 = 0" for f :: u32
    by (simp add: and.assoc)
  then have "\<not> exported ?st' p"
    by (simp add: exported_def prop_unexport_def Let_def PROP_FLAG_EXPORT_def)
  moreover have "exported ?st' q = exported st q" if "q \<noteq> p" for q
    using that by (simp add: exported_def prop_unexport_def Let_def)
  moreover have "pvals ?st' = pvals st" "env_prefix ?st' = env_prefix st"
    "environ ?st' = putil_unsetenv (prop_to_ev st p PROP_NAME_MAX) (environ st)"
    "export_name ?st' q = export_name st q" for q
    by (simp_all add: prop_unexport_def Let_def)
  ultimately show ?thesis
    using assms getenv_unexport_other [OF pfx, of _ p "environ st"] unfolding prop_inv_def by metis
qed

lemma fmt_pad_id [simp]: "length v = n \<Longrightarrow> fmt_pad n v = v"
  by (simp add: fmt_pad_def)

lemma length_fmt_pad: "length v \<le> n \<Longrightarrow> length (fmt_pad n v) = n"
  by (simp add: fmt_pad_def)

lemma prop_mod_str_inv:
  assumes "prop_inv st" and "p \<noteq> P_BASE_DIR" and "p \<noteq> P_PROJECT_NAME"
    and "same \<longrightarrow> pvals st p = Some val" and "prop_mod_str st p val same None = Inr (st', es)"
  shows "prop_inv st'"
proof -
  have pfx: "prefix_ok (env_prefix st)" using assms(1) by (simp add: prop_inv_def)
  let ?n = "prop_to_ev st p PROP_NAME_MAX"
  have n: "export_name st p = ?n" using assms by (simp add: export_name_def)
  from assms(5) obtain old where ex: "exported st p" and old: "pvals st p = Some old"
    and fits: "same \<or> length val \<le> length old"
    by (auto simp: prop_mod_str_def split: if_splits option.splits)
  let ?new = "if same then old else fmt_pad (length old) val"
  have snp: "snprintf (length old + 1) (fmt_pad (length old) val) = fmt_pad (length old) val"
    if "\<not> same" using that fits by (simp add: snprintf_def length_fmt_pad)
  define st1 where "st1 = (if same then st else st\<lparr>pvals := (pvals st)(p := Some ?new)\<rparr>)"
  have st1: "environ st1 = environ st" "pvals st1 = (pvals st)(p := Some ?new)" "pflags st1 = pflags st"
    "env_prefix st1 = env_prefix st"
    using old by (auto simp: st1_def)
  have name1: "prop_to_ev st1 p PROP_NAME_MAX = ?n" by (simp add: prop_to_ev_def st1)
  have env: "getenv ?n (environ st) = Some old" using assms(1) ex old n by (auto simp: prop_inv_def)
  have "prop_modify_env_val st1 None ?n val = Inr r \<Longrightarrow>
      fst (snd r) = st1\<lparr>environ := (if old \<noteq> val then putenv ?n (fmt_pad (length old) val) (environ st)
        else environ st)\<rparr>" for r
    using env by (auto simp: prop_modify_env_val_def st1 Let_def split: if_splits option.splits)
  moreover have "bindR (prop_modify_env_val st1 None ?n val) (\<lambda>(_, st, es). Inr (st, es)) = Inr (st', es)"
    using assms(5) ex old fits snp name1
    by (cases same) (auto simp: prop_mod_str_def st1_def Let_def prop_to_ev_def)
  ultimately have st': "st' = st1\<lparr>environ := (if old \<noteq> val then putenv ?n (fmt_pad (length old) val) (environ st)
        else environ st)\<rparr>"
    by (auto simp: bindR_eq_Inr)
  have new: "?new = (if old \<noteq> val then fmt_pad (length old) val else old)"
    using assms(4) old by auto
  have other: "getenv (export_name st q) (putenv ?n v e) = getenv (export_name st q) e"
    if "q \<noteq> p" for q v e
    using that export_name_inj [OF pfx] export_name_eqsign [OF pfx] unfolding n [symmetric]
    by (intro getenv_putenv_other) metis+
  have exn: "export_name st' q = export_name st q" "exported st' q = exported st q" for q
    by (simp_all add: st' st1 export_name_def prop_to_ev_def exported_def)
  have st'_rec: "environ st' = (if old \<noteq> val then putenv ?n (fmt_pad (length old) val) (environ st) else environ st)"
    "pvals st' = (pvals st)(p := Some ?new)" "env_prefix st' = env_prefix st"
    by (simp_all add: st' st1)
  show ?thesis
    unfolding prop_inv_def
  proof (intro conjI allI impI)
    show "prefix_ok (env_prefix st')" using pfx by (simp add: st'_rec)
    fix q v
    assume q: "exported st' q" "pvals st' q = Some v"
    show "getenv (export_name st' q) (environ st') = Some v"
    proof (cases "q = p")
      case True
      with q new have "v = (if old \<noteq> val then fmt_pad (length old) val else old)"
        by (simp add: st'_rec)
      with True env show ?thesis by (simp add: exn n st'_rec)
    next
      case False
      with q have "getenv (export_name st q) (environ st) = Some v"
        using assms(1) by (simp add: prop_inv_def exn st'_rec)
      with False other show ?thesis by (simp add: exn st'_rec)
    qed
  qed
qed

lemma isalnum_case:
  "isalnum c \<Longrightarrow> isalnum (tolower c) \<and> isalnum (toupper c)"
  by (auto simp: tolower_def toupper_def ctype_defs)

definition app_ok :: "string \<Rightarrow> bool" where
  \<comment> \<open>the names the prefix is made of: letters and digits\<close>
  "app_ok app = (list_all isalnum app \<and> app \<noteq> [] \<and> length app \<le> 80)"

lemma util_strup_idem: "util_strup (util_strup s) = util_strup s"
proof -
  have "\<not> islower (toupper c)" if "islower c" for c
    using toupper_letter [OF that] by (simp add: islower_def)
  then show ?thesis by (auto simp: util_strup_def)
qed

lemma prefix_ok_app:
  assumes "app_ok app"
  shows "prefix_ok (util_strup (''_'' @ util_strdown app @ ''_''))"
proof -
  obtain c cs where app: "app = c # cs" using assms by (cases app) (auto simp: app_ok_def)
  let ?m = "util_strup (util_strdown app)"
  have alnum: "list_all isalnum ?m"
    using assms isalnum_case by (auto simp: app_ok_def util_strup_def util_strdown_def list_all_iff)
  have nope: "x \<notin> set ?m" if "\<not> isalnum x" for x
    using alnum that by (auto simp: list_all_iff)
  have m: "?m \<noteq> []" "length ?m \<le> 80"
    using assms by (simp_all add: app_ok_def util_strup_def util_strdown_def)
  then have "isalnum (hd ?m)" using alnum by (simp add: list_all_iff)
  then have h: "hd ?m \<noteq> CHR ''_''" by (auto simp: ctype_defs)
  have eq: "util_strup (''_'' @ util_strdown app @ ''_'') = ''_'' @ ?m @ ''_''"
    by (simp add: util_strup_def islower_def)
  have "util_strup (''_'' @ ?m @ ''_'') = ''_'' @ ?m @ ''_''"
    using util_strup_idem [of "util_strdown app"] by (simp add: util_strup_def islower_def)
  moreover have "CHR ''='' \<notin> set ?m" "CHR ''.'' \<notin> set ?m"
    by (rule nope, simp add: ctype_defs)+
  ultimately show ?thesis
    using m h unfolding eq prefix_ok_def by (cases ?m) simp_all
qed

lemma prop_ord_APP: "prop_ord P_APP = 0"
  by (simp add: prop_ord_def prop_enum_def)

lemma prop_entry_APP: "prop_entry_of P_APP = \<lparr>pr_name = ''APP'', pr_desc = Some ''Base name of the application'',
     pr_dflt = Some ''ao'', pr_flags = PROP_FLAG_INTERNAL, pr_pad = 0, pr_index = P_APP\<rparr>"
  by (simp add: prop_entry_of_def prop_ord_APP proptab_def proptab_1_def)

lemma prop_init_inv:
  assumes "app_ok app"
  shows "\<exists>st. prop_init (prop_start env) app = Inr st \<and> prop_inv st"
proof -
  let ?v = "util_strdown app"
  have len: "length ?v \<le> 80" using assms by (simp add: app_ok_def util_strdown_def)
  have nn: "?v \<noteq> PROP_NULL"
  proof
    assume "?v = PROP_NULL"
    moreover have "list_all isalnum ?v"
      using assms isalnum_case by (auto simp: app_ok_def util_strdown_def list_all_iff)
    ultimately show False by (simp add: PROP_NULL_def ctype_defs)
  qed
  have "snprintf 128 (''_'' @ ?v @ ''_'') = ''_'' @ ?v @ ''_''"
    using len by (simp add: snprintf_def)
  moreover have "\<not> exported (prop_start env) P_APP"
    by (simp add: exported_def prop_start_def prop_entry_APP PROP_FLAG_INTERNAL_def)
  ultimately show ?thesis
    using nn prefix_ok_app [OF assms]
    by (auto simp: prop_init_def Let_def prop_assert_def prop_get_str_def prop_get_str_i_def
        prop_start_def prop_inv_def exported_def split: if_splits)
qed

text \<open>
  The states of the property table: initialised by \<open>prop_init\<close>, then changed by the
  operations on single properties, from which all the others are composed. The caller of
  \<open>prop_mod_str\<close> works on \<open>environ\<close>; \<open>same\<close> implies that the value is the one stored.
\<close>

inductive prop_reach :: "string list \<Rightarrow> string \<Rightarrow> prop_state \<Rightarrow> bool" for env app where
  init: "prop_init (prop_start env) app = Inr st \<Longrightarrow> prop_reach env app st"
| put: "prop_reach env app st \<Longrightarrow> prop_put_str st p v = Inr st' \<Longrightarrow> prop_reach env app st'"
| unset: "prop_reach env app st \<Longrightarrow> prop_reach env app (prop_unset st p u)"
| unexport: "prop_reach env app st \<Longrightarrow> prop_reach env app (prop_unexport st p True)"
| modify: "prop_reach env app st \<Longrightarrow> prop_mod_str st p val same None = Inr (st', es) \<Longrightarrow>
    (same \<longrightarrow> pvals st p = Some val) \<Longrightarrow> p \<noteq> P_BASE_DIR \<Longrightarrow> p \<noteq> P_PROJECT_NAME \<Longrightarrow>
    prop_reach env app st'"

lemma prop_reach_inv: "prop_reach env app st \<Longrightarrow> app_ok app \<Longrightarrow> prop_inv st"
proof (induction rule: prop_reach.induct)
  case (init st)
  from prop_init_inv [OF init(2), of env] init(1) show ?case by auto
qed (auto intro: prop_put_str_inv prop_unset_inv prop_unexport_inv prop_mod_str_inv)

text \<open>
  C15. In every reachable state the environment of the process carries the value of every
  exported property that is set, under its own variable: what a child process inherits
  agrees with the table.
\<close>

theorem exported_value_in_environment:
  assumes "prop_reach env app st" and "app_ok app" and "exported st p" and "pvals st p = Some v"
  shows "getenv (export_name st p) (environ st) = Some v"
  using prop_reach_inv [OF assms(1,2)] assms(3,4) by (simp add: prop_inv_def)

lemma prop_ord_VERBOSITY: "prop_ord P_VERBOSITY = 70"
  by (simp add: prop_ord_def prop_enum_def)

lemma prop_entry_VERBOSITY: "prop_entry_of P_VERBOSITY = \<lparr>pr_name = ''Verbosity'',
     pr_desc = Some ''Set verbosity flags'', pr_dflt = Some ''STD'',
     pr_flags = PROP_FLAG_PUBLIC OR PROP_FLAG_EXPORT, pr_pad = 0, pr_index = P_VERBOSITY\<rparr>"
  by (simp add: prop_entry_of_def prop_ord_VERBOSITY proptab_defs)

lemma prop_ord_GIT_APP: "prop_ord P_GIT = 23" "prop_ord P_LOG_FILE = 27"
  by (simp_all add: prop_ord_def prop_enum_def)

lemma prop_entry_GIT: "pr_pad (prop_entry_of P_GIT) = 0" "pr_flags (prop_entry_of P_GIT) = 0"
  by (simp_all add: prop_entry_of_def prop_ord_GIT_APP proptab_defs)

lemma prop_put_str_i_unset:
  assumes "pvals st p = None" and "v \<noteq> PROP_NULL"
  shows "\<exists>st'. prop_put_str_i st p v = Inr st' \<and> pvals st' = (pvals st)(p := Some v) \<and> pflags st' = pflags st"
  using assms prop_export_value [of "st\<lparr>pvals := (pvals st)(p := Some v)\<rparr>" p v]
  by (simp add: prop_put_str_i_def Let_def)

lemma prop_put_str_unset:
  assumes "pvals st p = None" and "\<not> 0 < pr_pad (prop_entry_of p)" and "v \<noteq> PROP_NULL"
  shows "\<exists>st'. prop_put_str st p v = Inr st' \<and> pvals st' = (pvals st)(p := Some v) \<and> pflags st' = pflags st"
  using assms prop_put_str_i_unset [of st p v] by (simp add: prop_put_str_def Let_def)

lemma prop_override_get:
  assumes "\<not> 0 < pr_pad (prop_entry_of p)" and "v \<noteq> PROP_NULL"
  shows "\<exists>st'. prop_override_str st p v = Inr st' \<and> prop_get_str st' p = Inr (Some v) \<and>
    pvals st' = (pvals st)(p := Some v) \<and> pflags st' = pflags (prop_unset st p False)"
proof -
  have "pvals (prop_unset st p False) = (pvals st)(p := None)" by (auto simp: prop_unset_def Let_def)
  then show ?thesis
    using prop_put_str_unset [of "prop_unset st p False" p v] assms
    by (auto simp: prop_override_str_def prop_get_str_def prop_get_str_i_def prop_get_value_simp)
qed

lemma prop_init_start:
  assumes "app_ok app"
  obtains st where "prop_init (prop_start env) app = Inr st" "prop_inv st"
    "pvals st = [P_APP \<mapsto> util_strdown app]" "pflags st = pflags (prop_start env)"
proof -
  obtain st where st: "prop_init (prop_start env) app = Inr st" "prop_inv st"
    using prop_init_inv [OF assms] by blast
  moreover from st(1) have "pvals st = [P_APP \<mapsto> util_strdown app]" "pflags st = pflags (prop_start env)"
    by (auto simp: prop_init_def prop_start_def Let_def bindR_eq_Inr split: if_splits)
  ultimately show ?thesis using that by blast
qed

theorem exported_value_in_environment_witness:
  "\<exists>st. prop_reach [] ''ao'' st \<and> pvals st P_VERBOSITY = Some ''ON'' \<and>
     getenv (export_name st P_VERBOSITY) (environ st) = Some ''ON''"
proof -
  have app: "app_ok ''ao''" by (simp add: app_ok_def ctype_defs)
  obtain st0 where i: "prop_init (prop_start []) ''ao'' = Inr st0"
    and v: "pvals st0 = [P_APP \<mapsto> util_strdown ''ao'']" and f: "pflags st0 = pflags (prop_start [])"
    by (rule prop_init_start [OF app])
  have st0: "prop_init (prop_start []) ''ao'' = Inr st0" "pvals st0 P_VERBOSITY = None"
    "pflags st0 = pflags (prop_start [])"
    by (simp_all add: i v f)
  have "\<not> 0 < pr_pad (prop_entry_of P_VERBOSITY)" "''ON'' \<noteq> PROP_NULL"
    by (simp_all add: prop_entry_VERBOSITY PROP_NULL_def)
  from prop_put_str_unset [OF st0(2) this] obtain st1 where
    st1: "prop_put_str st0 P_VERBOSITY ''ON'' = Inr st1"
    "pvals st1 P_VERBOSITY = Some ''ON''" "pflags st1 = pflags (prop_start [])"
    using st0(3) by (auto simp only: fun_upd_same)
  have r: "prop_reach [] ''ao'' st1" using st0 st1 by (auto intro: prop_reach.intros)
  have "exported st1 P_VERBOSITY"
    by (simp add: exported_def st1 prop_start_def prop_entry_VERBOSITY prop_consts)
  with exported_value_in_environment [OF r app] st1 r show ?thesis by blast
qed

text \<open>
  A first setting wins: while a property has a value, another \<open>prop_put_str\<close> of it
  changes nothing at all, and \<open>prop_override_str\<close> is the way to replace it.
\<close>

theorem first_setting_wins:
  assumes "pvals st p = Some old" and "\<not> 0 < pr_pad (prop_entry_of p)" and "v \<noteq> PROP_NULL"
  shows "prop_put_str st p v = Inr st \<and>
    (\<exists>st'. prop_override_str st p v = Inr st' \<and> pvals st' p = Some v \<and>
       (\<forall>q. q \<noteq> p \<longrightarrow> pvals st' q = pvals st q))"
proof -
  have "pvals (prop_unset st p False) = (pvals st)(p := None)"
    using assms(1) by (simp add: prop_unset_def Let_def)
  then show ?thesis
    using assms prop_put_str_unset [of "prop_unset st p False" p v]
    by (auto simp: prop_override_str_def) (simp add: prop_put_str_def prop_put_str_i_def Let_def)
qed

theorem first_setting_wins_witness:
  "prop_put_str ((prop_start [])\<lparr>pvals := [P_VERBOSITY \<mapsto> ''ON'']\<rparr>) P_VERBOSITY ''OFF''
     = Inr ((prop_start [])\<lparr>pvals := [P_VERBOSITY \<mapsto> ''ON'']\<rparr>)"
  using first_setting_wins [of "(prop_start [])\<lparr>pvals := [P_VERBOSITY \<mapsto> ''ON'']\<rparr>" P_VERBOSITY "''ON''" "''OFF''"]
  by (simp add: prop_entry_VERBOSITY PROP_NULL_def)

text \<open>
  The value \<open><NULL>\<close>, meant to set a property to no value, ends the program when the
  property is exported: \<open>_prop_export\<close> takes the missing string for a missing required
  property.
\<close>

theorem exported_null_is_fatal:
  assumes "exported st p" and "pvals st p = None" and "\<not> 0 < pr_pad (prop_entry_of p)"
  shows "prop_put_str st p PROP_NULL = Inl (Exit 2)"
  using assms prop_export_value [of "st\<lparr>pvals := (pvals st)(p := Some PROP_NULL)\<rparr>" p PROP_NULL]
  by (simp add: prop_put_str_def prop_put_str_i_def Let_def)

theorem exported_null_is_fatal_witness:
  "prop_put_str (prop_start []) P_VERBOSITY ''<NULL>'' = Inl (Exit 2)"
  using exported_null_is_fatal [of "prop_start []" P_VERBOSITY]
  by (simp add: prop_start_def exported_def prop_entry_VERBOSITY prop_consts)

section \<open>Numbers\<close>

lemma strtoul_pad: "c_strtoul b (fmt_pad n s) = c_strtoul b s"
proof -
  have "dropWhile isspace (replicate k CHR '' '' @ s) = dropWhile isspace s" for k
    by (induction k) (simp_all add: isspace_def)
  then show ?thesis by (simp add: fmt_pad_def c_strtoul_def scan_number_def)
qed

lemma fmt_lu_isdigit: "list_all isdigit (fmt_lu v)"
proof -
  have "list_all isdigit (nat_to_radix 10 n)" for n
  proof (induction n rule: less_induct)
    case (less n)
    have d: "isdigit (CHRS ! k)" if "k < 10" for k
    proof -
      have "list_all (\<lambda>k. isdigit (CHRS ! k)) [0..<10]" by (simp add: upt_rec CHRS_def isdigit_def)
      with that show ?thesis by (simp add: list_all_iff)
    qed
    show ?case
    proof (cases "n < 10")
      case True
      then show ?thesis by (simp add: nat_to_radix_less d)
    next
      case False
      then show ?thesis using less.IH [of "n div 10"] by (simp add: nat_to_radix_ge d)
    qed
  qed
  then show ?thesis by (simp add: fmt_lu_def)
qed

lemma number_base_pad: "list_all isdigit s \<Longrightarrow> s \<noteq> [] \<Longrightarrow> number_base (fmt_pad n s) = 10"
proof (cases "n - length s")
  case 0
  assume s: "list_all isdigit s"
  have "s ! 1 \<noteq> CHR ''x'' \<and> s ! 1 \<noteq> CHR ''X''" if "2 \<le> length s"
  proof -
    have "isdigit (s ! 1)" using s that by (simp add: list_all_length)
    then show ?thesis by (auto simp: isdigit_def)
  qed
  with 0 show ?thesis by (auto simp: number_base_def fmt_pad_def)
qed (simp add: number_base_def fmt_pad_def)

lemma true_word_pad: "list_all isdigit s \<Longrightarrow> s \<noteq> [] \<Longrightarrow> \<not> true_word (fmt_pad n s)"
proof -
  assume "list_all isdigit s" and ne: "s \<noteq> []"
  then have d: "isdigit (last (fmt_pad n s))" "fmt_pad n s \<noteq> []"
    by (simp_all add: fmt_pad_def list_all_iff)
  have "map tolower (fmt_pad n s) \<noteq> t" if "t \<noteq> []" "\<not> isdigit (last t)" for t
  proof
    assume "map tolower (fmt_pad n s) = t"
    then have "last t = tolower (last (fmt_pad n s))" using d(2) by (auto simp: last_map)
    with d that show False by (simp add: tolower_def isdigit_def isupper_def)
  qed
  from this [of "map tolower ''true''"] this [of "map tolower PROP_TRUE"] this [of "map tolower ''yes''"]
  show ?thesis
    by (simp add: true_word_def c_stricmp_eq_0 PROP_TRUE_def last_map tolower_def isupper_def isdigit_def)
qed

lemma length_fmt_lu_pad:
  assumes "unat v < 10 ^ n" and "0 < n"
  shows "length (fmt_lu v) \<le> n"
proof -
  have "n = Suc k \<Longrightarrow> m < 10 ^ n \<Longrightarrow> length (nat_to_radix 10 m) \<le> n" for n k m :: nat
  proof (induction k arbitrary: n m)
    case 0
    then show ?case by (simp add: nat_to_radix_less)
  next
    case (Suc k)
    show ?case
    proof (cases "m < 10")
      case False
      have "m div 10 < 10 ^ Suc k" using Suc.prems by (simp add: div_less_iff_less_mult)
      with False Suc show ?thesis by (simp add: nat_to_radix_ge)
    qed (use Suc.prems in \<open>simp add: nat_to_radix_less\<close>)
  qed
  with assms show ?thesis by (cases n) (simp_all add: fmt_lu_def)
qed

text \<open>
  A number stored with \<open>prop_put_ulong\<close> is read back unchanged, also when it is padded
  for in-place updates, provided that it fits the padding.
\<close>

theorem ulong_roundtrip:
  assumes "pvals st p = None" and "\<not> 0 < pr_pad (prop_entry_of p) \<or> unat v < 10 ^ nat (pr_pad (prop_entry_of p))"
  shows "\<exists>st'. prop_put_ulong st p v = Inr st' \<and> prop_get_ulong st' p = Inr v"
proof -
  let ?n = "nat (pr_pad (prop_entry_of p))"
  have lu: "list_all isdigit (fmt_lu v)" "fmt_lu v \<noteq> []"
    by (rule fmt_lu_isdigit) (simp add: fmt_lu_def)
  have s64: "snprintf 64 (fmt_lu v) = fmt_lu v"
    using length_fmt_lu [of v] by (simp add: snprintf_def)
  let ?s = "fmt_pad ?n (fmt_lu v)"
  have last: "isdigit (last ?s)" using lu by (simp add: fmt_pad_def list_all_iff)
  have nn: "?s \<noteq> PROP_NULL"
  proof
    assume "?s = PROP_NULL"
    with last show False by (simp add: PROP_NULL_def isdigit_def)
  qed
  have put: "prop_put_ulong st p v = prop_put_str_i st p ?s"
  proof (cases "0 < pr_pad (prop_entry_of p)")
    case True
    then have "length (fmt_lu v) \<le> ?n" using assms(2) by (intro length_fmt_lu_pad) simp_all
    then have "snprintf (?n + 1) ?s = ?s" by (simp add: snprintf_def length_fmt_pad)
    with True s64 show ?thesis by (simp add: prop_put_ulong_def prop_put_str_def Let_def)
  next
    case False
    with s64 show ?thesis by (simp add: prop_put_ulong_def prop_put_str_def Let_def fmt_pad_def)
  qed
  obtain st' where st': "prop_put_str_i st p ?s = Inr st'" "pvals st' p = Some ?s"
    using prop_put_str_i_unset [OF assms(1) nn] by auto
  have "prop_get_ulong st' p = Inr v"
    using prop_get_str_Some [OF st'(2) nn] true_word_pad [OF lu] number_base_pad [OF lu]
    by (simp add: prop_get_ulong_def strtoul_pad)
  with put st'(1) show ?thesis by auto
qed

theorem ulong_roundtrip_witness:
  "\<exists>st'. prop_put_ulong (prop_start []) P_GIT 42 = Inr st' \<and> prop_get_ulong st' P_GIT = Inr 42"
  by (rule ulong_roundtrip) (simp_all add: prop_start_def prop_entry_GIT)

section \<open>Loading\<close>

lemma load_assignment:
  assumes "exported st p"
  shows "prop_load_from_ev st (ev_name p @ ''='' @ v) = prop_put_str st p v"
  using assms ev_name_back [of p] split_at_append [OF ev_name_eqsign]
  by (simp add: prop_load_from_ev_def Let_def)

lemma matches_export_name:
  assumes "prefix_ok (env_prefix st)"
  shows "\<exists>k. prop_matches_ev_name st (export_name st p @ x) = k \<and> 0 < k \<and>
    drop k (export_name st p @ x) = ev_name p @ x"
proof -
  obtain a r where pfx: "env_prefix st = CHR ''_'' # a # r" "a \<noteq> CHR ''_''"
    using assms by (cases "env_prefix st"; cases "tl (env_prefix st)") (auto simp: prefix_ok_def)
  show ?thesis
  proof (cases "p = P_BASE_DIR \<or> p = P_PROJECT_NAME")
    case True
    then have "export_name st p = a # r @ ev_name p"
      by (simp add: export_name_def Let_def prop_to_ev_ok [OF assms] pfx)
    with pfx show ?thesis by (simp add: prop_matches_ev_name_def Let_def strneq0_def)
  next
    case False
    then have "export_name st p = CHR ''_'' # a # r @ ev_name p"
      by (simp add: export_name_def Let_def prop_to_ev_ok [OF assms] pfx)
    with pfx show ?thesis by (simp add: prop_matches_ev_name_def Let_def strneq0_def)
  qed
qed

text \<open>
  C16. Exporting and loading are inverse: the assignment the environment carries for a
  property is recognised under the same application prefix, whether or not it has the leading
  underscore, and loading it is the same as setting the property to the same string.
\<close>

theorem environment_roundtrip:
  assumes "prefix_ok (env_prefix st)" and "env_prefix child = env_prefix st" and "exported child p"
  shows "\<exists>k. prop_matches_ev_name child (export_name st p @ ''='' @ v) = k \<and> 0 < k \<and>
    prop_load_from_ev child (drop k (export_name st p @ ''='' @ v)) = prop_put_str child p v"
proof -
  have "export_name child p = export_name st p"
    using assms(2) by (simp add: export_name_def prop_to_ev_def)
  with matches_export_name [of child p "''='' @ v"] assms load_assignment [OF assms(3)]
  show ?thesis by (metis (no_types))
qed

theorem environment_roundtrip_witness:
  "\<exists>k. prop_matches_ev_name ((prop_start [])\<lparr>env_prefix := ''_AO_''\<rparr>)
        (export_name ((prop_start [])\<lparr>env_prefix := ''_AO_''\<rparr>) P_VERBOSITY @ ''='' @ ''ON'') = k \<and> 0 < k \<and>
     prop_load_from_ev ((prop_start [])\<lparr>env_prefix := ''_AO_''\<rparr>)
        (drop k (export_name ((prop_start [])\<lparr>env_prefix := ''_AO_''\<rparr>) P_VERBOSITY @ ''='' @ ''ON''))
     = prop_put_str ((prop_start [])\<lparr>env_prefix := ''_AO_''\<rparr>) P_VERBOSITY ''ON''"
proof (rule environment_roundtrip)
  show "prefix_ok (env_prefix ((prop_start [])\<lparr>env_prefix := ''_AO_''\<rparr>))"
    by (simp add: prefix_ok_def util_strup_def islower_def)
  show "exported ((prop_start [])\<lparr>env_prefix := ''_AO_''\<rparr>) P_VERBOSITY"
    by (simp add: exported_def prop_start_def prop_entry_VERBOSITY prop_consts)
qed simp

lemma scan_key_plain:
  "list_all (\<lambda>c. \<not> isspace c) k \<Longrightarrow> CHR ''='' \<notin> set k \<Longrightarrow> CHR '':'' \<notin> set k \<Longrightarrow> backslash \<notin> set k \<Longrightarrow>
     isspace d \<or> d = CHR ''='' \<or> d = CHR '':'' \<Longrightarrow> scan_key (k @ d # r) = Some (k, d # r)"
  by (induction k) auto

lemma dropWhile_hd: "x \<noteq> [] \<Longrightarrow> \<not> P (hd x) \<Longrightarrow> dropWhile P (x @ y) = x @ y"
  by (cases x) simp_all

text \<open>
  C17. A line \<open>Name = value\<close> of a properties file, its name in any case and the value free of
  white space at both ends, sets the named property to exactly that value; with \<open>win\<close> it
  replaces an earlier setting.
\<close>

theorem properties_line_sets:
  assumes "c_stricmp name (prop_to_name p) = 0" and "name_ok name" and "val \<noteq> []"
    and "\<not> isspace (hd val)" and "\<not> isspace (last val)" and "length name + length val < 1000"
  shows "prop_process_line st (name @ '' = '' @ val @ [newline]) win =
    bindR (prop_put_str (if win then prop_unset st p False else st) p val) (\<lambda>st. Inr (0, st))"
proof -
  let ?line = "name @ '' = '' @ val @ [newline]"
  have nl: "isspace newline" by (simp add: newline_def isspace_def)
  have buf: "snprintf 1024 ?line = ?line" using assms(6) by (simp add: snprintf_def)
  have name: "name \<noteq> []" "\<not> isspace (hd name)"
    using assms(2) by (auto simp: name_ok_def list_all_iff)
  have trimmed: "rev (dropWhile isspace (rev ?line)) = name @ '' = '' @ val"
  proof -
    obtain u l where "val = u @ [l]" using assms(3) by (cases val rule: rev_exhaust) auto
    with nl assms(5) show ?thesis by simp
  qed
  have bp: "dropWhile isspace (name @ '' = '' @ val) = name @ '' = '' @ val"
    by (rule dropWhile_hd) (use name in auto)
  have h: "hd (name @ '' = '' @ val) = hd name" using name(1) by simp
  have sp: "isspace CHR '' ''" "\<not> isspace CHR ''=''" by (simp_all add: isspace_def)
  have key: "scan_key (name @ '' = '' @ val) = Some (name, '' = '' @ val)"
    using assms(2) sp scan_key_plain [of name "CHR '' ''" "''= '' @ val"] by (simp add: name_ok_def)
  have kv: "key_value ('' = '' @ val) = val"
    using sp assms(3,4) dropWhile_hd [of val isspace "[]"] by (simp add: key_value_def Let_def)
  have pn: "prop_from_name name = Some p"
    using assms(1) by (intro prop_from_name_same) (simp add: c_stricmp_eq_0)
  have len: "length ?line \<noteq> 1" by simp
  have hash: "hd name \<noteq> CHR ''#''" "hd name \<noteq> CHR ''!''" using assms(2) by (simp_all add: name_ok_def)
  show ?thesis
    unfolding prop_process_line_def Let_def buf trimmed bp h key
    using len hash name kv by (simp add: pn)
qed

theorem properties_line_sets_witness:
  "prop_process_line (prop_start []) (''verbosity'' @ '' = '' @ ''ON'' @ [newline]) False =
     bindR (prop_put_str (prop_start []) P_VERBOSITY ''ON'') (\<lambda>st. Inr (0, st))"
proof -
  have "c_stricmp ''verbosity'' (prop_to_name P_VERBOSITY) = 0"
    by (simp add: c_stricmp_eq_0 prop_to_name_def prop_entry_VERBOSITY tolower_def isupper_def
        char_of_def bit_0 bit_Suc)
  moreover have "name_ok ''verbosity''" by (simp add: name_ok_def isspace_def backslash_def)
  ultimately show ?thesis
    using properties_line_sets [of "''verbosity''" P_VERBOSITY "''ON''" "prop_start []" False]
    by (simp add: isspace_def)
qed

text \<open>
  A line of two or more white-space characters, the newline included, makes the trimming
  loop run out of the front of its buffer.
\<close>

theorem blank_line_faults:
  assumes "list_all isspace line" and "2 \<le> length line"
  shows "\<exists>m. prop_process_line st line win = Inl (Fault m)"
proof -
  have "dropWhile isspace (rev (snprintf 1024 line)) = []"
    using assms(1) by (auto simp: snprintf_def list_all_iff dest: in_set_takeD)
  moreover have "length (snprintf 1024 line) \<noteq> 1" using assms(2) by (simp add: snprintf_def)
  ultimately show ?thesis by (simp add: prop_process_line_def Let_def)
qed

theorem blank_line_faults_witness:
  "\<exists>m. prop_process_line (prop_start []) [CHR '' '', newline] True = Inl (Fault m)"
  by (rule blank_line_faults) (simp_all add: isspace_def newline_def)

lemma load_non_exported:
  assumes "\<not> exported st p" and "pvals st p = None" and "\<not> 0 < pr_pad (prop_entry_of p)"
  shows "prop_load_from_ev st (ev_name p @ ''='' @ v) =
    Inr (st\<lparr>environ := putil_unsetenv (prop_to_ev st p PROP_NAME_MAX) (environ st),
            pvals := (pvals st)(p := Some v)\<rparr>)"
  using assms ev_name_back [of p] split_at_append [OF ev_name_eqsign]
  by (simp add: prop_load_from_ev_def prop_unexport_def prop_put_str_def prop_put_str_i_def Let_def)

text \<open>
  Loading the environment removes the entries of properties which are not exported, in
  the array it is walking over: when two such settings stand next to each other the second
  one is skipped and its property stays unset.
\<close>

theorem adjacent_settings_skipped:
  assumes "prefix_ok (env_prefix st)" and "\<not> exported st p" and "pvals st p = None"
    and "\<not> 0 < pr_pad (prop_entry_of p)" and "p \<noteq> P_BASE_DIR" and "p \<noteq> P_PROJECT_NAME"
    and "environ st = [export_name st p @ ''='' @ v, export_name st q @ ''='' @ w]"
    and "length v < 800"
  shows "prop_load files st None False =
    Inr (st\<lparr>environ := [export_name st q @ ''='' @ w], pvals := (pvals st)(p := Some v)\<rparr>)"
proof -
  let ?e1 = "export_name st p @ ''='' @ v"
  let ?e2 = "export_name st q @ ''='' @ w"
  let ?st' = "st\<lparr>environ := [?e2], pvals := (pvals st)(p := Some v)\<rparr>"
  have n: "export_name st p = prop_to_ev st p PROP_NAME_MAX"
    using assms(5,6) by (simp add: export_name_def Let_def)
  obtain k where k: "prop_matches_ev_name st ?e1 = k" "0 < k" "drop k ?e1 = ev_name p @ ''='' @ v"
    using matches_export_name [OF assms(1)] by metis
  have "length (ev_name p) \<le> 32"
    using prop_name_ok [of p] by (simp add: ev_name_map name_ok_def)
  then have fits: "\<not> PROP_STR_MAX \<le> length (drop k ?e1)"
    using assms(8) unfolding k(3) by (simp add: PROP_STR_MAX_def)
  have "putil_unsetenv (prop_to_ev st p PROP_NAME_MAX) (environ st) = [?e2]"
    by (simp add: assms(7) flip: n) (simp add: prefix_of_def)
  then have load: "prop_load_from_ev st (drop k ?e1) = Inr ?st'"
    unfolding k(3) load_non_exported [OF assms(2,3,4)] by simp
  have "env_walk st None 0 = env_walk ?st' None 1"
    using k fits load by (subst env_walk.simps) (simp add: assms(7) Let_def)
  also have "\<dots> = Inr ?st'" by (subst env_walk.simps) simp
  finally show ?thesis by (simp add: prop_load_def)
qed

theorem adjacent_settings_skipped_witness:
  "let st = (prop_start [])\<lparr>env_prefix := ''_AO_''\<rparr>;
       st = st\<lparr>environ := [export_name st P_GIT @ ''='' @ ''1'', export_name st P_LOG_FILE @ ''='' @ ''x'']\<rparr>
   in \<exists>st'. prop_load (\<lambda>f. None) st None False = Inr st' \<and> pvals st' P_LOG_FILE = None"
proof -
  let ?st0 = "(prop_start [])\<lparr>env_prefix := ''_AO_''\<rparr>"
  let ?st = "?st0\<lparr>environ := [export_name ?st0 P_GIT @ ''='' @ ''1'', export_name ?st0 P_LOG_FILE @ ''='' @ ''x'']\<rparr>"
  have "prop_load (\<lambda>f. None) ?st None False = Inr (?st\<lparr>environ := [export_name ?st P_LOG_FILE @ ''='' @ ''x''],
      pvals := (pvals ?st)(P_GIT := Some ''1'')\<rparr>)"
  proof (rule adjacent_settings_skipped)
    show "prefix_ok (env_prefix ?st)" by (simp add: prefix_ok_def util_strup_def islower_def)
    show "\<not> exported ?st P_GIT" by (simp add: exported_def prop_start_def prop_entry_GIT)
    show "pvals ?st P_GIT = None" by (simp add: prop_start_def)
  qed (simp_all add: prop_entry_GIT)
  then show ?thesis by (simp add: prop_start_def)
qed

section \<open>Custom environments\<close>

lemma mset_env_insert [simp]: "mset (env_insert x ys) = add_mset x (mset ys)"
  by (induction ys) auto

lemma mset_env_sort: "mset (env_sort es) = mset es"
  by (induction es) (simp_all add: env_sort_def)

definition env_le :: "string \<Rightarrow> string \<Rightarrow> bool" where
  "env_le x y = (c_strcmp x y \<le> 0)"

lemma env_le_trans: "env_le x y \<Longrightarrow> env_le y z \<Longrightarrow> env_le x z"
  unfolding env_le_def
  by (metis c_strcmp_eq_0 c_strcmp_trans order_le_less)

lemma env_le_linear: "env_le x y \<or> env_le y x"
  using c_strcmp_antisym [of x y] by (auto simp: env_le_def)

lemma sorted_env_sort: "sorted_wrt env_le (env_sort es)"
proof -
  have "sorted_wrt env_le ys \<Longrightarrow> sorted_wrt env_le (env_insert x ys)" for x ys
  proof (induction ys)
    case (Cons y ys)
    have "set (env_insert x ys) = insert x (set ys)"
      by (metis mset_env_insert set_mset_add_mset_insert set_mset_mset)
    with Cons env_le_trans [of x y] env_le_linear [of x y] show ?case
      by (auto simp flip: env_le_def)
  qed (simp add: env_le_def)
  then show ?thesis by (induction es) (simp_all add: env_sort_def)
qed

text \<open>
  The environment built for a child is sorted and consists of the caller's entries that
  do not carry the application's prefix and one assignment for each exported property with a
  value; no entry is lost or duplicated.
\<close>

theorem custom_env_contents:
  "sorted_wrt env_le (prop_custom_envA st cenv) \<and>
   mset (prop_custom_envA st cenv) = filter_mset (\<lambda>e. prop_matches_ev_name st e = 0) (mset cenv)
     + mset (map (\<lambda>(p, v). prop_to_ev st p PROP_NAME_MAX @ ''='' @ v) (exportable st))"
  by (simp add: prop_custom_envA_def Let_def sorted_env_sort mset_env_sort)

text \<open>
  C18. The size computed beforehand for the block of a custom environment is sufficient: the
  pointer, the array and the strings written never exceed it.
\<close>

theorem custom_env_block_fits:
  "env_block_used (prop_custom_envA st cenv) \<le> prop_new_env_block_sizeA st cenv"
proof -
  let ?c = "filter (\<lambda>e. prop_matches_ev_name st e = 0) cenv"
  let ?x = "map (\<lambda>(p, v). prop_to_ev st p PROP_NAME_MAX @ ''='' @ v) (exportable st)"
  let ?w = "\<lambda>e :: string. length e + 9"
  have used: "env_block_used es = 16 + sum_list (map ?w es)" for es
    by (induction es) (simp_all add: env_block_used_def)
  have "sum_list (map ?w (env_sort (?c @ ?x))) = sum_list (map ?w (?c @ ?x))"
    unfolding sum_mset_sum_list [symmetric] mset_map mset_env_sort ..
  then have "env_block_used (prop_custom_envA st cenv) = 16 + sum_list (map ?w ?c) + sum_list (map ?w ?x)"
    by (simp add: used prop_custom_envA_def Let_def)
  moreover have "sum_list (map ?w ?c) \<le> sum_list (map ?w cenv)"
    by (induction cenv) auto
  moreover have "sum_list (map ?w ?x) = sum_list (map (\<lambda>(p, v).
      length (prop_to_ev st p PROP_NAME_MAX) + length v + 2 + 8) (exportable st))"
    by (simp add: comp_def case_prod_unfold)
  moreover have "sum_list (map ?w cenv) = sum_list (map (\<lambda>e. length e + 1 + 8) cenv)"
    by (simp add: add.commute)
  ultimately show ?thesis by (simp add: prop_new_env_block_sizeA_def)
qed

text \<open>
  \<open>prop_unset\<close> with removal from the environment does not remove the base directory: it
  is exported without the leading underscore, but the variable removed is the one with it.
\<close>

theorem base_dir_not_unexported:
  assumes "prop_inv st" and "pvals st P_BASE_DIR = Some d" and "exported st P_BASE_DIR"
  shows "getenv (export_name st P_BASE_DIR) (environ (prop_unset st P_BASE_DIR True)) = Some d"
proof -
  have pfx: "prefix_ok (env_prefix st)" using assms(1) by (simp add: prop_inv_def)
  let ?n = "prop_to_ev st P_BASE_DIR PROP_NAME_MAX"
  have n: "?n = env_prefix st @ ev_name P_BASE_DIR" by (rule prop_to_ev_ok [OF pfx])
  obtain a r where p: "env_prefix st = CHR ''_'' # a # r" "a \<noteq> CHR ''_''"
    using pfx by (cases "env_prefix st"; cases "tl (env_prefix st)") (auto simp: prefix_ok_def)
  have "?n \<noteq> export_name st P_BASE_DIR" using p n by (simp add: export_name_def)
  moreover have "CHR ''='' \<notin> set ?n"
    using pfx ev_name_eqsign by (simp add: n prefix_ok_def)
  ultimately have "getenv (export_name st P_BASE_DIR) (putil_unsetenv ?n (environ st)) =
      getenv (export_name st P_BASE_DIR) (environ st)"
    using export_name_eqsign [OF pfx] by (intro getenv_unsetenv_other)
  with assms show ?thesis
    by (simp add: prop_unset_def prop_unexport_def Let_def prop_inv_def prop_to_ev_def)
qed

end
