(* ===== verification/PathName.thy ===== *)
theory PathName
  imports Prop
begin

text \<open>
  Path names (\<open>src/pn.c\<close>): a canonical absolute path with the offset of its project-relative
  part. The canonicalisation is the state machine of \<open>_pn_path_canon\<close>; its specification is
  a fold over the components of the path.
\<close>

section \<open>Canonicalisation\<close>

datatype canon_state = ST_START | ST_SEPARATOR | ST_NORMAL | ST_DOT1 | ST_DOT2

definition sepchar :: "char \<Rightarrow> bool" where
  \<comment> \<open>\<open>strchr(srcsep, c)\<close> for the separators \<open>\<open>\/\<close>\<close> and a character other than NUL\<close>
  "sepchar c = (c = backslash \<or> c = CHR ''/'')"

definition slash :: char where "slash = CHR ''/''"

text \<open>
  The destination is kept as the list of the characters written, last one first. At the end
  of a component \<open>..\<close> the two dots are taken back; then, unless only the root is left, the
  separator before them and the characters back to the preceding separator.
\<close>

definition pop_dotdot :: "string \<Rightarrow> string" where
  "pop_dotdot out =
     (let dst = drop 2 out
      in if length dst \<le> 1 then dst else dropWhile (\<lambda>c. c \<noteq> slash) (tl dst))"

text \<open>
  \<open>cap\<close> is \<open>dlim - dst\<close> at the start; the empty source stands at its NUL, and one character
  further (after \<open>ST_START\<close> took the NUL for a separator) is \<open>slim\<close>. \<open>None\<close> is the return
  code -1.
\<close>

function pn_path_canon :: "canon_state \<Rightarrow> string \<Rightarrow> string \<Rightarrow> nat \<Rightarrow> string option" where
  "pn_path_canon state src dst cap =
     (if length dst \<ge> cap then None
      else case state of
        ST_START \<Rightarrow>
          (case src of
             [] \<Rightarrow> None
           | c # s \<Rightarrow>
               if sepchar c then pn_path_canon ST_SEPARATOR s (slash # dst) cap
               else if c = CHR ''.'' then pn_path_canon ST_DOT1 s (c # dst) cap
               else pn_path_canon ST_NORMAL s (c # dst) cap)
      | ST_SEPARATOR \<Rightarrow>
          (case src of
             [] \<Rightarrow> Some (rev dst)
           | c # s \<Rightarrow>
               if sepchar c then pn_path_canon ST_SEPARATOR s dst cap
               else if c = CHR ''.'' then pn_path_canon ST_DOT1 s (c # dst) cap
               else pn_path_canon ST_NORMAL s (c # dst) cap)
      | ST_NORMAL \<Rightarrow>
          (case src of
             [] \<Rightarrow> Some (rev dst)
           | c # s \<Rightarrow>
               if sepchar c then pn_path_canon ST_SEPARATOR s (slash # dst) cap
               else pn_path_canon ST_NORMAL s (c # dst) cap)
      | ST_DOT1 \<Rightarrow>
          (case src of
             [] \<Rightarrow> Some (rev (tl dst))
           | c # s \<Rightarrow>
               if sepchar c then pn_path_canon ST_SEPARATOR (c # s) (tl dst) cap
               else if c = CHR ''.'' then pn_path_canon ST_DOT2 s (c # dst) cap
               else pn_path_canon ST_NORMAL s (c # dst) cap)
      | ST_DOT2 \<Rightarrow>
          (case src of
             [] \<Rightarrow> pn_path_canon ST_SEPARATOR [] (pop_dotdot dst) cap
           | c # s \<Rightarrow>
               if sepchar c then pn_path_canon ST_SEPARATOR (c # s) (pop_dotdot dst) cap
               else pn_path_canon ST_NORMAL s (c # dst) cap))"
  by pat_completeness auto

termination pn_path_canon
  by (relation "measure (\<lambda>(state, src, dst, cap).
        2 * length src + (if state = ST_DOT1 \<or> state = ST_DOT2 then 1 else 0))") auto

declare pn_path_canon.simps [simp del]

section \<open>Path names\<close>

record path_name_s =
  pn_abs :: string
  pn_rel :: nat

text \<open>What the operations read from outside: the current directory and \<open>Base.Dir\<close>.\<close>

record pn_env =
  pe_cwd :: "string option"
  pe_base :: string

definition putil_is_absolute :: "string \<Rightarrow> bool" where
  "putil_is_absolute path = (path \<noteq> [] \<and> hd path = CHR ''/'')"

definition pn_abs_to_project_relative_path :: "pn_env \<Rightarrow> string \<Rightarrow> nat" where
  "pn_abs_to_project_relative_path env path =
     (let offset = length (pe_base env)
      in if offset \<noteq> 0 then
           (if strneq0 path (pe_base env) offset
            then offset + length (takeWhile sepchar (drop offset path)) else 0)
         else offset)"

definition pn_make_project_relative :: "pn_env \<Rightarrow> string \<Rightarrow> string" where
  "pn_make_project_relative env path =
     (if \<not> putil_is_absolute path then pe_base env @ ''/'' @ path else path)"

definition pn_new :: "pn_env \<Rightarrow> string \<Rightarrow> bool \<Rightarrow> path_name_s option" where
  \<comment> \<open>\<open>None\<close> is the null pointer\<close>
  "pn_new env path use_cwd =
     (let abs =
        (if use_cwd then
           (case (if putil_is_absolute path then Some path
                  else map_option (\<lambda>cwd. cwd @ ''/'' @ path) (pe_cwd env)) of
              None \<Rightarrow> None
            | Some abspath \<Rightarrow> pn_path_canon ST_START abspath [] (length abspath + 1))
         else Some (pn_make_project_relative env path))
      in map_option (\<lambda>a. \<lparr>pn_abs = a, pn_rel = pn_abs_to_project_relative_path env a\<rparr>) abs)"

definition pn_is_member :: "path_name_s \<Rightarrow> bool" where
  "pn_is_member pn = (pn_rel pn \<noteq> 0)"

definition pn_exists :: "(string \<Rightarrow> bool) \<Rightarrow> path_name_s \<Rightarrow> bool" where
  \<comment> \<open>the argument is \<open>access(path, F_OK) == 0\<close>\<close>
  "pn_exists access pn = access (pn_abs pn)"

definition pn_get_abs :: "path_name_s \<Rightarrow> string" where
  "pn_get_abs pn = pn_abs pn"

definition pn_get_rel :: "path_name_s \<Rightarrow> string" where
  "pn_get_rel pn = (let rel = drop (pn_rel pn) (pn_abs pn) in if rel \<noteq> [] then rel else ''.'')"

definition XNS :: string where "XNS = ''@@''"

text \<open>
  \<open>pn_verbosity\<close>: the message, if the verbosity bit \<open>VB_STD\<close> is set, from the properties
  \<open>Absolute.Paths\<close> and \<open>Monitor.Platform\<close>.
\<close>

definition pn_verbosity ::
  "bool \<Rightarrow> bool \<Rightarrow> string option \<Rightarrow> path_name_s \<Rightarrow> string \<Rightarrow> string option \<Rightarrow> string option" where
  "pn_verbosity vb_std absolute_paths plat pn verb ext =
     (if vb_std then
        let tpath = (if absolute_paths then pn_get_abs pn else pn_get_rel pn);
            tpath = (if (case plat of Some (CHR ''w'' # _) \<Rightarrow> True | _ \<Rightarrow> False)
                     then map (\<lambda>c. if c = CHR ''/'' then backslash else c) tpath else tpath)
        in Some (case ext of Some e \<Rightarrow> verb @ '' '' @ tpath @ XNS @ e | None \<Rightarrow> verb @ '' '' @ tpath)
      else None)"

section \<open>The specification of the canonical form\<close>

fun components :: "string \<Rightarrow> string list" where
  \<comment> \<open>the parts between separators, empty ones included\<close>
  "components [] = [[]]"
| "components (c # s) =
     (if sepchar c then [] # components s
      else (case components s of [] \<Rightarrow> [[c]] | x # xs \<Rightarrow> (c # x) # xs))"

definition render :: "string list \<Rightarrow> string" where
  \<comment> \<open>a directory, from its components\<close>
  "render cs = ''/'' @ concat (map (\<lambda>c. c @ ''/'') cs)"

definition canon_step :: "string list \<Rightarrow> string \<Rightarrow> string list" where
  "canon_step cs c =
     (if c = [] \<or> c = ''.'' then cs else if c = ''..'' then butlast cs else cs @ [c])"

fun canon_spec :: "string list \<Rightarrow> string list \<Rightarrow> string" where
  "canon_spec cs [] = render cs"
| "canon_spec cs [c] =
     (if c = [] \<or> c = ''.'' \<or> c = ''..'' then render (canon_step cs c) else render cs @ c)"
| "canon_spec cs (c # d # ds) = canon_spec (canon_step cs c) (d # ds)"

definition plain_component :: "string \<Rightarrow> bool" where
  "plain_component c = (c \<noteq> [] \<and> c \<noteq> ''.'' \<and> c \<noteq> ''..'' \<and> list_all (\<lambda>x. \<not> sepchar x) c)"

section \<open>The state machine meets its specification\<close>

lemma sep_slash [simp]: "sepchar slash"
  by (simp add: sepchar_def slash_def)

lemma sep_dot [simp]: "\<not> sepchar CHR ''.''"
  by (simp add: sepchar_def backslash_def)

lemma canon_normal:
  "list_all (\<lambda>x. \<not> sepchar x) c \<Longrightarrow> length dst + length c < cap \<Longrightarrow>
     pn_path_canon ST_NORMAL (c @ s) dst cap = pn_path_canon ST_NORMAL s (rev c @ dst) cap"
proof (induction c arbitrary: dst)
  case (Cons x c)
  have "pn_path_canon ST_NORMAL ((x # c) @ s) dst cap = pn_path_canon ST_NORMAL (c @ s) (x # dst) cap"
    using Cons.prems by (subst pn_path_canon.simps) simp
  then show ?case using Cons by simp
qed simp

lemma canon_component:
  assumes "plain_component c" and "length dst + length c < cap"
  shows "pn_path_canon ST_SEPARATOR (c @ s) dst cap = pn_path_canon ST_NORMAL s (rev c @ dst) cap"
proof -
  have dot1: "pn_path_canon ST_SEPARATOR (CHR ''.'' # t) dst cap =
      pn_path_canon ST_DOT1 t (CHR ''.'' # dst) cap" for t
    using assms(2) by (subst pn_path_canon.simps) simp
  have dot2: "pn_path_canon ST_DOT1 (CHR ''.'' # t) (CHR ''.'' # dst) cap =
      pn_path_canon ST_DOT2 t (''..'' @ dst) cap" if "Suc (length dst) < cap" for t
    using that by (subst pn_path_canon.simps) simp
  consider (one) x t where "c = x # t" "x \<noteq> CHR ''.''"
    | (two) x t where "c = CHR ''.'' # x # t" "x \<noteq> CHR ''.''"
    | (three) x t where "c = CHR ''.'' # CHR ''.'' # x # t"
  proof (cases c)
    case Nil
    then show ?thesis using assms(1) by (simp add: plain_component_def)
  next
    case (Cons x t)
    then show ?thesis using assms(1) that
      by (cases t; cases "tl t") (auto simp: plain_component_def)
  qed
  then show ?thesis
  proof cases
    case one
    then have "pn_path_canon ST_SEPARATOR (c @ s) dst cap = pn_path_canon ST_NORMAL (t @ s) (x # dst) cap"
      using assms by (subst pn_path_canon.simps) (simp add: plain_component_def)
    then show ?thesis using one assms canon_normal [of t "x # dst" cap s] by (simp add: plain_component_def)
  next
    case two
    have "pn_path_canon ST_DOT1 (x # t @ s) (CHR ''.'' # dst) cap =
        pn_path_canon ST_NORMAL (t @ s) (x # CHR ''.'' # dst) cap"
      using two assms by (subst pn_path_canon.simps) (simp add: plain_component_def)
    then show ?thesis
      using two assms dot1 canon_normal [of t "x # CHR ''.'' # dst" cap s]
      by (simp add: plain_component_def)
  next
    case three
    have "pn_path_canon ST_DOT2 (x # t @ s) (''..'' @ dst) cap =
        pn_path_canon ST_NORMAL (t @ s) (x # ''..'' @ dst) cap"
      using three assms by (subst pn_path_canon.simps) (simp add: plain_component_def)
    then show ?thesis
      using three assms dot1 dot2 canon_normal [of t "x # ''..'' @ dst" cap s]
      by (simp add: plain_component_def)
  qed
qed

lemma rev_render_snoc: "rev (render (cs @ [c])) = slash # rev c @ rev (render cs)"
  by (simp add: render_def slash_def)

lemma render_Nil [simp]: "render [] = [slash]"
  by (simp add: render_def slash_def)

lemma pop_render:
  assumes "list_all plain_component cs"
  shows "pop_dotdot (''..'' @ rev (render cs)) = rev (render (butlast cs))"
proof (cases cs rule: rev_exhaust)
  case Nil
  then show ?thesis by (simp add: pop_dotdot_def)
next
  case (snoc ds d)
  then have d: "d \<noteq> []" "list_all (\<lambda>x. x \<noteq> slash) (rev d)"
    using assms by (auto simp: plain_component_def list_all_iff)
  obtain r where r: "rev (render ds) = slash # r"
    by (cases ds rule: rev_exhaust) (simp_all add: rev_render_snoc del: render_Nil add: render_def slash_def)
  have "dropWhile (\<lambda>c. c \<noteq> slash) (rev d @ slash # r) = slash # r"
    using d(2) by (subst dropWhile_append2) (auto simp: list_all_iff)
  then show ?thesis using snoc d(1) r by (simp add: pop_dotdot_def rev_render_snoc Let_def)
qed

lemma components_not_Nil [simp]: "components s \<noteq> []"
  by (induction s) (auto split: list.splits)

lemma components_last: "list_all (\<lambda>x. \<not> sepchar x) c \<Longrightarrow> components c = [c]"
  by (induction c) auto

lemma components_next:
  "list_all (\<lambda>x. \<not> sepchar x) c \<Longrightarrow> sepchar d \<Longrightarrow> components (c @ d # s) = c # components s"
  by (induction c) auto

lemma canon_spec_Cons: "xs \<noteq> [] \<Longrightarrow> canon_spec cs (c # xs) = canon_spec (canon_step cs c) xs"
  by (cases xs) simp_all

lemma length_render_butlast: "length (render (butlast cs)) \<le> length (render cs)"
  by (cases cs rule: rev_exhaust) (simp_all add: render_def)

lemma canon_sep_step:
  "sepchar d \<Longrightarrow> length dst < cap \<Longrightarrow>
     pn_path_canon ST_SEPARATOR (d # r) dst cap = pn_path_canon ST_SEPARATOR r dst cap"
  "length dst < cap \<Longrightarrow> pn_path_canon ST_SEPARATOR [] dst cap = Some (rev dst)"
  by (subst pn_path_canon.simps; simp)+

lemma canon_dots:
  assumes "length dst + 2 < cap" and "r = [] \<or> sepchar (hd r)" and "length (pop_dotdot (''..'' @ dst)) < cap"
  shows "pn_path_canon ST_SEPARATOR (CHR ''.'' # r) dst cap = pn_path_canon ST_SEPARATOR r dst cap"
    and "pn_path_canon ST_SEPARATOR (CHR ''.'' # CHR ''.'' # r) dst cap =
      pn_path_canon ST_SEPARATOR r (pop_dotdot (''..'' @ dst)) cap"
proof -
  have sep: "pn_path_canon ST_SEPARATOR (CHR ''.'' # t) dst cap =
      pn_path_canon ST_DOT1 t (CHR ''.'' # dst) cap" for t
    using assms(1) by (subst pn_path_canon.simps) simp
  have "pn_path_canon ST_DOT1 r (CHR ''.'' # dst) cap = pn_path_canon ST_SEPARATOR r dst cap"
    using assms(1,2) canon_sep_step(2) [of dst cap]
    by (subst pn_path_canon.simps) (cases r; simp)
  with sep show "pn_path_canon ST_SEPARATOR (CHR ''.'' # r) dst cap = pn_path_canon ST_SEPARATOR r dst cap"
    by simp
  have "pn_path_canon ST_DOT1 (CHR ''.'' # r) (CHR ''.'' # dst) cap = pn_path_canon ST_DOT2 r (''..'' @ dst) cap"
    using assms(1) by (subst pn_path_canon.simps) simp
  moreover have "pn_path_canon ST_DOT2 r (''..'' @ dst) cap =
      pn_path_canon ST_SEPARATOR r (pop_dotdot (''..'' @ dst)) cap"
    using assms(1,2) by (subst pn_path_canon.simps) (cases r; simp)
  ultimately show "pn_path_canon ST_SEPARATOR (CHR ''.'' # CHR ''.'' # r) dst cap =
      pn_path_canon ST_SEPARATOR r (pop_dotdot (''..'' @ dst)) cap"
    using sep by simp
qed

lemma canon_machine:
  "list_all plain_component cs \<Longrightarrow> length (render cs) + length src < cap \<Longrightarrow>
     pn_path_canon ST_SEPARATOR src (rev (render cs)) cap = Some (canon_spec cs (components src))"
proof (induction src arbitrary: cs rule: length_induct)
  case (1 src)
  note cs = "1.prems"(1) and cap = "1.prems"(2)
  define c where "c = takeWhile (\<lambda>x. \<not> sepchar x) src"
  define r where "r = dropWhile (\<lambda>x. \<not> sepchar x) src"
  have src: "src = c @ r" by (simp add: c_def r_def)
  have cns: "list_all (\<lambda>x. \<not> sepchar x) c" by (auto simp: c_def list_all_iff dest: set_takeWhileD)
  have r: "r = [] \<or> sepchar (hd r)"
  proof (cases r)
    case (Cons x t)
    then have "dropWhile (\<lambda>x. \<not> sepchar x) src = x # t" by (simp add: r_def)
    then have "\<not> \<not> sepchar x" unfolding dropWhile_eq_Cons_conv by (rule conjunct2)
    with Cons show ?thesis by simp
  qed simp
  define ds where "ds = canon_step cs c"
  have pop: "pop_dotdot (''..'' @ rev (render cs)) = rev (render (butlast cs))" by (rule pop_render [OF cs])
  have ds: "list_all plain_component ds" "length (render ds) \<le> length (render cs) + length c + 1"
  proof -
    show "list_all plain_component ds"
      using cs cns by (auto simp: ds_def canon_step_def plain_component_def list_all_iff dest: in_set_butlastD)
    show "length (render ds) \<le> length (render cs) + length c + 1"
      using length_render_butlast [of cs] by (auto simp: ds_def canon_step_def) (simp add: render_def)
  qed
  have head: "pn_path_canon ST_SEPARATOR (c @ d # t) (rev (render cs)) cap =
      pn_path_canon ST_SEPARATOR t (rev (render ds)) cap" if rd: "r = d # t" for d t
  proof -
    have d: "sepchar d" using r rd by simp
    have len: "length (render cs) + length c + 1 + length t < cap" using cap src rd by simp
    have next_: "pn_path_canon ST_SEPARATOR (d # t) (rev (render es)) cap =
        pn_path_canon ST_SEPARATOR t (rev (render es)) cap" if "length (render es) < cap" for es
      using canon_sep_step(1) [OF d] that by simp
    consider "c = []" | "c = ''.''" | "c = ''..''" | "plain_component c"
      using cns by (auto simp: plain_component_def)
    then show ?thesis
    proof cases
      case 1
      with next_ [of cs] len show ?thesis by (simp add: ds_def canon_step_def)
    next
      case 2
      with next_ [of cs] len d pop length_render_butlast [of cs] show ?thesis
        by (simp add: ds_def canon_step_def canon_dots)
    next
      case 3
      with next_ [of "butlast cs"] len d pop length_render_butlast [of cs] show ?thesis
        by (simp add: ds_def canon_step_def canon_dots)
    next
      case 4
      then have "pn_path_canon ST_SEPARATOR (c @ d # t) (rev (render cs)) cap =
          pn_path_canon ST_NORMAL (d # t) (rev c @ rev (render cs)) cap"
        using len by (intro canon_component) simp_all
      also have "\<dots> = pn_path_canon ST_SEPARATOR t (rev (render ds)) cap"
        using 4 d len by (subst pn_path_canon.simps)
          (simp add: ds_def canon_step_def plain_component_def rev_render_snoc)
      finally show ?thesis .
    qed
  qed
  show ?case
  proof (cases r)
    case (Cons d t)
    then have d: "sepchar d" using r by simp
    have "pn_path_canon ST_SEPARATOR t (rev (render ds)) cap = Some (canon_spec ds (components t))"
      using "1.IH" ds cap src Cons by simp
    then show ?thesis
      using head [OF Cons] src Cons components_next [OF cns d] by (simp add: canon_spec_Cons ds_def)
  next
    case Nil
    have len: "length (render cs) + length c < cap" using cap src Nil by simp
    consider "c = []" | "c = ''.''" | "c = ''..''" | "plain_component c"
      using cns by (auto simp: plain_component_def)
    then show ?thesis
    proof cases
      case 1
      with len src Nil show ?thesis by (simp add: canon_step_def canon_sep_step)
    next
      case 2
      then have "length (render cs) + 1 < cap" using len by simp
      with 2 src Nil show ?thesis
        by (simp add: canon_step_def pn_path_canon.simps)
    next
      case 3
      then have "pn_path_canon ST_SEPARATOR src (rev (render cs)) cap =
          pn_path_canon ST_SEPARATOR [] (rev (render (butlast cs))) cap"
        using len src Nil pop length_render_butlast [of cs] canon_dots(2) [of "rev (render cs)" cap "[]"] by simp
      with 3 src Nil len length_render_butlast [of cs] show ?thesis
        by (simp add: canon_step_def canon_sep_step)
    next
      case 4
      then have "pn_path_canon ST_SEPARATOR (c @ []) (rev (render cs)) cap =
          pn_path_canon ST_NORMAL [] (rev c @ rev (render cs)) cap"
        using len by (intro canon_component) simp_all
      with 4 len src Nil cns show ?thesis
        by (simp add: components_last pn_path_canon.simps) (simp add: plain_component_def)
    qed
  qed
qed

lemma canon_absolute:
  "sepchar c \<Longrightarrow> pn_path_canon ST_START (c # p) [] (length (c # p) + 1) = Some (canon_spec [] (components p))"
  using canon_machine [of "[]" p "length p + 2"]
  by (subst pn_path_canon.simps) simp

text \<open>
  C38. Every absolute path is canonicalised, within the space of the original, to the path
  its components spell: empty components and \<open>.\<close> dropped, \<open>..\<close> removing the component before
  it (and nothing at the root), every separator a single slash.
\<close>

theorem pn_new_canonical:
  assumes "putil_is_absolute path"
  shows "map_option pn_abs (pn_new env path True) = Some (canon_spec [] (components (tl path)))"
proof -
  obtain p where "path = slash # p"
    using assms by (cases path) (auto simp: putil_is_absolute_def slash_def)
  then show ?thesis
    using assms canon_absolute [of slash p] by (simp add: pn_new_def Let_def)
qed

theorem pn_new_canonical_witness:
  "map_option pn_abs (pn_new \<lparr>pe_cwd = None, pe_base = []\<rparr> ''/a/./b//../c'' True) = Some ''/a/c''"
  using pn_new_canonical [of "''/a/./b//../c''" "\<lparr>pe_cwd = None, pe_base = []\<rparr>"]
  by (simp add: putil_is_absolute_def sepchar_def backslash_def canon_step_def render_def)

section \<open>Canonical paths\<close>

definition canonical :: "string \<Rightarrow> bool" where
  "canonical p = (\<exists>cs. list_all plain_component cs \<and>
     (p = render cs \<or> (\<exists>c. plain_component c \<and> p = render cs @ c)))"

lemma components_nosep: "c \<in> set (components s) \<Longrightarrow> list_all (\<lambda>x. \<not> sepchar x) c"
proof (induction s arbitrary: c)
  case (Cons x s)
  show ?case
  proof (cases "sepchar x")
    case False
    obtain y ys where "components s = y # ys" by (cases "components s") auto
    with Cons False show ?thesis by auto
  qed (use Cons in auto)
qed simp

lemma canon_spec_canonical:
  "list_all plain_component cs \<Longrightarrow> (\<forall>c \<in> set xs. list_all (\<lambda>x. \<not> sepchar x) c) \<Longrightarrow>
     canonical (canon_spec cs xs)"
proof (induction cs xs rule: canon_spec.induct)
  case (2 cs c)
  have "list_all plain_component (butlast cs)"
    using "2.prems"(1) by (auto simp: list_all_iff dest: in_set_butlastD)
  moreover have "plain_component c" if "c \<noteq> []" "c \<noteq> ''.''" "c \<noteq> ''..''"
    using that "2.prems" by (simp add: plain_component_def)
  ultimately show ?case using "2.prems"(1) by (auto simp: canonical_def canon_step_def)
next
  case (3 cs c d ds)
  have "list_all plain_component (butlast cs)"
    using "3.prems"(1) by (auto simp: list_all_iff dest: in_set_butlastD)
  moreover have "plain_component c" if "c \<noteq> []" "c \<noteq> ''.''" "c \<noteq> ''..''"
    using that "3.prems" by (simp add: plain_component_def)
  ultimately have "list_all plain_component (canon_step cs c)"
    using "3.prems"(1) by (auto simp: canon_step_def)
  with 3 show ?case by simp
qed (auto simp: canonical_def)

lemma components_render:
  "list_all plain_component cs \<Longrightarrow> components (tl (render cs) @ t) = cs @ components t"
proof (induction cs)
  case (Cons c cs)
  then have "list_all (\<lambda>x. \<not> sepchar x) c" by (simp add: plain_component_def)
  then have "components (c @ slash # (tl (render cs) @ t)) = c # components (tl (render cs) @ t)"
    by (intro components_next) simp_all
  with Cons show ?case by (simp add: render_def slash_def)
qed (simp add: render_def)

lemma canon_spec_plain:
  "list_all plain_component ds \<Longrightarrow> ts \<noteq> [] \<Longrightarrow> canon_spec cs (ds @ ts) = canon_spec (cs @ ds) ts"
proof (induction ds arbitrary: cs)
  case (Cons d ds)
  then have "canon_step cs d = cs @ [d]" by (simp add: canon_step_def plain_component_def)
  with Cons show ?case by (simp add: canon_spec_Cons)
qed simp

lemma canonical_fixed: "canonical p \<Longrightarrow> canon_spec [] (components (tl p)) = p \<and> putil_is_absolute p"
proof -
  assume "canonical p"
  then obtain cs where cs: "list_all plain_component cs"
    and p: "p = render cs \<or> (\<exists>c. plain_component c \<and> p = render cs @ c)"
    by (auto simp: canonical_def)
  have tl: "tl (render cs @ t) = tl (render cs) @ t" for t by (simp add: render_def)
  from p show ?thesis
  proof
    assume "p = render cs"
    then show ?thesis
      using components_render [OF cs, of "[]"] canon_spec_plain [OF cs, of "[[]]" "[]"]
      by (simp add: canon_step_def putil_is_absolute_def) (simp add: render_def)
  next
    assume "\<exists>c. plain_component c \<and> p = render cs @ c"
    then obtain c where c: "plain_component c" "p = render cs @ c" by auto
    then have "components c = [c]" by (simp add: components_last plain_component_def)
    with c show ?thesis
      using components_render [OF cs, of c] canon_spec_plain [OF cs, of "[c]" "[]"]
      by (simp add: tl plain_component_def putil_is_absolute_def) (simp add: render_def)
  qed
qed

text \<open>
  A path name made from a path, relative to the current directory or absolute, holds a
  canonical absolute path, and making a path name from that again changes nothing.
\<close>

theorem pn_new_idempotent:
  assumes "pn_new env path True = Some pn" and "\<forall>cwd. pe_cwd env = Some cwd \<longrightarrow> putil_is_absolute cwd"
  shows "canonical (pn_get_abs pn) \<and> pn_new env (pn_get_abs pn) True = Some pn"
proof -
  obtain p where p: "putil_is_absolute p" "pn_new env p True = Some pn"
  proof (cases "putil_is_absolute path")
    case True
    with assms(1) that show ?thesis by blast
  next
    case False
    with assms(1) obtain cwd where cwd: "pe_cwd env = Some cwd" by (cases "pe_cwd env") (auto simp: pn_new_def)
    then have a: "putil_is_absolute (cwd @ ''/'' @ path)" using assms(2) by (auto simp: putil_is_absolute_def)
    then have "pn_new env (cwd @ ''/'' @ path) True = pn_new env path True"
      using cwd False by (simp add: pn_new_def Let_def)
    with a assms(1) that show ?thesis by simp
  qed
  have new: "pn_new env q True = Some \<lparr>pn_abs = canon_spec [] (components (tl q)),
      pn_rel = pn_abs_to_project_relative_path env (canon_spec [] (components (tl q)))\<rparr>"
    if q: "putil_is_absolute q" for q
  proof -
    obtain r where "q = slash # r"
      using q by (cases q) (auto simp: putil_is_absolute_def slash_def)
    then show ?thesis using q canon_absolute [of slash r] by (simp add: pn_new_def Let_def)
  qed
  then have pn: "pn = \<lparr>pn_abs = canon_spec [] (components (tl p)),
      pn_rel = pn_abs_to_project_relative_path env (canon_spec [] (components (tl p)))\<rparr>"
    using p by simp
  then have c: "canonical (pn_abs pn)"
    using canon_spec_canonical [of "[]" "components (tl p)"] components_nosep by simp
  from canonical_fixed [OF this] new [of "pn_abs pn"] have "pn_new env (pn_abs pn) True = Some pn"
    using pn by simp
  with c show ?thesis by (simp add: pn_get_abs_def)
qed

theorem pn_new_idempotent_witness:
  "canonical ''/p/x'' \<and> pn_new \<lparr>pe_cwd = Some ''/p/q'', pe_base = ''/p''\<rparr> ''/p/x'' True
     = Some \<lparr>pn_abs = ''/p/x'', pn_rel = 3\<rparr>"
  using pn_new_idempotent [of "\<lparr>pe_cwd = Some ''/p/q'', pe_base = ''/p''\<rparr>" "''../x''" "\<lparr>pn_abs = ''/p/x'', pn_rel = 3\<rparr>"]
    canon_absolute [of slash "''p/q/../x''"]
  by (simp add: putil_is_absolute_def pn_get_abs_def pn_new_def Let_def sepchar_def backslash_def
      canon_step_def render_def slash_def pn_abs_to_project_relative_path_def strneq0_def)

section \<open>Project-relative names\<close>

lemma rel_offset:
  assumes "base \<noteq> []" and "t \<noteq> []" and "\<not> sepchar (hd t)"
  shows "pn_abs_to_project_relative_path \<lparr>pe_cwd = cwd, pe_base = base\<rparr> (base @ ''/'' @ t) = length base + 1"
    and "pn_abs_to_project_relative_path \<lparr>pe_cwd = cwd, pe_base = base\<rparr> (base @ t) = length base"
proof -
  obtain x u where "t = x # u" using assms(2) by (cases t) auto
  with assms show "pn_abs_to_project_relative_path \<lparr>pe_cwd = cwd, pe_base = base\<rparr> (base @ ''/'' @ t) = length base + 1"
    and "pn_abs_to_project_relative_path \<lparr>pe_cwd = cwd, pe_base = base\<rparr> (base @ t) = length base"
    by (simp_all add: pn_abs_to_project_relative_path_def Let_def strneq0_def sepchar_def)
qed

text \<open>
  The project-relative name identifies the path: resolved against the base directory it
  gives back the same path name, for members of the project and for paths outside it.
\<close>

theorem pn_rel_roundtrip:
  assumes "putil_is_absolute base" and "t \<noteq> []" and "\<not> sepchar (hd t)"
    and "\<not> strneq0 outside base (length base)" and "putil_is_absolute outside"
  shows "(\<exists>pn. pn_new \<lparr>pe_cwd = cwd, pe_base = base\<rparr> (base @ ''/'' @ t) False = Some pn \<and>
      pn_is_member pn \<and> pn_get_rel pn = t \<and>
      pn_new \<lparr>pe_cwd = cwd, pe_base = base\<rparr> (pn_get_rel pn) False = Some pn) \<and>
    (\<exists>pn. pn_new \<lparr>pe_cwd = cwd, pe_base = base\<rparr> outside False = Some pn \<and>
      \<not> pn_is_member pn \<and> pn_get_rel pn = outside \<and>
      pn_new \<lparr>pe_cwd = cwd, pe_base = base\<rparr> (pn_get_rel pn) False = Some pn)"
proof -
  let ?env = "\<lparr>pe_cwd = cwd, pe_base = base\<rparr>"
  have base: "base \<noteq> []" "putil_is_absolute (base @ ''/'' @ t)" "\<not> putil_is_absolute t"
    using assms(1,2,3) by (cases t; cases base; auto simp: putil_is_absolute_def sepchar_def)+
  have "pn_abs_to_project_relative_path ?env outside = 0"
    using assms(4) by (simp add: pn_abs_to_project_relative_path_def Let_def)
  moreover have "outside \<noteq> []" using assms(5) by (simp add: putil_is_absolute_def)
  ultimately show ?thesis
    using base assms(2,5) rel_offset(1) [OF base(1) assms(2,3)]
    by (simp add: pn_new_def Let_def pn_make_project_relative_def pn_is_member_def pn_get_rel_def)
qed

theorem pn_rel_roundtrip_witness:
  "pn_new \<lparr>pe_cwd = None, pe_base = ''/p''\<rparr> ''/p/a.c'' False = Some \<lparr>pn_abs = ''/p/a.c'', pn_rel = 3\<rparr> \<and>
   pn_new \<lparr>pe_cwd = None, pe_base = ''/p''\<rparr> ''a.c'' False = Some \<lparr>pn_abs = ''/p/a.c'', pn_rel = 3\<rparr>"
  using pn_rel_roundtrip [of "''/p''" "''a.c''" "''/q''" None]
  by (auto simp: putil_is_absolute_def sepchar_def backslash_def strneq0_def pn_new_def Let_def
      pn_make_project_relative_def pn_abs_to_project_relative_path_def pn_get_rel_def)

text \<open>
  The membership test compares bare string prefixes: a path in a sibling directory whose
  name extends that of the base is taken for a member, and its project-relative name denotes
  a different path.
\<close>

theorem sibling_taken_for_member:
  assumes "putil_is_absolute base" and "t \<noteq> []" and "\<not> sepchar (hd t)"
  shows "\<exists>pn. pn_new \<lparr>pe_cwd = cwd, pe_base = base\<rparr> (base @ t) False = Some pn \<and> pn_is_member pn \<and>
    map_option pn_get_abs (pn_new \<lparr>pe_cwd = cwd, pe_base = base\<rparr> (pn_get_rel pn) False) = Some (base @ ''/'' @ t)"
proof -
  have "base \<noteq> []" "putil_is_absolute (base @ t)" "\<not> putil_is_absolute t"
    using assms by (cases t; cases base; auto simp: putil_is_absolute_def sepchar_def)+
  then show ?thesis
    using assms(2) rel_offset(2) [OF _ assms(2,3)]
    by (simp add: pn_new_def Let_def pn_make_project_relative_def pn_is_member_def pn_get_rel_def pn_get_abs_def)
qed

theorem sibling_taken_for_member_witness:
  "\<exists>pn. pn_new \<lparr>pe_cwd = None, pe_base = ''/p/base''\<rparr> (''/p/base'' @ ''2/x'') False = Some pn \<and> pn_is_member pn \<and>
    map_option pn_get_abs (pn_new \<lparr>pe_cwd = None, pe_base = ''/p/base''\<rparr> (pn_get_rel pn) False)
      = Some (''/p/base'' @ ''/'' @ ''2/x'')"
  by (rule sibling_taken_for_member) (simp_all add: putil_is_absolute_def sepchar_def backslash_def)

end
