(* ===== verification/PathState.thy ===== *)
theory PathState
  imports PathName Moment
begin

text \<open>
  Path states (\<open>src/ps.c\<close>): the data of a file at one moment, sampled with \<open>ps_stat\<close>,
  compared with \<open>ps_diff\<close> and exchanged with the server as comma-separated text. The string
  fields follow the setter and getter macros of \<open>src/AO.h\<close>.
\<close>

section \<open>Data\<close>

text \<open>
  \<open>ps_e\<close> with its letters; any other character can come in by the cast in
  \<open>ps_newFromCSVString\<close>.
\<close>

datatype ps_e = PS_FILE | PS_DIR | PS_LINK | PS_SYMLINK | PS_UNLINK | PS_OTHER char

definition ps_e_char :: "ps_e \<Rightarrow> char" where
  "ps_e_char t = (case t of PS_FILE \<Rightarrow> CHR ''f'' | PS_DIR \<Rightarrow> CHR ''d'' | PS_LINK \<Rightarrow> CHR ''l''
     | PS_SYMLINK \<Rightarrow> CHR ''s'' | PS_UNLINK \<Rightarrow> CHR ''u'' | PS_OTHER c \<Rightarrow> c)"

definition ps_e_of :: "char \<Rightarrow> ps_e" where
  "ps_e_of c = (if c = CHR ''f'' then PS_FILE else if c = CHR ''d'' then PS_DIR
     else if c = CHR ''l'' then PS_LINK else if c = CHR ''s'' then PS_SYMLINK
     else if c = CHR ''u'' then PS_UNLINK else PS_OTHER c)"

record path_state_s =
  ps_moment :: moment_s
  ps_size :: u64
  ps_mode :: u32
  ps_dcode :: "string option"
  ps_fsname :: "string option"
  ps_pn :: "path_name_s option"
  ps_pn2 :: "path_name_s option"
  ps_target :: "string option"
  ps_datatype :: ps_e

definition FS1 :: string where "FS1 = '',''"

definition CSV_FIELD_IS_NULL :: "string \<Rightarrow> bool" where
  "CSV_FIELD_IS_NULL s = (s = [] \<or> s = ''-'')"

definition set_str :: "string option \<Rightarrow> string option" where
  \<comment> \<open>the value a string setter (\<open>GEN_SETTER_DEFN_STR\<close>) stores\<close>
  "set_str val = (case val of Some s \<Rightarrow> if CSV_FIELD_IS_NULL s then None else Some s | None \<Rightarrow> None)"

section \<open>Constructors and getters\<close>

definition ps_new :: path_state_s where
  "ps_new = \<lparr>ps_moment = zero_moment, ps_size = 0, ps_mode = 0, ps_dcode = None, ps_fsname = None,
     ps_pn = None, ps_pn2 = None, ps_target = None, ps_datatype = PS_FILE\<rparr>"

definition ps_newFromPath :: "pn_env \<Rightarrow> string \<Rightarrow> path_state_s" where
  "ps_newFromPath env path = ps_new\<lparr>ps_pn := pn_new env path True\<rparr>"

definition ps_get_dcode :: "path_state_s \<Rightarrow> string" where
  "ps_get_dcode ps = (case ps_dcode ps of Some d \<Rightarrow> d | None \<Rightarrow> [])"

definition ps_get_abs :: "path_state_s \<Rightarrow> string result" where
  "ps_get_abs ps = (case ps_pn ps of Some pn \<Rightarrow> Inr (pn_get_abs pn) | None \<Rightarrow> Inl (Fault ''NULL pn''))"

definition ps_get_rel :: "path_state_s \<Rightarrow> string result" where
  "ps_get_rel ps = (case ps_pn ps of Some pn \<Rightarrow> Inr (pn_get_rel pn) | None \<Rightarrow> Inl (Fault ''NULL pn''))"

definition ps_get_abs2 :: "path_state_s \<Rightarrow> string option" where
  "ps_get_abs2 ps = map_option pn_get_abs (ps_pn2 ps)"

definition ps_get_rel2 :: "path_state_s \<Rightarrow> string option" where
  "ps_get_rel2 ps = map_option pn_get_rel (ps_pn2 ps)"

definition ps_is_member :: "path_state_s \<Rightarrow> bool result" where
  "ps_is_member ps = (case ps_pn ps of Some pn \<Rightarrow> Inr (pn_is_member pn) | None \<Rightarrow> Inl (Fault ''NULL pn''))"

unbundle bit_operations_syntax

definition S_IFMT :: "u32 \<Rightarrow> u32" where
  "S_IFMT mode = mode AND 0xF000"

definition ps_is_file :: "path_state_s \<Rightarrow> bool" where
  "ps_is_file ps = (S_IFMT (ps_mode ps) = 0x8000)"

definition ps_is_dir :: "path_state_s \<Rightarrow> bool" where
  "ps_is_dir ps = (S_IFMT (ps_mode ps) = 0x4000)"

definition ps_is_special :: "path_state_s \<Rightarrow> bool" where
  "ps_is_special ps = (S_IFMT (ps_mode ps) = 0x6000 \<or> S_IFMT (ps_mode ps) = 0x2000
     \<or> S_IFMT (ps_mode ps) = 0x1000 \<or> S_IFMT (ps_mode ps) = 0xC000)"

definition ps_is_link :: "path_state_s \<Rightarrow> bool" where
  "ps_is_link ps = (ps_datatype ps = PS_LINK)"

definition ps_is_symlink :: "path_state_s \<Rightarrow> bool" where
  "ps_is_symlink ps = (ps_datatype ps = PS_SYMLINK)"

definition ps_is_unlink :: "path_state_s \<Rightarrow> bool" where
  "ps_is_unlink ps = (ps_datatype ps = PS_UNLINK)"

definition ps_exists :: "(string \<Rightarrow> bool) \<Rightarrow> path_state_s \<Rightarrow> bool result" where
  \<comment> \<open>the first argument is \<open>access(path, F_OK) == 0\<close>\<close>
  "ps_exists access ps = (case ps_pn ps of Some pn \<Rightarrow> Inr (pn_exists access pn) | None \<Rightarrow> Inl (Fault ''NULL pn''))"

definition ps_set_datatype :: "path_state_s \<Rightarrow> ps_e \<Rightarrow> path_state_s" where
  "ps_set_datatype ps t = ps\<lparr>ps_datatype := t\<rparr>"

definition ps_set_unlinked :: "path_state_s \<Rightarrow> path_state_s" where
  "ps_set_unlinked ps = ps_set_datatype ps PS_UNLINK"

definition ps_set_symlinked :: "path_state_s \<Rightarrow> path_state_s" where
  "ps_set_symlinked ps = ps_set_datatype ps PS_SYMLINK"

definition ps_set_linked :: "path_state_s \<Rightarrow> path_state_s" where
  "ps_set_linked ps = ps_set_datatype ps PS_LINK"

definition ps_set_dir :: "path_state_s \<Rightarrow> path_state_s" where
  "ps_set_dir ps = ps_set_datatype ps PS_DIR"

definition ps_has_dcode :: "path_state_s \<Rightarrow> bool" where
  "ps_has_dcode ps = (ps_dcode ps \<noteq> None)"

definition ps_set_size_str :: "path_state_s \<Rightarrow> string \<Rightarrow> path_state_s" where
  "ps_set_size_str ps str = ps\<lparr>ps_size := c_strtol 10 str\<rparr>"

definition ps_set_moment_str :: "path_state_s \<Rightarrow> string \<Rightarrow> (int \<times> path_state_s) result" where
  "ps_set_moment_str ps str = bindR (moment_parse str) (\<lambda>(rc, m). Inr (rc, ps\<lparr>ps_moment := m\<rparr>))"

section \<open>Comparing and copying\<close>

definition ps_diff :: "u64 \<Rightarrow> path_state_s \<Rightarrow> path_state_s \<Rightarrow> string option result" where
  \<comment> \<open>the reason; the first argument is the precision of \<open>moment_cmp\<close>\<close>
  "ps_diff ro ps1 ps2 =
     (if ps_datatype ps1 \<noteq> ps_datatype ps2 then Inr (Some ''type'')
      else if ps_size ps1 \<noteq> ps_size ps2 then Inr (Some ''size'')
      else bindR (ps_get_abs ps1) (\<lambda>a1. bindR (ps_get_abs ps2) (\<lambda>a2. Inr (
        if c_strcmp a1 a2 \<noteq> 0 then Some ''path''
        else if ps_has_dcode ps1 \<and> ps_has_dcode ps2 then
          (if c_strcmp (ps_get_dcode ps1) (ps_get_dcode ps2) \<noteq> 0 then Some ''dcode'' else None)
        else if fst (moment_cmp ro (ps_moment ps1) (ps_moment ps2)) \<noteq> 0 then Some ''moment''
        else None))))"

text \<open>\<open>ps_copy\<close> shares the second path name with the original.\<close>

definition ps_copy :: "pn_env \<Rightarrow> path_state_s \<Rightarrow> path_state_s result" where
  "ps_copy env cps = bindR (ps_get_abs cps) (\<lambda>a.
     Inr ((ps_newFromPath env a)\<lparr>ps_datatype := ps_datatype cps, ps_fsname := set_str (ps_fsname cps),
       ps_moment := ps_moment cps, ps_size := ps_size cps, ps_mode := ps_mode cps,
       ps_dcode := set_str (Some (ps_get_dcode cps)), ps_pn2 := ps_pn2 cps,
       ps_target := set_str (ps_target cps)\<rparr>))"

section \<open>Comma-separated form\<close>

fun take_fields :: "nat \<Rightarrow> string option \<Rightarrow> (string list \<times> string option) option" where
  \<comment> \<open>so many calls of \<open>util_strsep(&linebuf, FS1)\<close>, all of which must return a token\<close>
  "take_fields 0 linebuf = Some ([], linebuf)"
| "take_fields (Suc n) linebuf =
     (case util_strsep linebuf FS1 of
        None \<Rightarrow> None
      | Some (tok, rest) \<Rightarrow>
          (case take_fields n rest of None \<Rightarrow> None | Some (toks, rest') \<Rightarrow> Some (tok # toks, rest')))"

definition pn_new_rel :: "pn_env \<Rightarrow> string option \<Rightarrow> path_name_s option result" where
  \<comment> \<open>\<open>pn_new(path, 0)\<close>\<close>
  "pn_new_rel env path = (case path of Some p \<Rightarrow> Inr (pn_new env p False) | None \<Rightarrow> Inl (Abort ''path''))"

definition ps_set_link :: "pn_env \<Rightarrow> path_state_s \<Rightarrow> string \<Rightarrow> string \<Rightarrow> path_state_s result" where
  \<comment> \<open>the link target of the text: a target for a symbolic link, else a second path\<close>
  "ps_set_link env ps datatype target =
     (if target \<noteq> [] then
        bindR (util_unescape target 0) (\<lambda>(decoded, _).
          let decoded = buf_string decoded
          in if first_char datatype = CHR ''s'' then Inr (ps\<lparr>ps_target := set_str (Some decoded)\<rparr>)
             else bindR (pn_new_rel env (Some decoded)) (\<lambda>pn2. Inr (ps\<lparr>ps_pn2 := pn2\<rparr>)))
      else Inr ps)"

definition ps_newFromCSVString :: "pn_env \<Rightarrow> string \<Rightarrow> path_state_s result" where
  "ps_newFromCSVString env csv =
     (case take_fields 7 (Some csv) of
        Some ([datatype, fsname, moment, sz, mode, dcode, target], linebuf) \<Rightarrow>
          let ps = ps_new\<lparr>ps_datatype := ps_e_of (first_char datatype)\<rparr>;
              ps = ps\<lparr>ps_fsname := set_str (if first_char fsname \<noteq> CHR ''?'' then Some fsname else None)\<rparr>
          in bindR (ps_set_moment_str ps moment) (\<lambda>(_, ps).
             let ps = ps\<lparr>ps_size := c_strtoul 10 sz, ps_mode := ucast (c_strtoul CSV_RADIX mode),
                   ps_dcode := set_str (Some dcode)\<rparr>
             in bindR (ps_set_link env ps datatype target) (\<lambda>ps.
             bindR (pn_new_rel env linebuf) (\<lambda>pn. Inr (ps\<lparr>ps_pn := pn\<rparr>))))
      | _ \<Rightarrow> Inl (Abort ''bad format''))"

definition ps_toCSVString :: "path_state_s \<Rightarrow> string result" where
  "ps_toCSVString ps =
     bindR (moment_format (ps_moment ps) MOMENT_BUFMAX) (\<lambda>mtime.
     bindR (util_format_to_radix CSV_RADIX 32 (ucast (ps_mode ps))) (\<lambda>modebuf.
     bindR (ps_get_rel ps) (\<lambda>rel.
       let target = (case ps_get_rel2 ps of Some t \<Rightarrow> util_encode_minimal t
             | None \<Rightarrow> (case ps_target ps of Some t \<Rightarrow> util_encode_minimal t | None \<Rightarrow> []));
           fsname = (case ps_fsname ps of Some f \<Rightarrow> if f \<noteq> [] then f else ''?'' | None \<Rightarrow> ''?'')
       in Inr ([ps_e_char (ps_datatype ps)] @ FS1 @ fsname @ FS1 @ mtime @ FS1 @ fmt_lu (ps_size ps) @ FS1
               @ buf_string modebuf @ FS1 @ ps_get_dcode ps @ FS1 @ target @ FS1 @ rel))))"

definition ps_format_user :: "bool \<Rightarrow> path_state_s \<Rightarrow> bool \<Rightarrow> bool \<Rightarrow> nat \<Rightarrow> (string \<times> nat) result" where
  \<comment> \<open>the buffer and the length returned; the first argument is \<open>Absolute.Paths\<close>\<close>
  "ps_format_user absolute_paths ps lflag sflag bufmax =
     bindR (if absolute_paths then ps_get_abs ps else ps_get_rel ps) (\<lambda>path.
     bindR (if sflag then Inr (fmt_left 7 (ps_get_dcode ps) @ '' '' @ path @ [newline])
            else if lflag then
              bindR (moment_format (ps_moment ps) MOMENT_BUFMAX) (\<lambda>mtime.
                Inr (''dcode='' @ fmt_left 7 (ps_get_dcode ps) @ '' size='' @ fmt_left 10 (fmt_lu (ps_size ps))
                     @ '' moment='' @ mtime @ '' '' @ path @ [newline]))
            else Inr (fmt_left 7 (ps_get_dcode ps) @ '' '' @ fmt_left 10 (fmt_lu (ps_size ps))
                     @ '' '' @ path @ [newline])) (\<lambda>text.
       let buf = snprintf bufmax text
       in Inr (buf, if bufmax < length text then length buf else length text)))"

section \<open>Sampling a file\<close>

text \<open>
  What \<open>ps_stat\<close> reads: \<open>lstat64\<close> (size, mode and modification time), \<open>readlink\<close> and the
  identity hashes of \<open>src/code.c\<close>; and the operations of the hash table (Kazlib), which
  aborts on the insertion of a key that is present.
\<close>

record stat64 =
  st_size :: u64
  st_mode :: u32
  st_mtim :: moment_s

record 'h ps_sys =
  sys_lstat :: "string \<Rightarrow> stat64 option"
  sys_readlink :: "string \<Rightarrow> string option"
  sys_code_from_path :: "string \<Rightarrow> string option"
  sys_code_from_buffer :: "string \<Rightarrow> string \<Rightarrow> string option"
  hash_lookup :: "'h \<Rightarrow> string \<Rightarrow> string option"
  hash_alloc_insert :: "'h \<Rightarrow> string \<Rightarrow> string \<Rightarrow> 'h result"

text \<open>The statics \<open>Ref_Time\<close>, \<open>Dcode_Offset\<close> and \<open>Dcode_Hash_Table\<close>.\<close>

record 'h dcode_cache =
  Ref_Time :: moment_s
  Dcode_Offset :: u64
  Dcode_Hash_Table :: "'h option"

definition ps_dcode_cache_init :: "'h \<Rightarrow> u64 \<Rightarrow> u64 \<times> u64 \<Rightarrow> 'h dcode_cache \<Rightarrow> 'h dcode_cache" where
  \<comment> \<open>from a new table, the property \<open>Dcode.Cache.Secs\<close> and the time of day\<close>
  "ps_dcode_cache_init table secs tv dc =
     (if 0 \<le> sint secs
      then dc\<lparr>Dcode_Offset := secs, Ref_Time := moment_get_systime tv, Dcode_Hash_Table := Some table\<rparr>
      else dc\<lparr>Dcode_Offset := secs\<rparr>)"

definition ps_dcode_cache_fini :: "'h dcode_cache \<Rightarrow> 'h dcode_cache" where
  "ps_dcode_cache_fini dc = dc\<lparr>Dcode_Hash_Table := None\<rparr>"

definition dcode_key :: "path_state_s \<Rightarrow> string \<Rightarrow> string result" where
  "dcode_key ps path = bindR (moment_format (ps_moment ps) MOMENT_BUFMAX) (\<lambda>mtime.
     Inr (fmt_lu (ps_size ps) @ FS1 @ mtime @ FS1 @ path))"

definition ps_set_cached_dcode ::
  "'h ps_sys \<Rightarrow> 'h dcode_cache \<Rightarrow> path_state_s \<Rightarrow> string \<Rightarrow> 'h dcode_cache result" where
  "ps_set_cached_dcode sys dc ps path =
     (case Dcode_Hash_Table dc of
        None \<Rightarrow> Inr dc
      | Some h \<Rightarrow>
          if Dcode_Offset dc = 0 \<or>
             sint (ntv_sec (ps_moment ps)) < sint (ntv_sec (Ref_Time dc) - Dcode_Offset dc)
          then bindR (dcode_key ps path) (\<lambda>key.
               (case ps_dcode ps of
                  None \<Rightarrow> Inl (Fault ''putil_strdup of NULL'')
                | Some d \<Rightarrow> bindR (hash_alloc_insert sys h key d) (\<lambda>h'. Inr (dc\<lparr>Dcode_Hash_Table := Some h'\<rparr>))))
          else Inr dc)"

definition ps_get_cached_dcode ::
  "'h ps_sys \<Rightarrow> 'h dcode_cache \<Rightarrow> path_state_s \<Rightarrow> string \<Rightarrow> string option result" where
  "ps_get_cached_dcode sys dc ps path =
     (case Dcode_Hash_Table dc of
        None \<Rightarrow> Inr None
      | Some h \<Rightarrow> bindR (dcode_key ps path) (\<lambda>key. Inr (hash_lookup sys h key)))"

definition ps_stat ::
  "'h ps_sys \<Rightarrow> 'h dcode_cache \<Rightarrow> path_state_s \<Rightarrow> bool \<Rightarrow> (int \<times> path_state_s \<times> 'h dcode_cache) result" where
  "ps_stat sys dc ps want_dcode =
     bindR (ps_get_abs ps) (\<lambda>path.
     case sys_lstat sys path of
       None \<Rightarrow> Inr (- 1, ps, dc)
     | Some stbuf \<Rightarrow>
         let ps = ps\<lparr>ps_size := st_size stbuf, ps_mode := st_mode stbuf\<rparr>;
             ps = (if S_IFMT (st_mode stbuf) = 0x4000 then ps\<lparr>ps_datatype := PS_DIR\<rparr> else ps);
             ps = ps\<lparr>ps_moment := st_mtim stbuf\<rparr>;
             linked = (if S_IFMT (st_mode stbuf) = 0xA000 then
                 let ps = ps\<lparr>ps_datatype := PS_SYMLINK\<rparr>
                 in if ps_target ps = None then
                      (case sys_readlink sys path of
                         Some lbuf \<Rightarrow> (True, ps\<lparr>ps_target := set_str (Some lbuf)\<rparr>)
                       | None \<Rightarrow> (False, ps))
                    else (True, ps)
               else (True, ps));
             ps = snd linked
         in if \<not> fst linked then Inr (- 1, ps, dc)
            else if \<not> want_dcode then Inr (0, ps, dc)
            else if ps_is_file ps then
              bindR (ps_get_cached_dcode sys dc ps path) (\<lambda>cached. case cached of
                Some d \<Rightarrow> Inr (0, ps\<lparr>ps_dcode := set_str (Some d)\<rparr>, dc)
              | None \<Rightarrow>
                  (case sys_code_from_path sys path of
                     Some d \<Rightarrow>
                       let ps = ps\<lparr>ps_dcode := set_str (Some d)\<rparr>
                       in bindR (ps_set_cached_dcode sys dc ps path) (\<lambda>dc. Inr (0, ps, dc))
                   | None \<Rightarrow> Inr (- 1, ps\<lparr>ps_dcode := None\<rparr>, dc)))
            else if ps_is_symlink ps then
              (case ps_target ps of
                 None \<Rightarrow> Inl (Fault ''strlen of NULL'')
               | Some tgt \<Rightarrow>
                   (case sys_code_from_buffer sys tgt path of
                      Some d \<Rightarrow>
                        let ps = ps\<lparr>ps_dcode := set_str (Some d)\<rparr>
                        in bindR (ps_set_cached_dcode sys dc ps path) (\<lambda>dc. Inr (0, ps, dc))
                    | None \<Rightarrow> Inr (- 1, ps\<lparr>ps_dcode := None\<rparr>, dc)))
            else Inr (0, ps, dc))"

section \<open>Lemmas\<close>

definition no_comma :: "string \<Rightarrow> bool" where
  "no_comma s = (CHR '','' \<notin> set s)"

definition csv_fields :: "string list \<Rightarrow> string" where
  "csv_fields fs = concat (map (\<lambda>f. f @ FS1) fs)"

lemma csv_fields_simps [simp]:
  "csv_fields [] = []" "csv_fields (f # fs) = f @ FS1 @ csv_fields fs"
  by (simp_all add: csv_fields_def)

lemma take_fields_csv:
  "list_all no_comma fs \<Longrightarrow> take_fields (length fs) (Some (csv_fields fs @ rest)) = Some (fs, Some rest)"
  by (induction fs) (simp_all add: util_strsep_def FS1_def no_comma_def)

lemma no_comma_simps [simp]:
  "no_comma []" "no_comma (fmt_lu v)" "no_comma (moment_str m)" "no_comma (util_encode_minimal s)"
  by (simp_all add: no_comma_def)

lemma no_comma_Cons [simp]: "no_comma (c # s) \<longleftrightarrow> c \<noteq> CHR '','' \<and> no_comma s"
  by (auto simp: no_comma_def)

lemma no_comma_radix [simp]: "no_comma (nat_to_radix 36 n)"
  using nat_to_radix_no_special [of 36 n] by (simp add: no_comma_def)

lemma ps_e_of_char [simp]: "ps_e_of (ps_e_char t) = t \<or> (\<exists>c. t = PS_OTHER c \<and> c \<in> set ''fdlsu'')"
  by (cases t) (auto simp: ps_e_of_def ps_e_char_def)

definition datatype_ok :: "ps_e \<Rightarrow> bool" where
  "datatype_ok t = (ps_e_of (ps_e_char t) = t \<and> ps_e_char t \<noteq> CHR '','' \<and> ps_e_char t \<noteq> nul)"

lemma symlink_char: "ps_e_of (ps_e_char t) = t \<Longrightarrow> ps_e_char t = CHR ''s'' \<longleftrightarrow> t = PS_SYMLINK"
  by (cases t) (auto simp: ps_e_char_def ps_e_of_def split: if_splits)

lemma format_mode:
  "\<exists>buf. util_format_to_radix CSV_RADIX 32 (ucast (m :: u32)) = Inr buf \<and>
     buf_string buf = nat_to_radix 36 (unat m)"
proof -
  have "unat (ucast m :: u64) = unat m"
    using unsigned_less [of m, where 'a = nat] by (simp add: unsigned_ucast_eq take_bit_nat_eq_self)
  then show ?thesis using format_csv_radix [of 32 "ucast m"] by (simp add: CSV_RADIX_def)
qed

lemma parse_mode: "ucast (c_strtoul CSV_RADIX (nat_to_radix 36 (unat m))) = (m :: u32)"
proof -
  have "unat m < 2 ^ 64" using unsigned_less [of m, where 'a = nat] by simp
  then have "c_strtoul 36 (nat_to_radix 36 (unat m)) = of_nat (unat m)"
    using c_strtoul_nat_to_radix [of 36 "[]" "unat m"] by simp
  also have "(of_nat (unat m) :: u64) = ucast m" by (simp add: word_eq_iff_unsigned)
  finally show ?thesis by (simp add: CSV_RADIX_def ucast_up_ucast_id is_up)
qed

section \<open>Round trip\<close>

definition str_ok :: "string option \<Rightarrow> bool" where
  \<comment> \<open>a value a string field can hold and the text can carry\<close>
  "str_ok v = (case v of None \<Rightarrow> True | Some s \<Rightarrow> \<not> CSV_FIELD_IS_NULL s \<and> no_comma s)"

text \<open>
  The path states the text represents: times at or after the epoch, names that resolve back
  from their project-relative form, a second path or a target according to the type.
\<close>

definition pn_ok :: "pn_env \<Rightarrow> path_name_s \<Rightarrow> bool" where
  "pn_ok env pn = (pn_new env (pn_get_rel pn) False = Some pn \<and> nul \<notin> set (pn_get_rel pn))"

definition ps_ok :: "pn_env \<Rightarrow> path_state_s \<Rightarrow> bool" where
  "ps_ok env ps = (datatype_ok (ps_datatype ps) \<and> norm_moment (ps_moment ps) \<and> str_ok (ps_dcode ps) \<and>
     (case ps_fsname ps of None \<Rightarrow> True | Some f \<Rightarrow> \<not> CSV_FIELD_IS_NULL f \<and> no_comma f \<and> first_char f \<noteq> CHR ''?'') \<and>
     (case ps_pn ps of Some pn \<Rightarrow> pn_ok env pn | None \<Rightarrow> False) \<and>
     (if ps_datatype ps = PS_SYMLINK
      then ps_pn2 ps = None \<and> (case ps_target ps of None \<Rightarrow> True
             | Some t \<Rightarrow> \<not> CSV_FIELD_IS_NULL t \<and> nul \<notin> set t)
      else ps_target ps = None \<and> (case ps_pn2 ps of None \<Rightarrow> True | Some q \<Rightarrow> pn_ok env q)))"

lemma buf_string_id: "nul \<notin> set s \<Longrightarrow> buf_string s = s"
  by (auto simp: buf_string_def intro: takeWhile_eq_all_conv [THEN iffD2])

lemma pn_get_rel_not_Nil [simp]: "pn_get_rel pn \<noteq> []"
  by (simp add: pn_get_rel_def Let_def)

lemma unescape_encode_minimal [simp]: "util_unescape (util_encode_minimal s) 0 = Inr (s, length s)"
  by (simp add: util_unescape_def unescape_encode)

definition link_text :: "path_state_s \<Rightarrow> string" where
  "link_text ps = (case ps_get_rel2 ps of Some t \<Rightarrow> util_encode_minimal t
     | None \<Rightarrow> (case ps_target ps of Some t \<Rightarrow> util_encode_minimal t | None \<Rightarrow> []))"

definition fsname_text :: "path_state_s \<Rightarrow> string" where
  "fsname_text ps = (case ps_fsname ps of Some f \<Rightarrow> if f \<noteq> [] then f else ''?'' | None \<Rightarrow> ''?'')"

lemma ps_toCSVString_eq:
  assumes "ps_pn ps = Some pn"
  shows "ps_toCSVString ps = Inr (csv_fields [[ps_e_char (ps_datatype ps)], fsname_text ps, moment_str (ps_moment ps),
    fmt_lu (ps_size ps), nat_to_radix 36 (unat (ps_mode ps)), ps_get_dcode ps, link_text ps] @ pn_get_rel pn)"
proof -
  obtain buf where "util_format_to_radix CSV_RADIX 32 (ucast (ps_mode ps)) = Inr buf"
    "buf_string buf = nat_to_radix 36 (unat (ps_mode ps))"
    using format_mode [of "ps_mode ps"] by auto
  then show ?thesis
    using assms by (simp add: ps_toCSVString_def ps_get_rel_def link_text_def fsname_text_def)
qed

lemma ps_csv_roundtrip:
  assumes "ps_ok env ps"
  shows "\<exists>csv. ps_toCSVString ps = Inr csv \<and> ps_newFromCSVString env csv = Inr ps"
proof -
  obtain pn where pn: "ps_pn ps = Some pn" "pn_ok env pn"
    using assms by (auto simp: ps_ok_def split: option.splits)
  let ?fs = "[[ps_e_char (ps_datatype ps)], fsname_text ps, moment_str (ps_moment ps), fmt_lu (ps_size ps),
    nat_to_radix 36 (unat (ps_mode ps)), ps_get_dcode ps, link_text ps]"
  have dt: "ps_e_of (ps_e_char (ps_datatype ps)) = ps_datatype ps" "ps_e_char (ps_datatype ps) \<noteq> CHR '',''"
    using assms by (simp_all add: ps_ok_def datatype_ok_def)
  have "list_all no_comma ?fs"
    using assms dt by (auto simp: ps_ok_def str_ok_def link_text_def fsname_text_def ps_get_dcode_def
        split: option.splits)
  then have tf: "take_fields 7 (Some (csv_fields ?fs @ pn_get_rel pn)) = Some (?fs, Some (pn_get_rel pn))"
  proof -
    assume "list_all no_comma ?fs"
    moreover have "length ?fs = 7" by simp
    ultimately show ?thesis using take_fields_csv [of ?fs "pn_get_rel pn"] by (simp only:)
  qed
  have fs: "set_str (if first_char (fsname_text ps) \<noteq> CHR ''?'' then Some (fsname_text ps) else None) = ps_fsname ps"
    using assms by (auto simp: ps_ok_def fsname_text_def set_str_def first_char_def CSV_FIELD_IS_NULL_def
        split: option.splits)
  have mo: "moment_parse (moment_str (ps_moment ps)) = Inr (0, ps_moment ps)"
    using assms by (simp add: moment_parse_str ps_ok_def norm_moment_def)
  have dc: "set_str (Some (ps_get_dcode ps)) = ps_dcode ps"
    using assms by (auto simp: ps_ok_def str_ok_def set_str_def ps_get_dcode_def CSV_FIELD_IS_NULL_def
        split: option.splits)
  let ?ps1 = "ps\<lparr>ps_pn := None, ps_pn2 := None, ps_target := None\<rparr>"
  have link: "ps_set_link env ?ps1 [ps_e_char (ps_datatype ps)] (link_text ps) = Inr (ps\<lparr>ps_pn := None\<rparr>)"
  proof (cases "ps_datatype ps = PS_SYMLINK")
    case True
    then have "ps_pn2 ps = None" "ps_e_char (ps_datatype ps) = CHR ''s''"
      using assms by (simp_all add: ps_ok_def ps_e_char_def)
    with True assms show ?thesis
      by (auto simp: ps_set_link_def ps_ok_def link_text_def ps_get_rel2_def first_char_def set_str_def CSV_FIELD_IS_NULL_def
          buf_string_id Let_def split: option.splits)
  next
    case False
    then have "ps_target ps = None" "ps_e_char (ps_datatype ps) \<noteq> CHR ''s''"
      using assms symlink_char [OF dt(1)] by (simp_all add: ps_ok_def)
    with False assms show ?thesis
      by (auto simp: ps_set_link_def ps_ok_def pn_ok_def link_text_def ps_get_rel2_def first_char_def pn_new_rel_def
          buf_string_id Let_def split: option.splits)
  qed
  have start: "ps_new\<lparr>ps_datatype := ps_e_of (first_char [ps_e_char (ps_datatype ps)]), ps_fsname := ps_fsname ps,
      ps_moment := ps_moment ps, ps_size := ps_size ps, ps_mode := ps_mode ps, ps_dcode := ps_dcode ps\<rparr> = ?ps1"
    using dt(1) by (simp add: ps_new_def first_char_def)
  have "ps_newFromCSVString env (csv_fields ?fs @ pn_get_rel pn) =
      bindR (ps_set_link env ?ps1 [ps_e_char (ps_datatype ps)] (link_text ps)) (\<lambda>ps.
        bindR (pn_new_rel env (Some (pn_get_rel pn))) (\<lambda>pn. Inr (ps\<lparr>ps_pn := pn\<rparr>)))"
    unfolding ps_newFromCSVString_def tf
    by (simp add: Let_def fs ps_set_moment_str_def mo dc parse_mode start)
  also have "\<dots> = Inr ps" using pn by (simp add: link pn_new_rel_def pn_ok_def)
  finally show ?thesis using ps_toCSVString_eq [OF pn(1)] by blast
qed

end
