(* ===== verification/Dict.thy ===== *)
theory Dict
  imports Util "HOL-Library.Multiset"
begin

text \<open>
  Comparators and dictionaries. The client keeps its objects in dictionaries and hash tables
  of the Kazlib library, each ordered by a comparison function of the client. The contract of
  such a function is the locale \<open>comparator\<close>; it is interpreted on the comparison functions of
  the client, here on those of strings. Kazlib itself is not part of the sources: its
  operations are an argument of the definitions that use them, a dictionary being the list of
  its keys in the order of traversal, and what they do with a lawful comparator is the
  predicate \<open>dict_laws\<close>.
\<close>

section \<open>Comparators\<close>

locale comparator =
  fixes valid :: "'a \<Rightarrow> bool" and cmp :: "'a \<Rightarrow> 'a \<Rightarrow> int"
  assumes cmp_refl: "valid x \<Longrightarrow> cmp x x = 0"
    and cmp_antisym: "valid x \<Longrightarrow> valid y \<Longrightarrow> cmp y x < 0 \<longleftrightarrow> 0 < cmp x y"
    and cmp_trans: "valid x \<Longrightarrow> valid y \<Longrightarrow> valid z \<Longrightarrow> cmp x y \<le> 0 \<Longrightarrow> cmp y z \<le> 0 \<Longrightarrow> cmp x z \<le> 0"

definition dict_sorted :: "('a \<Rightarrow> 'a \<Rightarrow> int) \<Rightarrow> 'a list \<Rightarrow> bool" where
  "dict_sorted cmp xs = sorted_wrt (\<lambda>x y. cmp x y < 0) xs"

definition place :: "('a \<Rightarrow> 'a \<Rightarrow> int) \<Rightarrow> 'a \<Rightarrow> 'a list \<Rightarrow> 'a list" where
  \<comment> \<open>the keys after the insertion of a new one\<close>
  "place cmp k xs = filter (\<lambda>x. cmp x k < 0) xs @ k # filter (\<lambda>x. cmp k x < 0) xs"

context comparator begin

lemma eq_sym: "valid x \<Longrightarrow> valid y \<Longrightarrow> cmp x y = 0 \<Longrightarrow> cmp y x = 0"
  using cmp_antisym [of x y] cmp_antisym [of y x] by force

lemma eq_trans:
  assumes "valid x" "valid y" "valid z" and "cmp x y = 0" and "cmp y z = 0"
  shows "cmp x z = 0"
proof -
  have "cmp x z \<le> 0" using assms cmp_trans [of x y z] by simp
  moreover have "cmp z x \<le> 0"
    using assms cmp_trans [of z y x] eq_sym [of x y] eq_sym [of y z] by simp
  ultimately show ?thesis using assms cmp_antisym [of z x] by simp
qed

lemma less_trans:
  assumes "valid x" "valid y" "valid z" and "cmp x y < 0" and "cmp y z \<le> 0"
  shows "cmp x z < 0"
proof -
  have "cmp x z \<le> 0" using assms cmp_trans [of x y z] by simp
  moreover have "cmp x z \<noteq> 0"
  proof
    assume "cmp x z = 0"
    then have "cmp z x \<le> 0" using assms eq_sym [of x z] by simp
    then have "cmp y x \<le> 0" using assms cmp_trans [of y z x] by simp
    then show False using assms cmp_antisym [of y x] by simp
  qed
  ultimately show ?thesis by simp
qed

lemma less_trans2:
  assumes "valid x" "valid y" "valid z" and "cmp x y \<le> 0" and "cmp y z < 0"
  shows "cmp x z < 0"
proof -
  have "cmp x z \<le> 0" using assms cmp_trans [of x y z] by simp
  moreover have "cmp x z \<noteq> 0"
  proof
    assume "cmp x z = 0"
    then have "cmp z x \<le> 0" using assms eq_sym [of x z] by simp
    then have "cmp z y \<le> 0" using assms cmp_trans [of z x y] by simp
    then show False using assms cmp_antisym [of z y] by simp
  qed
  ultimately show ?thesis by simp
qed

lemma eq_cong:
  assumes "valid x" "valid y" "valid z" and "cmp x y = 0"
  shows "cmp x z = 0 \<longleftrightarrow> cmp y z = 0" and "cmp x z < 0 \<longleftrightarrow> cmp y z < 0"
    and "cmp z x < 0 \<longleftrightarrow> cmp z y < 0"
proof -
  have yx: "cmp y x = 0" using assms eq_sym by blast
  show "cmp x z = 0 \<longleftrightarrow> cmp y z = 0" using assms yx eq_trans by blast
  show "cmp x z < 0 \<longleftrightarrow> cmp y z < 0" using assms yx less_trans2 by (metis order_refl)
  show "cmp z x < 0 \<longleftrightarrow> cmp z y < 0" using assms yx less_trans by (metis order_refl)
qed

lemma lookup_unique:
  assumes "dict_sorted cmp xs" and "list_all valid xs" and "valid k"
    and "x \<in> set xs" and "y \<in> set xs" and "cmp k x = 0" and "cmp k y = 0"
  shows "x = y"
proof (rule ccontr)
  assume ne: "x \<noteq> y"
  have d: "valid x" "valid y" using assms by (auto simp: list_all_iff)
  have xy: "cmp x y = 0" using d assms eq_sym eq_trans by blast
  from assms(4,5) obtain i j where ij: "i < length xs" "j < length xs" "xs ! i = x" "xs ! j = y"
    by (metis in_set_conv_nth)
  then have "i \<noteq> j" using ne by auto
  then have "cmp x y < 0 \<or> cmp y x < 0"
    using assms(1) ij by (metis dict_sorted_def nat_neq_iff sorted_wrt_iff_nth_less)
  then show False using xy eq_sym [OF d xy] by simp
qed

lemma sorted_distinct: "dict_sorted cmp xs \<Longrightarrow> list_all valid xs \<Longrightarrow> distinct xs"
  unfolding dict_sorted_def by (induction xs) (auto simp: cmp_refl)

lemma place_sorted:
  assumes "dict_sorted cmp xs" and "list_all valid xs" and "valid k"
  shows "dict_sorted cmp (place cmp k xs)"
proof -
  have "cmp x y < 0" if "x \<in> set xs" "y \<in> set xs" "cmp x k < 0" "cmp k y < 0" for x y
    using that assms less_trans [of x k y] by (auto simp: list_all_iff)
  then show ?thesis
    using assms(1) by (auto simp: dict_sorted_def place_def sorted_wrt_append sorted_wrt_filter)
qed

lemma set_place:
  assumes "list_all valid xs" and "valid k" and "\<forall>x \<in> set xs. cmp k x \<noteq> 0"
  shows "set (place cmp k xs) = insert k (set xs)"
proof -
  have "cmp x k < 0 \<or> cmp k x < 0" if "x \<in> set xs" for x
    using that assms cmp_antisym [of k x] cmp_antisym [of x k] by (force simp: list_all_iff)
  then show ?thesis by (auto simp: place_def)
qed

end

text \<open>Comparison by a second function where the first one does not decide.\<close>

lemma comparator_lex:
  assumes c1: "comparator valid c1"
    and c2: "\<And>x. valid x \<Longrightarrow> comparator (\<lambda>y. valid y \<and> c1 x y = 0) c2"
  shows "comparator valid (\<lambda>x y. if c1 x y = 0 then c2 x y else c1 x y)"
proof (rule comparator.intro)
  fix x y z
  assume x: "valid x"
  note refl1 = comparator.cmp_refl [OF c1]
  show "(if c1 x x = 0 then c2 x x else c1 x x) = 0"
    using comparator.cmp_refl [OF c2 [OF x], of x] x refl1 [OF x] by simp
  assume y: "valid y"
  note anti1 = comparator.cmp_antisym [OF c1 x y] comparator.cmp_antisym [OF c1 y x]
    and sym1 = comparator.eq_sym [OF c1 x y] comparator.eq_sym [OF c1 y x]
  show "(if c1 y x = 0 then c2 y x else c1 y x) < 0 \<longleftrightarrow> 0 < (if c1 x y = 0 then c2 x y else c1 x y)"
  proof (cases "c1 x y = 0")
    case True
    with comparator.cmp_antisym [OF c2 [OF x], of x y] x y refl1 [OF x] sym1 show ?thesis by simp
  next
    case False
    with sym1 anti1 show ?thesis by auto
  qed
  assume z: "valid z" and xy: "(if c1 x y = 0 then c2 x y else c1 x y) \<le> 0"
    and yz: "(if c1 y z = 0 then c2 y z else c1 y z) \<le> 0"
  have le: "c1 x y \<le> 0" "c1 y z \<le> 0" using xy yz by (auto split: if_splits)
  show "(if c1 x z = 0 then c2 x z else c1 x z) \<le> 0"
  proof (cases "c1 x y = 0 \<and> c1 y z = 0")
    case True
    then have "c1 x z = 0" using comparator.eq_trans [OF c1 x y z] by simp
    with True comparator.cmp_trans [OF c2 [OF x], of x y z] x y z refl1 [OF x] xy yz show ?thesis by simp
  next
    case False
    then have "c1 x z < 0"
      using le comparator.less_trans [OF c1 x y z] comparator.less_trans2 [OF c1 x y z] by force
    then show ?thesis by simp
  qed
qed

text \<open>The comparison functions of strings meet the contract.\<close>

lemma c_strcmp_le_trans: "c_strcmp x y \<le> 0 \<Longrightarrow> c_strcmp y z \<le> 0 \<Longrightarrow> c_strcmp x z \<le> 0"
  using c_strcmp_trans [of x y z] c_strcmp_eq_0 [of x y] c_strcmp_eq_0 [of y z]
  by (metis dual_order.order_iff_strict)

interpretation strcmp: comparator "\<lambda>_. True" c_strcmp
proof
  show "c_strcmp y x < 0 \<longleftrightarrow> 0 < c_strcmp x y" for x y
    using c_strcmp_antisym [of x y] by simp
qed (auto intro: c_strcmp_le_trans)

interpretation stricmp: comparator "\<lambda>_. True" c_stricmp
proof
  show "c_stricmp y x < 0 \<longleftrightarrow> 0 < c_stricmp x y" for x y
    using c_strcmp_antisym [of "map tolower x" "map tolower y"] by (simp add: c_stricmp_def)
qed (auto simp: c_stricmp_def intro: c_strcmp_le_trans)

interpretation pathcmp: comparator "\<lambda>_. True" util_pathcmp
proof
  show "util_pathcmp y x < 0 \<longleftrightarrow> 0 < util_pathcmp x y" for x y
    using c_strcmp_antisym [of x y] by (simp add: util_pathcmp_def)
qed (auto simp: util_pathcmp_def intro: c_strcmp_le_trans)

section \<open>Dictionaries\<close>

record 'k dict_ops =
  dict_insert :: "('k \<Rightarrow> 'k \<Rightarrow> int) \<Rightarrow> 'k \<Rightarrow> 'k list \<Rightarrow> 'k list result"
  dict_lookup :: "('k \<Rightarrow> 'k \<Rightarrow> int) \<Rightarrow> 'k \<Rightarrow> 'k list \<Rightarrow> 'k option"

text \<open>
  With a lawful comparator a lookup finds the key that compares equal, and an insertion puts
  a new key at its place in the order, or aborts if an equal key is present (no dictionary of
  the client allows duplicates).
\<close>

definition dict_laws :: "'k dict_ops \<Rightarrow> ('k \<Rightarrow> bool) \<Rightarrow> ('k \<Rightarrow> 'k \<Rightarrow> int) \<Rightarrow> bool" where
  "dict_laws ops valid cmp = (\<forall>xs k. list_all valid xs \<longrightarrow> valid k \<longrightarrow> dict_sorted cmp xs \<longrightarrow>
     dict_lookup ops cmp k xs = find (\<lambda>x. cmp k x = 0) xs \<and>
     (if \<exists>x \<in> set xs. cmp k x = 0 then \<exists>m. dict_insert ops cmp k xs = Inl (Abort m)
      else dict_insert ops cmp k xs = Inr (place cmp k xs)))"

lemma dict_laws_lookup:
  "dict_laws ops valid cmp \<Longrightarrow> list_all valid xs \<Longrightarrow> valid k \<Longrightarrow> dict_sorted cmp xs \<Longrightarrow>
     dict_lookup ops cmp k xs = find (\<lambda>x. cmp k x = 0) xs"
  unfolding dict_laws_def by blast

lemma dict_laws_insert:
  "dict_laws ops valid cmp \<Longrightarrow> list_all valid xs \<Longrightarrow> valid k \<Longrightarrow> dict_sorted cmp xs \<Longrightarrow>
     \<forall>x \<in> set xs. cmp k x \<noteq> 0 \<Longrightarrow> dict_insert ops cmp k xs = Inr (place cmp k xs)"
  unfolding dict_laws_def by meson

text \<open>The laws can be met: operations on sorted lists, used in the witnesses.\<close>

definition list_dict :: "'k dict_ops" where
  "list_dict = \<lparr>dict_insert = (\<lambda>cmp k xs. if list_ex (\<lambda>x. cmp k x = 0) xs then Inl (Abort ''duplicate key'')
       else Inr (place cmp k xs)),
     dict_lookup = (\<lambda>cmp k xs. find (\<lambda>x. cmp k x = 0) xs)\<rparr>"

lemma list_dict_laws: "dict_laws list_dict valid cmp"
  by (auto simp: dict_laws_def list_dict_def list_ex_iff)

lemma list_all_True [simp]: "list_all (\<lambda>_. True) xs"
  by (simp add: list_all_iff)

lemma find_None_iff: "find P xs = None \<longleftrightarrow> (\<forall>x \<in> set xs. \<not> P x)"
  by (induction xs) auto

lemma find_SomeD: "find P xs = Some x \<Longrightarrow> x \<in> set xs \<and> P x"
  by (induction xs) (auto split: if_splits)

section \<open>Hash tables\<close>

text \<open>
  A hash table is the list of its entries in the order of a scan. A lookup finds an entry
  with the same hash value whose key compares equal; an insertion aborts if there is one.
\<close>

record ('k, 'v) hash_ops =
  hash_insert :: "('k \<Rightarrow> 'k \<Rightarrow> int) \<Rightarrow> ('k \<Rightarrow> u64) \<Rightarrow> 'k \<Rightarrow> 'v \<Rightarrow> ('k \<times> 'v) list \<Rightarrow> ('k \<times> 'v) list result"
  hash_find :: "('k \<Rightarrow> 'k \<Rightarrow> int) \<Rightarrow> ('k \<Rightarrow> u64) \<Rightarrow> 'k \<Rightarrow> ('k \<times> 'v) list \<Rightarrow> ('k \<times> 'v) option"

definition hash_match :: "('k \<Rightarrow> 'k \<Rightarrow> int) \<Rightarrow> ('k \<Rightarrow> u64) \<Rightarrow> 'k \<Rightarrow> 'k \<times> 'v \<Rightarrow> bool" where
  "hash_match cmp hf k e = (hf (fst e) = hf k \<and> cmp (fst e) k = 0)"

definition hash_laws :: "('k, 'v) hash_ops \<Rightarrow> ('k \<Rightarrow> 'k \<Rightarrow> int) \<Rightarrow> ('k \<Rightarrow> u64) \<Rightarrow> bool" where
  "hash_laws ops cmp hf = (\<forall>k v es.
     (case hash_find ops cmp hf k es of
        None \<Rightarrow> (\<forall>e \<in> set es. \<not> hash_match cmp hf k e) \<and>
                (\<exists>es'. hash_insert ops cmp hf k v es = Inr es' \<and> mset es' = add_mset (k, v) (mset es))
      | Some e \<Rightarrow> e \<in> set es \<and> hash_match cmp hf k e \<and>
                (\<exists>m. hash_insert ops cmp hf k v es = Inl (Abort m))))"

definition list_hash :: "('k, 'v) hash_ops" where
  "list_hash = \<lparr>hash_insert = (\<lambda>cmp hf k v es. if list_ex (hash_match cmp hf k) es
       then Inl (Abort ''key present'') else Inr ((k, v) # es)),
     hash_find = (\<lambda>cmp hf k es. find (hash_match cmp hf k) es)\<rparr>"

lemma find_hash_match:
  "case find P es of
     None \<Rightarrow> (\<forall>e \<in> set es. \<not> P e) \<and> \<not> list_ex P es
   | Some e \<Rightarrow> e \<in> set es \<and> P e \<and> list_ex P es"
  by (induction es) (auto split: option.splits)

lemma list_hash_laws: "hash_laws list_hash cmp hf"
  unfolding hash_laws_def
proof (intro allI)
  fix k v es
  show "case hash_find list_hash cmp hf k es of
        None \<Rightarrow> (\<forall>e \<in> set es. \<not> hash_match cmp hf k e) \<and>
                (\<exists>es'. hash_insert list_hash cmp hf k v es = Inr es' \<and> mset es' = add_mset (k, v) (mset es))
      | Some e \<Rightarrow> e \<in> set es \<and> hash_match cmp hf k e \<and>
                (\<exists>m. hash_insert list_hash cmp hf k v es = Inl (Abort m))"
    using find_hash_match[of es "hash_match cmp hf k"]
    by (auto simp: list_hash_def split: option.splits)
qed


lemma hash_lawsD:
  assumes "hash_laws ops cmp hf"
  shows "case hash_find ops cmp hf k es of
        None \<Rightarrow> (\<forall>e \<in> set es. \<not> hash_match cmp hf k e) \<and>
                (\<exists>es'. hash_insert ops cmp hf k v es = Inr es' \<and> mset es' = add_mset (k, v) (mset es))
      | Some e \<Rightarrow> e \<in> set es \<and> hash_match cmp hf k e \<and>
                (\<exists>m. hash_insert ops cmp hf k v es = Inl (Abort m))"
  using assms unfolding hash_laws_def by blast

lemma hash_findD:
  assumes "hash_laws ops cmp hf"
  shows "hash_find ops cmp hf k es = None \<Longrightarrow> e \<in> set es \<Longrightarrow> \<not> hash_match cmp hf k e"
    and "hash_find ops cmp hf k es = Some e \<Longrightarrow> e \<in> set es \<and> hash_match cmp hf k e"
  using hash_lawsD [OF assms, where k = k and es = es] by auto

lemma hash_insert_new:
  assumes "hash_laws ops cmp hf" and "hash_find ops cmp hf k es = None" and "hash_insert ops cmp hf k v es = Inr es'"
  shows "mset es' = mset ((k, v) # es)"
proof -
  have "\<exists>es'. hash_insert ops cmp hf k v es = Inr es' \<and> mset es' = add_mset (k, v) (mset es)"
    using hash_lawsD [OF assms(1), where k = k and es = es and v = v] assms(2) by simp
  with assms(3) show ?thesis by simp
qed

end
