(* ===== verification/PathAction.thy ===== *)
theory PathAction
  imports PathState Dict
begin

text \<open>
  Path actions (\<open>src/pa.c\<close>): one operation of a process on a file, with the state of the file.
  The two ordering functions place actions in the dictionaries of a command action; the
  comma-separated form is what the auditor sends to the monitor and the client to the server.
\<close>

section \<open>Data\<close>

text \<open>The operations \<open>op_e\<close> of \<open>src/AO.h\<close>; a parsed record may hold any other letter.\<close>

datatype op_e = OP_READ | OP_EXEC | OP_APPEND | OP_CREAT | OP_LINK | OP_SYMLINK | OP_UNLINK
  | OP_MKDIR | OP_OTHER char

definition op_char :: "op_e \<Rightarrow> char" where
  "op_char t = (case t of OP_READ \<Rightarrow> CHR ''R'' | OP_EXEC \<Rightarrow> CHR ''X'' | OP_APPEND \<Rightarrow> CHR ''A''
     | OP_CREAT \<Rightarrow> CHR ''C'' | OP_LINK \<Rightarrow> CHR ''L'' | OP_SYMLINK \<Rightarrow> CHR ''S''
     | OP_UNLINK \<Rightarrow> CHR ''U'' | OP_MKDIR \<Rightarrow> CHR ''D'' | OP_OTHER c \<Rightarrow> c)"

definition op_of :: "char \<Rightarrow> op_e" where
  "op_of c = (if c = CHR ''R'' then OP_READ else if c = CHR ''X'' then OP_EXEC
     else if c = CHR ''A'' then OP_APPEND else if c = CHR ''C'' then OP_CREAT
     else if c = CHR ''L'' then OP_LINK else if c = CHR ''S'' then OP_SYMLINK
     else if c = CHR ''U'' then OP_UNLINK else if c = CHR ''D'' then OP_MKDIR else OP_OTHER c)"

record path_action_s =
  pa_op :: op_e
  pa_call :: "string option"
  pa_timestamp :: moment_s
  pa_pid :: u64
  pa_ppid :: u64
  pa_tid :: u64
  pa_depth :: u64
  pa_pccode :: "string option"
  pa_ccode :: "string option"
  pa_fd :: u32
  pa_uploadable :: u32
  pa_ps :: "path_state_s option"

text \<open>An object pointer: the address, which the ordering looks at, with the object there.\<close>

type_synonym pa_o = "nat \<times> path_action_s"

definition pa_new :: path_action_s where
  "pa_new = \<lparr>pa_op = OP_OTHER nul, pa_call = None, pa_timestamp = zero_moment, pa_pid = 0, pa_ppid = 0,
     pa_tid = 0, pa_depth = 0, pa_pccode = None, pa_ccode = None, pa_fd = 0, pa_uploadable = 0, pa_ps = None\<rparr>"

section \<open>Queries\<close>

definition pa_is_read :: "path_action_s \<Rightarrow> bool" where
  "pa_is_read pa = (pa_op pa = OP_EXEC \<or> pa_op pa = OP_READ)"

definition pa_is_write :: "path_action_s \<Rightarrow> bool" where
  "pa_is_write pa = (pa_op pa = OP_CREAT \<or> pa_op pa = OP_APPEND)"

definition pa_is_link :: "path_action_s \<Rightarrow> bool" where
  "pa_is_link pa = (pa_op pa = OP_LINK)"

definition pa_is_symlink :: "path_action_s \<Rightarrow> bool" where
  "pa_is_symlink pa = (pa_op pa = OP_SYMLINK)"

definition pa_is_unlink :: "path_action_s \<Rightarrow> bool" where
  "pa_is_unlink pa = (pa_op pa = OP_UNLINK)"

definition pa_get_ps :: "path_action_s \<Rightarrow> path_state_s result" where
  "pa_get_ps pa = (case pa_ps pa of Some ps \<Rightarrow> Inr ps | None \<Rightarrow> Inl (Fault ''NULL ps''))"

definition pa_get_rel :: "path_action_s \<Rightarrow> string result" where
  "pa_get_rel pa = bindR (pa_get_ps pa) ps_get_rel"

definition pa_get_abs :: "path_action_s \<Rightarrow> string result" where
  "pa_get_abs pa = bindR (pa_get_ps pa) ps_get_abs"

definition pa_get_pccode :: "path_action_s \<Rightarrow> string" where
  "pa_get_pccode pa = (case pa_pccode pa of Some c \<Rightarrow> c | None \<Rightarrow> ''-'')"

definition pa_get_ccode :: "path_action_s \<Rightarrow> string" where
  "pa_get_ccode pa = (case pa_ccode pa of Some c \<Rightarrow> c | None \<Rightarrow> ''-'')"

definition pa_is_member :: "path_action_s \<Rightarrow> bool result" where
  "pa_is_member pa = bindR (pa_get_ps pa) ps_is_member"

definition pa_has_timestamp :: "path_action_s \<Rightarrow> bool" where
  "pa_has_timestamp pa = moment_is_set (pa_timestamp pa)"

definition pa_has_dcode :: "path_action_s \<Rightarrow> bool result" where
  "pa_has_dcode pa = bindR (pa_get_ps pa) (\<lambda>ps. Inr (ps_has_dcode ps))"

definition pa_is_dir :: "path_action_s \<Rightarrow> bool result" where
  "pa_is_dir pa = bindR (pa_get_ps pa) (\<lambda>ps. Inr (ps_is_dir ps))"

definition pa_is_special :: "path_action_s \<Rightarrow> bool result" where
  "pa_is_special pa = bindR (pa_get_ps pa) (\<lambda>ps. Inr (ps_is_special ps))"

definition pa_exists :: "(string \<Rightarrow> bool) \<Rightarrow> path_action_s \<Rightarrow> bool result" where
  "pa_exists access pa = bindR (pa_get_ps pa) (ps_exists access)"

definition pa_set_moment :: "path_action_s \<Rightarrow> moment_s \<Rightarrow> path_action_s result" where
  "pa_set_moment pa m = bindR (pa_get_ps pa) (\<lambda>ps. Inr (pa\<lparr>pa_ps := Some (ps\<lparr>ps_moment := m\<rparr>)\<rparr>))"

definition pa_set_moment_str :: "path_action_s \<Rightarrow> string \<Rightarrow> (int \<times> path_action_s) result" where
  "pa_set_moment_str pa str = bindR (pa_get_ps pa) (\<lambda>ps. bindR (ps_set_moment_str ps str) (\<lambda>(rc, ps).
     Inr (rc, pa\<lparr>pa_ps := Some ps\<rparr>)))"

definition pa_set_size_str :: "path_action_s \<Rightarrow> string \<Rightarrow> path_action_s result" where
  "pa_set_size_str pa str = bindR (pa_get_ps pa) (\<lambda>ps. Inr (pa\<lparr>pa_ps := Some (ps_set_size_str ps str)\<rparr>))"

section \<open>Ordering\<close>

text \<open>
  The objects in dictionaries have a state with a path name; \<open>pa_rel\<close> is then the relative
  path.
\<close>

definition pa_rel :: "path_action_s \<Rightarrow> string" where
  "pa_rel pa = (case pa_get_rel pa of Inr p \<Rightarrow> p | Inl e \<Rightarrow> [])"

definition pa_cmp_by_pathname :: "pa_o \<Rightarrow> pa_o \<Rightarrow> int" where
  "pa_cmp_by_pathname left right =
     (if fst left = fst right then 0 else util_pathcmp (pa_rel (snd left)) (pa_rel (snd right)))"

definition pa_cmp :: "u64 \<Rightarrow> pa_o \<Rightarrow> pa_o \<Rightarrow> int" where
  \<comment> \<open>the first argument is the precision of \<open>moment_cmp\<close>\<close>
  "pa_cmp ro left right =
     (if fst left = fst right then 0
      else
        let pa1 = snd left; pa2 = snd right;
            rc =
              (if pa_is_read pa1 then
                 if pa_is_read pa2 then util_pathcmp (pa_rel pa1) (pa_rel pa2) else 1
               else if pa_is_read pa2 then - 1
               else
                 let rc = fst (moment_cmp ro (pa_timestamp pa1) (pa_timestamp pa2))
                 in if rc = 0 then
                      (if pa_is_unlink pa1 then 1 else if pa_is_unlink pa2 then - 1 else 0)
                    else rc)
        in if rc = 0 then (if fst right < fst left then 1 else - 1) else rc)"

section \<open>Text\<close>

definition pa_newFromCSVString :: "pn_env \<Rightarrow> string \<Rightarrow> path_action_s result" where
  "pa_newFromCSVString env csv =
     (case take_fields 9 (Some csv) of
        Some ([op1, call, timestamp, pid, depth1, ppid, tid, pccode, ccode], linebuf) \<Rightarrow>
          bindR (moment_parse timestamp) (\<lambda>(rc, m).
            if rc \<noteq> 0 then Inl (Abort ''bad format'')
            else case linebuf of
              None \<Rightarrow> Inl (Fault ''putil_strdup of NULL'')
            | Some rest \<Rightarrow>
                bindR (ps_newFromCSVString env rest) (\<lambda>ps.
                  Inr (pa_new\<lparr>pa_op := op_of (first_char op1), pa_call := set_str (Some call),
                    pa_timestamp := m, pa_pid := c_strtoul 10 pid, pa_depth := c_strtoul 10 depth1,
                    pa_ppid := c_strtoul 10 ppid, pa_tid := c_strtoul 10 tid,
                    pa_pccode := set_str (Some pccode), pa_ccode := set_str (Some ccode), pa_ps := Some ps\<rparr>)))
      | _ \<Rightarrow> Inl (Abort ''bad format''))"

definition pa_toCSVString :: "path_action_s \<Rightarrow> string result" where
  "pa_toCSVString pa =
     bindR (moment_format (pa_timestamp pa) MOMENT_BUFMAX) (\<lambda>timestamp.
     case pa_call pa of
       None \<Rightarrow> Inl (Fault ''%s of NULL'')
     | Some call \<Rightarrow>
         let pabuf = [op_char (pa_op pa)] @ FS1 @ call @ FS1 @ timestamp @ FS1 @ fmt_lu (pa_pid pa) @ FS1
               @ fmt_lu (pa_depth pa) @ FS1 @ fmt_lu (pa_ppid pa) @ FS1 @ fmt_lu (pa_tid pa) @ FS1
               @ pa_get_pccode pa @ FS1 @ pa_get_ccode pa @ FS1
         in bindR (pa_get_ps pa) (\<lambda>ps. bindR (ps_toCSVString ps) (\<lambda>psbuf.
              Inr (pabuf @ psbuf @ [newline]))))"

definition pa_tostring :: "(string \<Rightarrow> bool) \<Rightarrow> path_action_s \<Rightarrow> string result" where
  \<comment> \<open>the first argument is \<open>access(path, F_OK) == 0\<close>\<close>
  "pa_tostring access pa =
     bindR (pa_get_abs pa) (\<lambda>path. bindR (pa_toCSVString pa) (\<lambda>str.
       Inr (if access path then str else ''(GONE) '' @ str)))"

definition pa_set_timestamp_str :: "path_action_s \<Rightarrow> string \<Rightarrow> (int \<times> path_action_s) result" where
  "pa_set_timestamp_str pa str = bindR (moment_parse str) (\<lambda>(rc, m). Inr (rc, pa\<lparr>pa_timestamp := m\<rparr>))"

definition pa_set_dcode :: "path_action_s \<Rightarrow> string option \<Rightarrow> path_action_s result" where
  "pa_set_dcode pa dcode = bindR (pa_get_ps pa) (\<lambda>ps. Inr (pa\<lparr>pa_ps := Some (ps\<lparr>ps_dcode := set_str dcode\<rparr>)\<rparr>))"

definition pa_stat ::
  "'h ps_sys \<Rightarrow> 'h dcode_cache \<Rightarrow> path_action_s \<Rightarrow> bool \<Rightarrow> (int \<times> path_action_s \<times> 'h dcode_cache) result" where
  "pa_stat sys dc pa want_dcode =
     bindR (pa_get_ps pa) (\<lambda>ps. bindR (ps_stat sys dc ps want_dcode) (\<lambda>(rc, ps, dc).
       Inr (rc, pa\<lparr>pa_ps := Some ps\<rparr>, dc)))"

definition pa_diff :: "u64 \<Rightarrow> path_action_s \<Rightarrow> path_action_s \<Rightarrow> string option result" where
  "pa_diff ro pa1 pa2 = bindR (pa_get_ps pa1) (\<lambda>ps1. bindR (pa_get_ps pa2) (\<lambda>ps2. ps_diff ro ps1 ps2))"

definition pa_copy :: "pn_env \<Rightarrow> path_action_s \<Rightarrow> path_action_s result" where
  "pa_copy env cpa =
     bindR (pa_get_ps cpa) (\<lambda>ps. bindR (ps_copy env ps) (\<lambda>nps.
       Inr (pa_new\<lparr>pa_op := pa_op cpa, pa_call := set_str (pa_call cpa), pa_timestamp := pa_timestamp cpa,
         pa_pid := pa_pid cpa, pa_ppid := pa_ppid cpa, pa_tid := pa_tid cpa, pa_depth := pa_depth cpa,
         pa_pccode := set_str (Some (pa_get_pccode cpa)), pa_ccode := set_str (Some (pa_get_ccode cpa)),
         pa_fd := pa_fd cpa, pa_uploadable := pa_uploadable cpa, pa_ps := Some nps\<rparr>)))"

section \<open>Round trip\<close>

definition op_ok :: "op_e \<Rightarrow> bool" where
  "op_ok t = (op_of (op_char t) = t \<and> op_char t \<noteq> CHR '','' \<and> op_char t \<noteq> nul)"

text \<open>
  The actions the text represents. The file descriptor and the upload flag are not part of
  it and come back as 0.
\<close>

definition pa_ok :: "pn_env \<Rightarrow> path_action_s \<Rightarrow> bool" where
  "pa_ok env pa = (op_ok (pa_op pa) \<and>
     (case pa_call pa of Some c \<Rightarrow> str_ok (Some c) | None \<Rightarrow> False) \<and> norm_moment (pa_timestamp pa) \<and>
     str_ok (pa_pccode pa) \<and> str_ok (pa_ccode pa) \<and> pa_fd pa = 0 \<and> pa_uploadable pa = 0 \<and>
     (case pa_ps pa of Some ps \<Rightarrow> ps_ok env ps | None \<Rightarrow> False))"

lemma set_str_code:
  "str_ok v \<Longrightarrow> set_str (Some (case v of Some c \<Rightarrow> c | None \<Rightarrow> ''-'')) = v"
  by (auto simp: str_ok_def set_str_def CSV_FIELD_IS_NULL_def split: option.splits)

lemma pa_csv_core:
  assumes "pa_ok env pa"
  shows "\<exists>csv. pa_toCSVString pa = Inr (csv @ [newline]) \<and> pa_newFromCSVString env csv = Inr pa"
proof -
  obtain ps call where ps: "pa_ps pa = Some ps" "ps_ok env ps" and call: "pa_call pa = Some call" "str_ok (Some call)"
    using assms by (auto simp: pa_ok_def split: option.splits)
  obtain psbuf where psbuf: "ps_toCSVString ps = Inr psbuf" "ps_newFromCSVString env psbuf = Inr ps"
    using ps_csv_roundtrip [OF ps(2)] by auto
  let ?fs = "[[op_char (pa_op pa)], call, moment_str (pa_timestamp pa), fmt_lu (pa_pid pa), fmt_lu (pa_depth pa),
    fmt_lu (pa_ppid pa), fmt_lu (pa_tid pa), pa_get_pccode pa, pa_get_ccode pa]"
  have "list_all no_comma ?fs"
    using assms call by (auto simp: pa_ok_def op_ok_def str_ok_def pa_get_pccode_def pa_get_ccode_def split: option.splits)
  moreover have "length ?fs = 9" by simp
  ultimately have tf: "take_fields 9 (Some (csv_fields ?fs @ psbuf)) = Some (?fs, Some psbuf)"
    using take_fields_csv [of ?fs psbuf] by (simp only:)
  have mo: "moment_parse (moment_str (pa_timestamp pa)) = Inr (0, pa_timestamp pa)"
    using assms by (simp add: moment_parse_str pa_ok_def norm_moment_def)
  have codes: "set_str (Some (pa_get_pccode pa)) = pa_pccode pa" "set_str (Some (pa_get_ccode pa)) = pa_ccode pa"
    "set_str (Some call) = pa_call pa"
    using assms call by (simp_all add: pa_ok_def pa_get_pccode_def pa_get_ccode_def set_str_code)
      (simp add: str_ok_def set_str_def)
  have op: "op_of (first_char [op_char (pa_op pa)]) = pa_op pa"
    using assms by (simp add: pa_ok_def op_ok_def first_char_def)
  have "pa_newFromCSVString env (csv_fields ?fs @ psbuf) = Inr pa"
    unfolding pa_newFromCSVString_def tf
    using assms ps by (simp add: mo psbuf codes op pa_new_def pa_ok_def)
  moreover have "pa_toCSVString pa = Inr ((csv_fields ?fs @ psbuf) @ [newline])"
    using call ps psbuf by (simp add: pa_toCSVString_def pa_get_ps_def)
  ultimately show ?thesis by blast
qed

text \<open>
  C36. An action written as text for the server, read back without its newline, is the same
  action: operation, call, times, processes, codes and the complete state of its file.
\<close>

theorem pa_csv_roundtrip:
  assumes "pa_ok env pa"
  shows "\<exists>csv. pa_toCSVString pa = Inr (csv @ [newline]) \<and> pa_newFromCSVString env csv = Inr pa"
  using pa_csv_core [OF assms] .

definition sample_pn :: path_name_s where
  "sample_pn = \<lparr>pn_abs = ''/p/a,b.c'', pn_rel = 3\<rparr>"

definition sample_ps :: path_state_s where
  "sample_ps = \<lparr>ps_moment = \<lparr>ntv_sec = 5, ntv_nsec = 7\<rparr>, ps_size = 10, ps_mode = 0x81A4, ps_dcode = Some ''abc'',
     ps_fsname = None, ps_pn = Some sample_pn, ps_pn2 = None, ps_target = None, ps_datatype = PS_FILE\<rparr>"

definition sample_pa :: path_action_s where
  "sample_pa = \<lparr>pa_op = OP_READ, pa_call = Some ''open'', pa_timestamp = \<lparr>ntv_sec = 8, ntv_nsec = 9\<rparr>, pa_pid = 1,
     pa_ppid = 2, pa_tid = 3, pa_depth = 4, pa_pccode = None, pa_ccode = Some ''c0de'', pa_fd = 0, pa_uploadable = 0,
     pa_ps = Some sample_ps\<rparr>"

lemma sample_ok: "pa_ok \<lparr>pe_cwd = None, pe_base = ''/p''\<rparr> sample_pa"
  by (simp add: pa_ok_def sample_pa_def sample_ps_def sample_pn_def op_ok_def op_of_def op_char_def str_ok_def
      CSV_FIELD_IS_NULL_def norm_moment_def ps_ok_def datatype_ok_def ps_e_of_def ps_e_char_def pn_ok_def
      pn_get_rel_def pn_new_def Let_def pn_make_project_relative_def putil_is_absolute_def
      pn_abs_to_project_relative_path_def strneq0_def sepchar_def backslash_def nul_def)

theorem pa_csv_roundtrip_witness:
  "\<exists>csv. pa_toCSVString sample_pa = Inr (csv @ [newline]) \<and>
     pa_newFromCSVString \<lparr>pe_cwd = None, pe_base = ''/p''\<rparr> csv = Inr sample_pa"
  by (rule pa_csv_roundtrip) (rule sample_ok)

section \<open>The orders are lawful\<close>

text \<open>
  \<open>heap\<close> gives the object at an address; two pointers to the same address are the same
  object.
\<close>

definition ptr_ok :: "(nat \<Rightarrow> path_action_s) \<Rightarrow> pa_o \<Rightarrow> bool" where
  "ptr_ok heap p = (heap (fst p) = snd p)"

text \<open>
  The objects of \<open>S\<close> together: one object per address, times between the epoch and 2262, a
  rounding with a precision of at most 8 digits, and no two unlinks at the same rounded time.
\<close>

definition pa_objects :: "u64 \<Rightarrow> pa_o set \<Rightarrow> bool" where
  "pa_objects ro S = (2 \<le> uint ro \<and> ro \<noteq> - 1 \<and> (\<forall>p \<in> S. moment_ok (pa_timestamp (snd p))) \<and> inj_on fst S \<and>
     (\<forall>p \<in> S. \<forall>q \<in> S. pa_is_unlink (snd p) \<and> pa_is_unlink (snd q) \<and>
        fst (moment_cmp ro (pa_timestamp (snd p)) (pa_timestamp (snd q))) = 0 \<longrightarrow> p = q))"

definition pa_valid :: "u64 \<Rightarrow> pa_o set \<Rightarrow> pa_o \<Rightarrow> bool" where
  "pa_valid ro S p = (pa_objects ro S \<and> p \<in> S)"

lemma pa_validD:
  assumes "pa_valid ro S p"
  shows "2 \<le> uint ro" and "ro \<noteq> - 1" and "moment_ok (pa_timestamp (snd p))"
  using assms by (simp_all add: pa_valid_def pa_objects_def)

lemma pa_valid_address: "pa_valid ro S p \<Longrightarrow> pa_valid ro S q \<Longrightarrow> fst p = fst q \<longleftrightarrow> p = q"
  by (auto simp: pa_valid_def pa_objects_def dest: inj_onD)

interpretation by_pathname: comparator "ptr_ok heap" pa_cmp_by_pathname for heap
proof
  fix x y z
  show "pa_cmp_by_pathname x x = 0" by (simp add: pa_cmp_by_pathname_def)
  assume "ptr_ok heap x" "ptr_ok heap y"
  then have c: "pa_cmp_by_pathname u v = util_pathcmp (pa_rel (snd u)) (pa_rel (snd v))"
    if "ptr_ok heap u" "ptr_ok heap v" for u v
    using that by (auto simp: pa_cmp_by_pathname_def ptr_ok_def util_pathcmp_def)
  show "pa_cmp_by_pathname y x < 0 \<longleftrightarrow> 0 < pa_cmp_by_pathname x y"
    using \<open>ptr_ok heap x\<close> \<open>ptr_ok heap y\<close> by (simp add: c pathcmp.cmp_antisym)
  assume "ptr_ok heap z" and "pa_cmp_by_pathname x y \<le> 0" and "pa_cmp_by_pathname y z \<le> 0"
  then show "pa_cmp_by_pathname x z \<le> 0"
    using \<open>ptr_ok heap x\<close> \<open>ptr_ok heap y\<close> pathcmp.cmp_trans [of "pa_rel (snd x)"] by (simp add: c)
qed

definition class_cmp :: "pa_o \<Rightarrow> pa_o \<Rightarrow> int" where
  \<comment> \<open>everything else before the reads\<close>
  "class_cmp x y = (if pa_is_read (snd x) = pa_is_read (snd y) then 0
     else if pa_is_read (snd x) then 1 else - 1)"

definition content_cmp :: "u64 \<Rightarrow> pa_o \<Rightarrow> pa_o \<Rightarrow> int" where
  "content_cmp ro x y = (if pa_is_read (snd x) then util_pathcmp (pa_rel (snd x)) (pa_rel (snd y))
     else fst (moment_cmp ro (pa_timestamp (snd x)) (pa_timestamp (snd y))))"

definition unlink_cmp :: "pa_o \<Rightarrow> pa_o \<Rightarrow> int" where
  "unlink_cmp x y = (if pa_is_unlink (snd x) = pa_is_unlink (snd y) then 0
     else if pa_is_unlink (snd x) then 1 else - 1)"

definition addr_cmp :: "pa_o \<Rightarrow> pa_o \<Rightarrow> int" where
  "addr_cmp x y = (if fst x = fst y then 0 else if fst y < fst x then 1 else - 1)"

lemma moment_cmp_laws:
  assumes "2 \<le> uint ro" "ro \<noteq> - 1"
  shows "comparator moment_ok (\<lambda>l r. fst (moment_cmp ro l r))"
  by (rule comparator.intro) (simp_all add: moment_cmp_rounded assms sgn_if split: if_splits)

lemma read_not_unlink: "pa_is_read pa \<Longrightarrow> \<not> pa_is_unlink pa"
  by (auto simp: pa_is_read_def pa_is_unlink_def)

lemma pa_cmp_lex:
  assumes x: "pa_valid ro S x" and y: "pa_valid ro S y"
  shows "pa_cmp ro x y = (if class_cmp x y = 0 then
      if content_cmp ro x y = 0 then if unlink_cmp x y = 0 then addr_cmp x y else unlink_cmp x y
      else content_cmp ro x y else class_cmp x y)"
proof (cases "fst x = fst y")
  case True
  then have "x = y" using pa_valid_address [OF x y] by simp
  moreover have "fst (moment_cmp ro (pa_timestamp (snd x)) (pa_timestamp (snd x))) = 0"
    using comparator.cmp_refl [OF moment_cmp_laws] pa_validD [OF x] by simp
  ultimately show ?thesis
    by (simp add: pa_cmp_def class_cmp_def content_cmp_def addr_cmp_def unlink_cmp_def util_pathcmp_def)
next
  case False
  then have "x \<noteq> y" by auto
  then have "\<not> (pa_is_unlink (snd x) \<and> pa_is_unlink (snd y) \<and>
      fst (moment_cmp ro (pa_timestamp (snd x)) (pa_timestamp (snd y))) = 0)"
    using x y by (auto simp: pa_valid_def pa_objects_def)
  with False show ?thesis
    by (auto simp: pa_cmp_def class_cmp_def content_cmp_def addr_cmp_def unlink_cmp_def Let_def read_not_unlink)
qed

lemma content_laws: "comparator (\<lambda>y. pa_valid ro S y \<and> class_cmp x y = 0) (content_cmp ro)"
proof (cases "pa_is_read (snd x)")
  case True
  then have r: "class_cmp x y = 0 \<longleftrightarrow> pa_is_read (snd y)" for y by (simp add: class_cmp_def)
  show ?thesis
  proof
    fix a b c
    assume a: "pa_valid ro S a \<and> class_cmp x a = 0"
    then show "content_cmp ro a a = 0" by (simp add: content_cmp_def r util_pathcmp_def)
    assume b: "pa_valid ro S b \<and> class_cmp x b = 0"
    show "content_cmp ro b a < 0 \<longleftrightarrow> 0 < content_cmp ro a b"
      using a b by (simp add: content_cmp_def r pathcmp.cmp_antisym)
    assume "pa_valid ro S c \<and> class_cmp x c = 0" "content_cmp ro a b \<le> 0" "content_cmp ro b c \<le> 0"
    then show "content_cmp ro a c \<le> 0"
      using a b pathcmp.cmp_trans [of "pa_rel (snd a)"] by (simp add: content_cmp_def r)
  qed
next
  case False
  then have r: "class_cmp x y = 0 \<longleftrightarrow> \<not> pa_is_read (snd y)" for y by (simp add: class_cmp_def)
  show ?thesis
  proof
    fix a b c
    assume a: "pa_valid ro S a \<and> class_cmp x a = 0"
    then have v: "pa_valid ro S a" by simp
    note laws = moment_cmp_laws [OF pa_validD(1,2) [OF v]]
    show "content_cmp ro a a = 0"
      using a comparator.cmp_refl [OF laws] pa_validD(3) [of ro S a] by (simp add: content_cmp_def r)
    assume b: "pa_valid ro S b \<and> class_cmp x b = 0"
    show "content_cmp ro b a < 0 \<longleftrightarrow> 0 < content_cmp ro a b"
      using a b comparator.cmp_antisym [OF laws] pa_validD(3) [of ro S a] pa_validD(3) [of ro S b]
      by (simp add: content_cmp_def r)
    assume "pa_valid ro S c \<and> class_cmp x c = 0" "content_cmp ro a b \<le> 0" "content_cmp ro b c \<le> 0"
    then show "content_cmp ro a c \<le> 0"
      using a b comparator.cmp_trans [OF laws, of "pa_timestamp (snd a)" "pa_timestamp (snd b)"]
        pa_validD(3) [of ro S a] pa_validD(3) [of ro S b] pa_validD(3) [of ro S c]
      by (simp add: content_cmp_def r)
  qed
qed

interpretation pa_order: comparator "pa_valid ro S" "pa_cmp ro" for ro S
proof -
  let ?v = "pa_valid ro S"
  have cl: "comparator ?v class_cmp"
    by (rule comparator.intro) (auto simp: class_cmp_def split: if_splits)
  have un: "comparator v unlink_cmp" and ad: "comparator v addr_cmp" for v
    by (rule comparator.intro; auto simp: unlink_cmp_def addr_cmp_def split: if_splits)+
  let ?in2 = "\<lambda>x y. if unlink_cmp x y = 0 then addr_cmp x y else unlink_cmp x y"
  let ?in = "\<lambda>x y. if content_cmp ro x y = 0 then ?in2 x y else content_cmp ro x y"
  have in2: "comparator v ?in2" for v
    by (rule comparator_lex [OF un ad])
  have inner: "comparator (\<lambda>y. ?v y \<and> class_cmp x y = 0) ?in" for x
    by (rule comparator_lex [OF content_laws in2])
  have lex: "comparator ?v (\<lambda>x y. if class_cmp x y = 0 then ?in x y else class_cmp x y)"
    by (rule comparator_lex [OF cl inner])
  show "comparator ?v (pa_cmp ro)"
  proof
    fix x y z
    assume x: "?v x"
    show "pa_cmp ro x x = 0" using comparator.cmp_refl [OF lex x] by (simp only: pa_cmp_lex [OF x x])
    assume y: "?v y"
    show "pa_cmp ro y x < 0 \<longleftrightarrow> 0 < pa_cmp ro x y"
      using comparator.cmp_antisym [OF lex x y] by (simp only: pa_cmp_lex [OF x y] pa_cmp_lex [OF y x])
    assume z: "?v z" and "pa_cmp ro x y \<le> 0" "pa_cmp ro y z \<le> 0"
    then show "pa_cmp ro x z \<le> 0"
      using comparator.cmp_trans [OF lex x y z]
      by (simp only: pa_cmp_lex [OF x y] pa_cmp_lex [OF y z] pa_cmp_lex [OF x z])
  qed
qed

lemma pa_cmp_0: "pa_valid ro S x \<Longrightarrow> pa_valid ro S y \<Longrightarrow> pa_cmp ro x y = 0 \<longleftrightarrow> x = y"
  using pa_cmp_lex [of ro S x y] pa_valid_address [of ro S x y] pa_order.cmp_refl [of ro S x]
  by (auto simp: addr_cmp_def split: if_splits)

text \<open>
  C37. On actions among which no two are unlinks at the same time, \<open>pa_cmp\<close> is a strict total order of
  objects: it calls an object equal to itself only, it is antisymmetric and transitive, writes
  are in the order of their times, cut to the precision of \<open>moment_cmp\<close>, and reads in that of their
  paths. (Among unlinks at the same time it is no order, see \<open>pa_cmp_unlinks\<close>.)
\<close>

theorem pa_cmp_total_order:
  assumes "pa_valid ro S x" and "pa_valid ro S y" and "pa_valid ro S z"
  shows "(pa_cmp ro x y = 0 \<longleftrightarrow> x = y) \<and> (pa_cmp ro y x < 0 \<longleftrightarrow> 0 < pa_cmp ro x y) \<and>
    (pa_cmp ro x y < 0 \<and> pa_cmp ro y z < 0 \<longrightarrow> pa_cmp ro x z < 0) \<and>
    (\<not> pa_is_read (snd x) \<and> \<not> pa_is_read (snd y) \<and>
      fst (moment_cmp ro (pa_timestamp (snd x)) (pa_timestamp (snd y))) < 0 \<longrightarrow> pa_cmp ro x y < 0) \<and>
    (pa_is_read (snd x) \<and> pa_is_read (snd y) \<and> util_pathcmp (pa_rel (snd x)) (pa_rel (snd y)) < 0 \<longrightarrow> pa_cmp ro x y < 0)"
  using pa_cmp_0 [OF assms(1,2)] pa_order.cmp_antisym [OF assms(1,2)] pa_order.less_trans [OF assms]
    pa_cmp_lex [OF assms(1,2)]
  by (auto simp: class_cmp_def content_cmp_def)

theorem pa_cmp_total_order_witness:
  "pa_cmp 1000 (2, sample_pa\<lparr>pa_op := OP_CREAT\<rparr>) (1, sample_pa\<lparr>pa_op := OP_UNLINK, pa_timestamp := \<lparr>ntv_sec = 99, ntv_nsec = 0\<rparr>\<rparr>) < 0"
proof -
  let ?w = "sample_pa\<lparr>pa_op := OP_CREAT\<rparr>"
  let ?u = "sample_pa\<lparr>pa_op := OP_UNLINK, pa_timestamp := \<lparr>ntv_sec = 99, ntv_nsec = 0\<rparr>\<rparr>"
  let ?S = "{(1, ?u), (2, ?w)}"
  have "pa_valid 1000 ?S (1, ?u)" "pa_valid 1000 ?S (2, ?w)"
    by (simp_all add: pa_valid_def pa_objects_def sample_pa_def pa_is_unlink_def moment_ok_def ns_def)
  moreover have "fst (moment_cmp 1000 (pa_timestamp ?w) (pa_timestamp ?u)) < 0"
    by (simp add: sample_pa_def moment_cmp_def Let_def NANOS_PER_SECOND_def)
  ultimately show ?thesis
    using pa_cmp_total_order [of 1000 ?S "(2, ?w)" "(1, ?u)" "(1, ?u)"]
    by (simp add: pa_is_read_def sample_pa_def)
qed

text \<open>Every write comes before every read, and an unlink after other writes of its time.\<close>

lemma pa_cmp_writes_first:
  assumes "pa_valid ro S x" and "pa_valid ro S y" and "\<not> pa_is_read (snd x)"
  shows "pa_is_read (snd y) \<Longrightarrow> pa_cmp ro x y < 0"
    and "fst (moment_cmp ro (pa_timestamp (snd x)) (pa_timestamp (snd y))) = 0 \<Longrightarrow>
      \<not> pa_is_unlink (snd x) \<Longrightarrow> pa_is_unlink (snd y) \<Longrightarrow> pa_cmp ro x y < 0"
  using assms pa_cmp_lex [OF assms(1,2)] read_not_unlink [of "snd y"]
  by (auto simp: class_cmp_def content_cmp_def unlink_cmp_def)

text \<open>
  Two unlinks at the same time are each reported as the later one: the comparison is not
  antisymmetric there, and an unlink is put after a creation at the same time, not before it
  as its comment says.
\<close>

theorem pa_cmp_unlinks:
  assumes "fst x \<noteq> fst y" and "pa_is_unlink (snd x)" and "\<not> pa_is_read (snd y)"
    and "fst (moment_cmp ro (pa_timestamp (snd x)) (pa_timestamp (snd y))) = 0"
    and "fst (moment_cmp ro (pa_timestamp (snd y)) (pa_timestamp (snd x))) = 0"
  shows "pa_cmp ro x y = 1 \<and> (if pa_is_unlink (snd y) then pa_cmp ro y x = 1 else pa_cmp ro y x = - 1)"
  using assms by (simp add: pa_cmp_def pa_is_unlink_def pa_is_read_def)

theorem pa_cmp_unlinks_witness:
  "pa_cmp 1000 (1, sample_pa\<lparr>pa_op := OP_UNLINK\<rparr>) (2, sample_pa\<lparr>pa_op := OP_UNLINK\<rparr>) = 1 \<and>
   pa_cmp 1000 (2, sample_pa\<lparr>pa_op := OP_UNLINK\<rparr>) (1, sample_pa\<lparr>pa_op := OP_UNLINK\<rparr>) = 1"
  using pa_cmp_unlinks [of "(1, sample_pa\<lparr>pa_op := OP_UNLINK\<rparr>)" "(2, sample_pa\<lparr>pa_op := OP_UNLINK\<rparr>)" 1000]
  by (simp add: pa_is_unlink_def pa_is_read_def moment_cmp_def Let_def)

end
