(* ===== verification/CmdAction.thy ===== *)
theory CmdAction
  imports PathAction
begin

text \<open>
  Command actions (\<open>src/ca.c\<close>): an audited command with the actions on files it is known for.
  Raw actions are recorded as they come, in the order of \<open>pa_cmp\<close>; \<open>ca_coalesce\<close> condenses
  them to one \<open>cooked\<close> action per path. Commands aggregate into groups under a leader, which
  is published as one command. Command actions refer to each other, so they live in a store
  from addresses to objects.
\<close>

section \<open>Data\<close>

record cmd_key_s =
  ck_ccode :: string
  ck_depth :: u64
  ck_cmdid :: u64

type_synonym ca_o = nat

record cmd_audit_s =
  ca_cmdid :: u64
  ca_depth :: u64
  ca_pcmdid :: u64
  ca_starttime :: moment_s
  ca_duration :: u64
  ca_prog :: "string option"
  ca_host :: "string option"
  ca_recycled :: "string option"
  ca_rwd :: "string option"
  ca_pccode :: "string option"
  ca_ccode :: "string option"
  ca_pathcode :: "string option"
  ca_line :: "string option"
  ca_raw_pa_dict :: "pa_o list option"
  ca_cooked_pa_dict :: "path_action_s list option"
  ca_group_hash :: "(cmd_key_s \<times> ca_o) list option"
  ca_leader :: "ca_o option"
  ca_strong :: bool
  ca_started :: bool
  ca_closed :: bool
  ca_processed :: bool
  ca_subs :: "string option"
  ca_freetext :: "string option"

type_synonym ca_store = "ca_o \<Rightarrow> cmd_audit_s"

text \<open>
  What the operations use from outside: the dictionaries and hash tables, the precision of
  \<open>moment_cmp\<close>, the path environment and the identity hash of a string (\<open>src/code.c\<close>).
\<close>

record ca_env =
  ce_raw :: "pa_o dict_ops"
  ce_cooked :: "path_action_s dict_ops"
  ce_hash :: "(cmd_key_s, ca_o) hash_ops"
  ce_ro :: u64
  ce_pn :: pn_env
  ce_code_from_str :: "string \<Rightarrow> string"

definition ca_get_pccode :: "cmd_audit_s \<Rightarrow> string" where
  "ca_get_pccode ca = (case ca_pccode ca of Some c \<Rightarrow> c | None \<Rightarrow> ''-'')"

definition ca_get_ccode :: "cmd_audit_s \<Rightarrow> string" where
  "ca_get_ccode ca = (case ca_ccode ca of Some c \<Rightarrow> c | None \<Rightarrow> ''-'')"

definition ca_get_pathcode :: "cmd_audit_s \<Rightarrow> string" where
  "ca_get_pathcode ca = (case ca_pathcode ca of Some c \<Rightarrow> c | None \<Rightarrow> ''-'')"

section \<open>Keys\<close>

definition ck_new :: "string \<Rightarrow> u64 \<Rightarrow> u64 \<Rightarrow> cmd_key_s" where
  "ck_new ccode depth cmdid = \<lparr>ck_ccode = ccode, ck_depth = depth, ck_cmdid = cmdid\<rparr>"

definition ck_new_from_ca :: "cmd_audit_s \<Rightarrow> cmd_key_s" where
  "ck_new_from_ca ca = ck_new (ca_get_ccode ca) (ca_depth ca) (ca_cmdid ca)"

definition ck_set_cmdid :: "cmd_key_s \<Rightarrow> u64 \<Rightarrow> cmd_key_s" where
  "ck_set_cmdid ck cmdid = ck\<lparr>ck_cmdid := cmdid\<rparr>"

definition ca_cmp_codes :: "string \<Rightarrow> string \<Rightarrow> int" where
  "ca_cmp_codes ccode1 ccode2 = c_strcmp ccode1 ccode2"

definition to_int :: "u64 \<Rightarrow> int" where
  \<comment> \<open>an \<open>unsigned long\<close> converted to \<open>int\<close>\<close>
  "to_int v = sint (ucast v :: u32)"

definition ca_o_hash_cmp :: "cmd_key_s \<Rightarrow> cmd_key_s \<Rightarrow> int" where
  "ca_o_hash_cmp ck1 ck2 =
     (let ccmp = ca_cmp_codes (ck_ccode ck1) (ck_ccode ck2)
      in if ccmp \<noteq> 0 then ccmp
         else if ck_depth ck1 \<noteq> ck_depth ck2 then to_int (ck_depth ck1 - ck_depth ck2)
         else if ck_cmdid ck1 = 0 \<or> ck_cmdid ck2 = 0 then 0
         else if ck_cmdid ck1 \<noteq> ck_cmdid ck2 then to_int (ck_cmdid ck1 - ck_cmdid ck2)
         else 0)"

definition ca_o_hash_func :: "cmd_key_s \<Rightarrow> u64" where
  "ca_o_hash_func ck = util_hash_fun_default (ck_ccode ck)"

section \<open>Construction\<close>

definition ca_new :: cmd_audit_s where
  "ca_new = \<lparr>ca_cmdid = 0, ca_depth = 0, ca_pcmdid = 0, ca_starttime = zero_moment, ca_duration = 0,
     ca_prog = None, ca_host = None, ca_recycled = None, ca_rwd = None, ca_pccode = None, ca_ccode = None,
     ca_pathcode = None, ca_line = None, ca_raw_pa_dict = Some [], ca_cooked_pa_dict = None,
     ca_group_hash = None, ca_leader = None, ca_strong = False, ca_started = False, ca_closed = False,
     ca_processed = False, ca_subs = None, ca_freetext = None\<rparr>"

definition CSV_NEWLINE_TOKEN :: string where "CSV_NEWLINE_TOKEN = ''^J''"

fun decode_newlines :: "string \<Rightarrow> string" where
  "decode_newlines [] = []"
| "decode_newlines [c] = [c]"
| "decode_newlines (c # d # s) =
     (if c = CHR ''^'' \<and> d = CHR ''J'' then newline # decode_newlines s
      else c # decode_newlines (d # s))"

definition CODE_IDENTITY_HASH_MAX_LEN :: nat where "CODE_IDENTITY_HASH_MAX_LEN = 256"

text \<open>
  \<open>ca_set_line\<close>: the code of the command is the hash of its line with the length appended.
  Without a line the code is left as it is.
\<close>

definition ca_set_line :: "ca_env \<Rightarrow> cmd_audit_s \<Rightarrow> string option \<Rightarrow> cmd_audit_s" where
  "ca_set_line env ca line =
     (case line of
        Some l \<Rightarrow>
          let nl = decode_newlines l; cc = ce_code_from_str env nl
          in ca\<lparr>ca_line := Some nl,
                ca_ccode := (if cc \<noteq> [] then Some (snprintf CODE_IDENTITY_HASH_MAX_LEN
                                (cc @ ''+'' @ fmt_lu (of_nat (length nl)))) else None)\<rparr>
      | None \<Rightarrow> ca\<lparr>ca_line := None\<rparr>)"

definition ca_newFromCSVString :: "ca_env \<Rightarrow> string \<Rightarrow> cmd_audit_s result" where
  "ca_newFromCSVString env csv =
     (case take_fields 13 (Some csv) of
        Some ([cmdid, depth1, pcmdid, starttime, duration, host, recycled, freetext, prog, rwd,
               pccode, ccode, pathcode], linebuf) \<Rightarrow>
          bindR (moment_parse starttime) (\<lambda>(rc, m).
            if rc \<noteq> 0 then Inl (Abort ''bad moment format'')
            else
              let ca = ca_new\<lparr>ca_cmdid := c_strtoul 10 cmdid, ca_depth := c_strtoul 10 depth1,
                    ca_pcmdid := c_strtoul 10 pcmdid, ca_starttime := m,
                    ca_duration := c_strtoul 10 duration, ca_prog := set_str (Some prog),
                    ca_host := set_str (Some host), ca_recycled := set_str (Some recycled),
                    ca_freetext := set_str (Some freetext), ca_rwd := set_str (Some rwd),
                    ca_pccode := set_str (Some pccode), ca_pathcode := set_str (Some pathcode)\<rparr>;
                  ca = ca_set_line env ca linebuf
              in if ca_cmp_codes (ca_get_ccode ca) ccode \<noteq> 0 then Inl (Abort ''ccode skew'')
                 else Inr ca)
      | _ \<Rightarrow> Inl (Abort ''bad format''))"

definition encode_newlines :: "string \<Rightarrow> string" where
  "encode_newlines s = concat (map (\<lambda>c. if c = newline then CSV_NEWLINE_TOKEN else [c]) s)"

text \<open>
  The last part of \<open>ca_format_header\<close>: the newlines inside the text are replaced; then its last
  character, an at sign, becomes the newline that ends it.
\<close>

definition ca_single_line :: "string \<Rightarrow> string" where
  "ca_single_line hdr = butlast (if newline \<in> set hdr then encode_newlines hdr else hdr) @ [newline]"

definition ca_format_header :: "cmd_audit_s \<Rightarrow> string result" where
  "ca_format_header ca =
     bindR (moment_format (ca_starttime ca) MOMENT_BUFMAX) (\<lambda>started.
     case (ca_prog ca, ca_line ca) of
       (Some prog, Some line) \<Rightarrow>
         Inr (ca_single_line (fmt_lu (ca_cmdid ca) @ FS1 @ fmt_lu (ca_depth ca) @ FS1 @ fmt_lu (ca_pcmdid ca) @ FS1
               @ started @ FS1 @ fmt_lu (ca_duration ca) @ FS1
               @ (case ca_host ca of Some h \<Rightarrow> h | None \<Rightarrow> ''?'') @ FS1
               @ (case ca_recycled ca of Some r \<Rightarrow> r | None \<Rightarrow> []) @ FS1
               @ (case ca_freetext ca of Some f \<Rightarrow> f | None \<Rightarrow> []) @ FS1
               @ prog @ FS1 @ (case ca_rwd ca of Some w \<Rightarrow> w | None \<Rightarrow> ''.'') @ FS1
               @ ca_get_pccode ca @ FS1 @ ca_get_ccode ca @ FS1 @ ca_get_pathcode ca @ FS1
               @ line @ ''@''))
     | _ \<Rightarrow> Inl (Fault ''%s of NULL''))"

definition ca_has_pathcode :: "cmd_audit_s \<Rightarrow> bool" where
  "ca_has_pathcode ca = (\<not> CSV_FIELD_IS_NULL (ca_get_pathcode ca))"

definition ca_is_top :: "cmd_audit_s \<Rightarrow> bool" where
  "ca_is_top ca = CSV_FIELD_IS_NULL (ca_get_pccode ca)"

section \<open>Recording and coalescing\<close>

definition ca_record_pa :: "ca_env \<Rightarrow> cmd_audit_s \<Rightarrow> pa_o \<Rightarrow> cmd_audit_s result" where
  "ca_record_pa env ca pa =
     (case ca_raw_pa_dict ca of
        None \<Rightarrow> Inl (Fault ''NULL dictionary'')
      | Some d \<Rightarrow> bindR (dict_insert (ce_raw env) (pa_cmp (ce_ro env)) pa d) (\<lambda>d'.
          Inr (ca\<lparr>ca_raw_pa_dict := Some d'\<rparr>)))"

text \<open>
  The cooked actions are fresh copies, so that \<open>pa_cmp_by_pathname\<close>, applied to a raw and a
  cooked one or to two cooked ones, compares their paths.
\<close>

definition pa_path_cmp :: "path_action_s \<Rightarrow> path_action_s \<Rightarrow> int" where
  "pa_path_cmp x y = util_pathcmp (pa_rel x) (pa_rel y)"

lemma pa_path_cmp_pointers: "a \<noteq> b \<Longrightarrow> pa_cmp_by_pathname (a, x) (b, y) = pa_path_cmp x y"
  by (simp add: pa_cmp_by_pathname_def pa_path_cmp_def)

definition pa_moment :: "path_action_s \<Rightarrow> moment_s" where
  \<comment> \<open>\<open>pa_get_moment\<close> of an action with a state\<close>
  "pa_moment pa = (case pa_ps pa of Some ps \<Rightarrow> ps_moment ps | None \<Rightarrow> zero_moment)"

definition keep_cooked :: "u64 \<Rightarrow> path_action_s \<Rightarrow> path_action_s \<Rightarrow> bool" where
  "keep_cooked ro raw_pa ckd_pa =
     (if \<not> pa_is_read raw_pa \<and> \<not> pa_is_read ckd_pa then
        (let (raw_t, ckd_t) =
           (if pa_has_timestamp raw_pa \<and> pa_has_timestamp ckd_pa
            then (pa_timestamp raw_pa, pa_timestamp ckd_pa)
            else (pa_moment raw_pa, pa_moment ckd_pa))
         in fst (moment_cmp ro raw_t ckd_t) \<le> 0)
      else pa_is_read raw_pa)"

definition coalesce_one :: "ca_env \<Rightarrow> path_action_s \<Rightarrow> path_action_s list \<Rightarrow> path_action_s list result" where
  "coalesce_one env raw_pa cooked =
     (case dict_lookup (ce_cooked env) pa_path_cmp raw_pa cooked of
        Some ckd_pa \<Rightarrow>
          if keep_cooked (ce_ro env) raw_pa ckd_pa then Inr cooked
          else bindR (pa_copy (ce_pn env) raw_pa) (\<lambda>c.
                 dict_insert (ce_cooked env) pa_path_cmp c (remove1 ckd_pa cooked))
      | None \<Rightarrow> bindR (pa_copy (ce_pn env) raw_pa) (\<lambda>c. dict_insert (ce_cooked env) pa_path_cmp c cooked))"

fun coalesce_all :: "ca_env \<Rightarrow> path_action_s list \<Rightarrow> path_action_s list \<Rightarrow> path_action_s list result" where
  "coalesce_all env [] cooked = Inr cooked"
| "coalesce_all env (raw_pa # raws) cooked =
     bindR (coalesce_one env raw_pa cooked) (\<lambda>cooked. coalesce_all env raws cooked)"

definition ca_coalesce :: "ca_env \<Rightarrow> cmd_audit_s \<Rightarrow> cmd_audit_s result" where
  "ca_coalesce env ca =
     (if ca_cooked_pa_dict ca \<noteq> None then Inl (Abort ''!ca->ca_cooked_pa_dict'')
      else case ca_raw_pa_dict ca of
        None \<Rightarrow> Inl (Fault ''NULL dictionary'')
      | Some raw \<Rightarrow> bindR (coalesce_all env (map snd raw) []) (\<lambda>cooked.
          Inr (ca\<lparr>ca_raw_pa_dict := Some [], ca_cooked_pa_dict := Some cooked\<rparr>)))"

definition ca_clear_pa :: "cmd_audit_s \<Rightarrow> cmd_audit_s" where
  "ca_clear_pa ca = ca\<lparr>ca_raw_pa_dict := map_option (\<lambda>d. []) (ca_raw_pa_dict ca), ca_cooked_pa_dict := None\<rparr>"

definition cooked_order :: "cmd_audit_s \<Rightarrow> path_action_s list" where
  \<comment> \<open>the order in which \<open>ca_foreach_cooked_pa\<close> visits the actions\<close>
  "cooked_order ca = (case ca_cooked_pa_dict ca of
     None \<Rightarrow> [] | Some d \<Rightarrow> filter pa_is_read d @ filter (\<lambda>pa. \<not> pa_is_read pa) d)"

fun foreach_pa :: "('s \<Rightarrow> path_action_s \<Rightarrow> (int \<times> 's) result) \<Rightarrow> path_action_s list \<Rightarrow> 's \<Rightarrow> int \<Rightarrow> (int \<times> 's) result"
  where
  "foreach_pa process [] s rc = Inr (rc, s)"
| "foreach_pa process (pa # pas) s rc =
     bindR (process s pa) (\<lambda>(pret, s).
       if pret < 0 then Inl (Abort ''error from foreach'') else foreach_pa process pas s (rc + pret))"

definition ca_foreach_cooked_pa ::
  "cmd_audit_s \<Rightarrow> ('s \<Rightarrow> path_action_s \<Rightarrow> (int \<times> 's) result) \<Rightarrow> 's \<Rightarrow> (int \<times> 's) result" where
  "ca_foreach_cooked_pa ca process s = foreach_pa process (cooked_order ca) s 0"

definition ca_foreach_raw_pa ::
  "cmd_audit_s \<Rightarrow> ('s \<Rightarrow> path_action_s \<Rightarrow> (int \<times> 's) result) \<Rightarrow> 's \<Rightarrow> (int \<times> 's) result" where
  "ca_foreach_raw_pa ca process s =
     (case ca_raw_pa_dict ca of None \<Rightarrow> Inl (Fault ''NULL dictionary'')
      | Some d \<Rightarrow> foreach_pa process (map snd d) s 0)"

definition ca_is_uploadable :: "cmd_audit_s \<Rightarrow> nat" where
  "ca_is_uploadable ca = (case ca_cooked_pa_dict ca of
     None \<Rightarrow> 0 | Some d \<Rightarrow> length (filter (\<lambda>pa. pa_uploadable pa \<noteq> 0) d))"

section \<open>The path code\<close>

definition ca_add_to_pathcode :: "string \<times> nat \<Rightarrow> path_action_s \<Rightarrow> (int \<times> string \<times> nat) result" where
  "ca_add_to_pathcode acc pa =
     bindR (pa_is_member pa) (\<lambda>m.
       if m \<and> \<not> pa_is_unlink pa
       then bindR (pa_get_abs pa) (\<lambda>path. Inr (0, fst acc @ path, snd acc + 1))
       else Inr (0, acc))"

definition ca_derive_pathcode :: "ca_env \<Rightarrow> cmd_audit_s \<Rightarrow> cmd_audit_s result" where
  "ca_derive_pathcode env ca =
     bindR (ca_foreach_cooked_pa ca ca_add_to_pathcode ([], 0)) (\<lambda>(rc, buf, count).
       if 0 < count then
         Inr (ca\<lparr>ca_pathcode := set_str (Some (snprintf CODE_IDENTITY_HASH_MAX_LEN
                (ce_code_from_str env buf @ ''-'' @ fmt_d (int count))))\<rparr>)
       else Inr (ca\<lparr>ca_pathcode := None\<rparr>))"


section \<open>Text with the actions\<close>

text \<open>
  \<open>ca_write\<close>: the texts passed to \<open>write(2)\<close>, in order. The dictionary is emptied whether or
  not the writes succeed.
\<close>

fun ca_write_all ::
  "'h ps_sys \<Rightarrow> path_action_s list \<Rightarrow> 'h dcode_cache \<Rightarrow> (string list \<times> 'h dcode_cache) result" where
  "ca_write_all sys [] dc = Inr ([], dc)"
| "ca_write_all sys (pa # pas) dc =
     bindR (if pa_is_read pa
            then bindR (pa_is_member pa) (\<lambda>m. if m then Inr (pa, dc)
              else bindR (pa_stat sys dc pa False) (\<lambda>(_, pa, dc). Inr (pa, dc)))
            else Inr (pa, dc)) (\<lambda>(pa, dc).
     bindR (pa_toCSVString pa) (\<lambda>pabuf.
     bindR (ca_write_all sys pas dc) (\<lambda>(bufs, dc). Inr (pabuf # bufs, dc))))"

definition ca_write ::
  "'h ps_sys \<Rightarrow> 'h dcode_cache \<Rightarrow> cmd_audit_s \<Rightarrow> (string list \<times> cmd_audit_s \<times> 'h dcode_cache) result" where
  "ca_write sys dc ca =
     (case ca_raw_pa_dict ca of
        None \<Rightarrow> Inl (Fault ''NULL dictionary'')
      | Some d \<Rightarrow> bindR (ca_write_all sys (map snd d) dc) (\<lambda>(bufs, dc).
          Inr (bufs, ca\<lparr>ca_raw_pa_dict := Some []\<rparr>, dc)))"

text \<open>
  The actions are sampled late, when they are written out. The first argument is the property
  \<open>Dcode.All\<close>; the \<open>fsync\<close> of an open descriptor has no effect on the model's state.
\<close>

definition ca_format_palist_callback ::
  "bool \<Rightarrow> 'h ps_sys \<Rightarrow> 'h dcode_cache \<Rightarrow> path_action_s \<Rightarrow> (string \<times> path_action_s \<times> 'h dcode_cache) result" where
  "ca_format_palist_callback dcode_all sys dc pa =
     bindR (pa_get_ps pa) (\<lambda>ps.
     bindR (if \<not> pa_is_unlink pa \<and> (ps_size ps = 0 \<or> dcode_all) then
              bindR (if dcode_all then Inr True
                     else bindR (pa_is_member pa) (\<lambda>m. Inr (m \<or> pa_uploadable pa \<noteq> 0))) (\<lambda>dcode_path.
              bindR (pa_stat sys dc pa dcode_path) (\<lambda>(_, pa, dc). Inr (pa, dc)))
            else Inr (pa, dc)) (\<lambda>(pa, dc).
     bindR (pa_get_ps pa) (\<lambda>ps.
       if ps_is_special ps \<or> (ps_is_dir ps \<and> pa_is_read pa) then Inr ([], pa, dc)
       else bindR (pa_toCSVString pa) (\<lambda>pabuf. Inr (pabuf, pa, dc)))))"

definition cooked_positions :: "path_action_s list \<Rightarrow> nat list" where
  \<comment> \<open>\<open>cooked_order\<close> by positions\<close>
  "cooked_positions d = filter (\<lambda>i. pa_is_read (d ! i)) [0..<length d] @
     filter (\<lambda>i. \<not> pa_is_read (d ! i)) [0..<length d]"

fun format_positions ::
  "bool \<Rightarrow> 'h ps_sys \<Rightarrow> nat list \<Rightarrow> path_action_s list \<Rightarrow> 'h dcode_cache \<Rightarrow>
     (string \<times> path_action_s list \<times> 'h dcode_cache) result" where
  "format_positions dcode_all sys [] d dc = Inr ([], d, dc)"
| "format_positions dcode_all sys (i # ps) d dc =
     bindR (ca_format_palist_callback dcode_all sys dc (d ! i)) (\<lambda>(pabuf, pa, dc).
     bindR (format_positions dcode_all sys ps (d[i := pa]) dc) (\<lambda>(buf, d, dc). Inr (pabuf @ buf, d, dc)))"

definition ca_format_cooked_palist ::
  "bool \<Rightarrow> 'h ps_sys \<Rightarrow> 'h dcode_cache \<Rightarrow> cmd_audit_s \<Rightarrow> (string \<times> cmd_audit_s \<times> 'h dcode_cache) result" where
  "ca_format_cooked_palist dcode_all sys dc ca =
     (case ca_cooked_pa_dict ca of
        None \<Rightarrow> Inr ([], ca, dc)
      | Some d \<Rightarrow> bindR (format_positions dcode_all sys (cooked_positions d) d dc) (\<lambda>(buf, d, dc).
          Inr (buf, ca\<lparr>ca_cooked_pa_dict := Some d\<rparr>, dc)))"

definition ca_toCSVString ::
  "bool \<Rightarrow> 'h ps_sys \<Rightarrow> 'h dcode_cache \<Rightarrow> cmd_audit_s \<Rightarrow> (string \<times> cmd_audit_s \<times> 'h dcode_cache) result" where
  "ca_toCSVString dcode_all sys dc ca =
     bindR (ca_format_header ca) (\<lambda>str.
     bindR (ca_format_cooked_palist dcode_all sys dc ca) (\<lambda>(pas, ca, dc).
       Inr (str @ (case ca_subs ca of Some subs \<Rightarrow> subs | None \<Rightarrow> []) @ pas, ca, dc)))"

section \<open>Groups\<close>

definition ca_set_leader :: "ca_o \<Rightarrow> ca_o option \<Rightarrow> ca_store \<Rightarrow> ca_store" where
  "ca_set_leader ca ldr s = s(ca := (s ca)\<lparr>ca_leader := ldr\<rparr>)"

definition ca_has_leader :: "ca_store \<Rightarrow> ca_o \<Rightarrow> bool" where
  "ca_has_leader s ca = (ca_leader (s ca) \<noteq> None)"

definition ca_get_pa_count :: "cmd_audit_s \<Rightarrow> nat result" where
  "ca_get_pa_count ca = (case ca_raw_pa_dict ca of None \<Rightarrow> Inl (Fault ''NULL dictionary'')
     | Some d \<Rightarrow> Inr (length d))"

definition ca_start_group :: "ca_o \<Rightarrow> bool \<Rightarrow> ca_store \<Rightarrow> ca_store result" where
  "ca_start_group ca strength s =
     (if ca_group_hash (s ca) \<noteq> None then Inl (Abort ''!ca->ca_group_hash'')
      else Inr (s(ca := (s ca)\<lparr>ca_group_hash := Some [], ca_leader := Some ca, ca_strong := strength\<rparr>)))"

definition ca_aggregate :: "ca_env \<Rightarrow> ca_o \<Rightarrow> ca_o \<Rightarrow> ca_store \<Rightarrow> ca_store result" where
  "ca_aggregate env ldr sub s =
     (case ca_group_hash (s ldr) of
        None \<Rightarrow> Inl (Abort ''ldr->ca_group_hash'')
      | Some h \<Rightarrow>
          let ck = ck_new_from_ca (s sub)
          in bindR (case hash_find (ce_hash env) ca_o_hash_cmp ca_o_hash_func ck h of
               Some _ \<Rightarrow> Inr s
             | None \<Rightarrow> bindR (hash_insert (ce_hash env) ca_o_hash_cmp ca_o_hash_func ck sub h) (\<lambda>h'.
                 Inr (s(ldr := (s ldr)\<lparr>ca_group_hash := Some h'\<rparr>)))) (\<lambda>s.
             Inr (ca_set_leader sub (Some ldr) s)))"

fun record_all :: "ca_env \<Rightarrow> pa_o list \<Rightarrow> cmd_audit_s \<Rightarrow> cmd_audit_s result" where
  "record_all env [] ca = Inr ca"
| "record_all env (pa # pas) ca = bindR (ca_record_pa env ca pa) (record_all env pas)"

definition ca_merge :: "ca_env \<Rightarrow> ca_o \<Rightarrow> ca_o \<Rightarrow> ca_store \<Rightarrow> ca_store result" where
  \<comment> \<open>for different objects\<close>
  "ca_merge env leader donor s =
     bindR (ca_format_header (s donor)) (\<lambda>sub.
       let ldr = (s leader)\<lparr>ca_subs := Some (case ca_subs (s leader) of Some t \<Rightarrow> t @ sub | None \<Rightarrow> sub)\<rparr>
       in case ca_raw_pa_dict (s donor) of
            None \<Rightarrow> Inr (s(leader := ldr))
          | Some d \<Rightarrow> bindR (record_all env d ldr) (\<lambda>ldr.
              Inr (s(leader := ldr, donor := (s donor)\<lparr>ca_raw_pa_dict := None\<rparr>))))"

text \<open>
  A publishing callback gets the object and works on a state of its own beside the store. The
  entry is taken out of the group after its object has been handled.
\<close>

type_synonym 'w publisher = "ca_o \<Rightarrow> 'w \<times> ca_store \<Rightarrow> ('w \<times> ca_store) result"

definition ca_finish :: "ca_env \<Rightarrow> 'w publisher \<Rightarrow> ca_o \<Rightarrow> 'w \<times> ca_store \<Rightarrow> ('w \<times> ca_store) result" where
  \<comment> \<open>\<open>ca_coalesce(ca); process(ca);\<close>\<close>
  "ca_finish env process ca ws = bindR (ca_coalesce env (snd ws ca)) (\<lambda>obj. process ca (fst ws, (snd ws)(ca := obj)))"

definition hash_scan_delete :: "ca_o \<Rightarrow> cmd_key_s \<times> ca_o \<Rightarrow> ca_store \<Rightarrow> ca_store" where
  "hash_scan_delete ldr e s = s(ldr := (s ldr)\<lparr>ca_group_hash := map_option (remove1 e) (ca_group_hash (s ldr))\<rparr>)"

fun disband_scan ::
  "ca_env \<Rightarrow> 'w publisher \<Rightarrow> ca_o \<Rightarrow> (cmd_key_s \<times> ca_o) list \<Rightarrow> 'w \<times> ca_store \<Rightarrow> ('w \<times> ca_store) result" where
  "disband_scan env process ldr [] ws = Inr ws"
| "disband_scan env process ldr (e # es) ws =
     bindR (if ca_closed (snd ws (snd e)) then ca_finish env process (snd e) ws else Inr ws) (\<lambda>(w, s).
       disband_scan env process ldr es (w, hash_scan_delete ldr e (ca_set_leader (snd e) None s)))"

definition ca_disband :: "ca_env \<Rightarrow> 'w publisher \<Rightarrow> ca_o \<Rightarrow> 'w \<times> ca_store \<Rightarrow> ('w \<times> ca_store) result" where
  "ca_disband env process ldr ws =
     (case ca_group_hash (snd ws ldr) of
        None \<Rightarrow> Inl (Fault ''NULL hash'')
      | Some h \<Rightarrow> bindR (disband_scan env process ldr h ws) (\<lambda>ws.
          bindR (if ca_closed (snd ws ldr) then ca_finish env process ldr ws else Inr ws) (\<lambda>(w, s).
            Inr (w, s(ldr := (s ldr)\<lparr>ca_group_hash := None, ca_leader := None\<rparr>)))))"

fun merge_scan :: "ca_env \<Rightarrow> ca_o \<Rightarrow> (cmd_key_s \<times> ca_o) list \<Rightarrow> ca_store \<Rightarrow> ca_store result" where
  "merge_scan env ca [] s = Inr s"
| "merge_scan env ca (e # es) s =
     bindR (if snd e \<noteq> ca
            then bindR (ca_merge env ca (snd e) s) (\<lambda>s. Inr (s(snd e := (s (snd e))\<lparr>ca_processed := True\<rparr>)))
            else Inr s) (\<lambda>s.
       merge_scan env ca es (hash_scan_delete ca e s))"

definition ca_publish :: "ca_env \<Rightarrow> 'w publisher \<Rightarrow> ca_o \<Rightarrow> 'w \<times> ca_store \<Rightarrow> ('w \<times> ca_store) result" where
  "ca_publish env process ca ws =
     bindR (case ca_group_hash (snd ws ca) of
              None \<Rightarrow> Inr (snd ws)
            | Some h \<Rightarrow> bindR (merge_scan env ca h (snd ws)) (\<lambda>s.
                Inr (s(ca := (s ca)\<lparr>ca_group_hash := None\<rparr>)))) (\<lambda>s.
       ca_finish env process ca (fst ws, s))"

definition ca_get_pending :: "ca_store \<Rightarrow> ca_o \<Rightarrow> nat" where
  "ca_get_pending s ca = (case ca_group_hash (s ca) of None \<Rightarrow> 0
     | Some h \<Rightarrow> length (filter (\<lambda>e. \<not> ca_closed (s (snd e))) h))"

end
