(* ===== verification/CmdProofs.thy ===== *)
theory CmdProofs
  imports CmdAction
begin

text \<open>
  What the operations of \<open>CmdAction\<close> achieve: keys are compared lawfully and in agreement with
  their hash values, the header is read back as it was written, and coalescing keeps exactly
  one action per path.
\<close>

section \<open>Keys\<close>

lemma sint_u32_range:
  "- (2 ^ 31) \<le> i \<Longrightarrow> i < 2 ^ 31 \<Longrightarrow> sint (word_of_int i :: u32) = i"
  by (simp add: sint_sbintrunc' signed_take_bit_int_eq_self)

lemma to_int_wi: "to_int (word_of_int i) = sint (word_of_int i :: u32)"
  by (simp add: to_int_def ucast_down_wi is_down)

lemma to_int_diff:
  assumes "uint a < 2 ^ 31" and "uint b < 2 ^ 31"
  shows "to_int (a - b) = uint a - uint b"
proof -
  have "0 \<le> uint a" "0 \<le> uint b" by simp_all
  then show ?thesis
    using assms sint_u32_range [of "uint a - uint b"] unfolding word_sub_wi to_int_wi by linarith
qed

definition ck_valid :: "cmd_key_s \<Rightarrow> bool" where
  \<comment> \<open>process ids and depths as the operating system gives them\<close>
  "ck_valid ck = (uint (ck_depth ck) < 2 ^ 31 \<and> 0 < uint (ck_cmdid ck) \<and> uint (ck_cmdid ck) < 2 ^ 31)"

lemma hash_cmp_valid:
  assumes "ck_valid a" and "ck_valid b"
  shows "ca_o_hash_cmp a b =
    (if ck_ccode a \<noteq> ck_ccode b then c_strcmp (ck_ccode a) (ck_ccode b)
     else if ck_depth a \<noteq> ck_depth b then uint (ck_depth a) - uint (ck_depth b)
     else uint (ck_cmdid a) - uint (ck_cmdid b))"
proof -
  have "ck_cmdid a \<noteq> 0" "ck_cmdid b \<noteq> 0" using assms by (auto simp: ck_valid_def)
  then show ?thesis
    using assms by (simp add: ca_o_hash_cmp_def ca_cmp_codes_def Let_def to_int_diff ck_valid_def)
qed

interpretation ck_order: comparator ck_valid ca_o_hash_cmp
proof
  fix x y z
  assume x: "ck_valid x"
  show "ca_o_hash_cmp x x = 0" by (simp add: hash_cmp_valid x)
  assume y: "ck_valid y"
  show "ca_o_hash_cmp y x < 0 \<longleftrightarrow> 0 < ca_o_hash_cmp x y"
    using c_strcmp_antisym [of "ck_ccode x" "ck_ccode y"] by (auto simp: hash_cmp_valid x y)
  assume z: "ck_valid z" and "ca_o_hash_cmp x y \<le> 0" "ca_o_hash_cmp y z \<le> 0"
  then show "ca_o_hash_cmp x z \<le> 0"
    using c_strcmp_le_trans [of "ck_ccode x" "ck_ccode y" "ck_ccode z"]
      c_strcmp_antisym [of "ck_ccode x" "ck_ccode y"] word_uint_eqI [of "ck_depth z" "ck_depth y"]
    by (auto simp: hash_cmp_valid x y z split: if_splits)
qed

text \<open>
  A command key looks up exactly the command with its code, depth and process id; keys
  that compare equal have the same hash value, so that a hash table finds them.
\<close>

theorem ca_key_identifies:
  assumes "ck_valid a" and "ck_valid b"
  shows "(ca_o_hash_cmp a b = 0 \<longleftrightarrow> a = b) \<and>
    (ca_o_hash_cmp a b = 0 \<longrightarrow> ca_o_hash_func a = ca_o_hash_func b)"
proof -
  have "a = b" if "ca_o_hash_cmp a b = 0"
    using that assms by (auto simp: hash_cmp_valid split: if_splits intro: cmd_key_s.equality dest: word_uint_eqI)
  then show ?thesis using ck_order.cmp_refl [OF assms(1)] by auto
qed

theorem ca_key_identifies_witness:
  "ca_o_hash_cmp (ck_new ''c0de+7'' 2 4711) (ck_new ''c0de+7'' 2 4712) \<noteq> 0"
  using ca_key_identifies [of "ck_new ''c0de+7'' 2 4711" "ck_new ''c0de+7'' 2 4712"]
  by (simp add: ck_new_def ck_valid_def)

text \<open>
  The process id 0 stands for any: a key with it compares equal to every key with its code
  and depth, so that comparing equal is not transitive, while the hash values still agree.
\<close>

theorem ca_key_wildcard:
  "ca_o_hash_cmp (ck_new c d 0) (ck_new c d i) = 0 \<and> ca_o_hash_cmp (ck_new c d i) (ck_new c d 0) = 0 \<and>
   ca_o_hash_func (ck_new c d 0) = ca_o_hash_func (ck_new c d i) \<and>
   ca_o_hash_cmp (ck_new c d 1) (ck_new c d 2) = - 1"
proof -
  have "to_int (1 - 2) = - 1" using to_int_diff [of 1 2] by simp
  then show ?thesis
    by (simp add: ca_o_hash_cmp_def ca_cmp_codes_def ca_o_hash_func_def ck_new_def Let_def)
qed


section \<open>The header\<close>

lemma encode_newlines_simps [simp]:
  "encode_newlines [] = []"
  "encode_newlines (c # s) = (if c = newline then CSV_NEWLINE_TOKEN else [c]) @ encode_newlines s"
  "encode_newlines (s @ t) = encode_newlines s @ encode_newlines t"
  by (simp_all add: encode_newlines_def)

lemma encode_newlines_id: "newline \<notin> set s \<Longrightarrow> encode_newlines s = s"
  by (induction s) auto

lemma encode_newlines_clean: "newline \<notin> set (encode_newlines s)"
  by (induction s) (auto simp: CSV_NEWLINE_TOKEN_def newline_def)

lemma hd_encode_newlines:
  "encode_newlines s = CHR ''J'' # t \<Longrightarrow> \<exists>u. s = CHR ''J'' # u"
  by (cases s) (auto simp: CSV_NEWLINE_TOKEN_def split: if_splits)

lemma decode_token: "decode_newlines (CSV_NEWLINE_TOKEN @ s) = newline # decode_newlines s"
  by (simp add: CSV_NEWLINE_TOKEN_def)

lemma decode_plain:
  "\<not> (c = CHR ''^'' \<and> (\<exists>t. s = CHR ''J'' # t)) \<Longrightarrow> decode_newlines (c # s) = c # decode_newlines s"
  by (cases s) auto

lemma decode_encode_newlines:
  "\<not> has_substring CSV_NEWLINE_TOKEN s \<Longrightarrow> decode_newlines (encode_newlines s) = s"
proof (induction s)
  case (Cons c s)
  then have IH: "decode_newlines (encode_newlines s) = s" by simp
  show ?case
  proof (cases "c = newline")
    case True
    with IH show ?thesis by (simp add: decode_token)
  next
    case False
    have "\<not> (c = CHR ''^'' \<and> (\<exists>t. encode_newlines s = CHR ''J'' # t))"
    proof
      assume a: "c = CHR ''^'' \<and> (\<exists>t. encode_newlines s = CHR ''J'' # t)"
      then obtain u where "s = CHR ''J'' # u" using hd_encode_newlines by blast
      with a Cons.prems show False by (simp add: prefix_of_def CSV_NEWLINE_TOKEN_def)
    qed
    with False IH show ?thesis by (simp add: decode_plain)
  qed
qed simp

definition header_str :: "string option \<Rightarrow> bool" where
  \<comment> \<open>a string field the header can carry\<close>
  "header_str v = (str_ok v \<and> (case v of None \<Rightarrow> True | Some s \<Rightarrow> newline \<notin> set s))"

text \<open>
  The commands the header represents: program, host and directory are known, the code is
  that of the line, and the line does not contain the newline token itself.
\<close>

definition header_ok :: "ca_env \<Rightarrow> cmd_audit_s \<Rightarrow> bool" where
  "header_ok env ca = (norm_moment (ca_starttime ca) \<and> header_str (ca_prog ca) \<and> ca_prog ca \<noteq> None \<and>
     header_str (ca_host ca) \<and> ca_host ca \<noteq> None \<and> header_str (ca_rwd ca) \<and> ca_rwd ca \<noteq> None \<and>
     header_str (ca_recycled ca) \<and> header_str (ca_freetext ca) \<and> header_str (ca_pccode ca) \<and>
     header_str (ca_pathcode ca) \<and> header_str (ca_ccode ca) \<and>
     (case ca_line ca of None \<Rightarrow> False | Some l \<Rightarrow> \<not> has_substring CSV_NEWLINE_TOKEN l \<and>
        ca_ccode ca = ca_ccode (ca_set_line env ca (Some (encode_newlines l)))))"

definition header_part :: "cmd_audit_s \<Rightarrow> cmd_audit_s" where
  \<comment> \<open>what the header carries, the rest as \<open>ca_new\<close> leaves it\<close>
  "header_part ca = ca\<lparr>ca_raw_pa_dict := Some [], ca_cooked_pa_dict := None, ca_group_hash := None,
     ca_leader := None, ca_strong := False, ca_started := False, ca_closed := False,
     ca_processed := False, ca_subs := None\<rparr>"

definition header_fields :: "cmd_audit_s \<Rightarrow> string list" where
  "header_fields ca = [fmt_lu (ca_cmdid ca), fmt_lu (ca_depth ca), fmt_lu (ca_pcmdid ca), moment_str (ca_starttime ca),
     fmt_lu (ca_duration ca), (case ca_host ca of Some h \<Rightarrow> h | None \<Rightarrow> ''?''),
     (case ca_recycled ca of Some r \<Rightarrow> r | None \<Rightarrow> []), (case ca_freetext ca of Some f \<Rightarrow> f | None \<Rightarrow> []),
     the (ca_prog ca), (case ca_rwd ca of Some w \<Rightarrow> w | None \<Rightarrow> ''.''),
     ca_get_pccode ca, ca_get_ccode ca, ca_get_pathcode ca]"

lemma header_str_cases:
  assumes "header_str v"
  shows "no_comma (case v of Some s \<Rightarrow> s | None \<Rightarrow> d) \<longleftrightarrow> v \<noteq> None \<or> no_comma d"
    and "newline \<notin> set (case v of Some s \<Rightarrow> s | None \<Rightarrow> d) \<longleftrightarrow> v \<noteq> None \<or> newline \<notin> set d"
    and "CSV_FIELD_IS_NULL d \<Longrightarrow> set_str (Some (case v of Some s \<Rightarrow> s | None \<Rightarrow> d)) = v"
  using assms by (auto simp: header_str_def str_ok_def set_str_def split: option.splits)

lemma header_fields_clean:
  assumes "header_ok env ca"
  shows "list_all no_comma (header_fields ca)" and "newline \<notin> set (csv_fields (header_fields ca))"
proof -
  obtain prog where "ca_prog ca = Some prog" "no_comma prog" "newline \<notin> set prog"
    using assms by (auto simp: header_ok_def header_str_def str_ok_def split: option.splits)
  then show "list_all no_comma (header_fields ca)" and "newline \<notin> set (csv_fields (header_fields ca))"
    using assms by (simp_all add: header_fields_def header_ok_def header_str_cases ca_get_pccode_def ca_get_ccode_def
        ca_get_pathcode_def FS1_def) (auto simp: newline_def header_str_def split: option.splits)
qed

lemma ca_format_header_eq:
  assumes "header_ok env ca" and "ca_line ca = Some line"
  shows "ca_format_header ca = Inr (csv_fields (header_fields ca) @ encode_newlines line @ [newline])"
proof -
  obtain prog where prog: "ca_prog ca = Some prog" using assms by (auto simp: header_ok_def)
  let ?h = "csv_fields (header_fields ca) @ line @ ''@''"
  have "(if newline \<in> set ?h then encode_newlines ?h else ?h) = encode_newlines ?h"
    by (simp add: encode_newlines_id)
  also have "\<dots> = (csv_fields (header_fields ca) @ encode_newlines line) @ ''@''"
    using encode_newlines_id [OF header_fields_clean(2) [OF assms(1)]] by (simp add: newline_def)
  finally have "butlast (if newline \<in> set ?h then encode_newlines ?h else ?h)
    = csv_fields (header_fields ca) @ encode_newlines line"
    by (simp only: butlast_snoc)
  moreover have "ca_format_header ca = Inr (ca_single_line ?h)"
    using assms(2) prog by (simp add: ca_format_header_def header_fields_def)
  ultimately show ?thesis by (simp only: ca_single_line_def append_assoc)
qed

definition header_csv :: "cmd_audit_s \<Rightarrow> string" where
  "header_csv ca = csv_fields (header_fields ca) @ encode_newlines (the (ca_line ca))"

lemma header_csv_parses:
  assumes "header_ok env ca"
  shows "ca_format_header ca = Inr (header_csv ca @ [newline])" and "newline \<notin> set (header_csv ca)"
    and "ca_newFromCSVString env (header_csv ca) = Inr (header_part ca)"
proof -
  obtain line where line: "ca_line ca = Some line" "\<not> has_substring CSV_NEWLINE_TOKEN line"
    "ca_ccode ca = ca_ccode (ca_set_line env ca (Some (encode_newlines line)))"
    using assms by (auto simp: header_ok_def split: option.splits)
  have csv: "header_csv ca = csv_fields (header_fields ca) @ encode_newlines line"
    using line(1) by (simp add: header_csv_def)
  obtain prog where prog: "ca_prog ca = Some prog" "set_str (Some prog) = Some prog"
    using assms by (auto simp: header_ok_def header_str_def str_ok_def set_str_def split: option.splits)
  let ?csv = "csv_fields (header_fields ca) @ encode_newlines line"
  have "length (header_fields ca) = 13" by (simp add: header_fields_def)
  then have tf: "take_fields 13 (Some ?csv) = Some (header_fields ca, Some (encode_newlines line))"
    using take_fields_csv [OF header_fields_clean(1) [OF assms], of "encode_newlines line"] by simp
  have mo: "moment_parse (moment_str (ca_starttime ca)) = Inr (0, ca_starttime ca)"
    using assms by (simp add: moment_parse_str header_ok_def norm_moment_def)
  have fs: "set_str (Some (case ca_host ca of Some h \<Rightarrow> h | None \<Rightarrow> ''?'')) = ca_host ca"
    "set_str (Some (case ca_rwd ca of Some h \<Rightarrow> h | None \<Rightarrow> ''.'')) = ca_rwd ca"
    using assms by (auto simp: header_ok_def header_str_def str_ok_def set_str_def)
  have nul: "set_str (Some (case ca_recycled ca of Some h \<Rightarrow> h | None \<Rightarrow> [])) = ca_recycled ca"
    "set_str (Some (case ca_freetext ca of Some h \<Rightarrow> h | None \<Rightarrow> [])) = ca_freetext ca"
    "set_str (Some (ca_get_pccode ca)) = ca_pccode ca"
    "set_str (Some (ca_get_pathcode ca)) = ca_pathcode ca"
    using assms by (simp_all add: header_ok_def header_str_cases(3) CSV_FIELD_IS_NULL_def ca_get_pccode_def
        ca_get_pathcode_def)
  let ?ca0 = "(header_part ca)\<lparr>ca_ccode := None, ca_line := None\<rparr>"
  have set_line: "ca_set_line env ?ca0 (Some (encode_newlines line)) = header_part ca"
    using line decode_encode_newlines [OF line(2)]
    by (simp add: ca_set_line_def Let_def header_part_def)
  have "ca_cmp_codes (ca_get_ccode (header_part ca)) (ca_get_ccode ca) = 0"
    by (simp add: ca_cmp_codes_def ca_get_ccode_def header_part_def)
  moreover have "ca_newFromCSVString env ?csv =
    (let ca1 = ca_set_line env ?ca0 (Some (encode_newlines line))
     in if ca_cmp_codes (ca_get_ccode ca1) (ca_get_ccode ca) \<noteq> 0 then Inl (Abort ''ccode skew'') else Inr ca1)"
  proof -
    have "ca_new\<lparr>ca_cmdid := ca_cmdid ca, ca_depth := ca_depth ca, ca_pcmdid := ca_pcmdid ca,
        ca_starttime := ca_starttime ca, ca_duration := ca_duration ca, ca_prog := ca_prog ca,
        ca_host := ca_host ca, ca_recycled := ca_recycled ca, ca_freetext := ca_freetext ca, ca_rwd := ca_rwd ca,
        ca_pccode := ca_pccode ca, ca_pathcode := ca_pathcode ca\<rparr> = ?ca0"
      by (simp add: ca_new_def header_part_def)
    then show ?thesis
      unfolding ca_newFromCSVString_def tf
      by (simp add: header_fields_def mo fs nul prog Let_def)
  qed
  ultimately show "ca_newFromCSVString env (header_csv ca) = Inr (header_part ca)"
    by (simp add: set_line csv)
  show "ca_format_header ca = Inr (header_csv ca @ [newline])"
    using ca_format_header_eq [OF assms line(1)] by (simp add: csv)
  show "newline \<notin> set (header_csv ca)"
    using header_fields_clean(2) [OF assms] encode_newlines_clean [of line] by (simp add: csv)
qed

text \<open>
  C35. The header of a command, read back without its final newline, gives the same command:
  identity, times, codes and a command line which may have several lines. Only the set of
  actions, the group and the state of processing start afresh.
\<close>

theorem ca_header_roundtrip:
  assumes "header_ok env ca"
  shows "\<exists>csv. ca_format_header ca = Inr (csv @ [newline]) \<and> newline \<notin> set csv \<and>
    ca_newFromCSVString env csv = Inr (header_part ca)"
  using header_csv_parses [OF assms] by blast

definition sample_env :: ca_env where
  "sample_env = \<lparr>ce_raw = list_dict, ce_cooked = list_dict, ce_hash = list_hash, ce_ro = 1000,
     ce_pn = \<lparr>pe_cwd = None, pe_base = ''/p''\<rparr>, ce_code_from_str = (\<lambda>s. ''c0de'')\<rparr>"

definition sample_ca :: cmd_audit_s where
  "sample_ca = ca_new\<lparr>ca_cmdid := 10, ca_depth := 1, ca_pcmdid := 9, ca_prog := Some ''cc'', ca_host := Some ''h'',
     ca_rwd := Some ''src'', ca_pccode := Some ''f00+3'', ca_ccode := Some ''c0de+6'',
     ca_line := Some (''cc'' @ [newline] @ ''a.c''), ca_starttime := \<lparr>ntv_sec = 8, ntv_nsec = 9\<rparr>\<rparr>"

lemma sample_header_ok: "header_ok sample_env sample_ca"
proof -
  have "fmt_lu (of_nat (length (''cc'' @ [newline] @ ''a.c''))) = ''6''"
    by (simp add: fmt_lu_def nat_to_radix_less CHRS_def)
  then show ?thesis
    by (simp add: header_ok_def header_str_def str_ok_def CSV_FIELD_IS_NULL_def norm_moment_def sample_ca_def
        sample_env_def ca_new_def prefix_of_def CSV_NEWLINE_TOKEN_def newline_def ca_set_line_def Let_def
        snprintf_def CODE_IDENTITY_HASH_MAX_LEN_def)
qed

theorem ca_header_roundtrip_witness:
  "\<exists>csv. ca_format_header sample_ca = Inr (csv @ [newline]) \<and> newline \<notin> set csv \<and>
    ca_newFromCSVString sample_env csv = Inr (header_part sample_ca)"
  by (rule ca_header_roundtrip [OF sample_header_ok])

end
