(* ===== verification/Coalesce.thy ===== *)
theory Coalesce
  imports CmdProofs
begin

text \<open>
  Coalescing (\<open>ca_coalesce\<close> of \<open>src/ca.c\<close>): from the raw actions of a command, in the order
  they are held, to one cooked action per path.
\<close>

interpretation pa_path: comparator "\<lambda>_. True" pa_path_cmp
proof
  fix x y z
  show "pa_path_cmp x x = 0" by (simp add: pa_path_cmp_def pathcmp.cmp_refl)
  show "pa_path_cmp y x < 0 \<longleftrightarrow> 0 < pa_path_cmp x y"
    by (simp add: pa_path_cmp_def pathcmp.cmp_antisym)
  show "pa_path_cmp x y \<le> 0 \<Longrightarrow> pa_path_cmp y z \<le> 0 \<Longrightarrow> pa_path_cmp x z \<le> 0"
    using pathcmp.cmp_trans [of "pa_rel x" "pa_rel y" "pa_rel z"] by (simp add: pa_path_cmp_def)
qed

lemma pa_path_cmp_0 [simp]: "pa_path_cmp x y = 0 \<longleftrightarrow> pa_rel x = pa_rel y"
  by (simp add: pa_path_cmp_def util_pathcmp_def)

text \<open>An action whose copy has the same path, as one with a canonical path has.\<close>

definition copyable :: "pn_env \<Rightarrow> path_action_s \<Rightarrow> bool" where
  "copyable env pa = (case pa_copy env pa of Inr c \<Rightarrow> pa_rel c = pa_rel pa | Inl _ \<Rightarrow> False)"

definition the_copy :: "pn_env \<Rightarrow> path_action_s \<Rightarrow> path_action_s" where
  "the_copy env pa = (case pa_copy env pa of Inr c \<Rightarrow> c | Inl _ \<Rightarrow> pa)"

lemma copyable_copy:
  assumes "copyable env pa"
  shows "pa_copy env pa = Inr (the_copy env pa)" and "pa_rel (the_copy env pa) = pa_rel pa"
    and "pa_op (the_copy env pa) = pa_op pa" and "pa_timestamp (the_copy env pa) = pa_timestamp pa"
  using assms by (auto simp: copyable_def the_copy_def pa_copy_def bindR_eq_Inr split: sum.splits)

lemma copyable_path:
  assumes "pa_ps pa = Some ps" and "ps_pn ps = Some pn" and "pn_new env (pn_get_abs pn) True = Some pn"
  shows "copyable env pa"
  using assms by (simp add: copyable_def pa_copy_def pa_get_ps_def ps_copy_def ps_get_abs_def ps_newFromPath_def
      pa_rel_def pa_get_rel_def ps_get_rel_def ps_new_def pa_new_def)

section \<open>One action\<close>

definition replaces :: "ca_env \<Rightarrow> path_action_s \<Rightarrow> path_action_s list \<Rightarrow> path_action_s set" where
  \<comment> \<open>the cooked actions that the raw one drives out\<close>
  "replaces env raw cooked = {ckd \<in> set cooked. pa_rel ckd = pa_rel raw \<and> \<not> keep_cooked (ce_ro env) raw ckd}"

lemma dict_sorted_remove1: "dict_sorted cmp xs \<Longrightarrow> dict_sorted cmp (remove1 x xs)"
  unfolding dict_sorted_def by (induction xs) (auto dest: notin_set_remove1 intro: in_set_remove1)

lemma path_sorted_distinct: "dict_sorted pa_path_cmp xs \<Longrightarrow> distinct xs"
  by (rule pa_path.sorted_distinct) simp_all

lemma path_unique:
  "dict_sorted pa_path_cmp xs \<Longrightarrow> x \<in> set xs \<Longrightarrow> y \<in> set xs \<Longrightarrow> pa_rel x = pa_rel y \<Longrightarrow> x = y"
  by (rule pa_path.lookup_unique [of xs x]) (simp_all add: list_all_iff)

lemma insert_new:
  assumes "dict_laws ops (\<lambda>_. True) pa_path_cmp" and "dict_sorted pa_path_cmp xs" and "\<forall>x \<in> set xs. pa_rel x \<noteq> pa_rel c"
  shows "\<exists>ys. dict_insert ops pa_path_cmp c xs = Inr ys \<and> dict_sorted pa_path_cmp ys \<and> set ys = insert c (set xs)"
proof -
  have no: "\<forall>x \<in> set xs. pa_path_cmp c x \<noteq> 0" using assms(3) by auto
  have "dict_insert ops pa_path_cmp c xs = Inr (place pa_path_cmp c xs)"
    using assms(1,2) no by (auto simp: dict_laws_def)
  moreover have "dict_sorted pa_path_cmp (place pa_path_cmp c xs)"
    using pa_path.place_sorted assms(2) by (simp add: list_all_iff)
  moreover have "set (place pa_path_cmp c xs) = insert c (set xs)"
    using pa_path.set_place no by (simp add: list_all_iff)
  ultimately show ?thesis by blast
qed

lemma coalesce_one_spec:
  assumes laws: "dict_laws (ce_cooked env) (\<lambda>_. True) pa_path_cmp" and sorted: "dict_sorted pa_path_cmp cooked"
    and copy: "copyable (ce_pn env) raw"
  shows "\<exists>cooked'. coalesce_one env raw cooked = Inr cooked' \<and> dict_sorted pa_path_cmp cooked' \<and>
    set cooked' = (if \<exists>ckd \<in> set cooked. pa_rel ckd = pa_rel raw \<and> keep_cooked (ce_ro env) raw ckd
      then set cooked else insert (the_copy (ce_pn env) raw) (set cooked - replaces env raw cooked))"
proof (cases "dict_lookup (ce_cooked env) pa_path_cmp raw cooked")
  case None
  have "\<forall>x \<in> set cooked. pa_rel x \<noteq> pa_rel raw"
    using laws sorted None by (auto simp: dict_laws_def find_None_iff [of _ cooked])
  with insert_new [OF laws sorted, of "the_copy (ce_pn env) raw"] None copyable_copy [OF copy] show ?thesis
    by (auto simp: coalesce_one_def replaces_def)
next
  case (Some ckd)
  then have ckd: "ckd \<in> set cooked" "pa_rel ckd = pa_rel raw"
    using laws sorted find_SomeD [of "\<lambda>x. pa_path_cmp raw x = 0" cooked ckd] by (auto simp: dict_laws_def)
  have only: "x = ckd" if "x \<in> set cooked" "pa_rel x = pa_rel raw" for x
    using path_unique [OF sorted that(1) ckd(1)] that ckd by simp
  show ?thesis
  proof (cases "keep_cooked (ce_ro env) raw ckd")
    case True
    with Some ckd sorted show ?thesis by (auto simp: coalesce_one_def)
  next
    case False
    have "replaces env raw cooked = {ckd}" using only ckd False unfolding replaces_def by blast
    then have set: "set (remove1 ckd cooked) = set cooked - replaces env raw cooked"
      using path_sorted_distinct [OF sorted] by simp
    have "\<forall>x \<in> set (remove1 ckd cooked). pa_rel x \<noteq> pa_rel raw"
      using only path_sorted_distinct [OF sorted] by auto
    then have "\<forall>x \<in> set (remove1 ckd cooked). pa_rel x \<noteq> pa_rel (the_copy (ce_pn env) raw)"
      by (simp only: copyable_copy(2) [OF copy] not_False_eq_True)
    from insert_new [OF laws dict_sorted_remove1 [OF sorted] this] obtain ys where
      ys: "dict_insert (ce_cooked env) pa_path_cmp (the_copy (ce_pn env) raw) (remove1 ckd cooked) = Inr ys"
        "dict_sorted pa_path_cmp ys" "set ys = insert (the_copy (ce_pn env) raw) (set (remove1 ckd cooked))"
      by blast
    have "coalesce_one env raw cooked = Inr ys"
      using Some False ys(1) copyable_copy(1) [OF copy] by (simp add: coalesce_one_def)
    moreover have neg: "(\<exists>ckd \<in> set cooked. pa_rel ckd = pa_rel raw \<and> keep_cooked (ce_ro env) raw ckd) = False"
      using only False by blast
    ultimately show ?thesis using ys(2,3) unfolding set neg if_False by blast
  qed
qed

section \<open>All actions\<close>

text \<open>
  The writes carry the times of their calls, between the epoch and 2262; the precision is that
  of at most eight digits.
\<close>

definition writes_timed :: "ca_env \<Rightarrow> path_action_s list \<Rightarrow> bool" where
  "writes_timed env raws = (2 \<le> uint (ce_ro env) \<and> ce_ro env \<noteq> - 1 \<and>
     list_all (\<lambda>r. \<not> pa_is_read r \<longrightarrow> pa_has_timestamp r \<and> moment_ok (pa_timestamp r)) raws)"

definition not_later :: "ca_env \<Rightarrow> path_action_s \<Rightarrow> path_action_s \<Rightarrow> bool" where
  "not_later env r c = (fst (moment_cmp (ce_ro env) (pa_timestamp r) (pa_timestamp c)) \<le> 0)"

text \<open>The cooked actions that stand for a list of raw ones.\<close>

definition condenses :: "ca_env \<Rightarrow> path_action_s list \<Rightarrow> path_action_s list \<Rightarrow> bool" where
  "condenses env raws cooked = (dict_sorted pa_path_cmp cooked \<and>
     pa_rel ` set cooked = pa_rel ` set raws \<and>
     (\<forall>c \<in> set cooked.
        (\<exists>r \<in> set raws. c = the_copy (ce_pn env) r) \<and>
        (\<forall>r \<in> set raws. pa_rel r = pa_rel c \<longrightarrow> pa_is_read r \<or> (\<not> pa_is_read c \<and> not_later env r c))))"

lemma condenses_copy:
  "condenses env raws cooked \<Longrightarrow> c \<in> set cooked \<Longrightarrow> \<exists>r \<in> set raws. c = the_copy (ce_pn env) r"
  by (simp add: condenses_def)

lemma condenses_best:
  "condenses env raws cooked \<Longrightarrow> c \<in> set cooked \<Longrightarrow> r \<in> set raws \<Longrightarrow> pa_rel r = pa_rel c \<Longrightarrow>
     pa_is_read r \<or> (\<not> pa_is_read c \<and> not_later env r c)"
  by (simp add: condenses_def)

lemma condenses_snoc:
  assumes "dict_sorted pa_path_cmp cooked" and "pa_rel ` set cooked = insert (pa_rel raw) (pa_rel ` set raws)"
    and "\<And>c. c \<in> set cooked \<Longrightarrow> (\<exists>r \<in> set raws. c = the_copy (ce_pn env) r) \<or> c = the_copy (ce_pn env) raw"
    and "\<And>c r. c \<in> set cooked \<Longrightarrow> r \<in> set raws \<Longrightarrow> pa_rel r = pa_rel c \<Longrightarrow>
      pa_is_read r \<or> (\<not> pa_is_read c \<and> not_later env r c)"
    and "\<And>c. c \<in> set cooked \<Longrightarrow> pa_rel raw = pa_rel c \<Longrightarrow> pa_is_read raw \<or> (\<not> pa_is_read c \<and> not_later env raw c)"
  shows "condenses env (raws @ [raw]) cooked"
proof -
  have s: "set (raws @ [raw]) = insert raw (set raws)" by simp
  show ?thesis unfolding condenses_def s using assms by blast
qed

lemma coalesce_one_condenses:
  assumes laws: "dict_laws (ce_cooked env) (\<lambda>_. True) pa_path_cmp"
    and copy: "list_all (copyable (ce_pn env)) (raws @ [raw])" and timed: "writes_timed env (raws @ [raw])"
    and cond: "condenses env raws cooked"
  shows "\<exists>cooked'. coalesce_one env raw cooked = Inr cooked' \<and> condenses env (raws @ [raw]) cooked'"
proof -
  let ?c = "the_copy (ce_pn env) raw"
  note cc = copyable_copy [of "ce_pn env" raw]
  have sorted: "dict_sorted pa_path_cmp cooked" using cond by (simp add: condenses_def)
  have rawcopy: "copyable (ce_pn env) raw" using copy by simp
  obtain cooked' where c': "coalesce_one env raw cooked = Inr cooked'" "dict_sorted pa_path_cmp cooked'"
    "set cooked' = (if \<exists>ckd \<in> set cooked. pa_rel ckd = pa_rel raw \<and> keep_cooked (ce_ro env) raw ckd
      then set cooked else insert ?c (set cooked - replaces env raw cooked))"
    using coalesce_one_spec [OF laws sorted rawcopy] by blast
  have ro: "2 \<le> uint (ce_ro env)" "ce_ro env \<noteq> - 1" using timed by (simp_all add: writes_timed_def)
  note order = moment_cmp_laws [OF ro]
  have ok: "pa_has_timestamp r \<and> moment_ok (pa_timestamp r)" if "r \<in> set (raws @ [raw])" "\<not> pa_is_read r" for r
    using timed that by (auto simp: writes_timed_def list_all_iff)
  have same: "pa_is_read ckd = pa_is_read r \<and> pa_timestamp ckd = pa_timestamp r"
    if "ckd = the_copy (ce_pn env) r" "r \<in> set (raws @ [raw])" for ckd r
    using copyable_copy [of "ce_pn env" r] that copy by (auto simp: list_all_iff pa_is_read_def)
  have ckdok: "pa_has_timestamp ckd \<and> moment_ok (pa_timestamp ckd)"
    if q: "ckd \<in> set cooked" "\<not> pa_is_read ckd" for ckd
  proof -
    obtain r where "r \<in> set raws" "ckd = the_copy (ce_pn env) r" using cond q unfolding condenses_def by blast
    then show ?thesis using same [of ckd r] ok [of r] q by (simp add: pa_has_timestamp_def)
  qed
  have keep: "keep_cooked (ce_ro env) raw ckd \<longleftrightarrow> pa_is_read raw \<or> (\<not> pa_is_read ckd \<and> not_later env raw ckd)"
    if "ckd \<in> set cooked" for ckd
    using ckdok [OF that] ok [of raw] by (auto simp: keep_cooked_def not_later_def)
  have older: "not_later env r ?c"
    if "r \<in> set raws" "ckd \<in> set cooked" "pa_rel r = pa_rel ckd" "\<not> pa_is_read r" "\<not> pa_is_read raw" "\<not> not_later env raw ckd" for r ckd
  proof -
    have ckd: "\<not> pa_is_read ckd" "not_later env r ckd" using cond that by (auto simp: condenses_def)
    have m: "moment_ok (pa_timestamp raw)" "moment_ok (pa_timestamp r)" "moment_ok (pa_timestamp ckd)"
      using ok that ckdok ckd by auto
    have "fst (moment_cmp (ce_ro env) (pa_timestamp ckd) (pa_timestamp raw)) < 0"
      using comparator.cmp_antisym [OF order m(1,3)] that(6) by (simp add: not_later_def)
    then show ?thesis
      using comparator.cmp_trans [OF order m(2,3,1)] ckd cc(4) [OF rawcopy] by (simp add: not_later_def)
  qed
  have self: "pa_is_read raw \<or> (\<not> pa_is_read ?c \<and> not_later env raw ?c)"
    using same [of ?c raw] ok [of raw] comparator.cmp_refl [OF order] by (auto simp: not_later_def)
  have rel: "pa_rel ?c = pa_rel raw" by (rule cc(2) [OF rawcopy])
  show ?thesis
  proof (cases "\<exists>ckd \<in> set cooked. pa_rel ckd = pa_rel raw \<and> keep_cooked (ce_ro env) raw ckd")
    case True
    then obtain ckd where ckd: "ckd \<in> set cooked" "pa_rel ckd = pa_rel raw" "keep_cooked (ce_ro env) raw ckd" by blast
    have eq: "set cooked' = set cooked" using c'(3) True by simp
    have "c = ckd" if "c \<in> set cooked" "pa_rel raw = pa_rel c" for c
      using path_unique [OF sorted that(1) ckd(1)] that ckd by simp
    then have k: "pa_is_read raw \<or> (\<not> pa_is_read c \<and> not_later env raw c)"
      if "c \<in> set cooked" "pa_rel raw = pa_rel c" for c
      using keep [OF ckd(1)] ckd(3) that by blast
    have "pa_rel raw \<in> pa_rel ` set cooked" using ckd(1,2) by (metis image_eqI)
    then have p: "pa_rel ` set cooked = insert (pa_rel raw) (pa_rel ` set raws)"
      using cond unfolding condenses_def by blast
    have "condenses env (raws @ [raw]) cooked'"
    proof (rule condenses_snoc [OF c'(2)], unfold eq)
      show "pa_rel ` set cooked = insert (pa_rel raw) (pa_rel ` set raws)" by (rule p)
      fix c assume c: "c \<in> set cooked"
      then show "(\<exists>r \<in> set raws. c = the_copy (ce_pn env) r) \<or> c = ?c"
        using condenses_copy [OF cond, of c] by blast
      show "pa_is_read r \<or> (\<not> pa_is_read c \<and> not_later env r c)" if "r \<in> set raws" "pa_rel r = pa_rel c" for r
        by (rule condenses_best [OF cond c that])
      show "pa_is_read raw \<or> (\<not> pa_is_read c \<and> not_later env raw c)" if "pa_rel raw = pa_rel c"
        by (rule k [OF c that])
    qed
    with c'(1) show ?thesis by blast
  next
    case False
    have eq: "set cooked' = insert ?c (set cooked - replaces env raw cooked)" using c'(3) False by (simp only: if_False)
    have "pa_rel ` set cooked' = insert (pa_rel raw) (pa_rel ` (set cooked - replaces env raw cooked))"
      using rel by (simp add: eq)
    also have "\<dots> = insert (pa_rel raw) (pa_rel ` set cooked)" by (auto simp: replaces_def)
    also have "pa_rel ` set cooked = pa_rel ` set raws" using cond by (simp add: condenses_def)
    finally have paths: "pa_rel ` set cooked' = insert (pa_rel raw) (pa_rel ` set raws)" .
    have new: "pa_is_read r \<or> (\<not> pa_is_read ?c \<and> not_later env r ?c)" if q: "r \<in> set raws" "pa_rel r = pa_rel raw" for r
    proof -
      have "pa_rel r \<in> pa_rel ` set cooked" using cond q(1) by (simp add: condenses_def)
      then obtain ckd where ckd: "ckd \<in> set cooked" "pa_rel r = pa_rel ckd" by (rule imageE)
      have "pa_rel ckd = pa_rel raw" using ckd q by simp
      then have k: "\<not> pa_is_read raw" "pa_is_read ckd \<or> \<not> not_later env raw ckd"
        using False keep [OF ckd(1)] ckd(1) by blast+
      have "pa_is_read r \<or> \<not> pa_is_read ckd" using condenses_best [OF cond ckd(1) q(1) ckd(2)] by blast
      then show ?thesis using older [OF q(1) ckd] self k by blast
    qed
    have gone: "\<not> (c \<in> set cooked - replaces env raw cooked \<and> pa_rel raw = pa_rel c)" for c
      using False by (auto simp: replaces_def)
    have "condenses env (raws @ [raw]) cooked'"
    proof (rule condenses_snoc [OF c'(2) paths], unfold eq)
      fix c assume c: "c \<in> insert ?c (set cooked - replaces env raw cooked)"
      then show "(\<exists>r \<in> set raws. c = the_copy (ce_pn env) r) \<or> c = ?c"
        using condenses_copy [OF cond, of c] by blast
      show "pa_is_read r \<or> (\<not> pa_is_read c \<and> not_later env r c)" if q: "r \<in> set raws" "pa_rel r = pa_rel c" for r
      proof (cases "c = ?c")
        case True
        with new [OF q(1)] q(2) rel show ?thesis by simp
      next
        case False
        then have "c \<in> set cooked" using c by blast
        then show ?thesis by (rule condenses_best [OF cond _ q])
      qed
      show "pa_is_read raw \<or> (\<not> pa_is_read c \<and> not_later env raw c)" if "pa_rel raw = pa_rel c"
        using c that gone self by blast
    qed
    with c'(1) show ?thesis by blast
  qed
qed


lemma length_filter_distinct:
  "distinct (map f xs) \<Longrightarrow> length (filter (\<lambda>c. f c = p) xs) = (if p \<in> f ` set xs then 1 else 0)"
  by (induction xs) auto

lemma coalesce_all_condenses:
  assumes laws: "dict_laws (ce_cooked env) (\<lambda>_. True) pa_path_cmp"
  shows "list_all (copyable (ce_pn env)) (done @ raws) \<Longrightarrow> writes_timed env (done @ raws) \<Longrightarrow>
    condenses env done cooked \<Longrightarrow>
    \<exists>cooked'. coalesce_all env raws cooked = Inr cooked' \<and> condenses env (done @ raws) cooked'"
proof (induction raws arbitrary: "done" cooked)
  case (Cons raw raws)
  obtain c1 where c1: "coalesce_one env raw cooked = Inr c1" "condenses env (done @ [raw]) c1"
    using coalesce_one_condenses [OF laws _ _ Cons.prems(3), of raw] Cons.prems(1,2)
    by (auto simp: writes_timed_def)
  with Cons.IH [of "done @ [raw]" c1] Cons.prems(1,2) show ?case by simp
qed simp

text \<open>
  C34. Coalescing a command leaves exactly one cooked action for each path among its raw
  actions, in the order of the paths. A path that was written is represented by a write that
  no other write of it is later than; one that was only read by a read. No action is made up:
  each cooked one is a copy of a raw one.
\<close>

theorem ca_coalesce_condenses:
  assumes "dict_laws (ce_cooked env) (\<lambda>_. True) pa_path_cmp"
    and "ca_raw_pa_dict ca = Some raw" and "ca_cooked_pa_dict ca = None"
    and "list_all (copyable (ce_pn env)) (map snd raw)" and "writes_timed env (map snd raw)"
  shows "\<exists>cooked. ca_coalesce env ca = Inr (ca\<lparr>ca_raw_pa_dict := Some [], ca_cooked_pa_dict := Some cooked\<rparr>) \<and>
    dict_sorted pa_path_cmp cooked \<and>
    (\<forall>p. length (filter (\<lambda>c. pa_rel c = p) cooked) = (if p \<in> pa_rel ` snd ` set raw then 1 else 0)) \<and>
    (\<forall>c \<in> set cooked.
       (\<exists>r \<in> snd ` set raw. c = the_copy (ce_pn env) r \<and> pa_rel c = pa_rel r) \<and>
       (\<forall>r \<in> snd ` set raw. pa_rel r = pa_rel c \<and> \<not> pa_is_read r \<longrightarrow> \<not> pa_is_read c \<and>
          fst (moment_cmp (ce_ro env) (pa_timestamp r) (pa_timestamp c)) \<le> 0))"
proof -
  have "condenses env [] []" by (simp add: condenses_def dict_sorted_def)
  then obtain cooked where c: "coalesce_all env (map snd raw) [] = Inr cooked" "condenses env (map snd raw) cooked"
    using coalesce_all_condenses [OF assms(1), of "[]" "map snd raw"] assms(4,5) by auto
  have run: "ca_coalesce env ca = Inr (ca\<lparr>ca_raw_pa_dict := Some [], ca_cooked_pa_dict := Some cooked\<rparr>)"
    using assms(2,3) c(1) by (simp add: ca_coalesce_def)
  have s: "dict_sorted pa_path_cmp cooked" "pa_rel ` set cooked = pa_rel ` snd ` set raw"
    using c(2) by (simp_all add: condenses_def)
  have "length (filter (\<lambda>c. pa_rel c = p) cooked) = (if p \<in> pa_rel ` snd ` set raw then 1 else 0)" for p
  proof -
    have "distinct (map pa_rel cooked)"
      using path_sorted_distinct [OF s(1)] path_unique [OF s(1)] by (auto simp: distinct_map inj_on_def)
    then show ?thesis using s(2) by (simp add: length_filter_distinct)
  qed
  moreover have "(\<exists>r \<in> snd ` set raw. x = the_copy (ce_pn env) r \<and> pa_rel x = pa_rel r) \<and>
       (\<forall>r \<in> snd ` set raw. pa_rel r = pa_rel x \<and> \<not> pa_is_read r \<longrightarrow> \<not> pa_is_read x \<and>
          fst (moment_cmp (ce_ro env) (pa_timestamp r) (pa_timestamp x)) \<le> 0)" if x: "x \<in> set cooked" for x
  proof -
    obtain r where r: "r \<in> set (map snd raw)" "x = the_copy (ce_pn env) r"
      using condenses_copy [OF c(2) x] by blast
    then have "pa_rel x = pa_rel r" using assms(4) copyable_copy(2) by (auto simp: list_all_iff)
    moreover have "snd ` set raw = set (map snd raw)" by simp
    ultimately show ?thesis
      using r condenses_best [OF c(2) x] unfolding not_later_def by (intro conjI bexI [of _ r] ballI impI) auto
  qed
  ultimately show ?thesis using run s(1) by blast
qed


lemma sample_copyable: "pa_ps pa = Some sample_ps \<Longrightarrow> copyable (ce_pn sample_env) pa"
proof (rule copyable_path)
  show "ps_pn sample_ps = Some sample_pn" by (simp add: sample_ps_def)
  show "pn_new (ce_pn sample_env) (pn_get_abs sample_pn) True = Some sample_pn"
    using canon_absolute [of slash "''p/a,b.c''"]
    by (simp add: sample_env_def sample_pn_def pn_get_abs_def pn_new_def Let_def putil_is_absolute_def sepchar_def
        backslash_def canon_step_def render_def slash_def pn_abs_to_project_relative_path_def strneq0_def)
qed

definition sample_write :: path_action_s where
  "sample_write = sample_pa\<lparr>pa_op := OP_CREAT, pa_timestamp := \<lparr>ntv_sec = 20, ntv_nsec = 0\<rparr>\<rparr>"

lemma sample_facts:
  "pa_is_read sample_pa" "\<not> pa_is_read sample_write" "pa_has_timestamp sample_write"
  "moment_ok (pa_timestamp sample_write)" "pa_rel sample_write = pa_rel sample_pa"
  by (simp_all add: sample_write_def sample_pa_def pa_is_read_def pa_has_timestamp_def moment_is_set_def
      moment_ok_def ns_def c_div_def pa_rel_def pa_get_rel_def pa_get_ps_def)

lemma sample_timed: "set raws \<subseteq> {sample_pa, sample_write} \<Longrightarrow> writes_timed sample_env raws"
  using sample_facts by (auto simp: writes_timed_def list_all_iff sample_env_def)

theorem ca_coalesce_condenses_witness:
  "\<exists>cooked. ca_coalesce sample_env (sample_ca\<lparr>ca_raw_pa_dict := Some [(2, sample_write), (1, sample_pa)]\<rparr>) =
     Inr (sample_ca\<lparr>ca_raw_pa_dict := Some [], ca_cooked_pa_dict := Some cooked\<rparr>) \<and>
     (\<forall>c \<in> set cooked. \<not> pa_is_read c)"
proof -
  let ?raw = "[(2 :: nat, sample_write), (1 :: nat, sample_pa)]"
  let ?ca = "sample_ca\<lparr>ca_raw_pa_dict := Some ?raw\<rparr>"
  have "copyable (ce_pn sample_env) sample_pa" "copyable (ce_pn sample_env) sample_write"
    by (rule sample_copyable; simp add: sample_pa_def sample_write_def)+
  then have c: "list_all (copyable (ce_pn sample_env)) (map snd ?raw)" by simp
  have t: "writes_timed sample_env (map snd ?raw)" by (rule sample_timed) simp
  have l: "dict_laws (ce_cooked sample_env) (\<lambda>_. True) pa_path_cmp" by (simp add: sample_env_def list_dict_laws)
  have f: "ca_raw_pa_dict ?ca = Some ?raw" "ca_cooked_pa_dict ?ca = None" by (simp_all add: sample_ca_def ca_new_def)
  obtain cooked where run: "ca_coalesce sample_env ?ca = Inr (?ca\<lparr>ca_raw_pa_dict := Some [], ca_cooked_pa_dict := Some cooked\<rparr>)"
    and best: "\<forall>c \<in> set cooked. (\<exists>r \<in> snd ` set ?raw. c = the_copy (ce_pn sample_env) r \<and> pa_rel c = pa_rel r) \<and>
       (\<forall>r \<in> snd ` set ?raw. pa_rel r = pa_rel c \<and> \<not> pa_is_read r \<longrightarrow> \<not> pa_is_read c \<and>
          fst (moment_cmp (ce_ro sample_env) (pa_timestamp r) (pa_timestamp c)) \<le> 0)"
    using ca_coalesce_condenses [OF l f c t] by (elim exE conjE)
  have "\<not> pa_is_read c" if "c \<in> set cooked" for c
    using best that sample_facts(2,5) by auto
  with run show ?thesis by auto
qed

end
