(* ===== verification/Group.thy ===== *)
theory Group
  imports Coalesce
begin

text \<open>
  Groups of commands (\<open>ca_aggregate\<close>, \<open>ca_merge\<close>, \<open>ca_publish\<close> and \<open>ca_disband\<close> of
  \<open>src/ca.c\<close>): publishing hands over one command with all that the group did; disbanding hands
  over each closed command and lets the others go on alone.
\<close>

section \<open>Merging\<close>

definition raw_ok :: "ca_env \<Rightarrow> pa_o set \<Rightarrow> pa_o list \<Rightarrow> bool" where
  \<comment> \<open>a raw dictionary of objects of \<open>S\<close>\<close>
  "raw_ok env S d = (dict_sorted (pa_cmp (ce_ro env)) d \<and> list_all (pa_valid (ce_ro env) S) d)"

lemma raw_ok_distinct: "raw_ok env S d \<Longrightarrow> distinct d"
  using pa_order.sorted_distinct by (auto simp: raw_ok_def)

definition raw_laws :: "ca_env \<Rightarrow> pa_o set \<Rightarrow> bool" where
  "raw_laws env S = dict_laws (ce_raw env) (pa_valid (ce_ro env) S) (pa_cmp (ce_ro env))"

lemma record_pa_ok:
  assumes "raw_laws env S" and "ca_raw_pa_dict ca = Some d" and d: "raw_ok env S d"
    and p: "pa_valid (ce_ro env) S p" and "p \<notin> set d"
  shows "\<exists>d'. ca_record_pa env ca p = Inr (ca\<lparr>ca_raw_pa_dict := Some d'\<rparr>) \<and> raw_ok env S d' \<and> set d' = insert p (set d)"
proof -
  have ne: "\<forall>x \<in> set d. pa_cmp (ce_ro env) p x \<noteq> 0"
    using d p assms(5) pa_cmp_0 [OF p] by (auto simp: raw_ok_def list_all_iff)
  have s: "set (place (pa_cmp (ce_ro env)) p d) = insert p (set d)"
    using pa_order.set_place [OF _ p ne] d by (simp add: raw_ok_def)
  have "dict_insert (ce_raw env) (pa_cmp (ce_ro env)) p d = Inr (place (pa_cmp (ce_ro env)) p d)"
    using d by (intro dict_laws_insert [OF assms(1) [unfolded raw_laws_def] _ p _ ne]) (simp_all add: raw_ok_def)
  moreover have "raw_ok env S (place (pa_cmp (ce_ro env)) p d)"
    using pa_order.place_sorted [OF _ _ p] d p s by (simp add: raw_ok_def list_all_iff)
  ultimately show ?thesis
    using assms(2) s by (intro exI [of _ "place (pa_cmp (ce_ro env)) p d"]) (simp add: ca_record_pa_def)
qed

lemma record_all_ok:
  assumes "raw_laws env S"
  shows "ca_raw_pa_dict ca = Some d \<Longrightarrow> raw_ok env S d \<Longrightarrow> list_all (pa_valid (ce_ro env) S) pas \<Longrightarrow>
    distinct pas \<Longrightarrow> set pas \<inter> set d = {} \<Longrightarrow>
    \<exists>d'. record_all env pas ca = Inr (ca\<lparr>ca_raw_pa_dict := Some d'\<rparr>) \<and> raw_ok env S d' \<and> set d' = set d \<union> set pas"
proof (induction pas arbitrary: ca d)
  case (Cons p pas)
  then obtain d1 where d1: "ca_record_pa env ca p = Inr (ca\<lparr>ca_raw_pa_dict := Some d1\<rparr>)" "raw_ok env S d1"
    "set d1 = insert p (set d)"
    using record_pa_ok [OF assms, of ca d p] by auto
  have "\<exists>d'. record_all env pas (ca\<lparr>ca_raw_pa_dict := Some d1\<rparr>) = Inr (ca\<lparr>ca_raw_pa_dict := Some d1, ca_raw_pa_dict := Some d'\<rparr>) \<and>
      raw_ok env S d' \<and> set d' = set d1 \<union> set pas"
    by (rule Cons.IH) (use Cons.prems d1 in auto)
  then show ?case using d1 by auto
next
  case Nil
  then have "ca\<lparr>ca_raw_pa_dict := Some d\<rparr> = ca" by simp
  with Nil show ?case by (intro exI [of _ d]) simp
qed

definition subs_text :: "cmd_audit_s \<Rightarrow> string" where
  "subs_text ca = (case ca_subs ca of Some t \<Rightarrow> t | None \<Rightarrow> [])"

definition header_text :: "cmd_audit_s \<Rightarrow> string" where
  "header_text ca = (case ca_format_header ca of Inr h \<Rightarrow> h | Inl _ \<Rightarrow> [])"

definition raw_list :: "cmd_audit_s \<Rightarrow> pa_o list" where
  "raw_list ca = (case ca_raw_pa_dict ca of Some d \<Rightarrow> d | None \<Rightarrow> [])"

text \<open>A member of a group that can be merged.\<close>

definition member_ok :: "ca_env \<Rightarrow> pa_o set \<Rightarrow> cmd_audit_s \<Rightarrow> bool" where
  "member_ok env S ca = (ca_raw_pa_dict ca \<noteq> None \<and> list_all (pa_valid (ce_ro env) S) (raw_list ca) \<and>
     (case ca_format_header ca of Inr h \<Rightarrow> True | Inl _ \<Rightarrow> False))"

definition merged :: "cmd_audit_s \<Rightarrow> cmd_audit_s" where
  "merged ca = ca\<lparr>ca_raw_pa_dict := None, ca_processed := True\<rparr>"

lemma ca_merge_ok:
  assumes laws: "raw_laws env S" and ne: "m \<noteq> ldr" and m: "member_ok env S (s m)"
    and d: "ca_raw_pa_dict (s ldr) = Some d" "raw_ok env S d"
    and disj: "distinct (raw_list (s m))" "set (raw_list (s m)) \<inter> set d = {}"
  shows "\<exists>d' subs. ca_merge env ldr m s = Inr (s(ldr := (s ldr)\<lparr>ca_subs := subs, ca_raw_pa_dict := Some d'\<rparr>,
      m := (s m)\<lparr>ca_raw_pa_dict := None\<rparr>)) \<and>
    raw_ok env S d' \<and> set d' = set d \<union> set (raw_list (s m)) \<and>
    (case subs of Some t \<Rightarrow> t | None \<Rightarrow> []) = subs_text (s ldr) @ header_text (s m)"
proof -
  obtain h where h: "ca_format_header (s m) = Inr h" using m by (auto simp: member_ok_def split: sum.splits)
  obtain dm where dm: "ca_raw_pa_dict (s m) = Some dm" using m by (auto simp: member_ok_def)
  let ?subs = "Some (case ca_subs (s ldr) of Some t \<Rightarrow> t @ h | None \<Rightarrow> h)"
  obtain d' where d': "record_all env dm ((s ldr)\<lparr>ca_subs := ?subs\<rparr>) =
      Inr ((s ldr)\<lparr>ca_subs := ?subs, ca_raw_pa_dict := Some d'\<rparr>)" "raw_ok env S d'" "set d' = set d \<union> set dm"
    using record_all_ok [OF laws, of "(s ldr)\<lparr>ca_subs := ?subs\<rparr>" d dm] d m disj dm
    by (auto simp: member_ok_def raw_list_def)
  have "ca_merge env ldr m s = Inr (s(ldr := (s ldr)\<lparr>ca_subs := ?subs, ca_raw_pa_dict := Some d'\<rparr>,
      m := (s m)\<lparr>ca_raw_pa_dict := None\<rparr>))"
    using h dm d'(1) ne by (simp add: ca_merge_def Let_def)
  moreover have "(case ?subs of Some t \<Rightarrow> t | None \<Rightarrow> []) = subs_text (s ldr) @ header_text (s m)"
    using h by (simp add: subs_text_def header_text_def split: option.splits)
  moreover have "set d' = set d \<union> set (raw_list (s m))" using d'(3) dm by (simp add: raw_list_def)
  ultimately show ?thesis using d'(2) by blast
qed

definition merge_result :: "ca_o \<Rightarrow> ca_o list \<Rightarrow> string option \<Rightarrow> pa_o list \<Rightarrow> (cmd_key_s \<times> ca_o) list \<Rightarrow> ca_store \<Rightarrow> ca_store" where
  "merge_result ldr ms subs d h s = (\<lambda>x.
     if x = ldr then (s ldr)\<lparr>ca_subs := subs, ca_raw_pa_dict := Some d, ca_group_hash := Some h\<rparr>
     else if x \<in> set ms then merged (s x) else s x)"

lemma merge_scan_ok:
  assumes laws: "raw_laws env S"
  shows "list_all (\<lambda>m. member_ok env S (s m)) (map snd es) \<Longrightarrow> distinct (map snd es) \<Longrightarrow> ldr \<notin> snd ` set es \<Longrightarrow>
    ca_raw_pa_dict (s ldr) = Some d \<Longrightarrow> raw_ok env S d \<Longrightarrow> ca_group_hash (s ldr) = Some es \<Longrightarrow>
    distinct (d @ concat (map (\<lambda>e. raw_list (s (snd e))) es)) \<Longrightarrow>
    \<exists>d' subs. merge_scan env ldr es s = Inr (merge_result ldr (map snd es) subs d' [] s) \<and> raw_ok env S d' \<and>
      set d' = set d \<union> (\<Union>e \<in> set es. set (raw_list (s (snd e)))) \<and>
      (case subs of Some t \<Rightarrow> t | None \<Rightarrow> []) = subs_text (s ldr) @ concat (map (\<lambda>e. header_text (s (snd e))) es)"
proof (induction es arbitrary: s d)
  case Nil
  have "merge_result ldr [] (ca_subs (s ldr)) d [] s = s"
    using Nil by (auto simp: merge_result_def fun_eq_iff)
  then show ?case
    using Nil by (intro exI [of _ d] exI [of _ "ca_subs (s ldr)"]) (simp add: subs_text_def)
next
  case (Cons e es)
  obtain k m where e: "e = (k, m)" by (cases e)
  have m: "m \<noteq> ldr" "member_ok env S (s m)" "m \<notin> snd ` set es" using Cons.prems(1-3) by (auto simp: e image_iff)
  have dis: "distinct (raw_list (s m))" "set (raw_list (s m)) \<inter> set d = {}" using Cons.prems(7) by (auto simp: e)
  obtain d1 subs1 where d1: "ca_merge env ldr m s = Inr (s(ldr := (s ldr)\<lparr>ca_subs := subs1, ca_raw_pa_dict := Some d1\<rparr>,
      m := (s m)\<lparr>ca_raw_pa_dict := None\<rparr>))" "raw_ok env S d1" "set d1 = set d \<union> set (raw_list (s m))"
    "(case subs1 of Some t \<Rightarrow> t | None \<Rightarrow> []) = subs_text (s ldr) @ header_text (s m)"
    using ca_merge_ok [where s = s, OF laws m(1,2) Cons.prems(4,5) dis] by blast
  let ?s = "(s(ldr := (s ldr)\<lparr>ca_subs := subs1, ca_raw_pa_dict := Some d1, ca_group_hash := Some es\<rparr>))(m := merged (s m))"
  have same: "?s (snd e') = s (snd e')" if "e' \<in> set es" for e'
    using that m(3) Cons.prems(3) by (auto simp: image_iff)
  have step: "merge_scan env ldr (e # es) s = merge_scan env ldr es ?s"
    using m(1) d1(1) Cons.prems(6)
    by (simp add: e hash_scan_delete_def merged_def fun_upd_twist [of m ldr])
  have maps: "map (\<lambda>e. raw_list (?s (snd e))) es = map (\<lambda>e. raw_list (s (snd e))) es"
    "map (\<lambda>e. header_text (?s (snd e))) es = map (\<lambda>e. header_text (s (snd e))) es"
    using same by simp_all
  have "\<exists>d' subs. merge_scan env ldr es ?s = Inr (merge_result ldr (map snd es) subs d' [] ?s) \<and> raw_ok env S d' \<and>
      set d' = set d1 \<union> (\<Union>e \<in> set es. set (raw_list (?s (snd e)))) \<and>
      (case subs of Some t \<Rightarrow> t | None \<Rightarrow> []) = subs_text (?s ldr) @ concat (map (\<lambda>e. header_text (?s (snd e))) es)"
  proof (rule Cons.IH)
    show "list_all (\<lambda>m. member_ok env S (?s m)) (map snd es)"
      using Cons.prems(1) same by (simp add: list_all_iff del: fun_upd_apply)
    show "distinct (d1 @ concat (map (\<lambda>e. raw_list (?s (snd e))) es))"
      using Cons.prems(7) d1(3) raw_ok_distinct [OF d1(2)] unfolding maps by (auto simp: e)
  qed (use Cons.prems m d1 in \<open>auto simp: e\<close>)
  then obtain d' subs where r: "merge_scan env ldr es ?s = Inr (merge_result ldr (map snd es) subs d' [] ?s)" "raw_ok env S d'"
    "set d' = set d1 \<union> (\<Union>e \<in> set es. set (raw_list (?s (snd e))))"
    "(case subs of Some t \<Rightarrow> t | None \<Rightarrow> []) = subs_text (?s ldr) @ concat (map (\<lambda>e. header_text (?s (snd e))) es)"
    by blast
  have "merge_result ldr (map snd es) subs d' [] ?s = merge_result ldr (map snd (e # es)) subs d' [] s"
    using m by (auto simp: merge_result_def e fun_eq_iff)
  moreover have "(\<Union>e \<in> set es. set (raw_list (?s (snd e)))) = (\<Union>e \<in> set es. set (raw_list (s (snd e))))"
    using same by simp
  moreover have "subs_text (?s ldr) = subs_text (s ldr) @ header_text (s m)"
    using d1(4) m(1) by (simp add: subs_text_def)
  ultimately show ?case
    using r step d1(3) maps by (intro exI [of _ d'] exI [of _ subs]) (simp add: e Un_assoc del: fun_upd_apply)
qed


section \<open>Publishing\<close>

definition group_raws :: "ca_store \<Rightarrow> ca_o \<Rightarrow> (cmd_key_s \<times> ca_o) list \<Rightarrow> pa_o list" where
  \<comment> \<open>all raw actions of a leader and its members\<close>
  "group_raws s ldr es = raw_list (s ldr) @ concat (map (\<lambda>e. raw_list (s (snd e))) es)"

text \<open>A group whose members can be merged into its leader.\<close>

definition group_ok :: "ca_env \<Rightarrow> pa_o set \<Rightarrow> ca_store \<Rightarrow> ca_o \<Rightarrow> (cmd_key_s \<times> ca_o) list \<Rightarrow> bool" where
  "group_ok env S s ldr es = (ca_group_hash (s ldr) = Some es \<and> distinct (ldr # map snd es) \<and>
     list_all (\<lambda>m. member_ok env S (s m)) (map snd es) \<and> ca_raw_pa_dict (s ldr) \<noteq> None \<and>
     ca_cooked_pa_dict (s ldr) = None \<and> raw_ok env S (raw_list (s ldr)) \<and> distinct (group_raws s ldr es) \<and>
     list_all (copyable (ce_pn env)) (map snd (group_raws s ldr es)) \<and>
     writes_timed env (map snd (group_raws s ldr es)))"

text \<open>
  C33. Publishing the leader of a group hands over one command, the leader, which stands for
  the whole group: its cooked actions condense the raw actions of the leader and all members,
  its text of subcommands has been extended by the header of every member, and the group is
  dissolved. Every member is left without actions and marked as processed; no other command
  is touched.
\<close>

theorem ca_publish_merges:
  assumes "raw_laws env S" and "dict_laws (ce_cooked env) (\<lambda>_. True) pa_path_cmp" and "group_ok env S s ldr es"
  shows "\<exists>raw cooked subs s'. ca_publish env process ldr (w, s) = process ldr (w, s') \<and>
    set raw = set (group_raws s ldr es) \<and> condenses env (map snd raw) cooked \<and>
    s' ldr = (s ldr)\<lparr>ca_subs := subs, ca_raw_pa_dict := Some [], ca_cooked_pa_dict := Some cooked, ca_group_hash := None\<rparr> \<and>
    subs_text (s' ldr) = subs_text (s ldr) @ concat (map (\<lambda>e. header_text (s (snd e))) es) \<and>
    (\<forall>m \<in> snd ` set es. s' m = merged (s m)) \<and> (\<forall>x. x \<noteq> ldr \<and> x \<notin> snd ` set es \<longrightarrow> s' x = s x)"
proof -
  obtain d where d: "ca_raw_pa_dict (s ldr) = Some d" "raw_list (s ldr) = d"
    using assms(3) by (auto simp: group_ok_def raw_list_def)
  note g = assms(3) [unfolded group_ok_def d(2) group_raws_def]
  have "\<exists>d' subs. merge_scan env ldr es s = Inr (merge_result ldr (map snd es) subs d' [] s) \<and> raw_ok env S d' \<and>
      set d' = set d \<union> (\<Union>e \<in> set es. set (raw_list (s (snd e)))) \<and>
      (case subs of Some t \<Rightarrow> t | None \<Rightarrow> []) = subs_text (s ldr) @ concat (map (\<lambda>e. header_text (s (snd e))) es)"
    by (rule merge_scan_ok [where s = s and ldr = ldr and d = d, OF assms(1)]) (use g d(1) in auto)
  then obtain d' subs where m: "merge_scan env ldr es s = Inr (merge_result ldr (map snd es) subs d' [] s)"
    "set d' = set d \<union> (\<Union>e \<in> set es. set (raw_list (s (snd e))))"
    "(case subs of Some t \<Rightarrow> t | None \<Rightarrow> []) = subs_text (s ldr) @ concat (map (\<lambda>e. header_text (s (snd e))) es)"
    by blast
  have raws: "set d' = set (group_raws s ldr es)" using m(2) d(2) by (simp add: group_raws_def)
  have img: "set (map snd d') = set (map snd (group_raws s ldr es))" using raws by simp
  have "list_all (copyable (ce_pn env)) ([] @ map snd d')" "writes_timed env ([] @ map snd d')"
    using assms(3) unfolding group_ok_def writes_timed_def list_all_iff append_Nil img by blast+
  moreover have "condenses env [] []" by (simp add: condenses_def dict_sorted_def)
  ultimately obtain cooked where c: "coalesce_all env (map snd d') [] = Inr cooked" "condenses env (map snd d') cooked"
    using coalesce_all_condenses [OF assms(2)] by fastforce
  let ?ldr = "(s ldr)\<lparr>ca_subs := subs, ca_raw_pa_dict := Some [], ca_cooked_pa_dict := Some cooked, ca_group_hash := None\<rparr>"
  let ?s1 = "(merge_result ldr (map snd es) subs d' [] s)
    (ldr := (merge_result ldr (map snd es) subs d' [] s ldr)\<lparr>ca_group_hash := None\<rparr>)"
  have obj: "ca_coalesce env (?s1 ldr) = Inr ?ldr"
    using c(1) g by (simp add: merge_result_def ca_coalesce_def)
  have "ca_publish env process ldr (w, s) = process ldr (w, ?s1(ldr := ?ldr))"
    using m(1) g obj by (simp add: ca_publish_def ca_finish_def)
  moreover have "\<forall>m \<in> snd ` set es. (?s1(ldr := ?ldr)) m = merged (s m)"
    using g by (auto simp: merge_result_def image_iff)
  moreover have "\<forall>x. x \<noteq> ldr \<and> x \<notin> snd ` set es \<longrightarrow> (?s1(ldr := ?ldr)) x = s x"
    by (simp add: merge_result_def)
  moreover have "subs_text ((?s1(ldr := ?ldr)) ldr) = subs_text (s ldr) @ concat (map (\<lambda>e. header_text (s (snd e))) es)"
    using m(3) by (simp add: subs_text_def)
  moreover have "(?s1(ldr := ?ldr)) ldr = ?ldr" by simp
  ultimately show ?thesis using raws c(2) by blast
qed


definition sample_member :: cmd_audit_s where
  "sample_member = sample_ca\<lparr>ca_raw_pa_dict := Some [(1, sample_pa)]\<rparr>"

definition sample_store :: ca_store where
  "sample_store = (\<lambda>x. if x = 7 then sample_member
     else sample_ca\<lparr>ca_raw_pa_dict := Some [(2, sample_write)], ca_group_hash := Some [(ck_new_from_ca sample_ca, 7)]\<rparr>)"

theorem ca_publish_merges_witness:
  "\<exists>raw cooked subs s'. ca_publish sample_env (\<lambda>ca (w, s). Inr (ca # w, s)) 5 ([], sample_store) = Inr ([5], s') \<and>
    set raw = {(2 :: nat, sample_write), (1, sample_pa)} \<and> condenses sample_env (map snd raw) cooked \<and>
    s' 5 = (sample_store 5)\<lparr>ca_subs := subs, ca_raw_pa_dict := Some [], ca_cooked_pa_dict := Some cooked, ca_group_hash := None\<rparr> \<and>
    s' 7 = merged sample_member"
proof -
  let ?es = "[(ck_new_from_ca sample_ca, 7 :: nat)]"
  let ?S = "{(1 :: nat, sample_pa), (2, sample_write)}"
  have raws: "group_raws sample_store 5 ?es = [(2, sample_write), (1, sample_pa)]"
    by (simp add: group_raws_def sample_store_def raw_list_def sample_member_def)
  have valid: "pa_valid 1000 ?S p" if "p \<in> ?S" for p
    using that sample_facts by (auto simp: pa_valid_def pa_objects_def sample_pa_def pa_is_unlink_def sample_write_def
        moment_ok_def ns_def)
  have copy: "copyable (ce_pn sample_env) sample_pa" "copyable (ce_pn sample_env) sample_write"
    by (rule sample_copyable; simp add: sample_pa_def sample_write_def)+
  have hdr: "\<exists>csv. ca_format_header sample_member = Inr csv"
    by (simp add: ca_format_header_def sample_member_def sample_ca_def)
  have "group_ok sample_env ?S sample_store 5 ?es"
    unfolding group_ok_def raws
    using copy valid hdr sample_timed [of "[sample_write, sample_pa]"]
    by (auto simp: sample_store_def member_ok_def raw_ok_def raw_list_def sample_member_def dict_sorted_def
        sample_ca_def ca_new_def sample_env_def split: sum.splits)
  moreover have "raw_laws sample_env ?S" "dict_laws (ce_cooked sample_env) (\<lambda>_. True) pa_path_cmp"
    by (simp_all add: raw_laws_def sample_env_def list_dict_laws)
  ultimately obtain raw cooked subs s' where
    "ca_publish sample_env (\<lambda>ca (w, s). Inr (ca # w, s)) 5 ([], sample_store) = Inr ([5], s')"
    "set raw = set (group_raws sample_store 5 ?es)" "condenses sample_env (map snd raw) cooked"
    "s' 5 = (sample_store 5)\<lparr>ca_subs := subs, ca_raw_pa_dict := Some [], ca_cooked_pa_dict := Some cooked, ca_group_hash := None\<rparr>"
    "\<forall>m \<in> snd ` set ?es. s' m = merged (sample_store m)"
    using ca_publish_merges [of sample_env ?S sample_store 5 ?es "\<lambda>ca (w, s). Inr (ca # w, s)" "[]"] by auto
  then show ?thesis
    unfolding raws by (intro exI [of _ raw] exI [of _ cooked] exI [of _ subs] exI [of _ s']) (simp add: sample_store_def)
qed

end
