(* ===== verification/Re.thy ===== *)
theory Re
  imports Prop
begin

text \<open>
  Regular expressions held by properties (\<open>src/re.c\<close>). The expressions themselves belong to
  PCRE: a compiled expression is what \<open>pcre_exec\<close> finds with it, and \<open>pcre_compile\<close> is an
  argument. What the client does on top of it is the form \<open>m%expr%\<close>, with any character that
  is not a letter around the expression.
\<close>

type_synonym re_o = "string \<Rightarrow> string option"

type_synonym pcre = "string \<Rightarrow> re_o option"

definition re_init :: "pcre \<Rightarrow> string \<Rightarrow> re_o option" where
  "re_init pcre_compile restr = (if restr \<noteq> [] then pcre_compile restr else None)"

definition delimited :: "string \<Rightarrow> bool" where
  "delimited restr = (3 \<le> length restr \<and> hd restr = CHR ''m'' \<and> restr ! 1 = last restr \<and> \<not> isalpha (last restr))"

text \<open>
  The closing delimiter is overwritten in the string which \<open>prop_get_str\<close> returns, that is in
  the value of the property itself; the default of a property is a literal.
\<close>

definition re_init_prop :: "pcre \<Rightarrow> prop_state \<Rightarrow> prop_e \<Rightarrow> (re_o option \<times> prop_state) result" where
  "re_init_prop pcre_compile st p =
     bindR (prop_get_str st p) (\<lambda>value. case value of
       None \<Rightarrow> Inr (None, st)
     | Some restr \<Rightarrow>
         if restr = [] \<or> isspace (hd restr) then Inr (None, st)
         else if delimited restr then
           (if pvals st p = None then Inl (Fault ''write to a literal'')
            else Inr (re_init pcre_compile (drop 2 (butlast restr)), st\<lparr>pvals := (pvals st)(p := Some (butlast restr))\<rparr>))
         else Inr (re_init pcre_compile restr, st))"

definition re_match :: "re_o option \<Rightarrow> string option \<Rightarrow> string option" where
  "re_match re str =
     (case (re, str) of
        (Some r, Some s) \<Rightarrow> map_option (\<lambda>found. if length found < 256 then found else []) (r s)
      | _ \<Rightarrow> None)"

lemma re_init_prop_frame:
  assumes "re_init_prop pcre_compile st p = Inr (re, st')"
  shows "pflags st' = pflags st" and "environ st' = environ st" and "q \<noteq> p \<Longrightarrow> pvals st' q = pvals st q"
    and "env_prefix st' = env_prefix st"
  using assms by (auto simp: re_init_prop_def bindR_eq_Inr split: option.splits if_splits)

text \<open>
  A property that holds an expression between delimiters is compiled as written only the
  first time: the closing delimiter is gone from the property, so that the next call, as for
  each command that shops, compiles the text with the opening delimiter and the letter m.
\<close>

theorem delimited_re_once:
  assumes "pvals st p = Some (CHR ''m'' # d # e @ [d])" and "\<not> isalpha d" and "e \<noteq> []" and "last e \<noteq> d"
  shows "\<exists>st'. re_init_prop pcre st p = Inr (pcre e, st') \<and>
    re_init_prop pcre st' p = Inr (pcre (CHR ''m'' # d # e), st')"
proof -
  have m: "\<not> isspace (CHR ''m'')" by (simp add: isspace_def)
  have "pvals st p = Some v \<Longrightarrow> hd v = CHR ''m'' \<Longrightarrow> prop_get_str st p = Inr (Some v)" for st v
    by (rule prop_get_str_Some) (auto simp: PROP_NULL_def)
  then have g: "pvals st p = Some (CHR ''m'' # v) \<Longrightarrow> prop_get_str st p = Inr (Some (CHR ''m'' # v))" for st v
    by simp
  let ?st = "st\<lparr>pvals := (pvals st)(p := Some (CHR ''m'' # d # e))\<rparr>"
  have "re_init_prop pcre st p = Inr (pcre e, ?st)"
    using assms m by (simp add: re_init_prop_def g delimited_def re_init_def butlast_append Suc_le_eq)
  moreover have "re_init_prop pcre ?st p = Inr (pcre (CHR ''m'' # d # e), ?st)"
    using assms m by (simp add: re_init_prop_def g delimited_def re_init_def)
  ultimately show ?thesis by blast
qed

theorem delimited_re_once_witness:
  "\<exists>st'. re_init_prop (\<lambda>e. Some (\<lambda>s. Some e)) ((prop_start [])\<lparr>pvals := [P_SHOP_IGNORE_PATH_RE \<mapsto> ''m%o$%'']\<rparr>)
      P_SHOP_IGNORE_PATH_RE = Inr (Some (\<lambda>s. Some ''o$''), st') \<and>
    re_init_prop (\<lambda>e. Some (\<lambda>s. Some e)) st' P_SHOP_IGNORE_PATH_RE = Inr (Some (\<lambda>s. Some ''m%o$''), st')"
  by (rule delimited_re_once) (simp_all add: isalpha_def isupper_def islower_def)

end
