(* ===== verification/Shop.thy ===== *)
theory Shop
  imports Coalesce Re
begin

text \<open>
  Shopping (\<open>src/shop.c\<close>): before a command runs, the roadmap of earlier builds (a CDB file) is
  searched for the same command line. A build (PTX) whose recorded prerequisites all match the
  files as they are now wins, and its targets are fetched instead of running the command.
\<close>

section \<open>The world\<close>

text \<open>
  The calls that change files, in order. What the operating system and the server answer may
  depend on the calls made so far: the answers are functions of that history.
\<close>

datatype fs_call = Unlink string | Link string string | Symlink string string | Mkdir string
  | Chmod string u32 | Touch string | Download path_state_s

record 'h fs_env =
  fs_sys :: "fs_call list \<Rightarrow> 'h ps_sys"
  fs_access :: "fs_call list \<Rightarrow> string \<Rightarrow> bool"
  fs_ok :: "fs_call list \<Rightarrow> fs_call \<Rightarrow> bool"
  fs_enoent :: "fs_call list \<Rightarrow> string \<Rightarrow> bool"
  fs_down_load :: "fs_call list \<Rightarrow> path_state_s \<Rightarrow> int"
  fs_size :: "fs_call list \<Rightarrow> string \<Rightarrow> u64 option"

text \<open>
  \<open>fs_access\<close> is \<open>access(path, F_OK) == 0\<close>, \<open>fs_ok\<close> the success of a call, \<open>fs_enoent\<close> says
  that a failed \<open>readlink\<close> set \<open>ENOENT\<close>, \<open>fs_down_load\<close> is the result of \<open>down_load\<close>, and
  \<open>fs_size\<close> is what \<open>open64\<close> and \<open>fstat64\<close> tell of the roadmap.

  The CDB library reads the roadmap: \<open>se_cdb key\<close> are the texts filed under \<open>key\<close>, in order,
  or \<open>None\<close> if the search fails; \<open>se_cdb_seq\<close> are all records. \<open>se_alloc\<close> gives the address of
  the next object.
\<close>

record 'h shop_env =
  se_ca :: ca_env
  se_ptx :: "(string \<times> string) dict_ops"
  se_pcre :: pcre
  se_cdb :: "string \<Rightarrow> string list option"
  se_cdb_seq :: "(string \<times> string) list"
  se_fs :: "'h fs_env"
  se_alloc :: "nat \<Rightarrow> nat"

record 'h shop_world =
  sw_dcode :: "'h dcode_cache"
  sw_props :: prop_state
  sw_calls :: "fs_call list"
  sw_allocs :: nat
  RecycledCount :: nat
  ShopCDB :: bool

definition sw_sys :: "'h shop_env \<Rightarrow> 'h shop_world \<Rightarrow> 'h ps_sys" where
  "sw_sys env w = fs_sys (se_fs env) (sw_calls w)"

definition sw_call :: "'h shop_env \<Rightarrow> fs_call \<Rightarrow> 'h shop_world \<Rightarrow> bool \<times> 'h shop_world" where
  "sw_call env c w = (fs_ok (se_fs env) (sw_calls w) c, w\<lparr>sw_calls := sw_calls w @ [c]\<rparr>)"

definition sw_access :: "'h shop_env \<Rightarrow> 'h shop_world \<Rightarrow> string \<Rightarrow> bool" where
  "sw_access env w = fs_access (se_fs env) (sw_calls w)"

datatype shop_e = SHOP_ERR | SHOP_OFF | SHOP_NOMATCH | SHOP_NOMATCH_AGG | SHOP_MUSTRUN
  | SHOP_MUSTRUN_AGG | SHOP_RECYCLED

record 'h shopping_state_s =
  ss_ca :: cmd_audit_s
  ss_getfiles :: bool
  ss_ptx_dict :: "(string \<times> string) list"
  ss_ignore_path_re :: "re_o option"
  ss_winner :: string
  ss_wix :: string
  ss_wincmd :: string
  CurrentPS :: "path_state_s option"
  ss_world :: "'h shop_world"

section \<open>Builds under consideration\<close>

definition ptx_cmp :: "string \<times> string \<Rightarrow> string \<times> string \<Rightarrow> int" where
  "ptx_cmp x y = c_stricmp (fst x) (fst y)"

definition ptx_lookup :: "'h shop_env \<Rightarrow> 'h shopping_state_s \<Rightarrow> string \<Rightarrow> (string \<times> string) option" where
  "ptx_lookup env ssp key = dict_lookup (se_ptx env) ptx_cmp (key, []) (ss_ptx_dict ssp)"

definition shop_ptx_contains :: "'h shop_env \<Rightarrow> 'h shopping_state_s \<Rightarrow> string \<Rightarrow> bool" where
  "shop_ptx_contains env ssp key = (ptx_lookup env ssp key \<noteq> None)"

definition shop_ptx_mark_as_seen :: "'h shop_env \<Rightarrow> 'h shopping_state_s \<Rightarrow> string \<Rightarrow> 'h shopping_state_s" where
  "shop_ptx_mark_as_seen env ssp key =
     (case ptx_lookup env ssp key of
        None \<Rightarrow> ssp
      | Some e \<Rightarrow>
          if fst e \<noteq> [] \<and> isupper (hd (fst e))
          then ssp\<lparr>ss_ptx_dict := map (\<lambda>x. if x = e then (tolower (hd (fst e)) # tl (fst e), snd e) else x) (ss_ptx_dict ssp)\<rparr>
          else ssp)"

definition shop_ptx_insert :: "'h shop_env \<Rightarrow> 'h shopping_state_s \<Rightarrow> string \<Rightarrow> string \<Rightarrow> 'h shopping_state_s result" where
  "shop_ptx_insert env ssp key ptxid =
     (if ptx_lookup env ssp key = None
      then bindR (dict_insert (se_ptx env) ptx_cmp (key, ptxid) (ss_ptx_dict ssp)) (\<lambda>d. Inr (ssp\<lparr>ss_ptx_dict := d\<rparr>))
      else Inr ssp)"

definition shop_ptx_invalidate :: "'h shop_env \<Rightarrow> 'h shopping_state_s \<Rightarrow> string \<Rightarrow> bool \<Rightarrow> int \<times> 'h shopping_state_s" where
  "shop_ptx_invalidate env ssp key ignored =
     (case ptx_lookup env ssp key of
        None \<Rightarrow> (1, ssp)
      | Some e \<Rightarrow> if ignored then (0, ssp) else (0, ssp\<lparr>ss_ptx_dict := remove1 e (ss_ptx_dict ssp)\<rparr>))"

definition shop_ptx_count :: "'h shopping_state_s \<Rightarrow> nat" where
  "shop_ptx_count ssp = length (ss_ptx_dict ssp)"

definition shop_ptx_winner :: "'h shopping_state_s \<Rightarrow> bool \<times> 'h shopping_state_s" where
  \<comment> \<open>whether the function returns a winner, with the state after it\<close>
  "shop_ptx_winner ssp =
     (case find (\<lambda>e. fst e \<noteq> [] \<and> islower (hd (fst e))) (ss_ptx_dict ssp) of
        None \<Rightarrow> (False, ssp\<lparr>ss_wix := [], ss_winner := []\<rparr>)
      | Some e \<Rightarrow> (True, ssp\<lparr>ss_wix := snprintf 32 (toupper (hd (fst e)) # tl (fst e)),
                              ss_winner := snprintf 32 (snd e)\<rparr>))"

definition FS2 :: string where "FS2 = ''+''"

lemma strsep_rest_shorter: "strsep_scan delim s = (tok, Some rest) \<Longrightarrow> length rest < length s"
  by (induction s arbitrary: tok) (auto split: if_splits prod.splits)

function strsep_all :: "string \<Rightarrow> string option \<Rightarrow> string list" where
  \<comment> \<open>the tokens of a loop \<open>for (t = util_strsep(&s, d); t; t = util_strsep(&s, d))\<close>\<close>
  "strsep_all delim None = []"
| "strsep_all delim (Some s) = (case strsep_scan delim s of (tok, rest) \<Rightarrow> tok # strsep_all delim rest)"
  by pat_completeness auto

termination
  by (relation "measure (\<lambda>(d, s). case s of None \<Rightarrow> 0 | Some t \<Rightarrow> Suc (length t))")
    (auto split: option.splits dest: strsep_rest_shorter [OF sym])

definition cdb_find :: "'h shop_env \<Rightarrow> string \<Rightarrow> string option" where
  "cdb_find env key = (case se_cdb env key of Some (v # vs) \<Rightarrow> Some v | _ \<Rightarrow> None)"

definition shop_find_cmdline :: "'h shop_env \<Rightarrow> string \<Rightarrow> string option" where
  "shop_find_cmdline env cmdix =
     map_option fst (find (\<lambda>r. fst (strsep_scan FS1 (snd r)) = cmdix) (se_cdb_seq env))"

section \<open>Fetching a target\<close>

text \<open>
  \<open>putil_mkdir_p\<close> calls itself for the parent directory while that does not exist; the parent
  is a shorter path unless it is \<open>/\<close> or \<open>.\<close>, so that running out of fuel is a recursion
  without end.
\<close>

fun putil_mkdir_p :: "nat \<Rightarrow> 'h shop_env \<Rightarrow> string \<Rightarrow> 'h shop_world \<Rightarrow> (bool \<times> 'h shop_world) result" where
  "putil_mkdir_p 0 env path w = Inl (Fault ''stack overflow'')"
| "putil_mkdir_p (Suc n) env path w =
     bindR (if sw_access env w (c_dirname path) then Inr w
            else bindR (putil_mkdir_p n env (c_dirname path) w) (\<lambda>(_, w). Inr w)) (\<lambda>w.
       Inr (sw_call env (Mkdir path) w))"

definition make_dir :: "'h shop_env \<Rightarrow> string \<Rightarrow> 'h shop_world \<Rightarrow> (bool \<times> 'h shop_world) result" where
  "make_dir env path w = putil_mkdir_p (length path + 2) env path w"

definition fetch_link :: "'h shop_env \<Rightarrow> string \<Rightarrow> string option \<Rightarrow> 'h shop_world \<Rightarrow> (int \<times> 'h shop_world) result" where
  "fetch_link env path path2 w =
     bindR (if \<not> sw_access env w (c_dirname path)
            then bindR (make_dir env (c_dirname path) w) (\<lambda>(_, w). Inr w)
            else Inr (snd (sw_call env (Unlink path) w))) (\<lambda>w.
     case path2 of
       None \<Rightarrow> Inl (Fault ''link of NULL'')
     | Some p2 \<Rightarrow> (case sw_call env (Link p2 path) w of (ok, w) \<Rightarrow> Inr (if ok then 0 else - 1, w)))"

definition fetch_symlink :: "'h shop_env \<Rightarrow> string \<Rightarrow> string option \<Rightarrow> 'h shop_world \<Rightarrow> (int \<times> 'h shop_world) result" where
  "fetch_symlink env path target w =
     (case target of
        None \<Rightarrow> Inl (Fault ''symlink to NULL'')
      | Some tgt \<Rightarrow>
          let relink = (\<lambda>w. case sw_call env (Symlink tgt path) w of (ok, w) \<Rightarrow> (if ok then 0 else - 1, w))
          in (case sys_readlink (sw_sys env w) path of
                Some lbuf \<Rightarrow>
                  if c_strcmp tgt lbuf \<noteq> 0 then
                    (if sw_access env w path then
                       (case sw_call env (Unlink path) w of (ok, w) \<Rightarrow> Inr (if ok then relink w else (- 1, w)))
                     else Inr (relink w))
                  else Inr (0, w)
              | None \<Rightarrow>
                  let w = (if fs_enoent (se_fs env) (sw_calls w) path then w else snd (sw_call env (Unlink path) w))
                  in bindR (if sw_access env w (c_dirname path) then Inr w
                            else bindR (make_dir env (c_dirname path) w) (\<lambda>(_, w). Inr w)) (\<lambda>w. Inr (relink w))))"

definition fetch_dir :: "'h shop_env \<Rightarrow> string \<Rightarrow> path_state_s \<Rightarrow> 'h shop_world \<Rightarrow> (int \<times> 'h shop_world) result" where
  "fetch_dir env path sps w =
     (if sw_access env w path then Inr (0, w)
      else bindR (make_dir env path w) (\<lambda>(ok, w).
        Inr (0, if ok then snd (sw_call env (Chmod path (ps_mode sps)) w) else w)))"

definition fetch_file :: "'h shop_env \<Rightarrow> path_state_s \<Rightarrow> 'h shop_world \<Rightarrow> (int \<times> 'h shop_world) result" where
  "fetch_file env sps w =
     (let rc = fs_down_load (se_fs env) (sw_calls w) sps;
          w = w\<lparr>sw_calls := sw_calls w @ [Download sps]\<rparr>
      in Inr (rc, if rc = 0 \<and> 0 < ps_size sps then w\<lparr>RecycledCount := RecycledCount w + 1\<rparr> else w))"

definition shop_fetch :: "'h shop_env \<Rightarrow> path_action_s \<Rightarrow> 'h shop_world \<Rightarrow> (int \<times> 'h shop_world) result" where
  "shop_fetch env spa w =
     bindR (pa_get_abs spa) (\<lambda>path.
     bindR (pa_get_ps spa) (\<lambda>sps.
     bindR (if pa_is_unlink spa then
              bindR (pa_exists (sw_access env w) spa) (\<lambda>e.
                if e then (case sw_call env (Unlink path) w of (ok, w) \<Rightarrow> Inr (if ok then 0 else - 1, w))
                else Inr (0, w))
            else if pa_is_link spa then fetch_link env path (ps_get_abs2 sps) w
            else if pa_is_symlink spa then fetch_symlink env path (ps_target sps) w
            else if ps_is_dir sps then fetch_dir env path sps w
            else fetch_file env sps w) (\<lambda>(rc, w).
     if rc = 0 then Inr (0, w)
     else bindR (prop_is_true (sw_props w) P_STRICT_DOWNLOAD) (\<lambda>strict.
       if strict then Inl (Exit 2) else Inr (rc, w)))))"

text \<open>
  A file that exists and is as the winner recorded it need not be fetched.
\<close>

definition shop_avoidable :: "'h shop_env \<Rightarrow> path_action_s \<Rightarrow> 'h shop_world \<Rightarrow> (bool \<times> 'h shop_world) result" where
  "shop_avoidable env spa w =
     (if pa_is_unlink spa \<or> pa_is_link spa \<or> pa_is_symlink spa then Inr (False, w)
      else bindR (pa_exists (sw_access env w) spa) (\<lambda>e.
        if \<not> e then Inr (False, w)
        else
          bindR (pa_get_abs spa) (\<lambda>path. bindR (pa_get_ps spa) (\<lambda>sps.
          bindR (ps_stat (sw_sys env w) (sw_dcode w) (ps_newFromPath (ce_pn (se_ca env)) path) (ps_has_dcode sps))
            (\<lambda>(rc, cps, dc).
               let w = w\<lparr>sw_dcode := dc\<rparr>
               in if rc \<noteq> 0 then Inr (False, w)
                  else bindR (ps_diff (ce_ro (se_ca env)) sps cps) (\<lambda>reason. Inr (reason = None, w)))))))"

text \<open>
  The callback's argument is one of the objects of the cooked dictionary, which \<open>shop\<close> clears
  afterwards; that its upload flag is reset has no effect and is left out.
\<close>

definition shop_process_target ::
  "'h shop_env \<Rightarrow> bool \<Rightarrow> 'h shop_world \<Rightarrow> path_action_s \<Rightarrow> (int \<times> 'h shop_world) result" where
  "shop_process_target env getfiles w spa =
     bindR (pa_get_abs spa) (\<lambda>path.
       if pa_uploadable spa = 0 then Inr (0, w)
       else bindR (shop_avoidable env spa w) (\<lambda>(avoidable, w).
         if avoidable then
           (if getfiles then
              let w = w\<lparr>RecycledCount := RecycledCount w + 1\<rparr>
              in bindR (prop_is_true (sw_props w) P_ORIGINAL_DATESTAMP) (\<lambda>keep.
                   Inr (0, if keep then w else snd (sw_call env (Touch path) w)))
            else Inr (0, w))
         else if getfiles then shop_fetch env spa w
         else Inr (0, w)))"

section \<open>Comparing prerequisites\<close>

definition record_dummy :: "'h shop_env \<Rightarrow> path_action_s \<Rightarrow> 'h shopping_state_s \<Rightarrow> 'h shopping_state_s result" where
  \<comment> \<open>\<open>ca_record_pa(ssp->ca, dummy_pa)\<close>\<close>
  "record_dummy env pa ssp =
     (let w = ss_world ssp
      in bindR (ca_record_pa (se_ca env) (ss_ca ssp) (se_alloc env (sw_allocs w), pa\<lparr>pa_call := Some ''dummy''\<rparr>)) (\<lambda>ca.
           Inr (ssp\<lparr>ss_ca := ca, ss_world := w\<lparr>sw_allocs := sw_allocs w + 1\<rparr>\<rparr>)))"

fun invalidate_all :: "'h shop_env \<Rightarrow> string list \<Rightarrow> bool \<Rightarrow> 'h shopping_state_s \<Rightarrow> 'h shopping_state_s" where
  "invalidate_all env [] ignored ssp = ssp"
| "invalidate_all env (ixstr # ixs) ignored ssp =
     (if shop_ptx_count ssp = 0 then ssp
      else invalidate_all env ixs ignored (snd (shop_ptx_invalidate env ssp ixstr ignored)))"

definition current_ps ::
  "'h shop_env \<Rightarrow> 'h shopping_state_s \<Rightarrow> path_state_s \<Rightarrow> string \<Rightarrow> (bool \<times> path_state_s \<times> 'h shopping_state_s) result" where
  \<comment> \<open>whether there is an explanation already, and the state of the file\<close>
  "current_ps env ssp shopped path =
     bindR (case CurrentPS ssp of
              None \<Rightarrow> Inr True
            | Some cur \<Rightarrow> bindR (ps_get_abs cur) (\<lambda>p. Inr (c_strcmp p path \<noteq> 0))) (\<lambda>fresh.
     if \<not> fresh then Inr (False, the (CurrentPS ssp), ssp)
     else
       let w = ss_world ssp
       in bindR (ps_stat (sw_sys env w) (sw_dcode w) (ps_newFromPath (ce_pn (se_ca env)) path) (ps_has_dcode shopped))
            (\<lambda>(rc, cur, dc).
               Inr (rc \<noteq> 0, cur, ssp\<lparr>CurrentPS := Some cur, ss_world := w\<lparr>sw_dcode := dc\<rparr>\<rparr>)))"

definition shop_cmp_pathstate ::
  "'h shop_env \<Rightarrow> string \<Rightarrow> 'h shopping_state_s \<Rightarrow> string \<Rightarrow> 'h shopping_state_s result" where
  "shop_cmp_pathstate env ptxes1 ssp pskey =
     (case cdb_find env pskey of
        None \<Rightarrow> Inl (Abort ''bad PS key in roadmap'')
      | Some csv \<Rightarrow>
          bindR (ps_newFromCSVString (ce_pn (se_ca env)) csv) (\<lambda>shopped.
          bindR (ps_get_abs shopped) (\<lambda>path.
          let ignored = (re_match (ss_ignore_path_re ssp) (Some path) \<noteq> None)
          in bindR (current_ps env ssp shopped path) (\<lambda>(explained, cur, ssp).
             bindR (if explained then Inr True
                    else bindR (ps_diff (ce_ro (se_ca env)) shopped cur) (\<lambda>reason. Inr (reason \<noteq> None))) (\<lambda>mismatch.
               let ssp = (if mismatch then invalidate_all env (strsep_all FS2 (Some ptxes1)) ignored ssp else ssp)
               in if mismatch \<and> \<not> ignored then Inr ssp
                  else bindR (ps_copy (ce_pn (se_ca env)) cur) (\<lambda>ps.
                    record_dummy env (pa_new\<lparr>pa_ps := Some ps, pa_op := OP_READ\<rparr>) ssp))))))"

text \<open>
  A range \<open>S1-4\<close> of keys. The digits are formatted behind the letters in a buffer of 64 bytes
  with the size of the whole buffer, so that as many bytes behind it are cleared as there are
  letters; the model has no memory for that.
\<close>

fun cmp_range ::
  "'h shop_env \<Rightarrow> string \<Rightarrow> string \<Rightarrow> nat \<Rightarrow> u64 \<Rightarrow> 'h shopping_state_s \<Rightarrow> 'h shopping_state_s result" where
  "cmp_range env ptxes1 prefix 0 i ssp = Inr ssp"
| "cmp_range env ptxes1 prefix (Suc n) i ssp =
     bindR (util_format_to_radix 36 64 i) (\<lambda>digits.
     bindR (shop_cmp_pathstate env ptxes1 ssp (prefix @ buf_string digits)) (\<lambda>ssp.
       cmp_range env ptxes1 prefix n (i + 1) ssp))"

definition cmp_pskey ::
  "'h shop_env \<Rightarrow> string \<Rightarrow> string \<Rightarrow> 'h shopping_state_s \<Rightarrow> 'h shopping_state_s result" where
  "cmp_pskey env ptxes1 pskey ssp =
     (case split_at (CHR ''-'') pskey of
        Some (start, end1) \<Rightarrow>
          let prefix = takeWhile isupper start;
              first = c_strtol 36 (dropWhile isupper start); last1 = c_strtol 36 end1
          in if 64 \<le> length prefix then Inl (Fault ''write past nkey'')
             else cmp_range env ptxes1 prefix (if first \<le> last1 then unat last1 - unat first + 1 else 0) first ssp
      | None \<Rightarrow> shop_cmp_pathstate env ptxes1 ssp pskey)"

fun cmp_pskeys ::
  "'h shop_env \<Rightarrow> string \<Rightarrow> string list \<Rightarrow> 'h shopping_state_s \<Rightarrow> 'h shopping_state_s result" where
  "cmp_pskeys env ptxes1 [] ssp = Inr ssp"
| "cmp_pskeys env ptxes1 (pskey # pskeys) ssp =
     (if shop_ptx_count ssp = 0 then Inr ssp
      else bindR (cmp_pskey env ptxes1 pskey ssp) (\<lambda>ssp. cmp_pskeys env ptxes1 pskeys ssp))"

definition mark_seen :: "'h shop_env \<Rightarrow> string list \<Rightarrow> 'h shopping_state_s \<Rightarrow> 'h shopping_state_s" where
  \<comment> \<open>the run over the builds of a line; a build that is absent is not marked\<close>
  "mark_seen env ixs ssp = foldl (shop_ptx_mark_as_seen env) ssp ixs"

fun compare_lines :: "'h shop_env \<Rightarrow> string list \<Rightarrow> 'h shopping_state_s \<Rightarrow> 'h shopping_state_s result" where
  "compare_lines env [] ssp = Inr ssp"
| "compare_lines env (prqline # lines) ssp =
     (if shop_ptx_count ssp = 0 then Inr ssp
      else case split_at (CHR '','') prqline of
        None \<Rightarrow> Inl (Abort ''bad format in roadmap'')
      | Some (pskeys, ptxes1) \<Rightarrow>
          let ixs = strsep_all FS2 (Some ptxes1)
          in if \<not> list_ex (shop_ptx_contains env ssp) ixs then compare_lines env lines ssp
             else bindR (cmp_pskeys env ptxes1 (strsep_all FS2 (Some pskeys)) (mark_seen env ixs ssp)) (\<lambda>ssp.
                    compare_lines env lines ssp))"

definition shop_compare_prereqs :: "'h shop_env \<Rightarrow> 'h shopping_state_s \<Rightarrow> string \<Rightarrow> 'h shopping_state_s result" where
  "shop_compare_prereqs env ssp cmdix =
     (case se_cdb env (snprintf 64 (CHR ''<'' # cmdix)) of
        None \<Rightarrow> Inl (Exit 2)
      | Some lines \<Rightarrow> bindR (compare_lines env lines ssp) (\<lambda>ssp. Inr (ssp\<lparr>CurrentPS := None\<rparr>)))"

section \<open>One command\<close>

definition IS_TRUE :: "string \<Rightarrow> bool" where
  "IS_TRUE expr = (c_stricmp expr ''true'' = 0)"

definition shop_for_cmd :: "'h shop_env \<Rightarrow> 'h shopping_state_s \<Rightarrow> string \<Rightarrow> (shop_e \<times> 'h shopping_state_s) result" where
  "shop_for_cmd env ssp cmdix =
     (case cdb_find env cmdix of
        None \<Rightarrow> Inl (Abort ''missing cmd'')
      | Some cmdstate \<Rightarrow>
          (case take_fields 7 (Some cmdstate) of
             Some ([pccode, pathcode, has_tgt, agg, kids, duration, rwd], _) \<Rightarrow>
               if \<not> IS_TRUE has_tgt then Inr (if IS_TRUE agg then SHOP_MUSTRUN_AGG else SHOP_MUSTRUN, ssp)
               else if \<not> CSV_FIELD_IS_NULL kids then Inr (SHOP_MUSTRUN, ssp)
               else if shop_ptx_count ssp = 0 then Inr (SHOP_NOMATCH, ssp)
               else
                 bindR (shop_compare_prereqs env ssp cmdix) (\<lambda>ssp.
                   let (won, ssp') = (if shop_ptx_count ssp = 0 then (False, ssp) else shop_ptx_winner ssp)
                   in Inr (if won then (SHOP_RECYCLED, ssp'\<lparr>ss_wincmd := snprintf 32 cmdix\<rparr>)
                           else (if IS_TRUE agg then SHOP_NOMATCH_AGG else SHOP_NOMATCH, ssp')))
           | _ \<Rightarrow> Inl (Fault ''read into NULL'')))"

fun collect_pskeys :: "'h shop_env \<Rightarrow> string list \<Rightarrow> 'h shopping_state_s \<Rightarrow> 'h shopping_state_s result" where
  "collect_pskeys env [] ssp = Inr ssp"
| "collect_pskeys env (pskey # pskeys) ssp =
     (case cdb_find env pskey of
        None \<Rightarrow> Inl (Abort ''bad key in roadmap'')
      | Some csv \<Rightarrow>
          bindR (ps_newFromCSVString (ce_pn (se_ca env)) csv) (\<lambda>tgt_ps.
          bindR (record_dummy env (pa_new\<lparr>pa_ps := Some tgt_ps, pa_uploadable := 1,
                   pa_op := (if ps_is_link tgt_ps then OP_LINK else if ps_is_symlink tgt_ps then OP_SYMLINK
                     else if ps_is_unlink tgt_ps then OP_UNLINK else OP_CREAT)\<rparr>) ssp) (\<lambda>ssp.
            collect_pskeys env pskeys ssp)))"

fun collect_lines :: "'h shop_env \<Rightarrow> string list \<Rightarrow> 'h shopping_state_s \<Rightarrow> 'h shopping_state_s result" where
  "collect_lines env [] ssp = Inr ssp"
| "collect_lines env (buf # bufs) ssp =
     (case split_at (CHR '','') buf of
        None \<Rightarrow> Inl (Abort ''bad format in roadmap'')
      | Some (pskeys, ptxes) \<Rightarrow>
          bindR (if ss_wix ssp \<in> set (strsep_all FS2 (Some ptxes))
                 then collect_pskeys env (strsep_all FS2 (Some pskeys)) ssp else Inr ssp) (\<lambda>ssp.
            collect_lines env bufs ssp))"

text \<open>\<open>_shop_collect_targets\<close> ends the program where it does not return \<open>SHOP_RECYCLED\<close>.\<close>

definition shop_collect_targets :: "'h shop_env \<Rightarrow> 'h shopping_state_s \<Rightarrow> string \<Rightarrow> 'h shopping_state_s result" where
  "shop_collect_targets env ssp cmdix =
     (case se_cdb env (snprintf 64 (CHR ''>'' # cmdix)) of
        None \<Rightarrow> Inl (Exit 2)
      | Some lines \<Rightarrow> collect_lines env lines ssp)"

definition shop_process_targets :: "'h shop_env \<Rightarrow> 'h shopping_state_s \<Rightarrow> (int \<times> 'h shopping_state_s) result" where
  "shop_process_targets env ssp =
     bindR (ca_coalesce (se_ca env) (ss_ca ssp)) (\<lambda>ca.
     bindR (ca_foreach_cooked_pa ca (shop_process_target env (ss_getfiles ssp)) (ss_world ssp)) (\<lambda>(rc, w).
       Inr (rc, ssp\<lparr>ss_ca := ca, ss_world := w\<rparr>)))"

section \<open>The whole search\<close>

fun ptx_lines :: "'h shop_env \<Rightarrow> string list \<Rightarrow> 'h shopping_state_s \<Rightarrow> 'h shopping_state_s result" where
  "ptx_lines env [] ssp = Inr ssp"
| "ptx_lines env (xn # xns) ssp =
     (if 64 \<le> length xn then Inl (Fault ''write past xn'')
      else case split_at (CHR ''='') xn of
        None \<Rightarrow> Inl (Abort ''bad PTX line in roadmap'')
      | Some (key, ptxid) \<Rightarrow> bindR (shop_ptx_insert env ssp key ptxid) (\<lambda>ssp. ptx_lines env xns ssp))"

fun try_cmds ::
  "'h shop_env \<Rightarrow> string list \<Rightarrow> shop_e \<Rightarrow> 'h shopping_state_s \<Rightarrow> (shop_e \<times> 'h shopping_state_s) result" where
  "try_cmds env [] rc ssp = Inr (rc, ssp)"
| "try_cmds env (cmdix # cmds) rc ssp =
     (if rc = SHOP_RECYCLED then Inr (rc, ssp)
      else if 64 \<le> length cmdix then Inl (Fault ''write past cmdix'')
      else bindR (shop_for_cmd env ssp cmdix) (\<lambda>(rc, ssp). try_cmds env cmds rc ssp))"

definition PTX_PREFIX :: string where "PTX_PREFIX = ''X''"

definition shop_start :: "cmd_audit_s \<Rightarrow> bool \<Rightarrow> re_o option \<Rightarrow> 'h shop_world \<Rightarrow> 'h shopping_state_s" where
  \<comment> \<open>the state after \<open>memset\<close> and the first assignments\<close>
  "shop_start ca getfiles re w =
     \<lparr>ss_ca = ca, ss_getfiles = getfiles, ss_ptx_dict = [], ss_ignore_path_re = re, ss_winner = [], ss_wix = [],
      ss_wincmd = [], CurrentPS = None, ss_world = w\<rparr>"

definition shop ::
  "'h shop_env \<Rightarrow> cmd_audit_s \<Rightarrow> string option \<Rightarrow> bool \<Rightarrow> 'h shop_world \<Rightarrow> (shop_e \<times> cmd_audit_s \<times> 'h shop_world) result" where
  "shop env ca cmdkey getfiles w =
     (if \<not> ShopCDB w then Inr (SHOP_OFF, ca, w)
      else
        bindR (re_init_prop (se_pcre env) (sw_props w) P_SHOP_IGNORE_PATH_RE) (\<lambda>(re, props).
        case se_cdb env PTX_PREFIX of
          None \<Rightarrow> Inl (Exit 2)
        | Some xns \<Rightarrow>
            bindR (ptx_lines env xns (shop_start ca getfiles re (w\<lparr>sw_props := props\<rparr>))) (\<lambda>ssp.
            bindR (case cmdkey of
                     None \<Rightarrow> Inr ssp
                   | Some key \<Rightarrow>
                       (case shop_find_cmdline env key of
                          Some line \<Rightarrow> Inr (ssp\<lparr>ss_ca := ca_set_line (se_ca env) (ss_ca ssp) (Some line)\<rparr>)
                        | None \<Rightarrow> Inl (Abort ''no line found''))) (\<lambda>ssp.
            case ca_line (ss_ca ssp) of
              None \<Rightarrow> Inl (Fault ''strlen of NULL'')
            | Some line \<Rightarrow>
                (case se_cdb env line of
                   None \<Rightarrow> Inl (Exit 2)
                 | Some cmds \<Rightarrow>
                     bindR (try_cmds env cmds SHOP_NOMATCH ssp) (\<lambda>(rc, ssp).
                     bindR (if rc = SHOP_RECYCLED then
                              bindR (shop_collect_targets env ssp (ss_wincmd ssp)) (\<lambda>ssp.
                              bindR (shop_process_targets env ssp) (\<lambda>(err, ssp).
                                Inr (if err \<noteq> 0 then (SHOP_ERR, ssp)
                                     else (rc, ssp\<lparr>ss_ca := (ss_ca ssp)\<lparr>ca_recycled := set_str (Some (ss_winner ssp))\<rparr>\<rparr>))))
                            else Inr (rc, ssp)) (\<lambda>(rc, ssp).
                       Inr (rc, ca_clear_pa (ss_ca ssp), ss_world ssp))))))))"

section \<open>Setting up\<close>

definition shop_fini :: "'h shop_env \<Rightarrow> 'h shop_world \<Rightarrow> 'h shop_world result" where
  "shop_fini env w =
     bindR (prop_get_str (sw_props w) P_ROADMAPFILE) (\<lambda>rmap.
     bindR (case rmap of
              None \<Rightarrow> Inr w
            | Some path \<Rightarrow>
                bindR (prop_is_true (sw_props w) P_LEAVE_ROADMAP) (\<lambda>leave.
                  let w = (if leave then w else snd (sw_call env (Unlink path) w))
                  in Inr (w\<lparr>sw_props := prop_unset (sw_props w) P_ROADMAPFILE False\<rparr>))) (\<lambda>w.
       Inr (w\<lparr>ShopCDB := False\<rparr>)))"

definition shop_init :: "'h shop_env \<Rightarrow> 'h shop_world \<Rightarrow> 'h shop_world result" where
  "shop_init env w =
     bindR (prop_get_str (sw_props w) P_ROADMAPFILE) (\<lambda>rmap.
     case rmap of
       None \<Rightarrow> Inr w
     | Some path \<Rightarrow>
         (case fs_size (se_fs env) (sw_calls w) path of
            None \<Rightarrow> Inr w
          | Some size1 \<Rightarrow> if 0 < sint size1 then Inr (w\<lparr>ShopCDB := True\<rparr>) else shop_fini env w))"

definition shop_get_count :: "'h shop_world \<Rightarrow> nat" where
  "shop_get_count w = RecycledCount w"

end
