(* ===== verification/Monitor.thy ===== *)
theory Monitor
  imports Group Shop
begin

text \<open>
  The monitor (\<open>src/mon.c\<close>): it receives, line by line, the start of each audited command
  (\<open><SOA>\<close>), its actions on files and its end (\<open><EOA>\<close>), keeps the open commands in the
  hash table \<open>AuditHash\<close>, groups them by the aggregation rules, and publishes each command or
  group when it is complete.
\<close>

section \<open>State and environment\<close>

text \<open>What a published command gives rise to outside the monitor, in order.\<close>

datatype mon_effect = OutputFile string | LoadAudit string | LoadFile path_state_s
  | MakeFile cmd_audit_s | GitDeliver cmd_audit_s

record 'h mon_world =
  mw_shop :: "'h shop_world"
  mw_effects :: "mon_effect list"

record 'h mon_state =
  AuditHash :: "(cmd_key_s \<times> ca_o) list option"
  ms_store :: ca_store
  ms_world :: "'h mon_world"

datatype agg_e = AGG_NEUTRAL | AGG_NONE | AGG_WEAK | AGG_STRONG | AGG_BREAK

datatype mon_re = LINE_BREAK | PROG_BREAK | LINE_STRONG | PROG_STRONG | LINE_WEAK | PROG_WEAK

text \<open>\<open>me_re\<close> are the static variables with the expressions which \<open>mon_init\<close> compiles.\<close>

record 'h mon_env =
  me_shop :: "'h shop_env"
  me_re :: "mon_re \<Rightarrow> re_o option"

abbreviation me_ca :: "'h mon_env \<Rightarrow> ca_env" where
  "me_ca env \<equiv> se_ca (me_shop env)"

abbreviation mw_props :: "'h mon_world \<Rightarrow> prop_state" where
  "mw_props w \<equiv> sw_props (mw_shop w)"

definition me_match :: "'h mon_env \<Rightarrow> mon_re \<Rightarrow> string option \<Rightarrow> bool" where
  "me_match env re str = (re_match (me_re env re) str \<noteq> None)"

unbundle bit_operations_syntax

definition MON_NEXT :: u32 where "MON_NEXT = 1"
definition MON_TOP :: u32 where "MON_TOP = 2"
definition MON_SOA :: u32 where "MON_SOA = 4"
definition MON_EOA :: u32 where "MON_EOA = 8"
definition MON_AGG :: u32 where "MON_AGG = 16"
definition MON_RECYCLED :: u32 where "MON_RECYCLED = 32"
definition MON_STRICT :: u32 where "MON_STRICT = 64"
definition MON_ERR :: u32 where "MON_ERR = 128"
definition MON_CANTRUN :: u32 where "MON_CANTRUN = 256"

text \<open>
  What a line yields: the bit mask, the winning build if the command was recycled, the process
  id of an ended build, and the return code.
\<close>

record mon_result =
  mr_bits :: u32
  mr_winner :: "string option"
  mr_cmdpid :: "u64 option"
  mr_rc :: int

definition mon_result_of :: "u32 \<Rightarrow> int \<Rightarrow> mon_result" where
  "mon_result_of bits rc = \<lparr>mr_bits = bits, mr_winner = None, mr_cmdpid = None, mr_rc = rc\<rparr>"

definition mon_init ::
  "'h mon_env \<Rightarrow> 'h \<Rightarrow> u64 \<times> u64 \<Rightarrow> 'h mon_state \<Rightarrow> ((mon_re \<Rightarrow> re_o option) \<times> 'h mon_state) result" where
  \<comment> \<open>with a new table for the cache of identity hashes and the time of day\<close>
  "mon_init env table tv st =
     (let senv = me_shop env; c = se_pcre senv; w = mw_shop (ms_world st)
      in bindR (re_init_prop c (sw_props w) P_AGGREGATION_LINE_BREAK_RE) (\<lambda>(line_break, props).
         bindR (re_init_prop c props P_AGGREGATION_PROG_BREAK_RE) (\<lambda>(prog_break, props).
         bindR (re_init_prop c props P_AGGREGATION_LINE_STRONG_RE) (\<lambda>(line_strong, props).
         bindR (re_init_prop c props P_AGGREGATION_PROG_STRONG_RE) (\<lambda>(prog_strong, props).
         bindR (re_init_prop c props P_AGGREGATION_LINE_WEAK_RE) (\<lambda>(line_weak, props).
         bindR (re_init_prop c props P_AGGREGATION_PROG_WEAK_RE) (\<lambda>(prog_weak, props).
         bindR (prop_is_true props P_UPLOAD_ONLY) (\<lambda>up.
         bindR (if up then Inr True else prop_is_true props P_AUDIT_ONLY) (\<lambda>off.
         let w = w\<lparr>sw_props := props\<rparr>
         in bindR (if off then Inr (w\<lparr>sw_props := prop_unset props P_ROADMAPFILE False\<rparr>) else shop_init senv w) (\<lambda>w.
         bindR (prop_get_long (sw_props w) P_DCODE_CACHE_SECS) (\<lambda>secs.
           Inr ((\<lambda>k. case k of LINE_BREAK \<Rightarrow> line_break | PROG_BREAK \<Rightarrow> prog_break | LINE_STRONG \<Rightarrow> line_strong
                  | PROG_STRONG \<Rightarrow> prog_strong | LINE_WEAK \<Rightarrow> line_weak | PROG_WEAK \<Rightarrow> prog_weak),
                st\<lparr>AuditHash := (if AuditHash st = None then Some [] else AuditHash st),
                   ms_world := (ms_world st)\<lparr>mw_shop := w\<lparr>sw_dcode := ps_dcode_cache_init table secs tv (sw_dcode w)\<rparr>\<rparr>\<rparr>))))))))))))"

section \<open>Publishing\<close>

definition mon_no_ptx :: "prop_state \<Rightarrow> bool result" where
  "mon_no_ptx props = bindR (prop_get_ulong props P_DOWNLOAD_ONLY) (\<lambda>v. Inr (v = 2))"

definition mon_process_pa :: "prop_state \<Rightarrow> mon_effect list \<Rightarrow> path_action_s \<Rightarrow> (int \<times> mon_effect list) result" where
  "mon_process_pa props up pa =
     (if pa_uploadable pa = 0 then Inr (0, up)
      else bindR (prop_is_true props P_DOWNLOAD_ONLY) (\<lambda>d.
           bindR (if d then Inr True else prop_is_true props P_AUDIT_ONLY) (\<lambda>skip.
             if skip then Inr (0, up)
             else bindR (pa_get_ps pa) (\<lambda>ps. Inr (0, up @ [LoadFile ps])))))"

definition mon_process_ca :: "'h mon_env \<Rightarrow> 'h mon_world publisher" where
  "mon_process_ca env ca ws =
     (let w = fst ws; s = snd ws; sw = mw_shop w; props = sw_props sw in
      bindR (if ca_recycled (s ca) \<noteq> None then Inr (s ca) else ca_derive_pathcode (me_ca env) (s ca)) (\<lambda>obj.
      bindR (prop_is_true props P_DCODE_ALL) (\<lambda>dcode_all.
      bindR (ca_toCSVString dcode_all (sw_sys (me_shop env) sw) (sw_dcode sw) obj) (\<lambda>(cabuf, obj, dc).
      bindR (prop_get_str props P_OUTPUT_FILE) (\<lambda>ofile.
      bindR (if prop_has_value props P_SERVER then bindR (mon_no_ptx props) (\<lambda>n. Inr (\<not> n)) else Inr False) (\<lambda>upload.
      bindR (if upload then ca_foreach_cooked_pa obj (mon_process_pa props) [LoadAudit cabuf] else Inr (0, [])) (\<lambda>(rc, up).
      bindR (prop_is_true props P_GIT) (\<lambda>git.
        Inr (w\<lparr>mw_shop := sw\<lparr>sw_dcode := dc\<rparr>, mw_effects := mw_effects w
                 @ (if ofile \<noteq> None \<and> cabuf \<noteq> [] then [OutputFile (cabuf @ [newline])] else [])
                 @ up
                 @ (if prop_has_value props P_MAKE_DEPENDS \<or> prop_has_value props P_MAKE_FILE then [MakeFile obj] else [])
                 @ (if git then [GitDeliver obj] else [])\<rparr>,
             s(ca := obj\<lparr>ca_processed := True\<rparr>))))))))))"

definition mon_clean_up_ca_table :: "'h mon_state \<Rightarrow> 'h mon_state" where
  "mon_clean_up_ca_table st =
     st\<lparr>AuditHash := map_option (filter (\<lambda>e. \<not> ca_processed (ms_store st (snd e)))) (AuditHash st)\<rparr>"

definition with_store :: "'h mon_state \<Rightarrow> 'h mon_world \<times> ca_store \<Rightarrow> 'h mon_state" where
  "with_store st ws = st\<lparr>ms_world := fst ws, ms_store := snd ws\<rparr>"

definition mon_publish :: "'h mon_env \<Rightarrow> ca_o \<Rightarrow> 'h mon_state \<Rightarrow> 'h mon_state result" where
  \<comment> \<open>\<open>ca_publish(ca, _mon_process_ca); _mon_clean_up_ca_table();\<close>\<close>
  "mon_publish env ca st =
     bindR (ca_publish (me_ca env) (mon_process_ca env) ca (ms_world st, ms_store st)) (\<lambda>ws.
       Inr (mon_clean_up_ca_table (with_store st ws)))"

section \<open>Start of a command\<close>

definition mon_lookup :: "'h mon_env \<Rightarrow> (cmd_key_s \<times> ca_o) list \<Rightarrow> cmd_key_s \<Rightarrow> ca_o option" where
  "mon_lookup env h ck = map_option snd (hash_find (ce_hash (me_ca env)) ca_o_hash_cmp ca_o_hash_func ck h)"

text \<open>The ancestor: by exec (same process), by fork (the parent process), or at the same depth.\<close>

definition mon_pred :: "'h mon_env \<Rightarrow> (cmd_key_s \<times> ca_o) list \<Rightarrow> cmd_audit_s \<Rightarrow> ca_o option" where
  "mon_pred env h ca =
     (if ca_depth ca \<noteq> 0 then
        (case mon_lookup env h (ck_new (ca_get_pccode ca) (ca_depth ca - 1) (ca_cmdid ca)) of
           Some p \<Rightarrow> Some p
         | None \<Rightarrow>
             (case mon_lookup env h (ck_new (ca_get_pccode ca) (ca_depth ca - 1) (ca_pcmdid ca)) of
                Some p \<Rightarrow> Some p
              | None \<Rightarrow> mon_lookup env h (ck_new (ca_get_pccode ca) (ca_depth ca) (ca_pcmdid ca))))
      else None)"

definition mon_match_level :: "'h mon_env \<Rightarrow> ca_store \<Rightarrow> ca_o option \<Rightarrow> cmd_audit_s \<Rightarrow> agg_e" where
  \<comment> \<open>the third argument is the leader of the ancestor, if it has one\<close>
  "mon_match_level env s ldr ca =
     (let prog = ca_prog ca; line = ca_line ca
      in if ldr \<noteq> None \<and> (me_match env PROG_BREAK prog \<or> me_match env LINE_BREAK line) then AGG_BREAK
         else if ldr \<noteq> None \<and> ca_strong (s (the ldr)) then AGG_STRONG
         else if me_match env PROG_STRONG prog \<or> me_match env LINE_STRONG line then AGG_STRONG
         else if me_match env PROG_WEAK prog \<or> me_match env LINE_WEAK line then AGG_WEAK
         else AGG_NEUTRAL)"

definition mon_agglevel :: "'h mon_env \<Rightarrow> string option \<Rightarrow> ca_store \<Rightarrow> ca_o option \<Rightarrow> cmd_audit_s \<Rightarrow> agg_e" where
  \<comment> \<open>the second argument is \<open>Aggregation.Style\<close>\<close>
  "mon_agglevel env aggprop s ldr ca =
     (case aggprop of
        Some style \<Rightarrow>
          if first_char style = CHR ''+'' then AGG_STRONG
          else if first_char style = CHR ''-'' then AGG_NONE
          else mon_match_level env s ldr ca
      | None \<Rightarrow> mon_match_level env s ldr ca)"

text \<open>The new command joins the group of its ancestor, replaces it, or starts one.\<close>

definition mon_group :: "'h mon_env \<Rightarrow> ca_o \<Rightarrow> agg_e \<Rightarrow> ca_o option \<Rightarrow> 'h mon_state \<Rightarrow> 'h mon_state result" where
  "mon_group env ca agglevel ldr st =
     (let join = (\<lambda>l. bindR (ca_aggregate (me_ca env) l ca (ms_store st)) (\<lambda>s. Inr (st\<lparr>ms_store := s\<rparr>)));
          start = (\<lambda>s. ca_start_group ca (agglevel = AGG_STRONG) s)
      in case ldr of
           Some l \<Rightarrow>
             if agglevel \<noteq> AGG_BREAK \<and> ca_strong (ms_store st l) then join l
             else if agglevel = AGG_BREAK \<or> agglevel = AGG_STRONG \<or> agglevel = AGG_WEAK then
               bindR (ca_disband (me_ca env) (mon_process_ca env) l (ms_world st, ms_store st)) (\<lambda>(w, s).
               bindR (if agglevel \<noteq> AGG_BREAK then start s else Inr s) (\<lambda>s.
                 Inr (mon_clean_up_ca_table (with_store st (w, s)))))
             else if agglevel = AGG_NEUTRAL then join l
             else Inl (Abort ''impossible agglevel'')
         | None \<Rightarrow>
             if agglevel = AGG_NONE \<or> agglevel = AGG_NEUTRAL \<or> agglevel = AGG_BREAK then Inr st
             else bindR (start (ms_store st)) (\<lambda>s. Inr (st\<lparr>ms_store := s\<rparr>)))"

definition mon_shop_bits :: "bool \<Rightarrow> shop_e \<Rightarrow> u32" where
  \<comment> \<open>the first argument is \<open>Strict.Download\<close>\<close>
  "mon_shop_bits strict rc =
     (case rc of
        SHOP_RECYCLED \<Rightarrow> MON_RECYCLED
      | SHOP_MUSTRUN \<Rightarrow> 0
      | SHOP_MUSTRUN_AGG \<Rightarrow> MON_AGG
      | SHOP_OFF \<Rightarrow> 0
      | _ \<Rightarrow> (if strict then MON_STRICT else 0) OR (if rc = SHOP_NOMATCH_AGG then MON_AGG else 0))"

definition mon_shop :: "'h mon_env \<Rightarrow> ca_o \<Rightarrow> bool \<Rightarrow> 'h mon_state \<Rightarrow> (u32 \<times> string option \<times> 'h mon_state) result" where
  "mon_shop env ca no_shop st =
     (if prop_has_value (mw_props (ms_world st)) P_SERVER \<and> \<not> no_shop then
        bindR (shop (me_shop env) (ms_store st ca) None True (mw_shop (ms_world st))) (\<lambda>(shoprc, obj, w).
        let st = st\<lparr>ms_store := (ms_store st)(ca := obj), ms_world := (ms_world st)\<lparr>mw_shop := w\<rparr>\<rparr>
        in bindR (if shoprc \<in> {SHOP_NOMATCH, SHOP_NOMATCH_AGG, SHOP_ERR}
                  then prop_is_true (sw_props w) P_STRICT_DOWNLOAD else Inr False) (\<lambda>strict.
             Inr (mon_shop_bits strict shoprc, if shoprc = SHOP_RECYCLED then ca_recycled obj else None, st)))
      else Inr (0, None, st))"

text \<open>
  A line \<open><SOA>\<close> or \<open><sOA>\<close>. \<open>addr\<close> is where the new object is allocated, \<open>now\<close> the time of
  day; \<open>small\<close> is the lower-case form, which says not to shop.
\<close>

definition mon_soa ::
  "'h mon_env \<Rightarrow> ca_o \<Rightarrow> moment_s \<Rightarrow> bool \<Rightarrow> string \<Rightarrow> int \<Rightarrow> 'h mon_state \<Rightarrow> (mon_result \<times> 'h mon_state) result" where
  "mon_soa env addr now small csv rc st =
     (let props = mw_props (ms_world st) in
      bindR (if small then Inr True
             else bindR (prop_is_true props P_UPLOAD_ONLY) (\<lambda>u.
               if u then Inr True else prop_is_true props P_AUDIT_ONLY)) (\<lambda>no_shop.
      bindR (ca_newFromCSVString (me_ca env) csv) (\<lambda>ca0.
      let ck = ck_new_from_ca ca0; ca = ca0\<lparr>ca_starttime := now, ca_started := True\<rparr>
      in case AuditHash st of
           None \<Rightarrow> Inl (Fault ''NULL hash'')
         | Some h \<Rightarrow>
             if mon_lookup env h ck \<noteq> None then Inl (Abort ''double delivery'')
             else
               bindR (hash_insert (ce_hash (me_ca env)) ca_o_hash_cmp ca_o_hash_func ck addr h) (\<lambda>h'.
               bindR (prop_get_str props P_AGGREGATION_STYLE) (\<lambda>aggprop.
               let s = (ms_store st)(addr := ca);
                   ldr = Option.bind (mon_pred env h ca) (\<lambda>p. ca_leader (s p));
                   st = st\<lparr>AuditHash := Some h', ms_store := s\<rparr>
               in bindR (mon_group env addr (mon_agglevel env aggprop s ldr ca) ldr st) (\<lambda>st.
                  bindR (mon_shop env addr no_shop st) (\<lambda>(bits, winner, st).
                    Inr ((mon_result_of (MON_SOA OR (if ca_is_top ca then MON_TOP else 0) OR bits) rc)
                           \<lparr>mr_winner := winner\<rparr>, st))))))))"

section \<open>End of a command\<close>

text \<open>
  The chain of commands that one process went through by exec is closed from the last one up.
  \<open>ended\<close> says whether the top of the build was among them. The fuel bounds the number of
  commands; running out of it is not a behaviour of the program, and one more than the depth
  of the first command is enough.
\<close>

definition mon_close_one ::
  "'h mon_env \<Rightarrow> ca_o \<Rightarrow> moment_s \<Rightarrow> 'h mon_state \<Rightarrow> 'h mon_state result" where
  "mon_close_one env cur ca_end_time st =
     (let obj = ms_store st cur;
          obj = obj\<lparr>ca_duration := moment_duration (ce_ro (me_ca env)) ca_end_time (ca_starttime obj),
                    ca_closed := True\<rparr>;
          st = st\<lparr>ms_store := (ms_store st)(cur := obj)\<rparr>
      in if ca_leader obj \<noteq> None then Inr st else mon_publish env cur st)"

fun mon_close_chain ::
  "nat \<Rightarrow> 'h mon_env \<Rightarrow> u64 \<Rightarrow> ca_o option \<Rightarrow> moment_s \<Rightarrow> bool \<Rightarrow> 'h mon_state \<Rightarrow> (bool \<times> 'h mon_state) result option" where
  "mon_close_chain fuel env cmdid None ca_end_time ended st = Some (Inr (ended, st))"
| "mon_close_chain 0 env cmdid (Some cur) ca_end_time ended st = None"
| "mon_close_chain (Suc fuel) env cmdid (Some cur) ca_end_time ended st =
     (let obj = ms_store st cur
      in if ca_cmdid obj \<noteq> cmdid then Some (Inr (ended, st))
         else
           let nxt = (if ca_depth obj = 0 then None
                 else Option.bind (AuditHash st) (\<lambda>h.
                   mon_lookup env h (ck_new (ca_get_pccode obj) (ca_depth obj - 1) cmdid)))
           in case mon_close_one env cur ca_end_time st of
                Inl e \<Rightarrow> Some (Inl e)
              | Inr st \<Rightarrow> mon_close_chain fuel env cmdid nxt (ca_starttime obj) (ended \<or> ca_is_top obj) st)"

definition mon_close_all ::
  "'h mon_env \<Rightarrow> ca_o \<Rightarrow> moment_s \<Rightarrow> 'h mon_state \<Rightarrow> (bool \<times> 'h mon_state) result" where
  "mon_close_all env ca now st =
     (let obj = ms_store st ca
      in case mon_close_chain (Suc (unat (ca_depth obj))) env (ca_cmdid obj) (Some ca) now False st of
           Some r \<Rightarrow> r
         | None \<Rightarrow> Inl (Abort ''fuel''))"

definition eoa_rc :: "string \<Rightarrow> (int \<times> string) result" where
  \<comment> \<open>the return code in brackets, if there is one, and the rest\<close>
  "eoa_rc csv =
     (if first_char csv = CHR ''['' then
        (case split_at (CHR '']'') (tl csv) of
           Some (_, rest) \<Rightarrow> Inr (to_int (c_strtol 10 (tl csv)), rest)
         | None \<Rightarrow> Inl (Fault ''NULL + 1''))
      else Inr (0, csv))"

definition mon_eoa ::
  "'h mon_env \<Rightarrow> moment_s \<Rightarrow> string \<Rightarrow> int \<Rightarrow> 'h mon_state \<Rightarrow> (mon_result \<times> 'h mon_state) result" where
  "mon_eoa env now text rc st =
     bindR (eoa_rc text) (\<lambda>(cmdrc, csv).
     bindR (ca_newFromCSVString (me_ca env) csv) (\<lambda>eoa.
       case Option.bind (AuditHash st) (\<lambda>h. mon_lookup env h (ck_new_from_ca eoa)) of
         None \<Rightarrow> Inr (mon_result_of MON_ERR rc, st)
       | Some ca \<Rightarrow>
           let cmdid = ca_cmdid (ms_store st ca); ldr = ca_leader (ms_store st ca)
           in bindR (mon_close_all env ca now st) (\<lambda>(ended, st).
              bindR (case ldr of
                       Some l \<Rightarrow> if ca_closed (ms_store st l) then mon_publish env l st else Inr st
                     | None \<Rightarrow> Inr st) (\<lambda>st.
                Inr ((mon_result_of (MON_EOA OR (if ended then MON_TOP else 0)) (if ended \<and> rc = 0 then cmdrc else rc))
                       \<lparr>mr_cmdpid := (if ended then Some cmdid else None)\<rparr>, st)))))"

section \<open>Actions and other lines\<close>

definition mon_pa ::
  "'h mon_env \<Rightarrow> nat \<Rightarrow> string \<Rightarrow> int \<Rightarrow> 'h mon_state \<Rightarrow> (mon_result \<times> 'h mon_state) result" where
  "mon_pa env addr buf rc st =
     bindR (pa_newFromCSVString (ce_pn (me_ca env)) buf) (\<lambda>pa.
     bindR (if pa_is_write pa then Inr True else prop_is_true (mw_props (ms_world st)) P_UPLOAD_READS) (\<lambda>up.
       let pa = (if up then pa\<lparr>pa_uploadable := 1\<rparr> else pa);
           ck = ck_new (pa_get_ccode pa) (pa_depth pa) (pa_pid pa)
       in case Option.bind (AuditHash st) (\<lambda>h. mon_lookup env h ck) of
            None \<Rightarrow> Inr (mon_result_of MON_ERR rc, st)
          | Some ca \<Rightarrow> bindR (ca_record_pa (me_ca env) (ms_store st ca) (addr, pa)) (\<lambda>obj.
              Inr (mon_result_of MON_NEXT rc, st\<lparr>ms_store := (ms_store st)(ca := obj)\<rparr>))))"

text \<open>
  \<open>mon_record\<close>. The warnings and dumps on skew have no effect on the state and are left out.
\<close>

definition SOA :: string where "SOA = ''<SOA>''"
definition EOA :: string where "EOA = ''<EOA>''"

definition mon_record ::
  "'h mon_env \<Rightarrow> nat \<Rightarrow> moment_s \<Rightarrow> string \<Rightarrow> int \<Rightarrow> 'h mon_state \<Rightarrow> (mon_result \<times> 'h mon_state) result" where
  "mon_record env addr now buf rc st =
     (let c0 = first_char buf; c1 = first_char (tl buf) in
      if c0 = CHR ''<'' then
        if c1 = CHR ''S'' \<or> c1 = CHR ''s'' then mon_soa env addr now (c1 = CHR ''s'') (drop (length SOA) buf) rc st
        else if c1 = CHR ''E'' then mon_eoa env now (drop (length EOA) buf) rc st
        else Inr (mon_result_of MON_ERR rc, st)
      else if isalpha c0 then mon_pa env addr buf rc st
      else if c0 = CHR ''+'' \<or> c0 = CHR ''#'' then Inr (mon_result_of MON_NEXT rc, st)
      else if c0 = CHR ''!'' then Inr (mon_result_of MON_CANTRUN rc, st)
      else Inr (mon_result_of MON_ERR rc, st))"

end
