(* ===== verification/MonitorInv.thy ===== *)
theory MonitorInv
  imports Monitor
begin

text \<open>
  The consistency of the monitor's table: groups are a partition of the grouped commands, each
  leader and each member is an open command of the table, and nothing in the table has been
  handed over already. The contract between the groups of \<open>src/ca.c\<close> and the publishing
  callback of \<open>src/mon.c\<close> is the locale \<open>publisher\<close>.
\<close>

section \<open>The contract of a publishing callback\<close>

definition published :: "cmd_audit_s \<Rightarrow> cmd_audit_s \<Rightarrow> bool" where
  \<comment> \<open>the second object is the first one after it was coalesced and handed over\<close>
  "published ca ca' = (\<exists>p c. ca' = ca\<lparr>ca_raw_pa_dict := Some [], ca_pathcode := p, ca_cooked_pa_dict := c,
     ca_processed := True\<rparr>)"

locale publisher =
  fixes process :: "'w publisher"
  assumes process_effect: "process ca (w, s) = Inr (w', s') \<Longrightarrow>
    \<exists>p c. s' = s(ca := (s ca)\<lparr>ca_pathcode := p, ca_cooked_pa_dict := c, ca_processed := True\<rparr>)"
begin

lemma finish_effect:
  assumes "ca_finish env process ca (w, s) = Inr (w', s')"
  shows "\<exists>obj. published (s ca) obj \<and> s' = s(ca := obj)"
proof -
  obtain cooked where "process ca (w, s(ca := (s ca)\<lparr>ca_raw_pa_dict := Some [], ca_cooked_pa_dict := Some cooked\<rparr>)) = Inr (w', s')"
    using assms by (auto simp: ca_finish_def ca_coalesce_def bindR_eq_Inr split: if_splits option.splits)
  from process_effect [OF this] show ?thesis by (auto simp: published_def)
qed

definition handled :: "cmd_audit_s \<Rightarrow> cmd_audit_s \<Rightarrow> bool" where
  "handled ca ca' = (if ca_closed ca then published ca ca' else ca' = ca)"

lemma disband_scan_effect:
  "disband_scan env process l es (w, s) = Inr (w', s') \<Longrightarrow> distinct (map snd es) \<Longrightarrow> l \<notin> snd ` set es \<Longrightarrow>
     (\<exists>g. s' l = (s l)\<lparr>ca_group_hash := g\<rparr>) \<and>
     (\<forall>m \<in> snd ` set es. \<exists>obj. handled (s m) obj \<and> s' m = obj\<lparr>ca_leader := None\<rparr>) \<and>
     (\<forall>x. x \<noteq> l \<and> x \<notin> snd ` set es \<longrightarrow> s' x = s x)"
proof (induction es arbitrary: w s)
  case Nil
  then have "s' = s" by simp
  then show ?case by (intro conjI exI [of _ "ca_group_hash (s l)"]) simp_all
next
  case (Cons e es)
  let ?m = "snd e"
  have m: "?m \<noteq> l" "?m \<notin> snd ` set es" using Cons.prems by auto
  obtain w1 s1 where s1: "(if ca_closed (s ?m) then ca_finish env process ?m (w, s) else Inr (w, s)) = Inr (w1, s1)"
    and rest: "disband_scan env process l es (w1, hash_scan_delete l e (ca_set_leader ?m None s1)) = Inr (w', s')"
    using Cons.prems(1) by (auto simp: bindR_eq_Inr)
  obtain obj where obj: "handled (s ?m) obj" "s1 = s(?m := obj)"
    using s1 finish_effect [of env ?m w s w1 s1] by (auto simp: handled_def split: if_splits)
  let ?s2 = "hash_scan_delete l e (ca_set_leader ?m None s1)"
  have s2: "?s2 ?m = obj\<lparr>ca_leader := None\<rparr>" "\<exists>g. ?s2 l = (s l)\<lparr>ca_group_hash := g\<rparr>"
    "x \<noteq> l \<Longrightarrow> x \<noteq> ?m \<Longrightarrow> ?s2 x = s x" for x
    using m(1) obj(2) by (auto simp: hash_scan_delete_def ca_set_leader_def)
  have "distinct (map snd es)" "l \<notin> snd ` set es" using Cons.prems by auto
  from Cons.IH [OF rest this] have IH: "\<exists>g. s' l = (?s2 l)\<lparr>ca_group_hash := g\<rparr>"
    "\<forall>m \<in> snd ` set es. \<exists>obj. handled (?s2 m) obj \<and> s' m = obj\<lparr>ca_leader := None\<rparr>"
    "\<forall>x. x \<noteq> l \<and> x \<notin> snd ` set es \<longrightarrow> s' x = ?s2 x" by blast+
  have "s' ?m = obj\<lparr>ca_leader := None\<rparr>" using IH(3) m s2(1) by simp
  moreover have "\<exists>obj. handled (s m') obj \<and> s' m' = obj\<lparr>ca_leader := None\<rparr>" if "m' \<in> snd ` set es" for m'
  proof -
    have "m' \<noteq> l" using that Cons.prems(3) by auto
    moreover have "m' \<noteq> ?m" using that m(2) by metis
    ultimately have "m' \<noteq> l" "m' \<noteq> ?m" .
    with IH(2) that s2(3) show ?thesis by force
  qed
  moreover have "\<exists>g. s' l = (s l)\<lparr>ca_group_hash := g\<rparr>" using IH(1) s2(2) by auto
  moreover have "s' x = s x" if "x \<noteq> l \<and> x \<notin> snd ` set (e # es)" for x
    using that IH(3) s2(3) by auto
  ultimately show ?case using obj(1) by auto
qed

lemma disband_effect:
  assumes "ca_disband env process l (w, s) = Inr (w', s')" and "ca_group_hash (s l) = Some g"
    and "distinct (map snd g)" and "l \<notin> snd ` set g"
  shows "(\<exists>obj. handled (s l) obj \<and> s' l = obj\<lparr>ca_group_hash := None, ca_leader := None\<rparr>) \<and>
     (\<forall>m \<in> snd ` set g. \<exists>obj. handled (s m) obj \<and> s' m = obj\<lparr>ca_leader := None\<rparr>) \<and>
     (\<forall>x. x \<noteq> l \<and> x \<notin> snd ` set g \<longrightarrow> s' x = s x)"
proof -
  obtain w1 s1 w2 s2 where s1: "disband_scan env process l g (w, s) = Inr (w1, s1)"
    and s2: "(if ca_closed (s1 l) then ca_finish env process l (w1, s1) else Inr (w1, s1)) = Inr (w2, s2)"
    and s': "s' = s2(l := (s2 l)\<lparr>ca_group_hash := None, ca_leader := None\<rparr>)"
    using assms(1,2) by (auto simp: ca_disband_def bindR_eq_Inr)
  note scan = disband_scan_effect [OF s1 assms(3,4)]
  then obtain x where x: "s1 l = (s l)\<lparr>ca_group_hash := x\<rparr>" by blast
  obtain obj where obj: "handled (s1 l) obj" "s2 = s1(l := obj)"
    using s2 finish_effect [of env l w1 s1 w2 s2] by (auto simp: handled_def split: if_splits)
  have "\<exists>obj'. handled (s l) obj' \<and> obj\<lparr>ca_group_hash := None, ca_leader := None\<rparr> = obj'\<lparr>ca_group_hash := None, ca_leader := None\<rparr>"
  proof (cases "ca_closed (s l)")
    case True
    then have "published ((s l)\<lparr>ca_group_hash := x\<rparr>) obj" using obj(1) x by (simp add: handled_def)
    then obtain p c where o: "obj = (s l)\<lparr>ca_group_hash := x, ca_raw_pa_dict := Some [], ca_pathcode := p,
        ca_cooked_pa_dict := c, ca_processed := True\<rparr>"
      by (auto simp: published_def)
    let ?o = "(s l)\<lparr>ca_raw_pa_dict := Some [], ca_pathcode := p, ca_cooked_pa_dict := c, ca_processed := True\<rparr>"
    have "handled (s l) ?o" using True by (auto simp: handled_def published_def)
    with o show ?thesis by (intro exI [of _ ?o]) simp
  next
    case False
    with obj(1) x show ?thesis by (intro exI [of _ "s l"]) (simp add: handled_def)
  qed
  moreover have "s' l = obj\<lparr>ca_group_hash := None, ca_leader := None\<rparr>" using s' obj(2) by simp
  moreover have "s' x = s1 x" if "x \<noteq> l" for x using s' obj(2) that by simp
  moreover have "\<exists>obj. handled (s m) obj \<and> s' m = obj\<lparr>ca_leader := None\<rparr>" if "m \<in> snd ` set g" for m
  proof -
    have "s' m = s1 m" using calculation(3) [of m] that assms(4) by blast
    with scan that show ?thesis by auto
  qed
  ultimately show ?thesis using scan by metis
qed

lemma publish_effect:
  assumes "ca_publish env process l (w, s) = Inr (w', s')"
    and "\<forall>g. ca_group_hash (s l) = Some g \<longrightarrow> l \<notin> snd ` set g"
  shows "ca_processed (s' l) \<and> (\<forall>g. ca_group_hash (s l) = Some g \<longrightarrow> (\<forall>m \<in> snd ` set g. ca_processed (s' m))) \<and>
    (\<forall>x. x \<noteq> l \<and> (\<forall>g. ca_group_hash (s l) = Some g \<longrightarrow> x \<notin> snd ` set g) \<longrightarrow> s' x = s x)"
proof -
  have merge: "merge_scan env l es s = Inr s1 \<Longrightarrow> l \<notin> snd ` set es \<Longrightarrow>
      (\<forall>m. m \<in> snd ` set es \<or> (m \<noteq> l \<and> ca_processed (s m)) \<longrightarrow> ca_processed (s1 m)) \<and>
      (\<forall>x. x \<noteq> l \<and> x \<notin> snd ` set es \<longrightarrow> s1 x = s x)" for es s s1
  proof (induction es arbitrary: s)
    case (Cons e es)
    let ?m = "snd e"
    have m: "?m \<noteq> l" using Cons.prems(2) by auto
    obtain s2 where s2: "ca_merge env l ?m s = Inr s2"
      and rest: "merge_scan env l es (hash_scan_delete l e (s2(?m := (s2 ?m)\<lparr>ca_processed := True\<rparr>))) = Inr s1"
      using Cons.prems(1) m by (auto simp: bindR_eq_Inr)
    have other: "s2 x = s x" if "x \<noteq> l" "x \<noteq> ?m" for x
      using s2 that by (auto simp: ca_merge_def bindR_eq_Inr Let_def split: option.splits)
    let ?s3 = "hash_scan_delete l e (s2(?m := (s2 ?m)\<lparr>ca_processed := True\<rparr>))"
    have s3: "ca_processed (?s3 ?m)" "x \<noteq> l \<Longrightarrow> x \<noteq> ?m \<Longrightarrow> ?s3 x = s x" for x
      using m other by (auto simp: hash_scan_delete_def)
    have "l \<notin> snd ` set es" using Cons.prems(2) by simp
    from Cons.IH [OF rest this] have IH:
      "\<forall>m. m \<in> snd ` set es \<or> (m \<noteq> l \<and> ca_processed (?s3 m)) \<longrightarrow> ca_processed (s1 m)"
      "\<forall>x. x \<noteq> l \<and> x \<notin> snd ` set es \<longrightarrow> s1 x = ?s3 x" by blast+
    show ?case
    proof (intro conjI allI impI)
      fix x assume "x \<in> snd ` set (e # es) \<or> (x \<noteq> l \<and> ca_processed (s x))"
      then show "ca_processed (s1 x)" using IH(1) s3 m by (cases "x = ?m") auto
    next
      fix x assume "x \<noteq> l \<and> x \<notin> snd ` set (e # es)"
      then show "s1 x = s x" using IH(2) s3(2) by auto
    qed
  qed simp
  obtain s1 where fin: "ca_finish env process l (w, s1) = Inr (w', s')"
    and s1: "(\<forall>g. ca_group_hash (s l) = Some g \<longrightarrow> (\<forall>m \<in> snd ` set g. ca_processed (s1 m))) \<and>
      (\<forall>x. x \<noteq> l \<and> (\<forall>g. ca_group_hash (s l) = Some g \<longrightarrow> x \<notin> snd ` set g) \<longrightarrow> s1 x = s x)"
  proof (cases "ca_group_hash (s l)")
    case None
    with assms(1) that [of s] show ?thesis by (simp add: ca_publish_def)
  next
    case (Some g)
    then obtain s2 where "merge_scan env l g s = Inr s2"
      "ca_finish env process l (w, s2(l := (s2 l)\<lparr>ca_group_hash := None\<rparr>)) = Inr (w', s')"
      using assms(1) by (auto simp: ca_publish_def bindR_eq_Inr)
    moreover have "l \<notin> snd ` set g" using assms(2) Some by simp
    ultimately show ?thesis
      using merge [of g s s2] Some by (intro that [of "s2(l := (s2 l)\<lparr>ca_group_hash := None\<rparr>)"]) auto
  qed
  obtain obj where "published (s1 l) obj" "s' = s1(l := obj)" using finish_effect [OF fin] by blast
  then show ?thesis using s1 assms(2) by (auto simp: published_def)
qed

end

text \<open>The monitor's callback meets the contract.\<close>

interpretation mon_pub: publisher "mon_process_ca env" for env :: "'h mon_env"
proof
  fix ca w s w' s'
  assume a: "mon_process_ca env ca (w, s) = Inr (w', s')"
  obtain obj0 dcode_all str obj dc
    where o0: "(if ca_recycled (s ca) \<noteq> None then Inr (s ca) else ca_derive_pathcode (me_ca env) (s ca)) = Inr obj0"
    and csv: "ca_toCSVString dcode_all (sw_sys (me_shop env) (mw_shop w)) (sw_dcode (mw_shop w)) obj0 = Inr (str, obj, dc)"
    and s': "s' = s(ca := obj\<lparr>ca_processed := True\<rparr>)"
    using a by (auto simp: mon_process_ca_def bindR_eq_Inr Let_def)
  have "\<exists>p. obj0 = (s ca)\<lparr>ca_pathcode := p\<rparr>"
  proof (cases "ca_recycled (s ca)")
    case None
    with o0 show ?thesis by (auto simp: ca_derive_pathcode_def bindR_eq_Inr split: if_splits)
  next
    case (Some r)
    with o0 show ?thesis by (auto intro: exI [of _ "ca_pathcode (s ca)"])
  qed
  moreover have "\<exists>c. obj = obj0\<lparr>ca_cooked_pa_dict := c\<rparr>"
  proof (cases "ca_cooked_pa_dict obj0")
    case None
    then have "obj = obj0" using csv by (auto simp: ca_toCSVString_def ca_format_cooked_palist_def bindR_eq_Inr)
    then show ?thesis by (intro exI [of _ "ca_cooked_pa_dict obj0"]) simp
  next
    case (Some d)
    then show ?thesis using csv by (auto simp: ca_toCSVString_def ca_format_cooked_palist_def bindR_eq_Inr)
  qed
  ultimately show "\<exists>p c. s' = s(ca := (s ca)\<lparr>ca_pathcode := p, ca_cooked_pa_dict := c, ca_processed := True\<rparr>)"
    using s' by force
qed

end
