(* ===== verification/MonitorSafe.thy ===== *)
theory MonitorSafe
  imports MonitorInv
begin

text \<open>
  The invariant of the monitor's table and its preservation by every line: the command objects
  the table, the leaders and the groups refer to are exactly the open commands, so that none of
  them has been destroyed.
\<close>

section \<open>The invariant\<close>

definition open_cmds :: "(cmd_key_s \<times> ca_o) list \<Rightarrow> ca_o set" where
  "open_cmds h = snd ` set h"

definition group_members :: "ca_store \<Rightarrow> ca_o \<Rightarrow> ca_o set" where
  \<comment> \<open>a leader with the other commands of its group\<close>
  "group_members s l = (case ca_group_hash (s l) of None \<Rightarrow> {} | Some g \<Rightarrow> insert l (snd ` set g))"

definition keys_ok :: "(cmd_key_s \<times> ca_o) list \<Rightarrow> ca_store \<Rightarrow> bool" where
  "keys_ok h s = (distinct (map snd h) \<and> (\<forall>e \<in> set h. fst e = ck_new_from_ca (s (snd e))))"

definition cmd_open :: "cmd_audit_s \<Rightarrow> bool" where
  \<comment> \<open>still collects actions, not handed over\<close>
  "cmd_open ca = (ca_raw_pa_dict ca \<noteq> None \<and> ca_cooked_pa_dict ca = None \<and> \<not> ca_processed ca)"

text \<open>
  Every entry of the table has the key of its command and a command that is open. The groups
  partition the commands with a leader: the members of a group are open commands whose leader
  is that of the group, and a command with a leader is a member of the leader's group.
\<close>

definition table_ok :: "(cmd_key_s \<times> ca_o) list \<Rightarrow> ca_store \<Rightarrow> bool" where
  "table_ok h s = (keys_ok h s \<and> (\<forall>x \<in> open_cmds h. cmd_open (s x)) \<and>
     (\<forall>x \<in> open_cmds h. \<forall>l. ca_leader (s x) = Some l \<longrightarrow> l \<in> open_cmds h \<and> x \<in> group_members s l) \<and>
     (\<forall>l \<in> open_cmds h. \<forall>x \<in> group_members s l. x \<in> open_cmds h \<and> ca_leader (s x) = Some l) \<and>
     (\<forall>l \<in> open_cmds h. \<forall>g. ca_group_hash (s l) = Some g \<longrightarrow> keys_ok g s \<and> l \<notin> snd ` set g))"

lemma table_okD:
  assumes "table_ok h s"
  shows "keys_ok h s" and "x \<in> open_cmds h \<Longrightarrow> cmd_open (s x)"
    and "x \<in> open_cmds h \<Longrightarrow> ca_leader (s x) = Some l \<Longrightarrow> l \<in> open_cmds h \<and> x \<in> group_members s l"
    and "l \<in> open_cmds h \<Longrightarrow> x \<in> group_members s l \<Longrightarrow> x \<in> open_cmds h \<and> ca_leader (s x) = Some l"
    and "l \<in> open_cmds h \<Longrightarrow> ca_group_hash (s l) = Some g \<Longrightarrow> keys_ok g s \<and> l \<notin> snd ` set g"
  using assms unfolding table_ok_def by blast+

lemma group_members_simps:
  "ca_group_hash (s l) = None \<Longrightarrow> group_members s l = {}"
  "ca_group_hash (s l) = Some g \<Longrightarrow> group_members s l = insert l (snd ` set g)"
  by (simp_all add: group_members_def)

lemma leader_of_group:
  assumes "table_ok h s" and "x \<in> open_cmds h" and "ca_leader (s x) = Some l"
  obtains g where "l \<in> open_cmds h" "ca_group_hash (s l) = Some g" "ca_leader (s l) = Some l" "x \<in> insert l (snd ` set g)"
proof -
  have l: "l \<in> open_cmds h" "x \<in> group_members s l" using table_okD(3) [OF assms] by blast+
  then obtain g where g: "ca_group_hash (s l) = Some g" by (auto simp: group_members_def split: option.splits)
  then have "ca_leader (s l) = Some l"
    using table_okD(4) [OF assms(1) l(1), of l] by (simp add: group_members_simps)
  with l g that show ?thesis by (simp add: group_members_simps)
qed

lemma no_leader_no_group:
  assumes "table_ok h s" and "x \<in> open_cmds h" and "ca_leader (s x) = None"
  shows "ca_group_hash (s x) = None"
proof (cases "ca_group_hash (s x)")
  case (Some g)
  then have "x \<in> group_members s x" by (simp add: group_members_simps)
  with table_okD(4) [OF assms(1,2)] assms(3) show ?thesis by auto
qed

section \<open>Steps that keep it\<close>

definition control :: "cmd_audit_s \<Rightarrow> cmd_key_s \<times> ca_o option \<times> (cmd_key_s \<times> ca_o) list option" where
  \<comment> \<open>the part of a command the invariant speaks of\<close>
  "control ca = (ck_new_from_ca ca, ca_leader ca, ca_group_hash ca)"

lemma table_ok_cong:
  assumes "\<And>x. x \<in> open_cmds h \<Longrightarrow> control (s' x) = control (s x) \<and> cmd_open (s' x)" and "table_ok h s"
  shows "table_ok h s'"
proof -
  have c: "ck_new_from_ca (s' x) = ck_new_from_ca (s x)" "ca_leader (s' x) = ca_leader (s x)"
    "ca_group_hash (s' x) = ca_group_hash (s x)" "group_members s' x = group_members s x"
    if "x \<in> open_cmds h" for x
    using assms(1) [OF that] by (simp_all add: control_def group_members_def)
  have "keys_ok h s'" using table_okD(1) [OF assms(2)] c(1) by (auto simp: keys_ok_def open_cmds_def)
  moreover have "keys_ok g s' \<and> l \<notin> snd ` set g" if "l \<in> open_cmds h" "ca_group_hash (s' l) = Some g" for l g
  proof -
    have g: "ca_group_hash (s l) = Some g" using that c(3) by simp
    have "snd e \<in> open_cmds h" if "e \<in> set g" for e
      using table_okD(4) [OF assms(2) \<open>l \<in> open_cmds h\<close>, of "snd e"] that by (simp add: group_members_simps(2) [where s = s and l = l, OF g])
    then show ?thesis using table_okD(5) [OF assms(2) \<open>l \<in> open_cmds h\<close> g] c(1) by (auto simp: keys_ok_def)
  qed
  ultimately show ?thesis
    using assms(1) table_okD(3,4) [OF assms(2)] c(2,4) unfolding table_ok_def by metis
qed

lemma table_ok_remove:
  assumes ok: "table_ok h s" and R: "\<And>x l. x \<in> open_cmds h \<Longrightarrow> ca_leader (s x) = Some l \<Longrightarrow> x \<in> R \<longleftrightarrow> l \<in> R"
    and s': "\<And>x. x \<in> open_cmds h \<Longrightarrow> x \<notin> R \<Longrightarrow> s' x = s x" and P: "\<And>x. x \<in> open_cmds h \<Longrightarrow> P x \<longleftrightarrow> x \<notin> R"
  shows "table_ok (filter (\<lambda>e. P (snd e)) h) s'"
proof -
  let ?h = "filter (\<lambda>e. P (snd e)) h"
  have L: "open_cmds ?h = open_cmds h - R" using P by (auto simp: open_cmds_def)
  have "fst e = ck_new_from_ca (s' (snd e))" if "e \<in> set ?h" for e
  proof -
    have "snd e \<in> open_cmds h" "snd e \<notin> R" using that P by (auto simp: open_cmds_def)
    then have "s' (snd e) = s (snd e)" by (rule s')
    then show ?thesis using that table_okD(1) [OF ok] by (simp add: keys_ok_def)
  qed
  then have "keys_ok ?h s'"
    using table_okD(1) [OF ok] by (simp add: keys_ok_def distinct_map_filter)
  moreover have "cmd_open (s' x)" if "x \<in> open_cmds ?h" for x
    using that L s' table_okD(2) [OF ok] by auto
  moreover have "l \<in> open_cmds ?h \<and> x \<in> group_members s' l" if x: "x \<in> open_cmds ?h" "ca_leader (s' x) = Some l" for x l
  proof -
    have "x \<in> open_cmds h" "x \<notin> R" "ca_leader (s x) = Some l" using x L s' by auto
    then have "l \<in> open_cmds h" "x \<in> group_members s l" "l \<notin> R" using table_okD(3) [OF ok] R by blast+
    then show ?thesis using L s' by (simp add: group_members_def)
  qed
  moreover have "x \<in> open_cmds ?h \<and> ca_leader (s' x) = Some l" if l: "l \<in> open_cmds ?h" "x \<in> group_members s' l" for x l
  proof -
    have "l \<in> open_cmds h" "l \<notin> R" "x \<in> group_members s l" using l L s' by (auto simp: group_members_def)
    then have "x \<in> open_cmds h" "ca_leader (s x) = Some l" "x \<notin> R" using table_okD(4) [OF ok] R by blast+
    then show ?thesis using L s' by simp
  qed
  moreover have "keys_ok g s' \<and> l \<notin> snd ` set g" if l: "l \<in> open_cmds ?h" "ca_group_hash (s' l) = Some g" for l g
  proof -
    have l': "l \<in> open_cmds h" "l \<notin> R" "ca_group_hash (s l) = Some g" using l L s' by auto
    then have "snd e \<in> open_cmds h \<and> snd e \<notin> R" if "e \<in> set g" for e
      using table_okD(4) [OF ok l'(1), of "snd e"] R that by (auto simp: group_members_simps)
    then have "s' (snd e) = s (snd e)" if "e \<in> set g" for e using s' that by blast
    then show ?thesis using table_okD(5) [OF ok l'(1,3)] by (auto simp: keys_ok_def)
  qed
  ultimately show ?thesis unfolding table_ok_def by blast
qed

lemma table_ok_store: "table_ok h s \<Longrightarrow> (\<And>x. x \<in> open_cmds h \<Longrightarrow> s' x = s x) \<Longrightarrow> table_ok h s'"
  by (rule table_ok_cong [of h s' s]) (auto dest: table_okD(2))

lemma start_group_ok:
  assumes ok: "table_ok h s" and a: "a \<in> open_cmds h" "ca_leader (s a) = None" and s': "ca_start_group a b s = Inr s'"
  shows "table_ok h s'"
proof -
  have s: "s' = s(a := (s a)\<lparr>ca_group_hash := Some [], ca_leader := Some a, ca_strong := b\<rparr>)"
    using s' by (simp add: ca_start_group_def split: if_splits)
  have gm: "group_members s' a = {a}" "x \<noteq> a \<Longrightarrow> group_members s' x = group_members s x" for x
    by (simp_all add: s group_members_def)
  have key: "ck_new_from_ca (s' x) = ck_new_from_ca (s x)" "cmd_open (s' x) = cmd_open (s x)" for x
    by (simp_all add: s ck_new_from_ca_def ck_new_def ca_get_ccode_def cmd_open_def)
  have nm: "a \<notin> group_members s l" if "l \<in> open_cmds h" for l
    using table_okD(4) [OF ok that, of a] a by auto
  have k: "keys_ok g s' = keys_ok g s" for g by (simp add: keys_ok_def key)
  have g: "ca_group_hash (s' a) = Some []" "x \<noteq> a \<Longrightarrow> ca_group_hash (s' x) = ca_group_hash (s x)" for x
    by (simp_all add: s)
  have ld: "ca_leader (s' a) = Some a" "x \<noteq> a \<Longrightarrow> ca_leader (s' x) = ca_leader (s x)" for x
    by (simp_all add: s)
  have nl: "ca_leader (s x) \<noteq> Some a" if "x \<in> open_cmds h" for x
    using leader_of_group [OF ok that, of a] no_leader_no_group [OF ok a] by force
  show ?thesis
    unfolding table_ok_def k key(2)
  proof (intro conjI ballI allI impI)
    fix x l assume x: "x \<in> open_cmds h" "ca_leader (s' x) = Some l"
    have "l \<in> open_cmds h \<and> x \<in> group_members s' l"
    proof (cases "x = a")
      case True
      with x ld gm a show ?thesis by simp
    next
      case False
      with x ld table_okD(3) [OF ok] nl gm(2) show ?thesis by (metis option.inject)
    qed
    then show "l \<in> open_cmds h" "x \<in> group_members s' l" by auto
  next
    fix l x assume l: "l \<in> open_cmds h" "x \<in> group_members s' l"
    have "x \<in> open_cmds h \<and> ca_leader (s' x) = Some l"
    proof (cases "l = a")
      case True
      with l gm ld a show ?thesis by simp
    next
      case False
      with l gm(2) nm have "x \<in> group_members s l" "x \<noteq> a" by auto
      with table_okD(4) [OF ok l(1)] ld show ?thesis by simp
    qed
    then show "x \<in> open_cmds h" "ca_leader (s' x) = Some l" by auto
  next
    fix l g' assume l: "l \<in> open_cmds h" "ca_group_hash (s' l) = Some g'"
    have "keys_ok g' s \<and> l \<notin> snd ` set g'"
      using l g table_okD(5) [OF ok] by (cases "l = a") (auto simp: keys_ok_def)
    then show "keys_ok g' s" "l \<notin> snd ` set g'" by auto
  qed (use ok in \<open>auto dest: table_okD\<close>)
qed


section \<open>Publishing and disbanding\<close>

definition monitor_ok :: "'h mon_state \<Rightarrow> bool" where
  "monitor_ok st = (\<exists>h. AuditHash st = Some h \<and> table_ok h (ms_store st))"

definition live :: "'h mon_state \<Rightarrow> ca_o set" where
  "live st = (case AuditHash st of None \<Rightarrow> {} | Some h \<Rightarrow> open_cmds h)"

lemma live_simp [simp]: "AuditHash st = Some h \<Longrightarrow> live st = open_cmds h"
  by (simp add: live_def)

lemma monitor_okE:
  assumes "monitor_ok st"
  obtains h where "AuditHash st = Some h" "table_ok h (ms_store st)" "live st = open_cmds h"
  using assms by (auto simp: monitor_ok_def)

text \<open>A command leaves the table together with the group it leads, and no other command does.\<close>

lemma mon_publish_ok:
  assumes ok: "monitor_ok st" and l: "l \<in> live st"
    and ld: "ca_leader (ms_store st l) = None \<or> ca_leader (ms_store st l) = Some l"
    and pub: "mon_publish env l st = Inr st'"
  shows "monitor_ok st' \<and> live st' = live st - insert l {x. ca_leader (ms_store st x) = Some l} \<and>
    (\<forall>x \<in> live st'. ms_store st' x = ms_store st x)"
proof -
  obtain h where h: "AuditHash st = Some h" "table_ok h (ms_store st)" "live st = open_cmds h"
    using monitor_okE [OF ok] .
  let ?s = "ms_store st"
  let ?R = "insert l {x. ca_leader (?s x) = Some l}"
  obtain w' s' where p: "ca_publish (me_ca env) (mon_process_ca env) l (ms_world st, ?s) = Inr (w', s')"
    and st': "st' = mon_clean_up_ca_table (with_store st (w', s'))"
    using pub by (auto simp: mon_publish_def bindR_eq_Inr)
  have lh: "l \<in> open_cmds h" using l h by simp
  have nl: "\<forall>g. ca_group_hash (?s l) = Some g \<longrightarrow> l \<notin> snd ` set g"
    using table_okD(5) [OF h(2) lh] by blast
  note eff = mon_pub.publish_effect [OF p nl]
  have mem: "x \<in> ?R \<longleftrightarrow> x = l \<or> x \<in> group_members ?s l" if "x \<in> open_cmds h" for x
    using table_okD(3) [OF h(2) that] table_okD(4) [OF h(2) lh] by blast
  have proc: "ca_processed (s' x)" if x: "x \<in> open_cmds h" "x \<in> ?R" for x
    using eff mem [OF x(1)] x(2) by (auto simp: group_members_def split: option.splits)
  have same: "s' x = ?s x" if x: "x \<in> open_cmds h" "x \<notin> ?R" for x
  proof -
    have "x \<noteq> l" "x \<notin> group_members ?s l" using x mem by auto
    with eff show ?thesis by (cases "ca_group_hash (?s l)") (simp_all add: group_members_simps)
  qed
  have nproc: "\<not> ca_processed (s' x) \<longleftrightarrow> x \<notin> ?R" if "x \<in> open_cmds h" for x
    using proc [OF that] same [OF that] table_okD(2) [OF h(2) that] by (auto simp: cmd_open_def)
  have closed: "x \<in> ?R \<longleftrightarrow> k \<in> ?R" if "x \<in> open_cmds h" "ca_leader (?s x) = Some k" for x k
  proof -
    have k: "ca_leader (?s k) = Some k" using leader_of_group [OF h(2) that] by blast
    show ?thesis using that(2) k ld by auto
  qed
  have "table_ok (filter (\<lambda>e. \<not> ca_processed (s' (snd e))) h) s'"
    using table_ok_remove [OF h(2) closed same nproc] .
  moreover have t: "AuditHash st' = Some (filter (\<lambda>e. \<not> ca_processed (s' (snd e))) h)" "ms_store st' = s'"
    using h(1) by (simp_all add: st' mon_clean_up_ca_table_def with_store_def)
  moreover have live': "live st' = open_cmds h - ?R"
    using nproc by (auto simp: t open_cmds_def)
  ultimately show ?thesis using h same by (auto simp: monitor_ok_def)
qed

lemma mon_disband_ok:
  assumes ok: "table_ok h s" and l: "l \<in> open_cmds h" and g: "ca_group_hash (s l) = Some g"
    and dis: "ca_disband (me_ca env) (mon_process_ca env) l (w, s) = Inr (w', s')"
  shows "table_ok (filter (\<lambda>e. \<not> ca_processed (s' (snd e))) h) s' \<and>
    (\<forall>x. x \<noteq> l \<and> x \<notin> snd ` set g \<longrightarrow> s' x = s x)"
proof -
  let ?M = "group_members s l"
  have M: "?M = insert l (snd ` set g)" using g by (simp add: group_members_simps)
  have gd: "distinct (map snd g)" "l \<notin> snd ` set g" using table_okD(5) [OF ok l g] by (auto simp: keys_ok_def)
  note eff = mon_pub.disband_effect [OF dis g gd]
  have lead: "x \<in> open_cmds h \<and> ca_leader (s x) = Some l" if "x \<in> ?M" for x
    using table_okD(4) [OF ok l that] .
  let ?s1 = "\<lambda>x. if x = l then (s l)\<lparr>ca_group_hash := None, ca_leader := None\<rparr>
    else if x \<in> ?M then (s x)\<lparr>ca_leader := None\<rparr> else s x"
  have gnone: "ca_group_hash (s x) = None" if "x \<in> ?M" "x \<noteq> l" for x
  proof (cases "ca_group_hash (s x)")
    case (Some g')
    then have "ca_leader (s x) = Some x"
      using table_okD(4) [OF ok, of x x] lead [OF that(1)] by (simp add: group_members_simps)
    with lead [OF that(1)] that(2) show ?thesis by simp
  qed
  have gm: "group_members ?s1 x = (if x \<in> ?M then {} else group_members s x)" for x
    using M gnone [of x] by (auto simp: group_members_def split: option.splits)
  have ld1: "ca_leader (?s1 x) = (if x \<in> ?M then None else ca_leader (s x))" for x using M by simp
  have key: "ck_new_from_ca (?s1 x) = ck_new_from_ca (s x)" "cmd_open (?s1 x) = cmd_open (s x)" for x
    by (simp_all add: ck_new_from_ca_def ck_new_def ca_get_ccode_def cmd_open_def)
  have kk: "keys_ok g' ?s1 = keys_ok g' s" for g' unfolding keys_ok_def key ..
  have gh: "ca_group_hash (?s1 x) = (if x \<in> ?M then None else ca_group_hash (s x))" for x
    using M gnone [of x] by simp
  have ok1: "table_ok h ?s1"
    unfolding table_ok_def kk key(2) ld1 gm gh
  proof (intro conjI ballI allI impI)
    fix x k assume x: "x \<in> open_cmds h" and k: "(if x \<in> ?M then None else ca_leader (s x)) = Some k"
    then have "x \<notin> ?M" "ca_leader (s x) = Some k" by (auto split: if_splits)
    moreover from this have "k \<notin> ?M"
    proof -
      obtain g' where "ca_leader (s k) = Some k" "x \<in> group_members s k"
        using leader_of_group [OF ok x] \<open>ca_leader (s x) = Some k\<close> table_okD(3) [OF ok x] by metis
      then show ?thesis using lead [of k] \<open>x \<notin> ?M\<close> by auto
    qed
    ultimately show "k \<in> open_cmds h" "x \<in> (if k \<in> ?M then {} else group_members s k)"
      using table_okD(3) [OF ok x] by auto
  next
    fix k x assume k: "k \<in> open_cmds h" and x: "x \<in> (if k \<in> ?M then {} else group_members s k)"
    then have km: "k \<notin> ?M" "x \<in> group_members s k" by (auto split: if_splits)
    then have xl: "x \<in> open_cmds h" "ca_leader (s x) = Some k" using table_okD(4) [OF ok k] by blast+
    then show "x \<in> open_cmds h" by simp
    have "x \<notin> ?M" using xl(2) lead [of x] km(1) M by auto
    then show "(if x \<in> ?M then None else ca_leader (s x)) = Some k" using xl by simp
  next
    fix k g' assume k: "k \<in> open_cmds h" "(if k \<in> ?M then None else ca_group_hash (s k)) = Some g'"
    then have "ca_group_hash (s k) = Some g'" by (auto split: if_splits)
    then show "keys_ok g' s" "k \<notin> snd ` set g'" using table_okD(5) [OF ok k(1)] by blast+
  qed (use ok in \<open>auto dest: table_okD\<close>)
  let ?R = "{x \<in> ?M. ca_closed (s x)}"
  have s': "s' x = ?s1 x" if "x \<notin> ?R" for x
    using eff that M by (auto simp: mon_pub.handled_def)
  have proc: "ca_processed (s' x)" if x: "x \<in> ?R" for x
  proof -
    have c: "x = l \<or> x \<in> snd ` set g" "ca_closed (s x)" using x M by auto
    obtain obj where "mon_pub.handled (s x) obj" "ca_processed (s' x) = ca_processed obj"
    proof (cases "x = l")
      case True
      obtain obj where "mon_pub.handled (s l) obj" "s' l = obj\<lparr>ca_group_hash := None, ca_leader := None\<rparr>"
        using eff by (elim conjE exE)
      with True that [of obj] show ?thesis by simp
    next
      case False
      then have "x \<in> snd ` set g" using c(1) by blast
      then obtain obj where "mon_pub.handled (s x) obj" "s' x = obj\<lparr>ca_leader := None\<rparr>"
        using eff by blast
      with that [of obj] show ?thesis by simp
    qed
    then show ?thesis using c(2) by (auto simp: mon_pub.handled_def published_def)
  qed
  have "table_ok (filter (\<lambda>e. \<not> ca_processed (s' (snd e))) h) s'"
  proof (rule table_ok_remove [OF ok1, of ?R])
    show "x \<in> ?R \<longleftrightarrow> k \<in> ?R" if x: "x \<in> open_cmds h" and k: "ca_leader (?s1 x) = Some k" for x k
    proof -
      have "(if x \<in> ?M then None else ca_leader (s x)) = Some k" using k by (simp only: ld1)
      then have "x \<notin> ?M" by (auto split: if_splits)
      moreover have "x \<in> group_members ?s1 k" using table_okD(3) [OF ok1 x k] by (rule conjunct2)
      then have "x \<in> (if k \<in> ?M then {} else group_members s k)" by (simp only: gm)
      then have "k \<notin> ?M" by (auto split: if_splits)
      ultimately show ?thesis by blast
    qed
    show "\<not> ca_processed (s' x) \<longleftrightarrow> x \<notin> ?R" if "x \<in> open_cmds h" for x
      using proc [of x] s' [of x] table_okD(2) [OF ok1 that] by (cases "x \<in> ?R") (simp_all add: cmd_open_def del: if_split)
  qed (rule s')
  with eff show ?thesis by blast
qed

end
