(* ===== verification/ShopProofs.thy ===== *)
theory ShopProofs
  imports Shop
begin

text \<open>
  What shopping promises: a command is recycled only from a build that was evaluated and whose
  recorded prerequisites, other than those the user wants ignored, are as the files are now;
  the command itself keeps everything but its recycling mark; and a dry run changes no file.
\<close>

declare strsep_all.simps [simp del]

section \<open>The table of builds\<close>

interpretation ptx: comparator "\<lambda>_. True" ptx_cmp
  by unfold_locales (auto simp: ptx_cmp_def stricmp.cmp_refl stricmp.cmp_antisym intro: stricmp.cmp_trans)

definition ptx_key :: "string \<Rightarrow> string" where
  \<comment> \<open>keys are looked up without regard to case\<close>
  "ptx_key key = map tolower key"

definition ptx_keys :: "'h shopping_state_s \<Rightarrow> string set" where
  "ptx_keys ssp = (\<lambda>e. ptx_key (fst e)) ` set (ss_ptx_dict ssp)"

lemma ptx_cmp_0: "ptx_cmp x y = 0 \<longleftrightarrow> ptx_key (fst x) = ptx_key (fst y)"
  by (simp add: ptx_cmp_def ptx_key_def c_stricmp_def)

definition builds :: "'h shopping_state_s \<Rightarrow> (string \<times> string) set" where
  "builds ssp = (\<lambda>e. (ptx_key (fst e), snd e)) ` set (ss_ptx_dict ssp)"

lemma builds_keys: "ptx_keys ssp = fst ` builds ssp"
  by (simp add: ptx_keys_def builds_def image_image)

definition ptx_ok :: "'h shop_env \<Rightarrow> 'h shopping_state_s \<Rightarrow> bool" where
  "ptx_ok env ssp = (dict_laws (se_ptx env) (\<lambda>_. True) ptx_cmp \<and> dict_sorted ptx_cmp (ss_ptx_dict ssp))"

lemma ptx_lookup_None: "ptx_ok env ssp \<Longrightarrow> ptx_lookup env ssp key = None \<longleftrightarrow> ptx_key key \<notin> ptx_keys ssp"
  using dict_laws_lookup [of "se_ptx env" "\<lambda>_. True" ptx_cmp "ss_ptx_dict ssp" "(key, [])"]
  by (auto simp: ptx_lookup_def ptx_ok_def find_None_iff ptx_cmp_0 ptx_keys_def)

lemma ptx_lookup_Some:
  assumes "ptx_ok env ssp" and "ptx_lookup env ssp key = Some e"
  shows "e \<in> set (ss_ptx_dict ssp)" and "ptx_key (fst e) = ptx_key key"
proof -
  have "find (\<lambda>x. ptx_cmp (key, []) x = 0) (ss_ptx_dict ssp) = Some e"
    using assms dict_laws_lookup [of "se_ptx env" "\<lambda>_. True" ptx_cmp "ss_ptx_dict ssp" "(key, [])"]
    by (simp add: ptx_lookup_def ptx_ok_def)
  from find_SomeD [OF this] show "e \<in> set (ss_ptx_dict ssp)" "ptx_key (fst e) = ptx_key key"
    by (simp_all add: ptx_cmp_0)
qed

lemma ptx_entry_unique:
  assumes "ptx_ok env ssp" and "e \<in> set (ss_ptx_dict ssp)" and "f \<in> set (ss_ptx_dict ssp)"
    and "ptx_key (fst e) = ptx_key (fst f)"
  shows "e = f"
  by (rule ptx.lookup_unique [where k = e and xs = "ss_ptx_dict ssp"])
    (use assms in \<open>simp_all add: ptx_ok_def ptx_cmp_0\<close>)

lemma ptx_keys_empty: "shop_ptx_count ssp = 0 \<longleftrightarrow> ptx_keys ssp = {}"
  by (simp add: shop_ptx_count_def ptx_keys_def)

lemma sorted_remove1: "dict_sorted cmp xs \<Longrightarrow> dict_sorted cmp (remove1 e xs)"
  unfolding dict_sorted_def by (induction xs) (auto dest: notin_set_remove1 [THEN contrapos_pp] intro: ccontr)

lemma shop_ptx_invalidate_effect:
  assumes ok: "ptx_ok env ssp" and run: "shop_ptx_invalidate env ssp key False = (rc, ssp')"
  shows "ptx_ok env ssp'" and "set (ss_ptx_dict ssp') \<subseteq> set (ss_ptx_dict ssp)" and "ptx_key key \<notin> ptx_keys ssp'"
    and "\<exists>d. ssp' = ssp\<lparr>ss_ptx_dict := d\<rparr>"
proof -
  have "ptx_ok env ssp' \<and> set (ss_ptx_dict ssp') \<subseteq> set (ss_ptx_dict ssp) \<and> ptx_key key \<notin> ptx_keys ssp' \<and>
    (\<exists>d. ssp' = ssp\<lparr>ss_ptx_dict := d\<rparr>)"
  proof (cases "ptx_lookup env ssp key")
    case None
    then have "ssp' = ssp" using run by (simp add: shop_ptx_invalidate_def)
    then show ?thesis using ok None ptx_lookup_None [OF ok] by (auto intro: exI [of _ "ss_ptx_dict ssp"])
  next
    case (Some e)
    then have s: "ssp' = ssp\<lparr>ss_ptx_dict := remove1 e (ss_ptx_dict ssp)\<rparr>" using run by (simp add: shop_ptx_invalidate_def)
    note e = ptx_lookup_Some [OF ok Some]
    have "distinct (ss_ptx_dict ssp)" using ok ptx.sorted_distinct by (simp add: ptx_ok_def)
    then have d: "set (ss_ptx_dict ssp') = set (ss_ptx_dict ssp) - {e}" using s by simp
    have "ptx_key key \<notin> ptx_keys ssp'"
      using ptx_entry_unique [OF ok e(1)] e(2) d by (force simp: ptx_keys_def)
    then show ?thesis using d s ok by (auto simp: ptx_ok_def sorted_remove1)
  qed
  then show "ptx_ok env ssp'" and "set (ss_ptx_dict ssp') \<subseteq> set (ss_ptx_dict ssp)" and "ptx_key key \<notin> ptx_keys ssp'"
    and "\<exists>d. ssp' = ssp\<lparr>ss_ptx_dict := d\<rparr>" by blast+
qed

lemma shop_ptx_invalidate_ignored: "snd (shop_ptx_invalidate env ssp key True) = ssp"
  by (simp add: shop_ptx_invalidate_def split: option.splits)

lemma invalidate_all_ignored: "invalidate_all env ixs True ssp = ssp"
  by (induction ixs) (simp_all add: shop_ptx_invalidate_ignored)

lemma ptx_keys_mono: "set (ss_ptx_dict ssp') \<subseteq> set (ss_ptx_dict ssp) \<Longrightarrow> ptx_keys ssp' \<subseteq> ptx_keys ssp"
  by (auto simp: ptx_keys_def)

lemma invalidate_all_effect:
  "ptx_ok env ssp \<Longrightarrow> ptx_ok env (invalidate_all env ixs False ssp) \<and>
     set (ss_ptx_dict (invalidate_all env ixs False ssp)) \<subseteq> set (ss_ptx_dict ssp) \<and>
     ptx_keys (invalidate_all env ixs False ssp) \<inter> ptx_key ` set ixs = {} \<and>
     (\<exists>d. invalidate_all env ixs False ssp = ssp\<lparr>ss_ptx_dict := d\<rparr>)"
proof (induction ixs arbitrary: ssp)
  case Nil
  then show ?case by (auto intro: exI [of _ "ss_ptx_dict ssp"])
next
  case (Cons ix ixs)
  show ?case
  proof (cases "shop_ptx_count ssp = 0")
    case True
    then show ?thesis using Cons.prems by (auto simp: ptx_keys_empty intro: exI [of _ "ss_ptx_dict ssp"])
  next
    case False
    obtain rc ssp1 where s1: "shop_ptx_invalidate env ssp ix False = (rc, ssp1)" by force
    note eff = shop_ptx_invalidate_effect [OF Cons.prems s1]
    note IH = Cons.IH [OF eff(1)]
    have "invalidate_all env (ix # ixs) False ssp = invalidate_all env ixs False ssp1"
      using False s1 by simp
    moreover have "ptx_key ix \<notin> ptx_keys (invalidate_all env ixs False ssp1)"
      using IH eff(3) ptx_keys_mono by blast
    moreover have "\<exists>d. invalidate_all env ixs False ssp1 = ssp\<lparr>ss_ptx_dict := d\<rparr>"
      using IH eff(4) by auto
    ultimately show ?thesis using IH eff(2) by auto
  qed
qed

section \<open>Comparing leaves the rest alone\<close>

definition sampled :: "'h shop_env \<Rightarrow> fs_call list \<Rightarrow> path_state_s \<Rightarrow> bool" where
  \<comment> \<open>the state is what \<open>ps_stat\<close> says of a file\<close>
  "sampled env calls cur = (\<exists>path want dc rc dc'.
     ps_stat (fs_sys (se_fs env) calls) dc (ps_newFromPath (ce_pn (se_ca env)) path) want = Inr (rc, cur, dc'))"

definition cur_ok :: "'h shop_env \<Rightarrow> 'h shopping_state_s \<Rightarrow> bool" where
  "cur_ok env ssp = (\<forall>cur. CurrentPS ssp = Some cur \<longrightarrow> sampled env (sw_calls (ss_world ssp)) cur)"

definition frame_of :: "'h shopping_state_s \<Rightarrow> cmd_audit_s \<times> bool \<times> re_o option \<times> fs_call list \<times> prop_state \<times> nat \<times> bool" where
  \<comment> \<open>what comparing must not change\<close>
  "frame_of ssp = (ca_clear_pa (ss_ca ssp), ss_getfiles ssp, ss_ignore_path_re ssp, sw_calls (ss_world ssp),
     sw_props (ss_world ssp), RecycledCount (ss_world ssp), ShopCDB (ss_world ssp))"

lemma frame_updates [simp]:
  "frame_of (ssp\<lparr>ss_ptx_dict := d\<rparr>) = frame_of ssp" "frame_of (ssp\<lparr>ss_wincmd := c\<rparr>) = frame_of ssp"
  "frame_of (ssp\<lparr>CurrentPS := p\<rparr>) = frame_of ssp"
  by (simp_all add: frame_of_def)

lemma record_pa_clear: "ca_record_pa env ca pa = Inr ca' \<Longrightarrow> ca_clear_pa ca' = ca_clear_pa ca"
  by (auto simp: ca_record_pa_def bindR_eq_Inr ca_clear_pa_def split: option.splits)

lemma record_dummy_effect:
  assumes "record_dummy env pa ssp = Inr ssp'"
  shows "frame_of ssp' = frame_of ssp" and "ss_ptx_dict ssp' = ss_ptx_dict ssp" and "CurrentPS ssp' = CurrentPS ssp"
    and "ss_wix ssp' = ss_wix ssp" and "ss_winner ssp' = ss_winner ssp" and "ss_wincmd ssp' = ss_wincmd ssp"
  using assms by (auto simp: record_dummy_def bindR_eq_Inr Let_def frame_of_def dest: record_pa_clear)

definition goes :: "'h shop_env \<Rightarrow> 'h shopping_state_s \<Rightarrow> 'h shopping_state_s \<Rightarrow> bool" where
  \<comment> \<open>a step of the comparison: builds are only removed\<close>
  "goes env ssp ssp' = (frame_of ssp' = frame_of ssp \<and> set (ss_ptx_dict ssp') \<subseteq> set (ss_ptx_dict ssp) \<and>
     (ptx_ok env ssp \<longrightarrow> ptx_ok env ssp') \<and> (cur_ok env ssp \<longrightarrow> cur_ok env ssp'))"

lemma goes_refl [simp]: "goes env ssp ssp"
  by (simp add: goes_def)

lemma goes_trans: "goes env s1 s2 \<Longrightarrow> goes env s2 s3 \<Longrightarrow> goes env s1 s3"
  by (auto simp: goes_def)

lemma goesD:
  assumes "goes env ssp ssp'"
  shows "frame_of ssp' = frame_of ssp" and "ptx_keys ssp' \<subseteq> ptx_keys ssp"
    and "ptx_ok env ssp \<Longrightarrow> ptx_ok env ssp'" and "cur_ok env ssp \<Longrightarrow> cur_ok env ssp'"
  using assms ptx_keys_mono by (auto simp: goes_def)

lemma frameD:
  assumes "frame_of ssp' = frame_of ssp"
  shows "sw_calls (ss_world ssp') = sw_calls (ss_world ssp)" and "ss_ignore_path_re ssp' = ss_ignore_path_re ssp"
  using assms by (simp_all add: frame_of_def)

lemma current_ps_effect:
  assumes "current_ps env ssp shopped path = Inr (explained, cur, ssp')"
  shows "goes env ssp ssp'" and "cur_ok env ssp \<Longrightarrow> sampled env (sw_calls (ss_world ssp)) cur"
    and "ss_ptx_dict ssp' = ss_ptx_dict ssp"
proof -
  have "(\<not> explained \<and> CurrentPS ssp = Some cur \<and> ssp' = ssp) \<or>
    (\<exists>rc dc. ps_stat (sw_sys env (ss_world ssp)) (sw_dcode (ss_world ssp)) (ps_newFromPath (ce_pn (se_ca env)) path)
        (ps_has_dcode shopped) = Inr (rc, cur, dc) \<and>
      ssp' = ssp\<lparr>CurrentPS := Some cur, ss_world := (ss_world ssp)\<lparr>sw_dcode := dc\<rparr>\<rparr>)"
    using assms by (auto simp: current_ps_def bindR_eq_Inr Let_def split: if_splits option.splits)
  then show "goes env ssp ssp'" "cur_ok env ssp \<Longrightarrow> sampled env (sw_calls (ss_world ssp)) cur"
    "ss_ptx_dict ssp' = ss_ptx_dict ssp"
    by (auto simp: goes_def frame_of_def ptx_ok_def cur_ok_def sampled_def sw_sys_def; blast)+
qed

section \<open>A state of the roadmap that matches\<close>

definition ps_matches :: "'h shop_env \<Rightarrow> fs_call list \<Rightarrow> re_o option \<Rightarrow> string \<Rightarrow> bool" where
  \<comment> \<open>the recorded state under a key is to be ignored or does not differ from the file's\<close>
  "ps_matches env calls ignore pskey = (\<exists>csv shopped path. cdb_find env pskey = Some csv \<and>
     ps_newFromCSVString (ce_pn (se_ca env)) csv = Inr shopped \<and> ps_get_abs shopped = Inr path \<and>
     (re_match ignore (Some path) \<noteq> None \<or>
      (\<exists>cur. sampled env calls cur \<and> ps_diff (ce_ro (se_ca env)) shopped cur = Inr None)))"

definition ptx_listed :: "string \<Rightarrow> string set" where
  "ptx_listed ptxes1 = ptx_key ` set (strsep_all FS2 (Some ptxes1))"

definition settled :: "'h shop_env \<Rightarrow> string \<Rightarrow> 'h shopping_state_s \<Rightarrow> string \<Rightarrow> bool" where
  \<comment> \<open>a state matches, or its builds are gone\<close>
  "settled env ptxes1 ssp pskey = (ps_matches env (sw_calls (ss_world ssp)) (ss_ignore_path_re ssp) pskey \<or>
     ptx_keys ssp \<inter> ptx_listed ptxes1 = {})"

lemma settled_keep:
  "settled env ptxes1 ssp pskey \<Longrightarrow> frame_of ssp' = frame_of ssp \<Longrightarrow> ptx_keys ssp' \<subseteq> ptx_keys ssp \<Longrightarrow>
     settled env ptxes1 ssp' pskey"
  using frameD [of ssp' ssp] by (auto simp: settled_def)

lemma settled_goes: "settled env ptxes1 ssp pskey \<Longrightarrow> goes env ssp ssp' \<Longrightarrow> settled env ptxes1 ssp' pskey"
  using settled_keep goesD(1,2) by blast

lemma cmp_pathstateE:
  assumes run: "shop_cmp_pathstate env ptxes1 ssp pskey = Inr ssp'"
  obtains csv shopped path explained cur ssp1 mismatch ignored
  where "cdb_find env pskey = Some csv" "ps_newFromCSVString (ce_pn (se_ca env)) csv = Inr shopped"
    "ps_get_abs shopped = Inr path" "ignored \<longleftrightarrow> re_match (ss_ignore_path_re ssp) (Some path) \<noteq> None"
    "current_ps env ssp shopped path = Inr (explained, cur, ssp1)"
    "mismatch \<longleftrightarrow> explained \<or> ps_diff (ce_ro (se_ca env)) shopped cur \<noteq> Inr None"
    "(if mismatch \<and> \<not> ignored then ssp' = invalidate_all env (strsep_all FS2 (Some ptxes1)) False ssp1
      else \<exists>ps. record_dummy env (pa_new\<lparr>pa_ps := Some ps, pa_op := OP_READ\<rparr>) ssp1 = Inr ssp')"
proof -
  let ?ca = "se_ca env"
  obtain csv where csv: "cdb_find env pskey = Some csv"
    using run by (cases "cdb_find env pskey") (simp_all add: shop_cmp_pathstate_def)
  obtain shopped path where shopped: "ps_newFromCSVString (ce_pn ?ca) csv = Inr shopped" "ps_get_abs shopped = Inr path"
    using run csv by (auto simp: shop_cmp_pathstate_def bindR_eq_Inr)
  let ?ig = "re_match (ss_ignore_path_re ssp) (Some path) \<noteq> None"
  obtain explained cur ssp1 where cur: "current_ps env ssp shopped path = Inr (explained, cur, ssp1)"
    using run csv shopped by (auto simp: shop_cmp_pathstate_def bindR_eq_Inr Let_def)
  obtain mismatch
    where mm: "(if explained then Inr True else bindR (ps_diff (ce_ro ?ca) shopped cur) (\<lambda>reason. Inr (reason \<noteq> None))) = Inr mismatch"
    using run csv shopped cur by (auto simp: shop_cmp_pathstate_def bindR_eq_Inr Let_def)
  have rest: "(let ssp = (if mismatch then invalidate_all env (strsep_all FS2 (Some ptxes1)) ?ig ssp1 else ssp1)
        in if mismatch \<and> \<not> ?ig then Inr ssp
           else bindR (ps_copy (ce_pn ?ca) cur) (\<lambda>ps.
             record_dummy env (pa_new\<lparr>pa_ps := Some ps, pa_op := OP_READ\<rparr>) ssp)) = Inr ssp'"
    using run unfolding shop_cmp_pathstate_def csv option.case shopped bindR_simps Let_def cur prod.case mm .
  have "mismatch \<longleftrightarrow> explained \<or> ps_diff (ce_ro ?ca) shopped cur \<noteq> Inr None"
    using mm by (auto simp: bindR_eq_Inr split: if_splits)
  moreover have "if mismatch \<and> \<not> ?ig then ssp' = invalidate_all env (strsep_all FS2 (Some ptxes1)) False ssp1
      else \<exists>ps. record_dummy env (pa_new\<lparr>pa_ps := Some ps, pa_op := OP_READ\<rparr>) ssp1 = Inr ssp'"
    using rest by (cases mismatch; cases ?ig) (auto simp: Let_def bindR_eq_Inr invalidate_all_ignored)
  ultimately show ?thesis by (intro that [OF csv shopped _ cur]) (rule refl)
qed

lemma shop_cmp_pathstate_effect:
  assumes run: "shop_cmp_pathstate env ptxes1 ssp pskey = Inr ssp'" and ok: "ptx_ok env ssp" "cur_ok env ssp"
  shows "goes env ssp ssp' \<and> settled env ptxes1 ssp' pskey"
proof -
  let ?ca = "se_ca env"
  obtain csv shopped path explained cur ssp1 mismatch ignored
    where csv: "cdb_find env pskey = Some csv" and shopped: "ps_newFromCSVString (ce_pn ?ca) csv = Inr shopped"
      "ps_get_abs shopped = Inr path" and ig: "ignored \<longleftrightarrow> re_match (ss_ignore_path_re ssp) (Some path) \<noteq> None"
      and cur: "current_ps env ssp shopped path = Inr (explained, cur, ssp1)"
      and mm: "mismatch \<longleftrightarrow> explained \<or> ps_diff (ce_ro ?ca) shopped cur \<noteq> Inr None"
      and rest: "if mismatch \<and> \<not> ignored then ssp' = invalidate_all env (strsep_all FS2 (Some ptxes1)) False ssp1
        else \<exists>ps. record_dummy env (pa_new\<lparr>pa_ps := Some ps, pa_op := OP_READ\<rparr>) ssp1 = Inr ssp'"
    using cmp_pathstateE [OF run] .
  note c = current_ps_effect [OF cur]
  note ok1 = goesD(3,4) [OF c(1)] ok
  have matches: "settled env ptxes1 ssp' pskey"
    if "goes env ssp ssp'" and "ignored \<or> ps_diff (ce_ro ?ca) shopped cur = Inr None"
  proof -
    have "sw_calls (ss_world ssp') = sw_calls (ss_world ssp)" "ss_ignore_path_re ssp' = ss_ignore_path_re ssp"
      using frameD [OF goesD(1) [OF that(1)]] by simp_all
    then show ?thesis using csv shopped ig that(2) c(2) [OF ok(2)] by (auto simp: settled_def ps_matches_def)
  qed
  show ?thesis
  proof (cases "mismatch \<and> \<not> ignored")
    case True
    then have s': "ssp' = invalidate_all env (strsep_all FS2 (Some ptxes1)) False ssp1" using rest by simp
    note inv = invalidate_all_effect [where ixs = "strsep_all FS2 (Some ptxes1)", OF ok1(1) [OF ok(1)]]
    have "goes env ssp1 ssp'" using inv unfolding s' by (auto simp: goes_def cur_ok_def)
    then show ?thesis using inv goes_trans [OF c(1)] by (auto simp: settled_def ptx_listed_def s')
  next
    case False
    then obtain ps where "record_dummy env (pa_new\<lparr>pa_ps := Some ps, pa_op := OP_READ\<rparr>) ssp1 = Inr ssp'"
      using rest by auto
    note e = record_dummy_effect [OF this]
    have "goes env ssp1 ssp'" using e frameD(1) [OF e(1)] by (simp add: goes_def ptx_ok_def cur_ok_def)
    with c(1) have g: "goes env ssp ssp'" by (rule goes_trans)
    then show ?thesis using matches False mm by blast
  qed
qed

text \<open>The keys a key or a range of keys stands for.\<close>

definition expands :: "string \<Rightarrow> string \<Rightarrow> bool" where
  "expands pskey key =
     (case split_at (CHR ''-'') pskey of
        None \<Rightarrow> key = pskey
      | Some (start, end1) \<Rightarrow>
          \<exists>i digits. c_strtol 36 (dropWhile isupper start) \<le> i \<and> i \<le> c_strtol 36 end1 \<and>
            util_format_to_radix 36 64 i = Inr digits \<and> key = takeWhile isupper start @ buf_string digits)"

lemma cmp_range_effect:
  assumes "cmp_range env ptxes1 prefix n i ssp = Inr ssp'" and "ptx_ok env ssp" "cur_ok env ssp"
  shows "goes env ssp ssp' \<and> (\<forall>j < n. \<forall>digits. util_format_to_radix 36 64 (i + of_nat j) = Inr digits \<longrightarrow>
    settled env ptxes1 ssp' (prefix @ buf_string digits))"
  using assms
proof (induction n arbitrary: i ssp)
  case (Suc n)
  obtain digits ssp1 where d: "util_format_to_radix 36 64 i = Inr digits"
    and s1: "shop_cmp_pathstate env ptxes1 ssp (prefix @ buf_string digits) = Inr ssp1"
    and rest: "cmp_range env ptxes1 prefix n (i + 1) ssp1 = Inr ssp'"
    using Suc.prems(1) by (auto simp: bindR_eq_Inr)
  note one = shop_cmp_pathstate_effect [OF s1 Suc.prems(2,3)]
  then have "ptx_ok env ssp1" "cur_ok env ssp1" using goesD(3,4) Suc.prems(2,3) by blast+
  note IH = Suc.IH [OF rest this]
  show ?case
  proof (intro conjI allI impI)
    show "goes env ssp ssp'" using one IH goes_trans by blast
    fix j digits' assume j: "j < Suc n" "util_format_to_radix 36 64 (i + of_nat j) = Inr digits'"
    show "settled env ptxes1 ssp' (prefix @ buf_string digits')"
    proof (cases j)
      case 0
      then have "digits' = digits" using j(2) d by simp
      then show ?thesis using one IH settled_goes by blast
    next
      case (Suc k)
      then have "k < n" "i + 1 + of_nat k = i + of_nat j" using j(1) by simp_all
      with IH j(2) show ?thesis by metis
    qed
  qed
qed simp

lemma cmp_pskeyE:
  assumes run: "cmp_pskey env ptxes1 pskey ssp = Inr ssp'"
  obtains (one) "split_at (CHR ''-'') pskey = None" "shop_cmp_pathstate env ptxes1 ssp pskey = Inr ssp'"
  | (range) start end1 first n where "split_at (CHR ''-'') pskey = Some (start, end1)"
      "first = c_strtol 36 (dropWhile isupper start)"
      "n = (if first \<le> c_strtol 36 end1 then unat (c_strtol 36 end1) - unat first + 1 else 0)"
      "cmp_range env ptxes1 (takeWhile isupper start) n first ssp = Inr ssp'"
proof (cases "split_at (CHR ''-'') pskey")
  case None
  then show ?thesis using run one unfolding cmp_pskey_def None by simp
next
  case (Some p)
  obtain start end1 where "p = (start, end1)" by force
  with Some run show ?thesis
    by (intro range [of start end1]) (auto simp: cmp_pskey_def Let_def split: if_splits)
qed

lemma cmp_pskey_effect:
  assumes run: "cmp_pskey env ptxes1 pskey ssp = Inr ssp'" and ok: "ptx_ok env ssp" "cur_ok env ssp"
  shows "goes env ssp ssp' \<and> (\<forall>key. expands pskey key \<longrightarrow> settled env ptxes1 ssp' key)"
  using run
proof (cases rule: cmp_pskeyE)
  case one
  from shop_cmp_pathstate_effect [OF one(2) ok] show ?thesis unfolding expands_def one(1) by simp
next
  case (range start end1 first n)
  note r = cmp_range_effect [OF range(4) ok]
  have "settled env ptxes1 ssp' (takeWhile isupper start @ buf_string digits)"
    if i: "first \<le> i" "i \<le> c_strtol 36 end1" "util_format_to_radix 36 64 i = Inr digits" for i digits
  proof -
    have le: "unat first \<le> unat i" "unat i \<le> unat (c_strtol 36 end1)" using i by (simp_all add: word_le_nat_alt)
    have "i = first + of_nat (unat i - unat first)" using le(1) by (simp add: of_nat_diff)
    moreover have "unat i - unat first < n" using le i range(3) by auto
    ultimately show ?thesis using r i(3) by metis
  qed
  then show ?thesis using r range(1,2) by (auto simp: expands_def)
qed

lemma cmp_pskeys_effect:
  assumes "cmp_pskeys env ptxes1 pskeys ssp = Inr ssp'" and "ptx_ok env ssp" "cur_ok env ssp"
  shows "goes env ssp ssp' \<and> (\<forall>pskey \<in> set pskeys. \<forall>key. expands pskey key \<longrightarrow> settled env ptxes1 ssp' key)"
  using assms
proof (induction pskeys arbitrary: ssp)
  case (Cons pskey pskeys)
  show ?case
  proof (cases "shop_ptx_count ssp = 0")
    case True
    then have "ssp' = ssp" using Cons.prems(1) by simp
    then show ?thesis using True by (simp add: settled_def ptx_keys_empty)
  next
    case False
    then obtain ssp1 where s1: "cmp_pskey env ptxes1 pskey ssp = Inr ssp1"
      and rest: "cmp_pskeys env ptxes1 pskeys ssp1 = Inr ssp'"
      using Cons.prems(1) by (auto simp: bindR_eq_Inr)
    note one = cmp_pskey_effect [OF s1 Cons.prems(2,3)]
    then have "ptx_ok env ssp1" "cur_ok env ssp1" using goesD(3,4) Cons.prems(2,3) by blast+
    note IH = Cons.IH [OF rest this]
    then show ?thesis using one goes_trans settled_goes by auto blast+
  qed
qed simp

section \<open>The winner\<close>

definition lines_settled :: "'h shop_env \<Rightarrow> string set \<Rightarrow> 'h shopping_state_s \<Rightarrow> bool" where
  "lines_settled env lines ssp = (\<forall>line \<in> lines. \<forall>pskeys ptxes1 pskey key.
     split_at (CHR '','') line = Some (pskeys, ptxes1) \<longrightarrow> pskey \<in> set (strsep_all FS2 (Some pskeys)) \<longrightarrow>
     expands pskey key \<longrightarrow> settled env ptxes1 ssp key)"

lemma lines_settled_keep:
  "lines_settled env lines ssp \<Longrightarrow> frame_of ssp' = frame_of ssp \<Longrightarrow> ptx_keys ssp' \<subseteq> ptx_keys ssp \<Longrightarrow>
     lines_settled env lines ssp'"
  unfolding lines_settled_def using settled_keep by metis

definition seen_in :: "string set \<Rightarrow> 'h shopping_state_s \<Rightarrow> bool" where
  \<comment> \<open>only builds of those lines are marked as evaluated\<close>
  "seen_in lines ssp = (\<forall>e \<in> set (ss_ptx_dict ssp). fst e \<noteq> [] \<and> islower (hd (fst e)) \<longrightarrow>
     (\<exists>line \<in> lines. \<exists>pskeys ptxes1. split_at (CHR '','') line = Some (pskeys, ptxes1) \<and> ptx_key (fst e) \<in> ptx_listed ptxes1))"

lemma seen_in_mono: "seen_in L ssp \<Longrightarrow> L \<subseteq> M \<Longrightarrow> set (ss_ptx_dict ssp') \<subseteq> set (ss_ptx_dict ssp) \<Longrightarrow> seen_in M ssp'"
  unfolding seen_in_def by blast

lemma tolower_idem [simp]: "tolower (tolower c) = tolower c"
  by (auto simp: tolower_def isupper_def)

definition marked :: "string \<times> string \<Rightarrow> string \<times> string \<Rightarrow> string \<times> string" where
  "marked e x = (if x = e then (tolower (hd (fst e)) # tl (fst e), snd e) else x)"

lemma ptx_key_marked: "fst e \<noteq> [] \<Longrightarrow> ptx_key (fst (marked e x)) = ptx_key (fst x)"
  by (cases "fst e") (auto simp: marked_def ptx_key_def)

lemma mark_as_seen_effect:
  assumes ok: "ptx_ok env ssp"
  shows "\<exists>f. shop_ptx_mark_as_seen env ssp key = ssp\<lparr>ss_ptx_dict := map f (ss_ptx_dict ssp)\<rparr> \<and>
    (\<forall>x. ptx_key (fst (f x)) = ptx_key (fst x) \<and> snd (f x) = snd x \<and> (f x \<noteq> x \<longrightarrow> ptx_key (fst x) = ptx_key key))"
proof (cases "\<exists>e. ptx_lookup env ssp key = Some e \<and> fst e \<noteq> [] \<and> isupper (hd (fst e))")
  case True
  then obtain e where e: "ptx_lookup env ssp key = Some e" "fst e \<noteq> []" "isupper (hd (fst e))" by blast
  then have "shop_ptx_mark_as_seen env ssp key = ssp\<lparr>ss_ptx_dict := map (marked e) (ss_ptx_dict ssp)\<rparr>"
    by (simp add: shop_ptx_mark_as_seen_def marked_def [abs_def])
  moreover have "ptx_key (fst x) = ptx_key key" if "marked e x \<noteq> x" for x
    using that ptx_lookup_Some(2) [OF ok e(1)] by (simp add: marked_def split: if_splits)
  moreover have "snd (marked e x) = snd x" for x by (simp add: marked_def)
  ultimately show ?thesis using ptx_key_marked [OF e(2)] by (intro exI [of _ "marked e"]) simp
next
  case False
  then have "shop_ptx_mark_as_seen env ssp key = ssp"
    by (cases "ptx_lookup env ssp key") (auto simp: shop_ptx_mark_as_seen_def)
  then show ?thesis by (intro exI [of _ "\<lambda>x. x"]) simp
qed

lemma sorted_map_cmp:
  assumes "dict_sorted ptx_cmp xs" and "\<And>x. ptx_key (fst (f x)) = ptx_key (fst x)"
  shows "dict_sorted ptx_cmp (map f xs)"
proof -
  have "ptx_cmp (f x) (f y) = ptx_cmp x y" for x y
    using assms(2) by (simp add: ptx_cmp_def c_stricmp_def ptx_key_def)
  then show ?thesis using assms(1) by (simp add: dict_sorted_def sorted_wrt_map)
qed

lemma mark_seen_effect:
  "ptx_ok env ssp \<Longrightarrow> \<exists>f. mark_seen env ixs ssp = ssp\<lparr>ss_ptx_dict := map f (ss_ptx_dict ssp)\<rparr> \<and>
     (\<forall>x. ptx_key (fst (f x)) = ptx_key (fst x) \<and> snd (f x) = snd x \<and>
       (f x \<noteq> x \<longrightarrow> ptx_key (fst x) \<in> ptx_key ` set ixs))"
proof (induction ixs arbitrary: ssp)
  case Nil
  show ?case by (intro exI [of _ "\<lambda>x. x"]) (simp add: mark_seen_def)
next
  case (Cons ix ixs)
  obtain f where f: "shop_ptx_mark_as_seen env ssp ix = ssp\<lparr>ss_ptx_dict := map f (ss_ptx_dict ssp)\<rparr>"
    and fk: "\<And>x. ptx_key (fst (f x)) = ptx_key (fst x)" "\<And>x. snd (f x) = snd x"
      "\<And>x. f x \<noteq> x \<Longrightarrow> ptx_key (fst x) = ptx_key ix"
    using mark_as_seen_effect [OF Cons.prems, of ix] by blast
  let ?s = "ssp\<lparr>ss_ptx_dict := map f (ss_ptx_dict ssp)\<rparr>"
  have "ptx_ok env ?s" using Cons.prems sorted_map_cmp [OF _ fk(1)] by (simp add: ptx_ok_def)
  from Cons.IH [OF this] obtain g
    where g: "mark_seen env ixs ?s = ?s\<lparr>ss_ptx_dict := map g (ss_ptx_dict ?s)\<rparr>"
    and gk: "\<And>x. ptx_key (fst (g x)) = ptx_key (fst x)" "\<And>x. snd (g x) = snd x"
      "\<And>x. g x \<noteq> x \<Longrightarrow> ptx_key (fst x) \<in> ptx_key ` set ixs" by blast
  have "mark_seen env (ix # ixs) ssp = ssp\<lparr>ss_ptx_dict := map (g \<circ> f) (ss_ptx_dict ssp)\<rparr>"
    using f g by (simp add: mark_seen_def)
  moreover have "ptx_key (fst x) \<in> ptx_key ` set (ix # ixs)" if "(g \<circ> f) x \<noteq> x" for x
  proof (cases "f x = x")
    case True
    then show ?thesis using that gk(3) [of x] by auto
  next
    case False
    then show ?thesis using fk(3) by simp
  qed
  ultimately show ?case using fk gk by (intro exI [of _ "g \<circ> f"]) auto
qed

lemma compare_lines_effect:
  assumes "compare_lines env lines ssp = Inr ssp'" and "ptx_ok env ssp" "cur_ok env ssp" and "seen_in D ssp"
  shows "frame_of ssp' = frame_of ssp \<and> builds ssp' \<subseteq> builds ssp \<and> ptx_ok env ssp' \<and> cur_ok env ssp' \<and>
    lines_settled env (set lines) ssp' \<and> seen_in (D \<union> set lines) ssp'"
  using assms
proof (induction lines arbitrary: ssp D)
  case Nil
  then show ?case by (simp add: lines_settled_def)
next
  case (Cons line lines)
  show ?case
  proof (cases "shop_ptx_count ssp = 0")
    case True
    then have "ssp' = ssp" using Cons.prems(1) by simp
    moreover have "lines_settled env (set (line # lines)) ssp"
      using True by (auto simp: lines_settled_def settled_def ptx_keys_empty)
    ultimately show ?thesis using Cons.prems seen_in_mono [of D ssp "D \<union> set (line # lines)" ssp] by auto
  next
    case False
    obtain pskeys ptxes1 where sp: "split_at (CHR '','') line = Some (pskeys, ptxes1)"
      using Cons.prems(1) False by (cases "split_at (CHR '','') line") auto
    let ?ixs = "strsep_all FS2 (Some ptxes1)"
    have seen_line: "seen_in (insert line D) s" if "seen_in D s" for s :: "'a shopping_state_s"
      using that by (auto simp: seen_in_def)
    show ?thesis
    proof (cases "list_ex (shop_ptx_contains env ssp) ?ixs")
      case False
      then have rest: "compare_lines env lines ssp = Inr ssp'"
        using Cons.prems(1) \<open>shop_ptx_count ssp \<noteq> 0\<close> sp by simp
      note IH = Cons.IH [OF rest Cons.prems(2,3) seen_line [OF Cons.prems(4)]]
      have "ptx_keys ssp \<inter> ptx_listed ptxes1 = {}"
        using False ptx_lookup_None [OF Cons.prems(2)]
        by (auto simp: list_ex_iff shop_ptx_contains_def ptx_listed_def)
      then have "settled env ptxes1 ssp key" for key by (simp add: settled_def)
      moreover have "ptx_keys ssp' \<subseteq> ptx_keys ssp" unfolding builds_keys using IH by blast
      ultimately have "settled env ptxes1 ssp' key" for key using settled_keep IH by blast
      then show ?thesis using IH sp by (auto simp: lines_settled_def)
    next
      case True
      let ?m = "mark_seen env ?ixs ssp"
      obtain ssp1 where s1: "cmp_pskeys env ptxes1 (strsep_all FS2 (Some pskeys)) ?m = Inr ssp1"
        and rest: "compare_lines env lines ssp1 = Inr ssp'"
        using Cons.prems(1) \<open>shop_ptx_count ssp \<noteq> 0\<close> sp True by (auto simp: bindR_eq_Inr)
      obtain f where f: "?m = ssp\<lparr>ss_ptx_dict := map f (ss_ptx_dict ssp)\<rparr>"
        and fk: "\<And>x. ptx_key (fst (f x)) = ptx_key (fst x)" "\<And>x. f x \<noteq> x \<Longrightarrow> ptx_key (fst x) \<in> ptx_key ` set ?ixs"
          "\<And>x. snd (f x) = snd x"
        using mark_seen_effect [OF Cons.prems(2), of ?ixs] by blast
      have okm: "ptx_ok env ?m" using Cons.prems(2) sorted_map_cmp [OF _ fk(1)] f by (simp add: ptx_ok_def)
      have curm: "cur_ok env ?m" using Cons.prems(3) f by (simp add: cur_ok_def)
      have keysm: "builds ?m = builds ssp" using f fk(1,3) by (simp add: builds_def image_image)
      have seenm: "seen_in (insert line D) ?m"
        unfolding seen_in_def
      proof (intro ballI impI)
        fix e assume e: "e \<in> set (ss_ptx_dict ?m)" "fst e \<noteq> [] \<and> islower (hd (fst e))"
        then obtain x where x: "x \<in> set (ss_ptx_dict ssp)" "e = f x" using f by auto
        show "\<exists>line' \<in> insert line D. \<exists>pskeys ptxes1. split_at (CHR '','') line' = Some (pskeys, ptxes1) \<and>
            ptx_key (fst e) \<in> ptx_listed ptxes1"
        proof (cases "f x = x")
          case True
          then have "e \<in> set (ss_ptx_dict ssp)" using x by simp
          with e(2) Cons.prems(4) show ?thesis unfolding seen_in_def by blast
        next
          case False
          then have "ptx_key (fst e) \<in> ptx_listed ptxes1" using fk x(2) by (simp add: ptx_listed_def)
          with sp show ?thesis by blast
        qed
      qed
      note one = cmp_pskeys_effect [OF s1 okm curm]
      note g = goesD [OF conjunct1 [OF one]]
      have ok1: "ptx_ok env ssp1" "cur_ok env ssp1" using g(3,4) okm curm by blast+
      have "set (ss_ptx_dict ssp1) \<subseteq> set (ss_ptx_dict ?m)" using one by (simp add: goes_def)
      then have seen1: "seen_in (insert line D) ssp1" by (rule seen_in_mono [OF seenm subset_refl])
      note IH = Cons.IH [OF rest ok1 seen1]
      have "builds ssp1 \<subseteq> builds ?m" using one by (auto simp: goes_def builds_def)
      then have fr: "frame_of ssp' = frame_of ssp" "builds ssp' \<subseteq> builds ssp" using IH g(1) f keysm by auto
      have "ptx_keys ssp' \<subseteq> ptx_keys ssp1" unfolding builds_keys using IH by blast
      then
      have "settled env ptxes1 ssp' key" if "pskey \<in> set (strsep_all FS2 (Some pskeys))" "expands pskey key" for pskey key
        using one that settled_keep IH by blast
      then have "lines_settled env (set (line # lines)) ssp'" using IH sp by (auto simp: lines_settled_def)
      then show ?thesis using IH fr by auto
    qed
  qed
qed

section \<open>Sound recycling\<close>

definition unseen :: "'h shopping_state_s \<Rightarrow> bool" where
  "unseen ssp = (\<forall>e \<in> set (ss_ptx_dict ssp). fst e \<noteq> [] \<longrightarrow> \<not> islower (hd (fst e)))"

lemma find_winner:
  assumes "shop_ptx_winner ssp = (True, ssp')"
  shows "\<exists>e \<in> set (ss_ptx_dict ssp). fst e \<noteq> [] \<and> islower (hd (fst e)) \<and> ss_winner ssp' = snprintf 32 (snd e) \<and>
    ss_wix ssp' = snprintf 32 (toupper (hd (fst e)) # tl (fst e)) \<and> frame_of ssp' = frame_of ssp \<and>
    ss_ptx_dict ssp' = ss_ptx_dict ssp \<and> CurrentPS ssp' = CurrentPS ssp"
proof -
  obtain e where e: "find (\<lambda>e. fst e \<noteq> [] \<and> islower (hd (fst e))) (ss_ptx_dict ssp) = Some e"
    and s: "ssp' = ssp\<lparr>ss_wix := snprintf 32 (toupper (hd (fst e)) # tl (fst e)), ss_winner := snprintf 32 (snd e)\<rparr>"
    using assms by (auto simp: shop_ptx_winner_def split: option.splits)
  from find_SomeD [OF e] show ?thesis unfolding s by (auto simp: frame_of_def)
qed

definition recyclable :: "'h shop_env \<Rightarrow> string \<Rightarrow> bool" where
  \<comment> \<open>the roadmap records targets and no children for the command\<close>
  "recyclable env cmdix = (\<exists>cmdstate pccode pathcode has_tgt agg kids rest r. cdb_find env cmdix = Some cmdstate \<and>
     take_fields 7 (Some cmdstate) = Some (pccode # pathcode # has_tgt # agg # kids # rest, r) \<and>
     IS_TRUE has_tgt \<and> CSV_FIELD_IS_NULL kids)"

definition matching_build ::
  "'h shop_env \<Rightarrow> fs_call list \<Rightarrow> re_o option \<Rightarrow> string list \<Rightarrow> string \<Rightarrow> bool" where
  \<comment> \<open>some line lists the build, and every state of every line that lists it matches\<close>
  "matching_build env calls ignore lines key =
     ((\<exists>line \<in> set lines. \<exists>pskeys ptxes1. split_at (CHR '','') line = Some (pskeys, ptxes1) \<and> key \<in> ptx_listed ptxes1) \<and>
      (\<forall>line \<in> set lines. \<forall>pskeys ptxes1 pskey k. split_at (CHR '','') line = Some (pskeys, ptxes1) \<longrightarrow>
         key \<in> ptx_listed ptxes1 \<longrightarrow> pskey \<in> set (strsep_all FS2 (Some pskeys)) \<longrightarrow> expands pskey k \<longrightarrow>
         ps_matches env calls ignore k))"

definition shop_ok :: "'h shop_env \<Rightarrow> 'h shopping_state_s \<Rightarrow> bool" where
  "shop_ok env ssp = (ptx_ok env ssp \<and> CurrentPS ssp = None \<and> unseen ssp)"

lemma compare_prereqs_effect:
  assumes run: "shop_compare_prereqs env ssp cmdix = Inr ssp'" and ok: "shop_ok env ssp"
  shows "\<exists>lines. se_cdb env (snprintf 64 (CHR ''<'' # cmdix)) = Some lines \<and> frame_of ssp' = frame_of ssp \<and>
    builds ssp' \<subseteq> builds ssp \<and> ptx_ok env ssp' \<and> CurrentPS ssp' = None \<and>
    (\<forall>e \<in> set (ss_ptx_dict ssp'). fst e \<noteq> [] \<and> islower (hd (fst e)) \<longrightarrow>
      matching_build env (sw_calls (ss_world ssp)) (ss_ignore_path_re ssp) lines (ptx_key (fst e)))"
proof -
  obtain lines s where lines: "se_cdb env (snprintf 64 (CHR ''<'' # cmdix)) = Some lines"
    and cl: "compare_lines env lines ssp = Inr s" and s': "ssp' = s\<lparr>CurrentPS := None\<rparr>"
    using run by (auto simp: shop_compare_prereqs_def bindR_eq_Inr split: option.splits)
  have pre: "ptx_ok env ssp" "cur_ok env ssp" "seen_in {} ssp"
    using ok by (auto simp: shop_ok_def cur_ok_def seen_in_def unseen_def)
  note eff = compare_lines_effect [OF cl pre]
  have calls: "sw_calls (ss_world s) = sw_calls (ss_world ssp)" "ss_ignore_path_re s = ss_ignore_path_re ssp"
    using frameD [OF conjunct1 [OF eff]] by simp_all
  have "matching_build env (sw_calls (ss_world ssp)) (ss_ignore_path_re ssp) lines (ptx_key (fst e))"
    if e: "e \<in> set (ss_ptx_dict s)" "fst e \<noteq> [] \<and> islower (hd (fst e))" for e
    unfolding matching_build_def
  proof (intro conjI ballI allI impI)
    have "seen_in (set lines) s" using eff by simp
    then show "\<exists>line \<in> set lines. \<exists>pskeys ptxes1. split_at (CHR '','') line = Some (pskeys, ptxes1) \<and>
        ptx_key (fst e) \<in> ptx_listed ptxes1"
      using e unfolding seen_in_def by blast
    fix line pskeys ptxes1 pskey k
    assume a: "line \<in> set lines" "split_at (CHR '','') line = Some (pskeys, ptxes1)"
      "ptx_key (fst e) \<in> ptx_listed ptxes1" "pskey \<in> set (strsep_all FS2 (Some pskeys))" "expands pskey k"
    then have "settled env ptxes1 s k" using eff unfolding lines_settled_def by blast
    moreover have "ptx_key (fst e) \<in> ptx_keys s" using e(1) by (force simp: ptx_keys_def)
    ultimately show "ps_matches env (sw_calls (ss_world ssp)) (ss_ignore_path_re ssp) k"
      using a(3) calls by (auto simp: settled_def)
  qed
  then show ?thesis using lines eff s' by (simp add: frame_of_def builds_def ptx_ok_def)
qed

lemma shop_for_cmd_effect:
  assumes run: "shop_for_cmd env ssp cmdix = Inr (rc, ssp')" and ok: "shop_ok env ssp"
  shows "frame_of ssp' = frame_of ssp \<and> builds ssp' \<subseteq> builds ssp \<and> (rc \<noteq> SHOP_RECYCLED \<longrightarrow> shop_ok env ssp') \<and>
    (rc = SHOP_RECYCLED \<longrightarrow> recyclable env cmdix \<and>
      (\<exists>lines key ptxid. se_cdb env (snprintf 64 (CHR ''<'' # cmdix)) = Some lines \<and> (key, ptxid) \<in> builds ssp' \<and>
        ss_winner ssp' = snprintf 32 ptxid \<and>
        matching_build env (sw_calls (ss_world ssp)) (ss_ignore_path_re ssp) lines key))"
proof -
  obtain cmdstate pccode pathcode has_tgt agg kids duration rwd r
    where c: "cdb_find env cmdix = Some cmdstate"
      "take_fields 7 (Some cmdstate) = Some ([pccode, pathcode, has_tgt, agg, kids, duration, rwd], r)"
    using run by (auto simp: shop_for_cmd_def split: option.splits list.splits)
  show ?thesis
  proof (cases "IS_TRUE has_tgt \<and> CSV_FIELD_IS_NULL kids \<and> shop_ptx_count ssp \<noteq> 0")
    case False
    then have "ssp' = ssp \<and> rc \<noteq> SHOP_RECYCLED" using run c by (auto simp: shop_for_cmd_def split: if_splits)
    with ok show ?thesis by simp
  next
    case True
    then have rec: "recyclable env cmdix" using c by (auto simp: recyclable_def)
    obtain ssp1 where cmp: "shop_compare_prereqs env ssp cmdix = Inr ssp1"
      using run c True by (auto simp: shop_for_cmd_def bindR_eq_Inr)
    have res: "(let (won, ssp') = (if shop_ptx_count ssp1 = 0 then (False, ssp1) else shop_ptx_winner ssp1)
        in if won then (SHOP_RECYCLED, ssp'\<lparr>ss_wincmd := snprintf 32 cmdix\<rparr>)
           else (if IS_TRUE agg then SHOP_NOMATCH_AGG else SHOP_NOMATCH, ssp')) = (rc, ssp')"
      using run c True cmp by (cases "shop_ptx_count ssp1 = 0") (auto simp: shop_for_cmd_def Let_def split: prod.splits)
    from compare_prereqs_effect [OF cmp ok] obtain lines
      where lines: "se_cdb env (snprintf 64 (CHR ''<'' # cmdix)) = Some lines" "frame_of ssp1 = frame_of ssp"
        "builds ssp1 \<subseteq> builds ssp" "ptx_ok env ssp1" "CurrentPS ssp1 = None"
      and match: "\<forall>e \<in> set (ss_ptx_dict ssp1). fst e \<noteq> [] \<and> islower (hd (fst e)) \<longrightarrow>
        matching_build env (sw_calls (ss_world ssp)) (ss_ignore_path_re ssp) lines (ptx_key (fst e))" by blast
    show ?thesis
    proof (cases "find (\<lambda>e. fst e \<noteq> [] \<and> islower (hd (fst e))) (ss_ptx_dict ssp1)")
      case None
      then have "unseen ssp1" by (auto simp: find_None_iff unseen_def)
      moreover have "rc \<noteq> SHOP_RECYCLED" "frame_of ssp' = frame_of ssp1" "ss_ptx_dict ssp' = ss_ptx_dict ssp1"
        "CurrentPS ssp' = CurrentPS ssp1"
        using res None by (auto simp: shop_ptx_winner_def frame_of_def split: if_splits)
      ultimately show ?thesis using lines by (simp add: builds_def shop_ok_def ptx_ok_def unseen_def)
    next
      case (Some e)
      then have e: "e \<in> set (ss_ptx_dict ssp1)" "fst e \<noteq> [] \<and> islower (hd (fst e))" using find_SomeD [OF Some] by auto
      then have "shop_ptx_count ssp1 \<noteq> 0" by (auto simp: shop_ptx_count_def)
      then have "rc = SHOP_RECYCLED" "frame_of ssp' = frame_of ssp1" "ss_ptx_dict ssp' = ss_ptx_dict ssp1"
        "ss_winner ssp' = snprintf 32 (snd e)"
        using res Some by (auto simp: shop_ptx_winner_def frame_of_def)
      moreover have "(ptx_key (fst e), snd e) \<in> builds ssp1" using e(1) by (force simp: builds_def)
      ultimately show ?thesis using lines match e rec by (auto simp: builds_def)
    qed
  qed
qed

lemma try_cmds_effect:
  assumes "try_cmds env cmds rc ssp = Inr (rc', ssp')" and "shop_ok env ssp" and "rc \<noteq> SHOP_RECYCLED"
  shows "frame_of ssp' = frame_of ssp \<and> builds ssp' \<subseteq> builds ssp \<and>
    (rc' = SHOP_RECYCLED \<longrightarrow> (\<exists>cmdix \<in> set cmds. recyclable env cmdix \<and>
      (\<exists>lines key ptxid. se_cdb env (snprintf 64 (CHR ''<'' # cmdix)) = Some lines \<and> (key, ptxid) \<in> builds ssp' \<and>
        ss_winner ssp' = snprintf 32 ptxid \<and>
        matching_build env (sw_calls (ss_world ssp)) (ss_ignore_path_re ssp) lines key)))"
  using assms
proof (induction cmds arbitrary: rc ssp)
  case (Cons cmdix cmds)
  obtain rc1 ssp1 where one: "shop_for_cmd env ssp cmdix = Inr (rc1, ssp1)"
    and rest: "try_cmds env cmds rc1 ssp1 = Inr (rc', ssp')"
    using Cons.prems(1,3) by (auto simp: bindR_eq_Inr split: if_splits)
  note eff = shop_for_cmd_effect [OF one Cons.prems(2)]
  show ?case
  proof (cases "rc1 = SHOP_RECYCLED")
    case True
    then have "rc' = rc1 \<and> ssp' = ssp1" using rest by (cases cmds) auto
    with eff True show ?thesis by auto
  next
    case False
    then have "shop_ok env ssp1" using eff by blast
    note IH = Cons.IH [OF rest this False]
    have fr: "sw_calls (ss_world ssp1) = sw_calls (ss_world ssp)" "ss_ignore_path_re ssp1 = ss_ignore_path_re ssp"
      using frameD [OF conjunct1 [OF eff]] by simp_all
    show ?thesis
    proof (intro conjI impI)
      show "frame_of ssp' = frame_of ssp" using IH eff by simp
      show "builds ssp' \<subseteq> builds ssp" using IH eff by blast
      assume "rc' = SHOP_RECYCLED"
      then show "\<exists>cmdix \<in> set (cmdix # cmds). recyclable env cmdix \<and>
          (\<exists>lines key ptxid. se_cdb env (snprintf 64 (CHR ''<'' # cmdix)) = Some lines \<and> (key, ptxid) \<in> builds ssp' \<and>
            ss_winner ssp' = snprintf 32 ptxid \<and>
            matching_build env (sw_calls (ss_world ssp)) (ss_ignore_path_re ssp) lines key)"
        using IH unfolding fr by (meson list.set_intros(2))
    qed
  qed
qed simp

section \<open>The start and the end of shopping\<close>

lemma ptx_lines_effect:
  assumes "ptx_lines env xns ssp = Inr ssp'" and "ptx_ok env ssp"
  shows "\<exists>d. ssp' = ssp\<lparr>ss_ptx_dict := d\<rparr> \<and> ptx_ok env ssp' \<and>
    (\<forall>e \<in> set d. e \<in> set (ss_ptx_dict ssp) \<or> (\<exists>xn \<in> set xns. split_at (CHR ''='') xn = Some e))"
  using assms
proof (induction xns arbitrary: ssp)
  case Nil
  then show ?case by (auto intro: exI [of _ "ss_ptx_dict ssp"])
next
  case (Cons xn xns)
  obtain key ptxid where sp: "split_at (CHR ''='') xn = Some (key, ptxid)"
    using Cons.prems(1) by (cases "split_at (CHR ''='') xn") (auto simp del: split_at_None split: if_splits)
  then obtain ssp1 where ins: "shop_ptx_insert env ssp key ptxid = Inr ssp1" and rest: "ptx_lines env xns ssp1 = Inr ssp'"
    using Cons.prems(1) by (auto simp: bindR_eq_Inr split: if_splits)
  have "\<exists>d. ssp1 = ssp\<lparr>ss_ptx_dict := d\<rparr> \<and> ptx_ok env ssp1 \<and> set d \<subseteq> insert (key, ptxid) (set (ss_ptx_dict ssp))"
  proof (cases "ptx_lookup env ssp key")
    case (Some e)
    then have "ssp1 = ssp" using ins by (simp add: shop_ptx_insert_def)
    then show ?thesis using Cons.prems(2) by (auto intro: exI [of _ "ss_ptx_dict ssp"])
  next
    case None
    let ?d = "ss_ptx_dict ssp" and ?k = "(key, ptxid)"
    have new: "\<forall>x \<in> set ?d. ptx_cmp ?k x \<noteq> 0"
      using None ptx_lookup_None [OF Cons.prems(2)] by (force simp: ptx_cmp_0 ptx_keys_def)
    have laws: "dict_laws (se_ptx env) (\<lambda>_. True) ptx_cmp" "dict_sorted ptx_cmp ?d"
      using Cons.prems(2) by (auto simp: ptx_ok_def)
    have "dict_insert (se_ptx env) ptx_cmp ?k ?d = Inr (place ptx_cmp ?k ?d)"
      by (rule dict_laws_insert [OF laws(1) _ _ laws(2) new]) simp_all
    then have "ssp1 = ssp\<lparr>ss_ptx_dict := place ptx_cmp ?k ?d\<rparr>" using ins None by (simp add: shop_ptx_insert_def)
    moreover have "dict_sorted ptx_cmp (place ptx_cmp ?k ?d)" by (rule ptx.place_sorted [OF laws(2)]) simp_all
    moreover have "set (place ptx_cmp ?k ?d) = insert ?k (set ?d)" by (rule ptx.set_place) (use new in simp_all)
    ultimately show ?thesis using laws(1) by (auto simp: ptx_ok_def)
  qed
  then obtain d where d: "ssp1 = ssp\<lparr>ss_ptx_dict := d\<rparr>" "ptx_ok env ssp1" "set d \<subseteq> insert (key, ptxid) (set (ss_ptx_dict ssp))"
    by blast
  from Cons.IH [OF rest d(2)] obtain d' where d': "ssp' = ssp1\<lparr>ss_ptx_dict := d'\<rparr>" "ptx_ok env ssp'"
    "\<forall>e \<in> set d'. e \<in> set (ss_ptx_dict ssp1) \<or> (\<exists>xn \<in> set xns. split_at (CHR ''='') xn = Some e)" by blast
  show ?case using d d' sp by (intro exI [of _ d']) auto
qed

lemma collect_pskeys_effect:
  "collect_pskeys env pskeys ssp = Inr ssp' \<Longrightarrow> frame_of ssp' = frame_of ssp \<and> ss_winner ssp' = ss_winner ssp \<and>
     ss_wix ssp' = ss_wix ssp"
proof (induction pskeys arbitrary: ssp)
  case (Cons pskey pskeys)
  then obtain pa ssp1 where "record_dummy env pa ssp = Inr ssp1" "collect_pskeys env pskeys ssp1 = Inr ssp'"
    by (auto simp: bindR_eq_Inr split: option.splits)
  with Cons.IH [of ssp1] record_dummy_effect [of env pa ssp ssp1] show ?case by simp
qed simp

lemma collect_lines_effect:
  "collect_lines env bufs ssp = Inr ssp' \<Longrightarrow> frame_of ssp' = frame_of ssp \<and> ss_winner ssp' = ss_winner ssp \<and>
     ss_wix ssp' = ss_wix ssp"
proof (induction bufs arbitrary: ssp)
  case (Cons buf bufs)
  obtain pskeys ptxes where sp: "split_at (CHR '','') buf = Some (pskeys, ptxes)"
    using Cons.prems by (cases "split_at (CHR '','') buf") (auto simp del: split_at_None)
  then obtain ssp1 where "(if ss_wix ssp \<in> set (strsep_all FS2 (Some ptxes))
      then collect_pskeys env (strsep_all FS2 (Some pskeys)) ssp else Inr ssp) = Inr ssp1"
    and rest: "collect_lines env bufs ssp1 = Inr ssp'"
    using Cons.prems by (auto simp: bindR_eq_Inr split: if_splits)
  then have "frame_of ssp1 = frame_of ssp \<and> ss_winner ssp1 = ss_winner ssp \<and> ss_wix ssp1 = ss_wix ssp"
    using collect_pskeys_effect [of env _ ssp ssp1] by (auto split: if_splits)
  with Cons.IH [OF rest] show ?case by simp
qed simp

lemma coalesce_clear: "ca_coalesce env ca = Inr ca' \<Longrightarrow> ca_clear_pa ca' = ca_clear_pa ca"
  by (auto simp: ca_coalesce_def bindR_eq_Inr ca_clear_pa_def split: if_splits option.splits)

lemma foreach_dry:
  "(\<And>w pa rc w'. process w pa = Inr (rc, w') \<Longrightarrow> f w' = f w) \<Longrightarrow> foreach_pa process pas w rc = Inr (rc', w') \<Longrightarrow> f w' = f w"
  by (induction pas arbitrary: w rc) (auto simp: bindR_eq_Inr split: if_splits)

definition changes_of :: "'h shop_world \<Rightarrow> fs_call list \<times> nat" where
  "changes_of w = (sw_calls w, RecycledCount w)"

lemma process_target_dry:
  "shop_process_target env False w spa = Inr (rc, w') \<Longrightarrow> changes_of w' = changes_of w"
  by (auto simp: shop_process_target_def shop_avoidable_def bindR_eq_Inr Let_def changes_of_def split: if_splits)

lemma process_targets_effect:
  assumes "shop_process_targets env ssp = Inr (err, ssp')"
  shows "ca_clear_pa (ss_ca ssp') = ca_clear_pa (ss_ca ssp)" and "ss_winner ssp' = ss_winner ssp"
    and "\<not> ss_getfiles ssp \<Longrightarrow> changes_of (ss_world ssp') = changes_of (ss_world ssp)"
proof -
  obtain ca rc w where ca: "ca_coalesce (se_ca env) (ss_ca ssp) = Inr ca"
    and f: "foreach_pa (shop_process_target env (ss_getfiles ssp)) (cooked_order ca) (ss_world ssp) 0 = Inr (rc, w)"
    and s: "ssp' = ssp\<lparr>ss_ca := ca, ss_world := w\<rparr>"
    using assms by (auto simp: shop_process_targets_def bindR_eq_Inr ca_foreach_cooked_pa_def)
  show "ca_clear_pa (ss_ca ssp') = ca_clear_pa (ss_ca ssp)" using coalesce_clear [OF ca] s by simp
  show "ss_winner ssp' = ss_winner ssp" using s by simp
  assume "\<not> ss_getfiles ssp"
  then have "changes_of w = changes_of (ss_world ssp)"
    using foreach_dry [where f = changes_of, OF process_target_dry] f by simp
  then show "changes_of (ss_world ssp') = changes_of (ss_world ssp)" using s by simp
qed

text \<open>The parts of a run of \<open>shop\<close> on a command that waits to start.\<close>

lemma shop_runE:
  assumes run: "shop env ca None getfiles w = Inr (rc, ca', w')" and "ShopCDB w"
  obtains re props xns ssp0 line cmds rc1 ssp1 ssp2
  where "re_init_prop (se_pcre env) (sw_props w) P_SHOP_IGNORE_PATH_RE = Inr (re, props)"
    and "se_cdb env PTX_PREFIX = Some xns"
    and "ptx_lines env xns (shop_start ca getfiles re (w\<lparr>sw_props := props\<rparr>)) = Inr ssp0"
    and "ca_line (ss_ca ssp0) = Some line" and "se_cdb env line = Some cmds"
    and "try_cmds env cmds SHOP_NOMATCH ssp0 = Inr (rc1, ssp1)"
    and "(if rc1 = SHOP_RECYCLED then
            bindR (shop_collect_targets env ssp1 (ss_wincmd ssp1)) (\<lambda>ssp.
            bindR (shop_process_targets env ssp) (\<lambda>(err, ssp).
              Inr (if err \<noteq> 0 then (SHOP_ERR, ssp)
                   else (rc1, ssp\<lparr>ss_ca := (ss_ca ssp)\<lparr>ca_recycled := set_str (Some (ss_winner ssp))\<rparr>\<rparr>))))
          else Inr (rc1, ssp1)) = Inr (rc, ssp2)"
    and "ca' = ca_clear_pa (ss_ca ssp2)" and "w' = ss_world ssp2"
proof -
  obtain re props where a: "re_init_prop (se_pcre env) (sw_props w) P_SHOP_IGNORE_PATH_RE = Inr (re, props)"
    using run \<open>ShopCDB w\<close> by (auto simp: shop_def bindR_eq_Inr)
  obtain xns where b: "se_cdb env PTX_PREFIX = Some xns"
    using run \<open>ShopCDB w\<close> a by (cases "se_cdb env PTX_PREFIX") (simp_all add: shop_def)
  obtain ssp0 where c: "ptx_lines env xns (shop_start ca getfiles re (w\<lparr>sw_props := props\<rparr>)) = Inr ssp0"
    using run \<open>ShopCDB w\<close> a b by (auto simp: shop_def bindR_eq_Inr)
  obtain line where d: "ca_line (ss_ca ssp0) = Some line"
    using run \<open>ShopCDB w\<close> a b c by (cases "ca_line (ss_ca ssp0)") (simp_all add: shop_def)
  obtain cmds where e: "se_cdb env line = Some cmds"
    using run \<open>ShopCDB w\<close> a b c d by (cases "se_cdb env line") (simp_all add: shop_def)
  obtain rc1 ssp1 where f: "try_cmds env cmds SHOP_NOMATCH ssp0 = Inr (rc1, ssp1)"
    using run \<open>ShopCDB w\<close> a b c d e by (auto simp: shop_def bindR_eq_Inr)
  obtain ssp2 where "(if rc1 = SHOP_RECYCLED then
            bindR (shop_collect_targets env ssp1 (ss_wincmd ssp1)) (\<lambda>ssp.
            bindR (shop_process_targets env ssp) (\<lambda>(err, ssp).
              Inr (if err \<noteq> 0 then (SHOP_ERR, ssp)
                   else (rc1, ssp\<lparr>ss_ca := (ss_ca ssp)\<lparr>ca_recycled := set_str (Some (ss_winner ssp))\<rparr>\<rparr>))))
          else Inr (rc1, ssp1)) = Inr (rc, ssp2)"
    and "ca' = ca_clear_pa (ss_ca ssp2)" and "w' = ss_world ssp2"
    using run \<open>ShopCDB w\<close> a b c d e f by (auto simp: shop_def bindR_eq_Inr)
  from that [OF a b c d e f this] show ?thesis .
qed

text \<open>The frame alone needs no assumption on the table or the roadmap.\<close>

lemma invalidate_frame: "frame_of (snd (shop_ptx_invalidate env ssp key ignored)) = frame_of ssp"
  by (simp add: shop_ptx_invalidate_def split: option.splits)

lemma invalidate_all_frame: "frame_of (invalidate_all env ixs ignored ssp) = frame_of ssp"
  by (induction ixs arbitrary: ssp) (simp_all add: invalidate_frame)

lemma cmp_pathstate_frame:
  assumes "shop_cmp_pathstate env ptxes1 ssp pskey = Inr ssp'"
  shows "frame_of ssp' = frame_of ssp"
  using assms
proof (rule cmp_pathstateE)
  fix csv shopped path explained cur ssp1 mismatch ignored
  assume cur: "current_ps env ssp shopped path = Inr (explained, cur, ssp1)"
    and rest: "if mismatch \<and> \<not> ignored then ssp' = invalidate_all env (strsep_all FS2 (Some ptxes1)) False ssp1
      else \<exists>ps. record_dummy env (pa_new\<lparr>pa_ps := Some ps, pa_op := OP_READ\<rparr>) ssp1 = Inr ssp'"
  have "frame_of ssp1 = frame_of ssp" by (rule goesD(1) [OF current_ps_effect(1) [OF cur]])
  with rest show "frame_of ssp' = frame_of ssp"
    by (auto simp: invalidate_all_frame dest!: record_dummy_effect(1) split: if_splits)
qed

lemma cmp_range_frame: "cmp_range env ptxes1 prefix n i ssp = Inr ssp' \<Longrightarrow> frame_of ssp' = frame_of ssp"
  by (induction n arbitrary: i ssp) (auto simp: bindR_eq_Inr dest!: cmp_pathstate_frame)

lemma cmp_pskey_frame: "cmp_pskey env ptxes1 pskey ssp = Inr ssp' \<Longrightarrow> frame_of ssp' = frame_of ssp"
  by (erule cmp_pskeyE) (auto dest: cmp_range_frame cmp_pathstate_frame)

lemma cmp_pskeys_frame: "cmp_pskeys env ptxes1 pskeys ssp = Inr ssp' \<Longrightarrow> frame_of ssp' = frame_of ssp"
  by (induction pskeys arbitrary: ssp) (auto simp: bindR_eq_Inr dest!: cmp_pskey_frame split: if_splits)

lemma mark_seen_frame: "frame_of (mark_seen env ixs ssp) = frame_of ssp"
proof -
  have "frame_of (shop_ptx_mark_as_seen env ssp key) = frame_of ssp" for ssp :: "'a shopping_state_s" and key
    by (simp add: shop_ptx_mark_as_seen_def split: option.splits)
  then show ?thesis unfolding mark_seen_def by (induction ixs arbitrary: ssp) simp_all
qed

lemma compare_lines_frame: "compare_lines env lines ssp = Inr ssp' \<Longrightarrow> frame_of ssp' = frame_of ssp"
proof (induction lines arbitrary: ssp)
  case (Cons line lines)
  show ?case
  proof (cases "shop_ptx_count ssp = 0")
    case False
    obtain pskeys ptxes1 where sp: "split_at (CHR '','') line = Some (pskeys, ptxes1)"
      using Cons.prems False by (cases "split_at (CHR '','') line") (auto simp del: split_at_None)
    then show ?thesis
      using Cons.prems Cons.IH False
      by (auto simp: bindR_eq_Inr mark_seen_frame Let_def dest!: cmp_pskeys_frame split: if_splits)
  qed (use Cons.prems in simp)
qed simp

lemma shop_for_cmd_frame:
  assumes "shop_for_cmd env ssp cmdix = Inr (rc, ssp')"
  shows "frame_of ssp' = frame_of ssp"
proof -
  have w: "shop_ptx_winner s = (b, s') \<Longrightarrow> frame_of s' = frame_of s" for s s' :: "'a shopping_state_s" and b
    by (auto simp: shop_ptx_winner_def frame_of_def split: option.splits)
  have p: "shop_compare_prereqs env ssp cmdix = Inr s \<Longrightarrow> frame_of s = frame_of ssp" for s
    by (auto simp: shop_compare_prereqs_def bindR_eq_Inr dest!: compare_lines_frame split: option.splits)
  show ?thesis
    using assms by (auto simp: shop_for_cmd_def bindR_eq_Inr Let_def dest!: p w split: option.splits list.splits if_splits prod.splits)
qed

lemma try_cmds_frame: "try_cmds env cmds rc ssp = Inr (rc', ssp') \<Longrightarrow> frame_of ssp' = frame_of ssp"
  by (induction cmds arbitrary: rc ssp) (auto simp: bindR_eq_Inr dest!: shop_for_cmd_frame split: if_splits)

lemma try_cmds_rc: "try_cmds env cmds rc ssp = Inr (rc', ssp') \<Longrightarrow> rc \<noteq> SHOP_OFF \<Longrightarrow> rc' \<noteq> SHOP_OFF"
proof (induction cmds arbitrary: rc ssp)
  case (Cons cmdix cmds)
  have "shop_for_cmd env ssp cmdix = Inr (r, s) \<Longrightarrow> r \<noteq> SHOP_OFF" for r s
    by (auto simp: shop_for_cmd_def bindR_eq_Inr Let_def split: option.splits list.splits if_splits prod.splits)
  with Cons show ?case by (auto simp: bindR_eq_Inr split: if_splits)
qed simp

lemma ptx_lines_frame: "ptx_lines env xns ssp = Inr ssp' \<Longrightarrow> frame_of ssp' = frame_of ssp"
proof (induction xns arbitrary: ssp)
  case (Cons xn xns)
  then obtain key ptxid where "split_at (CHR ''='') xn = Some (key, ptxid)"
    by (cases "split_at (CHR ''='') xn") (auto simp del: split_at_None split: if_splits)
  with Cons show ?case by (auto simp: bindR_eq_Inr shop_ptx_insert_def split: if_splits)
qed simp


lemma shop_effect:
  assumes run: "shop env ca None getfiles w = Inr (rc, ca', w')" and rc: "rc \<noteq> SHOP_OFF"
  shows "ca' = (ca_clear_pa ca)\<lparr>ca_recycled := ca_recycled ca'\<rparr> \<and>
    (rc \<noteq> SHOP_RECYCLED \<longrightarrow> ca_recycled ca' = ca_recycled ca) \<and>
    (\<not> getfiles \<longrightarrow> sw_calls w' = sw_calls w \<and> RecycledCount w' = RecycledCount w)"
proof -
  have "ShopCDB w" using run rc by (auto simp: shop_def split: if_splits)
  with run obtain re props xns ssp0 line cmds rc1 ssp1 ssp2
    where s0: "ptx_lines env xns (shop_start ca getfiles re (w\<lparr>sw_props := props\<rparr>)) = Inr ssp0"
      and s1: "try_cmds env cmds SHOP_NOMATCH ssp0 = Inr (rc1, ssp1)"
      and s2: "(if rc1 = SHOP_RECYCLED then
            bindR (shop_collect_targets env ssp1 (ss_wincmd ssp1)) (\<lambda>ssp.
            bindR (shop_process_targets env ssp) (\<lambda>(err, ssp).
              Inr (if err \<noteq> 0 then (SHOP_ERR, ssp)
                   else (rc1, ssp\<lparr>ss_ca := (ss_ca ssp)\<lparr>ca_recycled := set_str (Some (ss_winner ssp))\<rparr>\<rparr>))))
          else Inr (rc1, ssp1)) = Inr (rc, ssp2)"
      and r: "ca' = ca_clear_pa (ss_ca ssp2)" "w' = ss_world ssp2"
    by (rule shop_runE)
  have f1: "frame_of ssp1 = frame_of (shop_start ca getfiles re (w\<lparr>sw_props := props\<rparr>))"
    using ptx_lines_frame [OF s0] try_cmds_frame [OF s1] by simp
  then have c1: "ca_clear_pa (ss_ca ssp1) = ca_clear_pa ca" "changes_of (ss_world ssp1) = changes_of w"
    "ss_getfiles ssp1 = getfiles"
    by (simp_all add: frame_of_def shop_start_def changes_of_def)
  have rec: "ca_recycled (ca_clear_pa x) = ca_recycled x" for x by (simp add: ca_clear_pa_def)
  show ?thesis
  proof (cases "rc1 = SHOP_RECYCLED")
    case False
    then have "ssp2 = ssp1" using s2 by simp
    then show ?thesis using c1 r rec by (simp add: changes_of_def ca_clear_pa_def)
  next
    case True
    then obtain ssp3 err ssp4 where col: "shop_collect_targets env ssp1 (ss_wincmd ssp1) = Inr ssp3"
      and pro: "shop_process_targets env ssp3 = Inr (err, ssp4)"
      and end1: "(if err \<noteq> 0 then (SHOP_ERR, ssp4)
            else (rc1, ssp4\<lparr>ss_ca := (ss_ca ssp4)\<lparr>ca_recycled := set_str (Some (ss_winner ssp4))\<rparr>\<rparr>)) = (rc, ssp2)"
      using s2 by (auto simp: bindR_eq_Inr)
    have "frame_of ssp3 = frame_of ssp1"
      using col collect_lines_effect by (auto simp: shop_collect_targets_def split: option.splits)
    then have c3: "ca_clear_pa (ss_ca ssp3) = ca_clear_pa ca" "changes_of (ss_world ssp3) = changes_of w"
      "ss_getfiles ssp3 = getfiles"
      using c1 by (simp_all add: frame_of_def changes_of_def)
    note p = process_targets_effect [OF pro]
    have c4: "ca_clear_pa (ss_ca ssp4) = ca_clear_pa ca" using p(1) c3 by simp
    have w4: "\<not> getfiles \<Longrightarrow> changes_of (ss_world ssp4) = changes_of w" using p(3) c3 by simp
    have clear: "ca_clear_pa (x\<lparr>ca_recycled := v\<rparr>) = (ca_clear_pa x)\<lparr>ca_recycled := v\<rparr>" for x v
      by (simp add: ca_clear_pa_def)
    show ?thesis
    proof (cases "err = 0")
      case True
      then have "ca' = (ca_clear_pa ca)\<lparr>ca_recycled := set_str (Some (ss_winner ssp4))\<rparr>" "w' = ss_world ssp4"
        "rc = SHOP_RECYCLED"
        using end1 r c4 \<open>rc1 = _\<close> by (auto simp: clear)
      then show ?thesis using w4 by (simp add: changes_of_def)
    next
      case False
      then have "ca' = ca_clear_pa ca" "w' = ss_world ssp4" using end1 r c4 by auto
      then show ?thesis using w4 by (simp add: changes_of_def ca_clear_pa_def)
    qed
  qed
qed

lemma shop_leaves:
  assumes run: "shop env ca None getfiles w = Inr (rc, ca', w')"
  shows "ca' = ca \<or> (\<exists>r. ca' = (ca_clear_pa ca)\<lparr>ca_recycled := r\<rparr>)"
proof (cases "ShopCDB w")
  case False
  with run show ?thesis by (simp add: shop_def)
next
  case True
  show ?thesis
  proof (cases "rc = SHOP_OFF")
    case False
    from shop_effect [OF run this] show ?thesis by blast
  next
    case True
    with run \<open>ShopCDB w\<close> have False
      by (elim shop_runE) (auto simp: bindR_eq_Inr dest!: try_cmds_rc split: if_splits)
    then show ?thesis ..
  qed
qed

section \<open>The properties\<close>

definition ptx_upper :: "string list \<Rightarrow> bool" where
  \<comment> \<open>the server writes the keys of builds in upper case\<close>
  "ptx_upper xns = (\<forall>xn \<in> set xns. \<forall>key ptxid. split_at (CHR ''='') xn = Some (key, ptxid) \<longrightarrow>
     key \<noteq> [] \<longrightarrow> \<not> islower (hd key))"

text \<open>
  C2. A command is recycled only for a record of its command line that has targets and no
  children, from a build of the roadmap which some line of the record's prerequisites lists;
  and every line that lists the build holds only states that match: each of them is to be
  ignored by the user's wish, or does not differ from what \<open>ps_stat\<close> says of the file now.
\<close>

theorem shop_recycles_matching_build:
  assumes laws: "dict_laws (se_ptx env) (\<lambda>_. True) ptx_cmp"
    and up: "\<And>xns. se_cdb env PTX_PREFIX = Some xns \<Longrightarrow> ptx_upper xns"
    and run: "shop env ca None getfiles w = Inr (SHOP_RECYCLED, ca', w')"
  shows "\<exists>xns xn k ptxid re props line cmds cmdix lines.
    se_cdb env PTX_PREFIX = Some xns \<and> xn \<in> set xns \<and> split_at (CHR ''='') xn = Some (k, ptxid) \<and>
    ca_recycled ca' = set_str (Some (snprintf 32 ptxid)) \<and>
    re_init_prop (se_pcre env) (sw_props w) P_SHOP_IGNORE_PATH_RE = Inr (re, props) \<and>
    ca_line ca = Some line \<and> se_cdb env line = Some cmds \<and> cmdix \<in> set cmds \<and> recyclable env cmdix \<and>
    se_cdb env (snprintf 64 (CHR ''<'' # cmdix)) = Some lines \<and>
    matching_build env (sw_calls w) re lines (ptx_key k)"
proof -
  have "ShopCDB w" using run by (auto simp: shop_def split: if_splits)
  with run obtain re props xns ssp0 line cmds rc1 ssp1 ssp2
    where re: "re_init_prop (se_pcre env) (sw_props w) P_SHOP_IGNORE_PATH_RE = Inr (re, props)"
      and xns: "se_cdb env PTX_PREFIX = Some xns"
      and s0: "ptx_lines env xns (shop_start ca getfiles re (w\<lparr>sw_props := props\<rparr>)) = Inr ssp0"
      and line: "ca_line (ss_ca ssp0) = Some line" and cmds: "se_cdb env line = Some cmds"
      and s1: "try_cmds env cmds SHOP_NOMATCH ssp0 = Inr (rc1, ssp1)"
      and s2: "(if rc1 = SHOP_RECYCLED then
            bindR (shop_collect_targets env ssp1 (ss_wincmd ssp1)) (\<lambda>ssp.
            bindR (shop_process_targets env ssp) (\<lambda>(err, ssp).
              Inr (if err \<noteq> 0 then (SHOP_ERR, ssp)
                   else (rc1, ssp\<lparr>ss_ca := (ss_ca ssp)\<lparr>ca_recycled := set_str (Some (ss_winner ssp))\<rparr>\<rparr>))))
          else Inr (rc1, ssp1)) = Inr (SHOP_RECYCLED, ssp2)"
      and r: "ca' = ca_clear_pa (ss_ca ssp2)"
    by (rule shop_runE)
  let ?s = "shop_start ca getfiles re (w\<lparr>sw_props := props\<rparr>)"
  have "ptx_ok env ?s" using laws by (simp add: ptx_ok_def shop_start_def dict_sorted_def)
  from ptx_lines_effect [OF s0 this] obtain d where d: "ssp0 = ?s\<lparr>ss_ptx_dict := d\<rparr>" "ptx_ok env ssp0"
    "\<forall>e \<in> set d. \<exists>xn \<in> set xns. split_at (CHR ''='') xn = Some e"
    by (auto simp: shop_start_def)
  have "unseen ssp0" using d up [OF xns] by (fastforce simp: unseen_def ptx_upper_def)
  then have ok: "shop_ok env ssp0" using d by (simp add: shop_ok_def shop_start_def)
  have st: "sw_calls (ss_world ssp0) = sw_calls w" "ss_ignore_path_re ssp0 = re" "ss_ca ssp0 = ca"
    using d(1) by (simp_all add: shop_start_def)
  have rc1: "rc1 = SHOP_RECYCLED" using s2 by (auto split: if_splits)
  from try_cmds_effect [OF s1 ok] rc1 st obtain cmdix lines key ptxid
    where cmd: "cmdix \<in> set cmds" "recyclable env cmdix" "se_cdb env (snprintf 64 (CHR ''<'' # cmdix)) = Some lines"
      "(key, ptxid) \<in> builds ssp1" "ss_winner ssp1 = snprintf 32 ptxid"
      "matching_build env (sw_calls w) re lines key" and sub: "builds ssp1 \<subseteq> builds ssp0" by auto
  have "(key, ptxid) \<in> builds ssp0" using sub cmd(4) by blast
  then obtain k where k: "(k, ptxid) \<in> set d" "ptx_key k = key" using d(1) by (auto simp: builds_def)
  then obtain xn where xn: "xn \<in> set xns" "split_at (CHR ''='') xn = Some (k, ptxid)" using d(3) by blast
  obtain ssp3 err ssp4 where col: "shop_collect_targets env ssp1 (ss_wincmd ssp1) = Inr ssp3"
    and pro: "shop_process_targets env ssp3 = Inr (err, ssp4)"
    and ssp2: "ssp2 = ssp4\<lparr>ss_ca := (ss_ca ssp4)\<lparr>ca_recycled := set_str (Some (ss_winner ssp4))\<rparr>\<rparr>"
    using s2 rc1 by (auto simp: bindR_eq_Inr split: if_splits)
  have "ss_winner ssp3 = ss_winner ssp1"
    using col collect_lines_effect by (auto simp: shop_collect_targets_def split: option.splits)
  then have "ss_winner ssp4 = snprintf 32 ptxid" using process_targets_effect(2) [OF pro] cmd(5) by simp
  then have "ca_recycled ca' = set_str (Some (snprintf 32 ptxid))" using r ssp2 by (simp add: ca_clear_pa_def)
  then show ?thesis using xns xn re line st(3) cmds cmd(1-3,6) k(2) by blast
qed

text \<open>A roadmap with one build and one record of the command, for the witnesses.\<close>

definition shop_sample_cdb :: "string \<Rightarrow> string list option" where
  "shop_sample_cdb key = Some (
     if key = ''X'' then [''X1=7'']
     else if key = ''cc'' then [''C1'']
     else if key = ''C1'' then [''c0de,p,true,false,-,5,src'']
     else if key = ''<C1'' then [''S1,X1'']
     else if key = ''S1'' then [projr (ps_toCSVString sample_ps)]
     else [])"

definition shop_sample_env :: "unit shop_env" where
  "shop_sample_env = \<lparr>se_ca = sample_env, se_ptx = list_dict, se_pcre = (\<lambda>_. None),
     se_cdb = shop_sample_cdb, se_cdb_seq = [],
     se_fs = \<lparr>fs_sys = (\<lambda>_. \<lparr>sys_lstat = (\<lambda>p.
            Some \<lparr>st_size = 10, st_mode = 0x81A4, st_mtim = \<lparr>ntv_sec = 5, ntv_nsec = 7\<rparr>\<rparr>),
          sys_readlink = (\<lambda>_. None), sys_code_from_path = (\<lambda>_. Some ''abc''), sys_code_from_buffer = (\<lambda>_ _. None),
          hash_lookup = (\<lambda>_ _. None), hash_alloc_insert = (\<lambda>h _ _. Inr h)\<rparr>),
        fs_access = (\<lambda>_ _. True), fs_ok = (\<lambda>_ _. True), fs_enoent = (\<lambda>_ _. True),
        fs_down_load = (\<lambda>_ _. 0), fs_size = (\<lambda>_ _. Some 9)\<rparr>, se_alloc = (\<lambda>n. n)\<rparr>"

definition shop_sample_world :: "unit shop_world" where
  "shop_sample_world = \<lparr>sw_dcode = \<lparr>Ref_Time = zero_moment, Dcode_Offset = 0, Dcode_Hash_Table = None\<rparr>,
     sw_props = (prop_start [])\<lparr>pvals := [P_SHOP_IGNORE_PATH_RE \<mapsto> []]\<rparr>, sw_calls = [], sw_allocs = 0,
     RecycledCount = 0, ShopCDB = True\<rparr>"

definition shop_sample_ca :: cmd_audit_s where
  "shop_sample_ca = ca_new\<lparr>ca_line := Some ''cc''\<rparr>"

lemma shop_sample_ps:
  "ps_newFromCSVString (ce_pn sample_env) (projr (ps_toCSVString sample_ps)) = Inr sample_ps"
proof -
  have "ps_ok (ce_pn sample_env) sample_ps"
    using sample_ok by (simp add: pa_ok_def sample_pa_def sample_env_def)
  from ps_csv_roundtrip [OF this] show ?thesis by auto
qed

lemma shop_sample_pn: "pn_new (ce_pn sample_env) ''/p/a,b.c'' True = Some sample_pn"
  using canon_absolute [of slash "''p/a,b.c''"]
  by (simp add: sample_env_def sample_pn_def pn_get_abs_def pn_new_def Let_def putil_is_absolute_def sepchar_def
      backslash_def canon_step_def render_def slash_def pn_abs_to_project_relative_path_def strneq0_def)

lemma shop_sample_stat:
  "ps_stat (sw_sys shop_sample_env w) (sw_dcode shop_sample_world)
     (ps_newFromPath (ce_pn sample_env) ''/p/a,b.c'') True = Inr (0, sample_ps, sw_dcode shop_sample_world)"
  by (simp add: ps_stat_def ps_newFromPath_def shop_sample_pn ps_get_abs_def ps_new_def sw_sys_def shop_sample_env_def
      shop_sample_world_def sample_ps_def sample_pn_def pn_get_abs_def Let_def S_IFMT_def ps_is_file_def
      ps_get_cached_dcode_def ps_set_cached_dcode_def set_str_def CSV_FIELD_IS_NULL_def)

lemma shop_sample_copy: "ps_copy (ce_pn sample_env) sample_ps = Inr sample_ps"
proof -
  have "ps_get_abs sample_ps = Inr ''/p/a,b.c''"
    by (simp add: ps_get_abs_def sample_ps_def sample_pn_def pn_get_abs_def)
  then show ?thesis
    by (simp add: ps_copy_def ps_newFromPath_def shop_sample_pn ps_new_def)
      (simp add: sample_ps_def set_str_def ps_get_dcode_def CSV_FIELD_IS_NULL_def)
qed

lemma shop_sample_simps:
  "se_ca shop_sample_env = sample_env" "se_ptx shop_sample_env = list_dict" "se_cdb shop_sample_env = shop_sample_cdb"
  "se_alloc shop_sample_env n = n" "se_pcre shop_sample_env = (\<lambda>_. None)"
  by (simp_all add: shop_sample_env_def)

definition shop_sample_pa :: path_action_s where
  "shop_sample_pa = pa_new\<lparr>pa_ps := Some sample_ps, pa_op := OP_READ, pa_call := Some ''dummy''\<rparr>"

lemma shop_sample_cmp:
  assumes "ss_ignore_path_re ssp = None" "CurrentPS ssp = None" "ss_ca ssp = shop_sample_ca"
    "sw_dcode (ss_world ssp) = sw_dcode shop_sample_world" "sw_allocs (ss_world ssp) = 0"
  shows "shop_cmp_pathstate shop_sample_env ptxes1 ssp ''S1'' = Inr (ssp\<lparr>CurrentPS := Some sample_ps,
    ss_ca := shop_sample_ca\<lparr>ca_raw_pa_dict := Some [(0, shop_sample_pa)]\<rparr>,
    ss_world := (ss_world ssp)\<lparr>sw_allocs := Suc 0\<rparr>\<rparr>)"
proof -
  have f: "cdb_find shop_sample_env ''S1'' = Some (projr (ps_toCSVString sample_ps))"
    by (simp add: cdb_find_def shop_sample_simps shop_sample_cdb_def)
  have a: "ps_get_abs sample_ps = Inr ''/p/a,b.c''"
    by (simp add: ps_get_abs_def sample_ps_def sample_pn_def pn_get_abs_def)
  have d: "ps_has_dcode sample_ps" by (simp add: sample_ps_def ps_has_dcode_def)
  have n: "ps_diff ro sample_ps sample_ps = Inr None" for ro by (simp add: ps_diff_def a d)
  have c: "current_ps shop_sample_env ssp sample_ps ''/p/a,b.c'' = Inr (False, sample_ps,
      ssp\<lparr>CurrentPS := Some sample_ps, ss_world := (ss_world ssp)\<lparr>sw_dcode := sw_dcode shop_sample_world\<rparr>\<rparr>)"
    using assms by (simp add: current_ps_def Let_def shop_sample_simps shop_sample_stat d)
  have r: "record_dummy shop_sample_env (pa_new\<lparr>pa_ps := Some sample_ps, pa_op := OP_READ\<rparr>)
      (ssp\<lparr>CurrentPS := Some sample_ps, ss_world := (ss_world ssp)\<lparr>sw_dcode := sw_dcode shop_sample_world\<rparr>\<rparr>) =
    Inr (ssp\<lparr>CurrentPS := Some sample_ps, ss_ca := shop_sample_ca\<lparr>ca_raw_pa_dict := Some [(0, shop_sample_pa)]\<rparr>,
      ss_world := (ss_world ssp)\<lparr>sw_allocs := Suc 0\<rparr>\<rparr>)"
    using assms
    by (simp add: record_dummy_def ca_record_pa_def shop_sample_ca_def ca_new_def sample_env_def list_dict_def place_def
        shop_sample_pa_def shop_sample_env_def)
  show ?thesis
    by (simp add: shop_cmp_pathstate_def f shop_sample_simps shop_sample_ps a c n Let_def re_match_def assms(1)
        shop_sample_copy r)
qed

lemma shop_sample_coalesce:
  "ca_coalesce sample_env (shop_sample_ca\<lparr>ca_raw_pa_dict := Some [(0, shop_sample_pa)]\<rparr>) =
     Inr (shop_sample_ca\<lparr>ca_raw_pa_dict := Some [], ca_cooked_pa_dict := Some [shop_sample_pa]\<rparr>)"
proof -
  have "pa_copy (ce_pn sample_env) shop_sample_pa = Inr shop_sample_pa"
    by (simp add: pa_copy_def pa_get_ps_def shop_sample_pa_def shop_sample_copy pa_new_def set_str_def
        CSV_FIELD_IS_NULL_def pa_get_pccode_def pa_get_ccode_def)
  moreover have "dict_lookup (ce_cooked sample_env) cmp x [] = None" "dict_insert (ce_cooked sample_env) cmp x [] = Inr [x]"
    for cmp x by (simp_all add: sample_env_def list_dict_def place_def)
  ultimately show ?thesis by (simp add: ca_coalesce_def shop_sample_ca_def ca_new_def coalesce_one_def)
qed

lemma shop_sample_target: "shop_process_target shop_sample_env True w shop_sample_pa = Inr (0, w)"
  by (simp add: shop_process_target_def pa_get_abs_def pa_get_ps_def shop_sample_pa_def ps_get_abs_def
      sample_ps_def sample_pn_def pn_get_abs_def pa_new_def)

lemma shop_sample_run: "\<exists>ca' w'. shop shop_sample_env shop_sample_ca None True shop_sample_world = Inr (SHOP_RECYCLED, ca', w')"
proof -
  let ?e = shop_sample_env
  have re: "re_init_prop (\<lambda>_. None) (sw_props shop_sample_world) P_SHOP_IGNORE_PATH_RE = Inr (None, sw_props shop_sample_world)"
    using prop_get_str_Some [of "sw_props shop_sample_world" P_SHOP_IGNORE_PATH_RE "[]"]
    by (simp add: re_init_prop_def shop_sample_world_def PROP_NULL_def)
  have w: "shop_sample_world\<lparr>sw_props := sw_props shop_sample_world\<rparr> = shop_sample_world" by simp
  have case1: "tolower (CHR ''X'') = CHR ''x''" "toupper (CHR ''x'') = CHR ''X''" "tolower (CHR ''1'') = CHR ''1''" by code_simp+
  let ?start = "shop_start shop_sample_ca True None shop_sample_world"
  let ?sa = "?start\<lparr>ss_ptx_dict := [(''X1'', ''7'')]\<rparr>"
  have ptx: "ptx_lines ?e [''X1=7''] ?start = Inr ?sa"
    by (simp add: split_at_def shop_ptx_insert_def ptx_lookup_def shop_start_def shop_sample_simps list_dict_def place_def
        ptx_cmp_def c_stricmp_def)
  let ?sb = "?start\<lparr>ss_ptx_dict := [(''x1'', ''7'')]\<rparr>"
  let ?w = "shop_sample_world\<lparr>sw_allocs := Suc 0\<rparr>"
  let ?ca = "shop_sample_ca\<lparr>ca_raw_pa_dict := Some [(0, shop_sample_pa)]\<rparr>"
  let ?sc = "?sb\<lparr>CurrentPS := Some sample_ps, ss_ca := ?ca, ss_world := ?w\<rparr>"
  have mark: "mark_seen ?e [''X1''] ?sa = ?sb"
    by (simp add: mark_seen_def shop_ptx_mark_as_seen_def ptx_lookup_def shop_sample_simps list_dict_def ptx_cmp_def
        c_stricmp_def isupper_def case1)
  have contains: "shop_ptx_contains ?e ?sa ''X1''"
    by (simp add: shop_ptx_contains_def ptx_lookup_def shop_sample_simps list_dict_def ptx_cmp_def c_stricmp_def)
  have tok: "strsep_all FS2 (Some ''X1'') = [''X1'']" "strsep_all FS2 (Some ''S1'') = [''S1'']"
    by (simp_all add: FS2_def strsep_all.simps)
  have pre: "ss_ignore_path_re ?sb = None" "CurrentPS ?sb = None" "ss_ca ?sb = shop_sample_ca"
    "ss_world ?sb = shop_sample_world" "sw_dcode (ss_world ?sb) = sw_dcode shop_sample_world"
    "sw_allocs (ss_world ?sb) = 0"
    by (simp_all add: shop_start_def) (simp add: shop_sample_world_def)
  have cmp: "shop_cmp_pathstate ?e ''X1'' ?sb ''S1'' = Inr ?sc"
    by (rule trans [OF shop_sample_cmp [OF pre(1-3) pre(5,6)]]) (simp add: shop_start_def)
  have pskey: "cmp_pskey ?e ''X1'' ''S1'' ?sb = Inr ?sc" by (simp add: cmp_pskey_def split_at_def cmp)
  have cnt: "shop_ptx_count ?sa = 1" "shop_ptx_count ?sb = 1" "shop_ptx_count ?sc = 1"
    by (simp_all add: shop_ptx_count_def)
  have lines: "compare_lines ?e [''S1,X1''] ?sa = Inr ?sc"
    using cnt contains by (simp add: split_at_def tok mark pskey Let_def)
  let ?se = "?start\<lparr>ss_ptx_dict := [(''x1'', ''7'')], ss_ca := ?ca, ss_world := ?w, CurrentPS := None\<rparr>"
  have prq: "shop_compare_prereqs ?e ?sa ''C1'' = Inr ?se"
    by (simp add: shop_compare_prereqs_def snprintf_def shop_sample_simps shop_sample_cdb_def lines
        del: compare_lines.simps)
  let ?sd = "?se\<lparr>ss_wix := ''X1'', ss_winner := ''7'', ss_wincmd := ''C1''\<rparr>"
  have win: "shop_ptx_winner ?se = (True, ?se\<lparr>ss_wix := ''X1'', ss_winner := ''7''\<rparr>)"
    by (simp add: shop_ptx_winner_def islower_def case1 snprintf_def)
  have fields: "take_fields 7 (Some ''c0de,p,true,false,-,5,src'') =
      Some ([''c0de'', ''p'', ''true'', ''false'', ''-'', ''5'', ''src''], None)"
    by (simp add: eval_nat_numeral util_strsep_def FS1_def)
  have truth: "IS_TRUE ''true''" "\<not> IS_TRUE ''false''" by code_simp+
  have found: "cdb_find ?e ''C1'' = Some ''c0de,p,true,false,-,5,src''"
    by (simp add: cdb_find_def shop_sample_simps shop_sample_cdb_def)
  have cntd: "shop_ptx_count ?se = 1" by (simp add: shop_ptx_count_def)
  have "snprintf 32 ''C1'' = ''C1''" by (simp add: snprintf_def)
  then have cmd: "shop_for_cmd ?e ?sa ''C1'' = Inr (SHOP_RECYCLED, ?sd)"
    using cnt(1) cntd by (simp add: shop_for_cmd_def found fields truth CSV_FIELD_IS_NULL_def prq win)
  have tried: "try_cmds ?e [''C1''] SHOP_NOMATCH ?sa = Inr (SHOP_RECYCLED, ?sd)" by (simp add: cmd)
  have col: "shop_collect_targets ?e ?sd ''C1'' = Inr ?sd"
    by (simp add: shop_collect_targets_def snprintf_def shop_sample_simps shop_sample_cdb_def)
  have pro: "shop_process_targets ?e ?sd = Inr (0, ?sd\<lparr>ss_ca := shop_sample_ca\<lparr>ca_raw_pa_dict := Some [],
      ca_cooked_pa_dict := Some [shop_sample_pa]\<rparr>\<rparr>)"
    by (simp add: shop_process_targets_def shop_sample_simps shop_sample_coalesce ca_foreach_cooked_pa_def cooked_order_def
        shop_sample_target shop_start_def)
  have line: "ca_line (ss_ca ?start) = Some ''cc''" by (simp add: shop_start_def shop_sample_ca_def)
  have "ShopCDB shop_sample_world" by (simp add: shop_sample_world_def)
  then show ?thesis
    unfolding shop_def
    by (simp add: shop_sample_simps re shop_sample_cdb_def PTX_PREFIX_def ptx line tried col pro
        del: ptx_lines.simps try_cmds.simps)
qed

theorem shop_recycles_matching_build_witness:
  "\<exists>ca' w'. shop shop_sample_env shop_sample_ca None True shop_sample_world = Inr (SHOP_RECYCLED, ca', w') \<and>
     (\<exists>ptxid. ca_recycled ca' = set_str (Some (snprintf 32 ptxid)))"
proof -
  obtain ca' w' where run: "shop shop_sample_env shop_sample_ca None True shop_sample_world = Inr (SHOP_RECYCLED, ca', w')"
    using shop_sample_run by blast
  have "dict_laws (se_ptx shop_sample_env) (\<lambda>_. True) ptx_cmp" by (simp add: shop_sample_simps list_dict_laws)
  moreover have "se_cdb shop_sample_env PTX_PREFIX = Some xns \<Longrightarrow> ptx_upper xns" for xns
    by (auto simp: shop_sample_simps shop_sample_cdb_def PTX_PREFIX_def ptx_upper_def split_at_def islower_def)
  ultimately show ?thesis using shop_recycles_matching_build [OF _ _ run] run by blast
qed









end
