(* ===== verification/MonitorLines.thy ===== *)
theory MonitorLines
  imports MonitorSafe ShopProofs
begin

text \<open>
  Every line keeps the invariant of the monitor's table, and the safety properties that follow
  for all states the monitor can reach.
\<close>

section \<open>Joining a group\<close>

definition no_match :: "cmd_key_s \<Rightarrow> (cmd_key_s \<times> ca_o) list \<Rightarrow> bool" where
  "no_match ck es = (\<forall>e \<in> set es. \<not> hash_match ca_o_hash_cmp ca_o_hash_func ck e)"

lemma control_frame:
  assumes "\<And>x. control (s' x) = control (s x)" and "\<And>x. cmd_open (s' x) = cmd_open (s x)"
  shows "table_ok h s' = table_ok h s"
  using table_ok_cong [of h s' s] table_ok_cong [of h s s'] assms table_okD(2) [of h] by metis

lemma keys_ok_add:
  assumes "keys_ok g s" and "mset g' = mset ((ck_new_from_ca (s a), a) # g)" and "a \<notin> snd ` set g"
  shows "keys_ok g' s" and "set g' = insert (ck_new_from_ca (s a), a) (set g)"
proof -
  show s: "set g' = insert (ck_new_from_ca (s a), a) (set g)"
    using mset_eq_setD [OF assms(2)] by simp
  have "distinct (map snd ((ck_new_from_ca (s a), a) # g))" using assms(1,3) by (auto simp: keys_ok_def)
  moreover have "mset (map snd g') = mset (map snd ((ck_new_from_ca (s a), a) # g))"
    using assms(2) by (simp only: mset_map)
  ultimately have "distinct (map snd g')" using mset_eq_imp_distinct_iff by blast
  then show "keys_ok g' s" using assms(1) s by (auto simp: keys_ok_def)
qed

lemma aggregate_ok:
  assumes ok: "table_ok h s" and laws: "hash_laws (ce_hash env) ca_o_hash_cmp ca_o_hash_func"
    and a: "a \<in> open_cmds h" "ca_leader (s a) = None" and l: "l \<in> open_cmds h"
    and new: "\<forall>e \<in> set h. snd e \<noteq> a \<longrightarrow> \<not> hash_match ca_o_hash_cmp ca_o_hash_func (ck_new_from_ca (s a)) e"
    and agg: "ca_aggregate env l a s = Inr s'"
  shows "table_ok h s'"
proof -
  obtain g where g: "ca_group_hash (s l) = Some g"
    using agg by (auto simp: ca_aggregate_def split: option.splits)
  have lm: "x \<in> open_cmds h \<and> ca_leader (s x) = Some l" if "x \<in> insert l (snd ` set g)" for x
    using table_okD(4) [OF ok l, of x] that by (simp add: group_members_simps(2) [where s = s and l = l, OF g])
  have gk: "keys_ok g s" "l \<notin> snd ` set g" using table_okD(5) [OF ok l g] by auto
  have ag: "a \<notin> insert l (snd ` set g)" using lm [of a] a by auto
  have none: "hash_find (ce_hash env) ca_o_hash_cmp ca_o_hash_func (ck_new_from_ca (s a)) g = None"
  proof (cases "hash_find (ce_hash env) ca_o_hash_cmp ca_o_hash_func (ck_new_from_ca (s a)) g")
    case (Some e)
    then have e: "e \<in> set g" "hash_match ca_o_hash_cmp ca_o_hash_func (ck_new_from_ca (s a)) e"
      using hash_findD(2) [OF laws] by blast+
    then have "snd e \<in> open_cmds h" "fst e = ck_new_from_ca (s (snd e))" "snd e \<noteq> a"
      using lm gk ag by (auto simp: keys_ok_def)
    then obtain e' where "e' \<in> set h" "snd e' = snd e" by (auto simp: open_cmds_def)
    moreover from this have "fst e' = fst e"
      using table_okD(1) [OF ok] \<open>fst e = _\<close> by (auto simp: keys_ok_def)
    ultimately have "e \<in> set h" by (metis prod.collapse)
    with new e(2) \<open>snd e \<noteq> a\<close> show ?thesis by blast
  qed
  then obtain g' where ins: "hash_insert (ce_hash env) ca_o_hash_cmp ca_o_hash_func (ck_new_from_ca (s a)) a g = Inr g'"
    and s': "s' = s(l := (s l)\<lparr>ca_group_hash := Some g'\<rparr>, a := (s a)\<lparr>ca_leader := Some l\<rparr>)"
    using agg g ag by (auto simp: ca_aggregate_def Let_def bindR_eq_Inr ca_set_leader_def)
  have g': "mset g' = mset ((ck_new_from_ca (s a), a) # g)" by (rule hash_insert_new [OF laws none ins])
  note add = keys_ok_add [OF gk(1) g']
  have ga: "set g' = insert (ck_new_from_ca (s a), a) (set g)" "keys_ok g' s" using add ag by auto
  have ka: "ck_new_from_ca (s' x) = ck_new_from_ca (s x)" "cmd_open (s' x) = cmd_open (s x)" for x
    by (simp_all add: s' ck_new_from_ca_def ck_new_def ca_get_ccode_def cmd_open_def)
  have kk: "keys_ok f s' = keys_ok f s" for f by (simp add: keys_ok_def ka)
  have gh: "ca_group_hash (s' x) = (if x = l then Some g' else ca_group_hash (s x))" for x
    using ag by (simp add: s')
  have gm: "group_members s' x = (if x = l then insert a (group_members s l) else group_members s x)" for x
    using gh [of x] g ga(1) by (auto simp: group_members_def)
  have ld: "ca_leader (s' x) = (if x = a then Some l else ca_leader (s x))" for x
    using ag by (simp add: s')
  show ?thesis
    unfolding table_ok_def kk ka(2)
  proof (intro conjI ballI allI impI)
    fix x k assume x: "x \<in> open_cmds h" "ca_leader (s' x) = Some k"
    show "k \<in> open_cmds h" "x \<in> group_members s' k"
      using x table_okD(3) [OF ok x(1)] l by (auto simp: ld gm split: if_splits)
  next
    fix k x assume k: "k \<in> open_cmds h" "x \<in> group_members s' k"
    have "x = a \<and> k = l \<or> x \<in> group_members s k" using k(2) by (auto simp: gm split: if_splits)
    moreover have "x \<noteq> a" if "x \<in> group_members s k" using table_okD(4) [OF ok k(1) that] a(2) by auto
    ultimately have "x \<in> open_cmds h \<and> ca_leader (s' x) = Some k"
      using table_okD(4) [OF ok k(1)] a by (auto simp: ld)
    then show "x \<in> open_cmds h" "ca_leader (s' x) = Some k" by auto
  next
    fix k f assume k: "k \<in> open_cmds h" "ca_group_hash (s' k) = Some f"
    show "keys_ok f s" "k \<notin> snd ` set f"
      using k table_okD(5) [OF ok k(1)] ga gk ag by (auto simp: gh split: if_splits)
  qed (use ok in \<open>auto dest: table_okD\<close>)
qed

section \<open>A new command\<close>

lemma insert_ok:
  assumes ok: "table_ok h s" and laws: "hash_laws ops ca_o_hash_cmp ca_o_hash_func"
    and a: "a \<notin> open_cmds h" and ca: "ca_leader ca = None" "ca_group_hash ca = None" "cmd_open ca"
    and none: "hash_find ops ca_o_hash_cmp ca_o_hash_func (ck_new_from_ca ca) h = None"
    and ins: "hash_insert ops ca_o_hash_cmp ca_o_hash_func (ck_new_from_ca ca) a h = Inr h'"
  shows "table_ok h' (s(a := ca))" and "open_cmds h' = insert a (open_cmds h)"
    and "\<forall>e \<in> set h'. snd e \<noteq> a \<longrightarrow> \<not> hash_match ca_o_hash_cmp ca_o_hash_func (ck_new_from_ca ca) e"
proof -
  let ?s = "s(a := ca)"
  have m: "mset h' = mset ((ck_new_from_ca (?s a), a) # h)" using hash_insert_new [OF laws none ins] by simp
  have h: "table_ok h ?s" by (rule table_ok_store [OF ok]) (use a in auto)
  note add = keys_ok_add [where s = ?s and a = a, OF table_okD(1) [OF h] m]
  have ah: "a \<notin> snd ` set h" using a by (simp add: open_cmds_def)
  have s: "set h' = insert (ck_new_from_ca ca, a) (set h)" "keys_ok h' ?s"
    using add(2) [OF ah] add(1) [OF ah] by simp_all
  show o: "open_cmds h' = insert a (open_cmds h)" using s(1) by (simp add: open_cmds_def)
  have gm: "group_members ?s a = {}" using ca(2) by (simp add: group_members_def)
  show "table_ok h' ?s"
    unfolding table_ok_def o
  proof (intro conjI ballI allI impI)
    show "keys_ok h' ?s" by (rule s(2))
    fix x assume "x \<in> insert a (open_cmds h)"
    then show "cmd_open (?s x)" using ca(3) table_okD(2) [OF h, of x] by (cases "x = a") auto
  next
    fix x l assume x: "x \<in> insert a (open_cmds h)" "ca_leader (?s x) = Some l"
    then have "x \<in> open_cmds h" using ca(1) by auto
    with x(2) table_okD(3) [OF h] show "l \<in> insert a (open_cmds h)" "x \<in> group_members ?s l" by blast+
  next
    fix l x assume l: "l \<in> insert a (open_cmds h)" "x \<in> group_members ?s l"
    then have "l \<in> open_cmds h" using gm by auto
    with l(2) table_okD(4) [OF h] show "x \<in> insert a (open_cmds h)" "ca_leader (?s x) = Some l" by blast+
  next
    fix l g assume l: "l \<in> insert a (open_cmds h)" "ca_group_hash (?s l) = Some g"
    then have "l \<in> open_cmds h" using ca(2) by auto
    with l(2) table_okD(5) [OF h] show "keys_ok g ?s" "l \<notin> snd ` set g" by blast+
  qed
  show "\<forall>e \<in> set h'. snd e \<noteq> a \<longrightarrow> \<not> hash_match ca_o_hash_cmp ca_o_hash_func (ck_new_from_ca ca) e"
    using hash_findD(1) [OF laws none] s(1) by auto
qed

lemma newFromCSV_new:
  assumes "ca_newFromCSVString env csv = Inr ca"
  shows "ca_leader ca = None \<and> ca_group_hash ca = None \<and> cmd_open ca"
  using assms
  by (auto simp: ca_newFromCSVString_def bindR_eq_Inr Let_def ca_set_line_def ca_new_def cmd_open_def
      split: option.splits list.splits if_splits prod.splits)


text \<open>What the hash table promises.\<close>

definition env_ok :: "'h mon_env \<Rightarrow> bool" where
  "env_ok env = hash_laws (ce_hash (me_ca env)) ca_o_hash_cmp ca_o_hash_func"

lemma mon_lookup_live:
  assumes "hash_laws (ce_hash (me_ca env)) ca_o_hash_cmp ca_o_hash_func" and "mon_lookup env h ck = Some x"
  shows "\<exists>k. (k, x) \<in> set h \<and> hash_match ca_o_hash_cmp ca_o_hash_func ck (k, x)"
  using assms(2) hash_findD(2) [OF assms(1)] by (force simp: mon_lookup_def)

lemma mon_pred_live:
  assumes "hash_laws (ce_hash (me_ca env)) ca_o_hash_cmp ca_o_hash_func" and "mon_pred env h ca = Some x"
  shows "x \<in> open_cmds h"
proof -
  have "mon_lookup env h ck = Some x \<Longrightarrow> x \<in> open_cmds h" for ck
    using mon_lookup_live [OF assms(1)] by (force simp: open_cmds_def)
  then show ?thesis using assms(2) by (auto simp: mon_pred_def split: if_splits option.splits)
qed

lemma mon_group_ok:
  assumes env: "env_ok env" and h: "AuditHash st = Some h" "table_ok h (ms_store st)"
    and a: "a \<in> open_cmds h" "ca_leader (ms_store st a) = None"
    and ldr: "\<forall>l. ldr = Some l \<longrightarrow> (\<exists>x \<in> open_cmds h. ca_leader (ms_store st x) = Some l)"
    and new: "\<forall>e \<in> set h. snd e \<noteq> a \<longrightarrow> \<not> hash_match ca_o_hash_cmp ca_o_hash_func (ck_new_from_ca (ms_store st a)) e"
    and run: "mon_group env a lev ldr st = Inr st'"
  shows "monitor_ok st' \<and> a \<in> live st'"
proof -
  let ?s = "ms_store st"
  note laws = env [unfolded env_ok_def]
  have join: "monitor_ok st' \<and> a \<in> live st'"
    if "bindR (ca_aggregate (me_ca env) l a ?s) (\<lambda>s. Inr (st\<lparr>ms_store := s\<rparr>)) = Inr st'" "l \<in> open_cmds h" for l
  proof -
    obtain s1 where "ca_aggregate (me_ca env) l a ?s = Inr s1" "st' = st\<lparr>ms_store := s1\<rparr>"
      using \<open>bindR _ _ = _\<close> by (auto simp: bindR_eq_Inr)
    then show ?thesis using aggregate_ok [OF h(2) laws a that(2) new] h(1) a(1) by (simp add: monitor_ok_def)
  qed
  have start: "monitor_ok st' \<and> a \<in> live st'"
    if q: "bindR (ca_start_group a b ?s) (\<lambda>s. Inr (st\<lparr>ms_store := s\<rparr>)) = Inr st'" for b
  proof -
    obtain s1 where "ca_start_group a b ?s = Inr s1" "st' = st\<lparr>ms_store := s1\<rparr>"
      using q by (auto simp: bindR_eq_Inr)
    then show ?thesis using start_group_ok [OF h(2) a] h(1) a(1) by (simp add: monitor_ok_def)
  qed
  show ?thesis
  proof (cases ldr)
    case None
    show ?thesis
    proof (cases "lev = AGG_NONE \<or> lev = AGG_NEUTRAL \<or> lev = AGG_BREAK")
      case True
      then have "st' = st" using run None by (auto simp: mon_group_def Let_def)
      then show ?thesis using h a by (auto simp: monitor_ok_def)
    next
      case False
      then show ?thesis using run None start by (auto simp: mon_group_def Let_def)
    qed
  next
    case (Some l)
    obtain x where x: "x \<in> open_cmds h" "ca_leader (?s x) = Some l" using ldr Some by blast
    obtain g where l: "l \<in> open_cmds h" "ca_group_hash (?s l) = Some g"
      using leader_of_group [OF h(2) x] by metis
    show ?thesis
    proof (cases "bindR (ca_aggregate (me_ca env) l a ?s) (\<lambda>s. Inr (st\<lparr>ms_store := s\<rparr>)) = Inr st'")
      case True
      then show ?thesis by (rule join [OF _ l(1)])
    next
      case False
      then obtain w1 s1 s2 where dis: "ca_disband (me_ca env) (mon_process_ca env) l (ms_world st, ?s) = Inr (w1, s1)"
        and s2: "(if lev \<noteq> AGG_BREAK then ca_start_group a (lev = AGG_STRONG) s1 else Inr s1) = Inr s2"
        and st': "st' = mon_clean_up_ca_table (with_store st (w1, s2))"
        using run Some by (auto simp: mon_group_def Let_def bindR_eq_Inr split: if_splits)
      note d = mon_disband_ok [OF h(2) l dis]
      let ?h = "filter (\<lambda>e. \<not> ca_processed (s1 (snd e))) h"
      have "a \<notin> insert l (snd ` set g)"
        using table_okD(4) [OF h(2) l(1), of a] a(2) group_members_simps(2) [where s = ?s and l = l, OF l(2)] by auto
      then have sa: "s1 a = ?s a" using d by blast
      then have a': "a \<in> open_cmds ?h" "ca_leader (s1 a) = None"
        using a table_okD(2) [OF h(2) a(1)] by (auto simp: open_cmds_def cmd_open_def)
      have ok2: "table_ok ?h s2"
        using s2 start_group_ok [OF conjunct1 [OF d] a'] conjunct1 [OF d] by (auto split: if_splits)
      have "ca_processed (s2 x) = ca_processed (s1 x)" for x
        using s2 by (auto simp: ca_start_group_def split: if_splits)
      then have "AuditHash st' = Some ?h" "ms_store st' = s2"
        using h(1) by (simp_all add: st' mon_clean_up_ca_table_def with_store_def)
      then show ?thesis using ok2 a'(1) by (simp add: monitor_ok_def)
    qed
  qed
qed

lemma monitor_ok_update:
  assumes "monitor_ok st" and "x \<in> live st \<Longrightarrow> control obj = control (ms_store st x) \<and> cmd_open obj"
  shows "monitor_ok (st\<lparr>ms_store := (ms_store st)(x := obj)\<rparr>)"
proof -
  obtain h where h: "AuditHash st = Some h" "table_ok h (ms_store st)" "live st = open_cmds h"
    using monitor_okE [OF assms(1)] .
  have "table_ok h ((ms_store st)(x := obj))"
    by (rule table_ok_cong [OF _ h(2)]) (use assms(2) h(3) table_okD(2) [OF h(2)] in auto)
  then show ?thesis using h by (simp add: monitor_ok_def)
qed

lemma mon_shop_steps:
  assumes "mon_shop env a no_shop st = Inr (bits, winner, st')"
  shows "st' = st \<or> (\<exists>rc obj w. shop (me_shop env) (ms_store st a) None True (mw_shop (ms_world st)) = Inr (rc, obj, w) \<and>
    st' = st\<lparr>ms_store := (ms_store st)(a := obj), ms_world := (ms_world st)\<lparr>mw_shop := w\<rparr>\<rparr>)"
proof (cases "prop_has_value (mw_props (ms_world st)) P_SERVER \<and> \<not> no_shop")
  case True
  then obtain rc obj w where sh: "shop (me_shop env) (ms_store st a) None True (mw_shop (ms_world st)) = Inr (rc, obj, w)"
    using assms by (auto simp: mon_shop_def bindR_eq_Inr)
  then have "st' = st\<lparr>ms_store := (ms_store st)(a := obj), ms_world := (ms_world st)\<lparr>mw_shop := w\<rparr>\<rparr>"
    using assms True by (auto simp: mon_shop_def Let_def bindR_eq_Inr)
  with sh show ?thesis by blast
qed (use assms in \<open>auto simp: mon_shop_def\<close>)

lemma mon_shop_ok:
  assumes ok: "monitor_ok st" "a \<in> live st" and run: "mon_shop env a no_shop st = Inr (bits, winner, st')"
  shows "monitor_ok st' \<and> live st' = live st"
proof (cases "st' = st")
  case False
  then obtain rc obj w where sh: "shop (me_shop env) (ms_store st a) None True (mw_shop (ms_world st)) = Inr (rc, obj, w)"
    and st': "st' = st\<lparr>ms_store := (ms_store st)(a := obj), ms_world := (ms_world st)\<lparr>mw_shop := w\<rparr>\<rparr>"
    using mon_shop_steps [OF run] by blast
  from shop_leaves [OF sh] have "obj = ms_store st a \<or> (\<exists>r. obj = (ca_clear_pa (ms_store st a))\<lparr>ca_recycled := r\<rparr>)" .
  moreover have "cmd_open (ms_store st a)" using ok table_okD(2) by (auto elim: monitor_okE)
  ultimately have "control obj = control (ms_store st a) \<and> cmd_open obj"
    by (auto simp: control_def cmd_open_def ck_new_from_ca_def ck_new_def ca_get_ccode_def ca_clear_pa_def)
  then have "monitor_ok (st\<lparr>ms_store := (ms_store st)(a := obj)\<rparr>)" by (intro monitor_ok_update ok)
  then show ?thesis by (simp add: st' monitor_ok_def live_def)
qed (use ok in simp)

lemma mon_soa_ok:
  assumes env: "env_ok env" and ok: "monitor_ok st" and a: "a \<notin> live st"
    and run: "mon_soa env a now small csv rc st = Inr (r, st')"
  shows "monitor_ok st' \<and> a \<in> live st'"
proof -
  obtain h where h: "AuditHash st = Some h" "table_ok h (ms_store st)" "live st = open_cmds h"
    using monitor_okE [OF ok] .
  note laws = env [unfolded env_ok_def]
  let ?s = "ms_store st"
  obtain ca0 where ca0: "ca_newFromCSVString (me_ca env) csv = Inr ca0"
    using run by (auto simp: mon_soa_def bindR_eq_Inr Let_def)
  let ?ca = "ca0\<lparr>ca_starttime := now, ca_started := True\<rparr>"
  have key: "ck_new_from_ca ?ca = ck_new_from_ca ca0" by (simp add: ck_new_from_ca_def ca_get_ccode_def)
  obtain h1 aggprop st1 no_shop bits winner
    where none: "mon_lookup env h (ck_new_from_ca ca0) = None"
      and ins: "hash_insert (ce_hash (me_ca env)) ca_o_hash_cmp ca_o_hash_func (ck_new_from_ca ca0) a h = Inr h1"
      and grp: "mon_group env a (mon_agglevel env aggprop (?s(a := ?ca))
          (Option.bind (mon_pred env h ?ca) (\<lambda>p. ca_leader ((?s(a := ?ca)) p))) ?ca)
          (Option.bind (mon_pred env h ?ca) (\<lambda>p. ca_leader ((?s(a := ?ca)) p)))
          (st\<lparr>AuditHash := Some h1, ms_store := ?s(a := ?ca)\<rparr>) = Inr st1"
      and shop: "mon_shop env a no_shop st1 = Inr (bits, winner, st')"
    using run h(1) ca0 by (auto simp: mon_soa_def bindR_eq_Inr Let_def split: if_splits)
  have new: "ca_leader ?ca = None" "ca_group_hash ?ca = None" "cmd_open ?ca"
    using newFromCSV_new [OF ca0] by (simp_all add: cmd_open_def)
  have none': "hash_find (ce_hash (me_ca env)) ca_o_hash_cmp ca_o_hash_func (ck_new_from_ca ?ca) h = None"
    using none by (simp add: mon_lookup_def key)
  have ah: "a \<notin> open_cmds h" using a h(3) by simp
  note inserted = insert_ok [OF h(2) laws ah new none' ins [folded key]]
  let ?st = "st\<lparr>AuditHash := Some h1, ms_store := ?s(a := ?ca)\<rparr>"
  have "monitor_ok st1 \<and> a \<in> live st1"
  proof (rule mon_group_ok [OF env, where st = ?st and h = h1])
    show "table_ok h1 (ms_store ?st)" using inserted(1) by simp
    show "a \<in> open_cmds h1" using inserted(2) by simp
    show "\<forall>l. Option.bind (mon_pred env h ?ca) (\<lambda>p. ca_leader ((?s(a := ?ca)) p)) = Some l \<longrightarrow>
        (\<exists>x \<in> open_cmds h1. ca_leader (ms_store ?st x) = Some l)"
      using mon_pred_live [OF laws] inserted(2) by (auto simp: bind_eq_Some_conv)
    show "\<forall>e \<in> set h1. snd e \<noteq> a \<longrightarrow> \<not> hash_match ca_o_hash_cmp ca_o_hash_func (ck_new_from_ca (ms_store ?st a)) e"
      using inserted(3) by simp
  qed (use new grp in simp_all)
  then show ?thesis using mon_shop_ok [OF _ _ shop] by auto
qed

end
