(* ===== verification/MonitorRun.thy ===== *)
theory MonitorRun
  imports MonitorLines
begin

text \<open>
  Runs of the monitor: the end of a command and its actions keep the invariant of the table, so
  it holds in every state the monitor reaches; what follows from it for the commands.
\<close>

section \<open>The chain of an ended process\<close>

lemma to_int_1: "to_int 1 = 1"
  using to_int_diff [of 1 0] by simp

lemma pred_depth_differs:
  "hash_match ca_o_hash_cmp ca_o_hash_func (ck_new c (d - 1) i) (k, x) \<Longrightarrow> ck_depth k \<noteq> d"
  using to_int_1 by (auto simp: hash_match_def ca_o_hash_cmp_def ca_cmp_codes_def ck_new_def Let_def split: if_splits)

definition closed_at :: "'h mon_env \<Rightarrow> moment_s \<Rightarrow> cmd_audit_s \<Rightarrow> cmd_audit_s" where
  "closed_at env t obj =
     obj\<lparr>ca_duration := moment_duration (ce_ro (me_ca env)) t (ca_starttime obj), ca_closed := True\<rparr>"

lemma mon_close_one_alt:
  "mon_close_one env x t st =
     (let st' = st\<lparr>ms_store := (ms_store st)(x := closed_at env t (ms_store st x))\<rparr>
      in if ca_leader (ms_store st x) \<noteq> None then Inr st' else mon_publish env x st')"
  by (simp add: mon_close_one_def closed_at_def Let_def)

lemma closed_at_control [simp]:
  "control (closed_at env t obj) = control obj" "cmd_open (closed_at env t obj) = cmd_open obj"
  "ca_leader (closed_at env t obj) = ca_leader obj"
  by (simp_all add: closed_at_def control_def ck_new_from_ca_def ck_new_def ca_get_ccode_def cmd_open_def)

lemma mon_close_one_ok:
  assumes ok: "monitor_ok st" and x: "x \<in> live st" and run: "mon_close_one env x t st = Inr st'"
  shows "monitor_ok st'" and "live st' = live st - (if ca_leader (ms_store st x) = None then {x} else {})"
    and "y \<in> live st' \<Longrightarrow> ms_store st' y = (if y = x then closed_at env t (ms_store st x) else ms_store st y)"
proof -
  obtain h where h: "AuditHash st = Some h" "table_ok h (ms_store st)" "live st = open_cmds h"
    using monitor_okE [OF ok] .
  let ?st = "st\<lparr>ms_store := (ms_store st)(x := closed_at env t (ms_store st x))\<rparr>"
  have ok1: "monitor_ok ?st"
    using table_okD(2) [OF h(2)] x h(3) by (intro monitor_ok_update ok) simp
  have live1: "live ?st = live st" by (simp add: live_def)
  have "monitor_ok st' \<and> live st' = live st - (if ca_leader (ms_store st x) = None then {x} else {}) \<and>
    (\<forall>y \<in> live st'. ms_store st' y = (if y = x then closed_at env t (ms_store st x) else ms_store st y))"
  proof (cases "ca_leader (ms_store st x)")
    case (Some l)
    then have "st' = ?st" using run by (simp add: mon_close_one_alt)
    then show ?thesis using ok1 live1 Some by simp
  next
    case None
    then have pub: "mon_publish env x ?st = Inr st'" using run by (simp add: mon_close_one_alt)
    have pl: "ca_leader (ms_store ?st x) = None \<or> ca_leader (ms_store ?st x) = Some x" using None by simp
    have xl: "x \<in> live ?st" using x live1 by simp
    note eff = mon_publish_ok [OF ok1 xl pl pub]
    have none: "live st \<inter> {y. ca_leader (ms_store ?st y) = Some x} = {}"
    proof -
      have "ca_leader (ms_store st y) \<noteq> Some x" if y: "y \<in> live st" for y
      proof
        assume "ca_leader (ms_store st y) = Some x"
        then have "ca_leader (ms_store st x) = Some x"
          using leader_of_group [OF h(2)] y h(3) by metis
        with None show False by simp
      qed
      then show ?thesis using None by auto
    qed
    have l': "live st' = live st - {x}" using eff live1 none by blast
    moreover have "ms_store st' y = ms_store st y" if y: "y \<in> live st'" for y
    proof -
      have "ms_store st' y = ms_store ?st y" using eff y by blast
      moreover have "y \<noteq> x" using y l' by blast
      ultimately show ?thesis by simp
    qed
    ultimately show ?thesis using eff None by auto
  qed
  then show "monitor_ok st'" and "live st' = live st - (if ca_leader (ms_store st x) = None then {x} else {})"
    and "y \<in> live st' \<Longrightarrow> ms_store st' y = (if y = x then closed_at env t (ms_store st x) else ms_store st y)"
    by blast+
qed

definition chain_next :: "'h mon_env \<Rightarrow> u64 \<Rightarrow> 'h mon_state \<Rightarrow> ca_o \<Rightarrow> ca_o option" where
  "chain_next env cmdid st x =
     (let obj = ms_store st x
      in if ca_depth obj = 0 then None
         else Option.bind (AuditHash st) (\<lambda>h.
           mon_lookup env h (ck_new (ca_get_pccode obj) (ca_depth obj - 1) cmdid)))"

lemma chain_Suc:
  "mon_close_chain (Suc n) env cmdid (Some x) t ended st =
     (if ca_cmdid (ms_store st x) \<noteq> cmdid then Some (Inr (ended, st))
      else case mon_close_one env x t st of
          Inl e \<Rightarrow> Some (Inl e)
        | Inr st' \<Rightarrow> mon_close_chain n env cmdid (chain_next env cmdid st x) (ca_starttime (ms_store st x))
          (ended \<or> ca_is_top (ms_store st x)) st')"
  by (auto simp: chain_next_def Let_def split: sum.splits)

declare mon_close_chain.simps(3) [simp del]

lemma uint_pred:
  fixes x :: "'a :: len word"
  assumes "x \<noteq> 0"
  shows "uint (x - 1) = uint x - 1"
proof -
  have "0 < unat x" using assms by (simp add: unat_gt_0)
  then show ?thesis using unat_minus_one [OF assms] by (simp only: uint_nat of_nat_diff)
qed

lemma chain_next_live:
  assumes env: "env_ok env" and ok: "monitor_ok st" and nxt: "chain_next env cmdid st x = Some y"
  shows "y \<in> live st" and "y \<noteq> x"
    and "uint (ca_depth (ms_store st x)) < 2 ^ 31 \<Longrightarrow> uint (ca_depth (ms_store st y)) < 2 ^ 31 \<Longrightarrow>
      unat (ca_depth (ms_store st x)) = Suc (unat (ca_depth (ms_store st y)))"
proof -
  obtain h where h: "AuditHash st = Some h" "table_ok h (ms_store st)" "live st = open_cmds h"
    using monitor_okE [OF ok] .
  note laws = env [unfolded env_ok_def]
  let ?d = "\<lambda>z. ca_depth (ms_store st z)"
  have look: "mon_lookup env h (ck_new (ca_get_pccode (ms_store st x)) (?d x - 1) cmdid) = Some y" and d0: "?d x \<noteq> 0"
    using nxt h(1) by (auto simp: chain_next_def Let_def split: if_splits)
  obtain k where k: "(k, y) \<in> set h"
    "hash_match ca_o_hash_cmp ca_o_hash_func (ck_new (ca_get_pccode (ms_store st x)) (?d x - 1) cmdid) (k, y)"
    using mon_lookup_live [OF laws look] by blast
  then show "y \<in> live st" using h(3) by (force simp: open_cmds_def)
  have kd: "ck_depth k = ?d y"
    using table_okD(1) [OF h(2)] k(1) by (auto simp: keys_ok_def ck_new_from_ca_def ck_new_def)
  then show "y \<noteq> x" using pred_depth_differs [OF k(2)] by auto
  assume b: "uint (?d x) < 2 ^ 31" "uint (?d y) < 2 ^ 31"
  have ux: "uint (?d x - 1) = uint (?d x) - 1"
    using uint_pred [OF d0] .
  have "to_int (ck_depth k - (?d x - 1)) = 0 \<or> ck_depth k = ?d x - 1"
    using k(2) by (auto simp: hash_match_def ca_o_hash_cmp_def ca_cmp_codes_def ck_new_def Let_def split: if_splits)
  moreover have "to_int (?d y - (?d x - 1)) = uint (?d y) - uint (?d x - 1)"
    by (rule to_int_diff) (use b ux in simp_all)
  ultimately have "uint (?d y) = uint (?d x) - 1" using ux kd by auto
  then have "int (unat (?d y)) = int (unat (?d x)) - 1" by (simp only: uint_nat)
  then show "unat (?d x) = Suc (unat (?d y))" by linarith
qed

definition depths_ok :: "'h mon_state \<Rightarrow> bool" where
  \<comment> \<open>depths whose differences fit an \<open>int\<close>\<close>
  "depths_ok st = (\<forall>x \<in> live st. uint (ca_depth (ms_store st x)) < 2 ^ 31)"

lemma close_one_next:
  assumes env: "env_ok env" and ok: "monitor_ok st" and x: "x \<in> live st"
    and run: "mon_close_one env x t st = Inr st'" and nxt: "chain_next env cmdid st x = Some y"
  shows "y \<in> live st'" and "ms_store st' y = ms_store st y"
proof -
  show l: "y \<in> live st'"
    using mon_close_one_ok(2) [OF ok x run] chain_next_live(1,2) [OF env ok nxt] by simp
  show "ms_store st' y = ms_store st y"
    using mon_close_one_ok(3) [OF ok x run l] chain_next_live(2) [OF env ok nxt] by simp
qed

lemma depths_ok_close_one:
  assumes ok: "monitor_ok st" and x: "x \<in> live st" and run: "mon_close_one env x t st = Inr st'"
    and d: "depths_ok st"
  shows "depths_ok st'"
proof -
  have "z \<in> live st \<and> ca_depth (ms_store st' z) = ca_depth (ms_store st z)" if z: "z \<in> live st'" for z
    using mon_close_one_ok(2,3) [OF ok x run] z by (auto simp: closed_at_def split: if_splits)
  with d show ?thesis by (simp add: depths_ok_def)
qed

lemma chain_enough_fuel:
  assumes env: "env_ok env"
  shows "monitor_ok st \<Longrightarrow> x \<in> live st \<Longrightarrow> depths_ok st \<Longrightarrow> unat (ca_depth (ms_store st x)) \<le> k \<Longrightarrow>
    \<exists>r. \<forall>n > k. mon_close_chain n env cmdid (Some x) t ended st = Some r"
proof (induction k arbitrary: st x t ended)
  case (0 st x t ended)
  then have "ca_depth (ms_store st x) = 0" by (simp add: unat_eq_zero)
  then have nxt: "chain_next env cmdid st x = None" by (simp add: chain_next_def Let_def)
  let ?r = "if ca_cmdid (ms_store st x) \<noteq> cmdid then Inr (ended, st)
    else bindR (mon_close_one env x t st) (\<lambda>st'. Inr (ended \<or> ca_is_top (ms_store st x), st'))"
  have "mon_close_chain n env cmdid (Some x) t ended st = Some ?r" if "0 < n" for n
    using that by (cases n) (simp_all add: chain_Suc nxt bindR_def split: sum.splits)
  then show ?case by blast
next
  case (Suc k st x t ended)
  show ?case
  proof (cases "ca_cmdid (ms_store st x) = cmdid \<and> (\<exists>st'. mon_close_one env x t st = Inr st') \<and>
      (\<exists>y. chain_next env cmdid st x = Some y)")
    case True
    then obtain st' y where run: "mon_close_one env x t st = Inr st'" and nxt: "chain_next env cmdid st x = Some y"
      by blast
    note y = close_one_next [OF env Suc.prems(1,2) run nxt]
    have live: "y \<in> live st" by (rule chain_next_live(1) [OF env Suc.prems(1) nxt])
    have "unat (ca_depth (ms_store st x)) = Suc (unat (ca_depth (ms_store st y)))"
      using chain_next_live(3) [OF env Suc.prems(1) nxt] Suc.prems(2,3) live by (simp add: depths_ok_def)
    then have "unat (ca_depth (ms_store st' y)) \<le> k" using Suc.prems(4) y(2) by simp
    from Suc.IH [OF mon_close_one_ok(1) [OF Suc.prems(1,2) run] y(1)
        depths_ok_close_one [OF Suc.prems(1,2) run Suc.prems(3)] this]
    obtain r where r: "\<forall>n > k. mon_close_chain n env cmdid (Some y) (ca_starttime (ms_store st x))
        (ended \<or> ca_is_top (ms_store st x)) st' = Some r" by blast
    have "mon_close_chain n env cmdid (Some x) t ended st = Some r" if "Suc k < n" for n
      using that r True run nxt by (cases n) (simp_all add: chain_Suc)
    then show ?thesis by blast
  next
    case False
    let ?r = "if ca_cmdid (ms_store st x) \<noteq> cmdid then Inr (ended, st)
      else bindR (mon_close_one env x t st) (\<lambda>st'. Inr (ended \<or> ca_is_top (ms_store st x), st'))"
    have "mon_close_chain n env cmdid (Some x) t ended st = Some ?r" if "Suc k < n" for n
      using that False by (cases n; cases "chain_next env cmdid st x")
        (auto simp: chain_Suc bindR_def split: sum.splits)
    then show ?thesis by blast
  qed
qed

section \<open>Every line keeps the invariant\<close>

lemma chain_ok:
  assumes env: "env_ok env"
  shows "monitor_ok st \<Longrightarrow> (\<And>y. x = Some y \<Longrightarrow> y \<in> live st) \<Longrightarrow>
    mon_close_chain n env cmdid x t ended st = Some (Inr (e, st')) \<Longrightarrow>
    monitor_ok st' \<and> live st' \<subseteq> live st \<and> (\<forall>y \<in> live st. ca_leader (ms_store st y) \<noteq> None \<longrightarrow> y \<in> live st') \<and>
    (\<forall>y \<in> live st'. control (ms_store st' y) = control (ms_store st y) \<and>
      (ca_closed (ms_store st y) \<longrightarrow> ca_closed (ms_store st' y)))"
proof (induction n arbitrary: st x t ended)
  case 0
  then have "x = None" by (cases x) auto
  with 0 show ?case by simp
next
  case (Suc n)
  show ?case
  proof (cases x)
    case None
    with Suc.prems show ?thesis by simp
  next
    case (Some z)
    have z: "z \<in> live st" by (rule Suc.prems(2) [OF Some])
    show ?thesis
    proof (cases "ca_cmdid (ms_store st z) = cmdid")
      case False
      with Suc.prems Some show ?thesis by (simp add: chain_Suc)
    next
      case True
      then obtain st1 where run: "mon_close_one env z t st = Inr st1"
        and rest: "mon_close_chain n env cmdid (chain_next env cmdid st z) (ca_starttime (ms_store st z))
            (ended \<or> ca_is_top (ms_store st z)) st1 = Some (Inr (e, st'))"
        using Suc.prems(3) Some by (auto simp: chain_Suc split: sum.splits)
      note one = mon_close_one_ok [OF Suc.prems(1) z run]
      have IH: "monitor_ok st' \<and> live st' \<subseteq> live st1 \<and>
          (\<forall>y \<in> live st1. ca_leader (ms_store st1 y) \<noteq> None \<longrightarrow> y \<in> live st') \<and>
          (\<forall>y \<in> live st'. control (ms_store st' y) = control (ms_store st1 y) \<and>
            (ca_closed (ms_store st1 y) \<longrightarrow> ca_closed (ms_store st' y)))"
        by (rule Suc.IH [OF one(1) _ rest]) (rule close_one_next(1) [OF env Suc.prems(1) z run])
      have same: "control (ms_store st1 y) = control (ms_store st y)" "ca_leader (ms_store st1 y) = ca_leader (ms_store st y)"
        "ca_closed (ms_store st y) \<Longrightarrow> ca_closed (ms_store st1 y)" if y: "y \<in> live st1" for y
        using one(3) [OF y] by (simp_all add: closed_at_def [of env t, abs_def] control_def ck_new_from_ca_def ca_get_ccode_def)
      have "y \<in> live st1" if "y \<in> live st" "ca_leader (ms_store st y) \<noteq> None" for y
        using one(2) that by auto
      moreover have "live st1 \<subseteq> live st" using one(2) by auto
      ultimately show ?thesis using IH same by (metis subset_iff)
    qed
  qed
qed

lemma control_leader: "control x = control y \<Longrightarrow> ca_leader x = ca_leader y"
  by (simp add: control_def)

text \<open>The end of a known command: the chain is closed, then its group if the leader is closed.\<close>

lemma mon_eoaE:
  assumes env: "env_ok env" and ok: "monitor_ok st" and run: "mon_eoa env now text rc st = Inr (r, st')"
  obtains (unknown) "st' = st" "r = mon_result_of MON_ERR rc"
  | (known) cmdrc csv eoa h ca st1 where "eoa_rc text = Inr (cmdrc, csv)" "ca_newFromCSVString (me_ca env) csv = Inr eoa"
      "AuditHash st = Some h" "mon_lookup env h (ck_new_from_ca eoa) = Some ca" "ca \<in> live st"
      "monitor_ok st1 \<and> live st1 \<subseteq> live st \<and> (\<forall>y \<in> live st. ca_leader (ms_store st y) \<noteq> None \<longrightarrow> y \<in> live st1) \<and>
       (\<forall>y \<in> live st1. control (ms_store st1 y) = control (ms_store st y) \<and>
         (ca_closed (ms_store st y) \<longrightarrow> ca_closed (ms_store st1 y)))"
      "ca_leader (ms_store st ca) = None \<longrightarrow> ca \<notin> live st1" "ca \<in> live st1 \<longrightarrow> ca_closed (ms_store st1 ca)"
      "(case ca_leader (ms_store st ca) of
          Some l \<Rightarrow> if ca_closed (ms_store st1 l) then mon_publish env l st1 else Inr st1
        | None \<Rightarrow> Inr st1) = Inr st'"
proof -
  obtain h where h: "AuditHash st = Some h" "table_ok h (ms_store st)" "live st = open_cmds h"
    using monitor_okE [OF ok] .
  note laws = env [unfolded env_ok_def]
  obtain cmdrc csv eoa where eoa: "eoa_rc text = Inr (cmdrc, csv)" "ca_newFromCSVString (me_ca env) csv = Inr eoa"
    using run by (auto simp: mon_eoa_def bindR_eq_Inr)
  show ?thesis
  proof (cases "mon_lookup env h (ck_new_from_ca eoa)")
    case None
    then show ?thesis using run eoa h(1) by (intro unknown) (auto simp: mon_eoa_def)
  next
    case look: (Some ca)
    obtain ended st1 where all: "mon_close_all env ca now st = Inr (ended, st1)"
      and fin: "(case ca_leader (ms_store st ca) of
          Some l \<Rightarrow> if ca_closed (ms_store st1 l) then mon_publish env l st1 else Inr st1
        | None \<Rightarrow> Inr st1) = Inr st'"
      using run eoa h(1) look by (auto simp: mon_eoa_def bindR_eq_Inr Let_def split: option.splits)
    have ca: "ca \<in> live st" using mon_lookup_live [OF laws look] h(3) by (force simp: open_cmds_def)
    let ?cmdid = "ca_cmdid (ms_store st ca)" and ?n = "unat (ca_depth (ms_store st ca))"
    have "mon_close_chain (Suc ?n) env ?cmdid (Some ca) now False st = Some (Inr (ended, st1))"
      using all by (auto simp: mon_close_all_def Let_def split: option.splits)
    then obtain st0 where one: "mon_close_one env ca now st = Inr st0"
      and rest: "mon_close_chain ?n env ?cmdid (chain_next env ?cmdid st ca) (ca_starttime (ms_store st ca))
        (False \<or> ca_is_top (ms_store st ca)) st0 = Some (Inr (ended, st1))"
      by (auto simp: chain_Suc split: sum.splits)
    note first = mon_close_one_ok [OF ok ca one]
    have next1: "chain_next env ?cmdid st ca = Some y \<Longrightarrow> y \<in> live st0" for y
      by (rule close_one_next(1) [OF env ok ca one])
    note c = chain_ok [OF env first(1) next1 rest]
    have "ca_closed (ms_store st0 ca)" if "ca \<in> live st0" using first(3) [OF that] by (simp add: closed_at_def)
    then have closed: "ca \<in> live st1 \<longrightarrow> ca_closed (ms_store st1 ca)" using c by blast
    have gone: "ca_leader (ms_store st ca) = None \<longrightarrow> ca \<notin> live st1" using c first(2) by auto
    have same: "control (ms_store st0 y) = control (ms_store st y)" "ca_closed (ms_store st y) \<Longrightarrow> ca_closed (ms_store st0 y)"
      "ca_leader (ms_store st0 y) = ca_leader (ms_store st y)"
      if y: "y \<in> live st0" for y
      using first(3) [OF y] by (simp_all add: closed_at_def control_def ck_new_from_ca_def ca_get_ccode_def)
    have "y \<in> live st0" if "y \<in> live st" "ca_leader (ms_store st y) \<noteq> None" for y
      using first(2) that by auto
    moreover have "live st0 \<subseteq> live st" using first(2) by auto
    ultimately have "monitor_ok st1 \<and> live st1 \<subseteq> live st \<and>
        (\<forall>y \<in> live st. ca_leader (ms_store st y) \<noteq> None \<longrightarrow> y \<in> live st1) \<and>
        (\<forall>y \<in> live st1. control (ms_store st1 y) = control (ms_store st y) \<and>
         (ca_closed (ms_store st y) \<longrightarrow> ca_closed (ms_store st1 y)))"
      using c same by (metis subset_iff)
    from known [OF eoa h(1) look ca this gone closed fin] show ?thesis .
  qed
qed

lemma control_leader': "y \<in> A \<Longrightarrow> \<forall>y \<in> A. control (s' y) = control (s y) \<and> Q y \<Longrightarrow> ca_leader (s' y) = ca_leader (s y)"
  using control_leader by blast

lemma mon_eoa_ok:
  assumes env: "env_ok env" and ok: "monitor_ok st" and run: "mon_eoa env now text rc st = Inr (r, st')"
  shows "monitor_ok st' \<and> live st' \<subseteq> live st \<and> (\<forall>y \<in> live st'. control (ms_store st' y) = control (ms_store st y))"
  using env ok run
proof (cases rule: mon_eoaE)
  case unknown
  then show ?thesis using ok by simp
next
  case (known cmdrc csv eoa h ca st1)
  show ?thesis
  proof (cases "ca_leader (ms_store st ca)")
    case None
    then show ?thesis using known by simp
  next
    case (Some l)
    obtain h' where h': "table_ok h' (ms_store st)" "live st = open_cmds h'" using monitor_okE [OF ok] .
    have l: "l \<in> live st" "ca_leader (ms_store st l) = Some l"
      using leader_of_group [OF h'(1) _ Some] known(5) h'(2) by metis+
    then have l1: "l \<in> live st1" using known(6) by auto
    then have ld: "ca_leader (ms_store st1 l) = Some l" using control_leader known(6) l(2) by metis
    show ?thesis
    proof (cases "ca_closed (ms_store st1 l)")
      case True
      then have pub: "mon_publish env l st1 = Inr st'" using known(9) Some by simp
      have "ca_leader (ms_store st1 l) = None \<or> ca_leader (ms_store st1 l) = Some l" using ld by simp
      note p = mon_publish_ok [OF conjunct1 [OF known(6)] l1 this pub]
      then have "live st' \<subseteq> live st1" "\<forall>y \<in> live st'. ms_store st' y = ms_store st1 y" by auto
      then show ?thesis using p known(6) by (metis subset_iff)
    next
      case False
      then show ?thesis using known Some by simp
    qed
  qed
qed

lemma record_pa_control:
  assumes "ca_record_pa env ca pa = Inr ca'"
  shows "control ca' = control ca" and "cmd_open ca' = cmd_open ca"
  using assms by (auto simp: ca_record_pa_def bindR_eq_Inr control_def ck_new_from_ca_def ca_get_ccode_def cmd_open_def
      split: option.splits)

lemma mon_pa_ok:
  assumes env: "env_ok env" and ok: "monitor_ok st" and run: "mon_pa env addr buf rc st = Inr (r, st')"
  shows "monitor_ok st'"
proof -
  obtain h where h: "AuditHash st = Some h" "table_ok h (ms_store st)" "live st = open_cmds h"
    using monitor_okE [OF ok] .
  show ?thesis
  proof (cases "st' = st")
    case False
    then obtain pa ca obj where "ca_record_pa (me_ca env) (ms_store st ca) (addr, pa) = Inr obj"
      and st': "st' = st\<lparr>ms_store := (ms_store st)(ca := obj)\<rparr>"
      using run h(1) by (auto simp: mon_pa_def bindR_eq_Inr Let_def split: option.splits)
    note same = record_pa_control [OF this(1)]
    show ?thesis
      unfolding st' by (rule monitor_ok_update [OF ok]) (use same table_okD(2) [OF h(2)] h(3) in simp)
  qed (use ok in simp)
qed

lemma mon_record_ok:
  assumes "env_ok env" and "monitor_ok st" and "addr \<notin> live st"
    and "mon_record env addr now buf rc st = Inr (r, st')"
  shows "monitor_ok st'"
  using assms mon_soa_ok [OF assms(1-3)] mon_eoa_ok [OF assms(1,2)] mon_pa_ok [OF assms(1,2)]
  by (auto simp: mon_record_def Let_def split: if_splits)

end
