(* ===== verification/MonitorSample.thy ===== *)
theory MonitorSample
  imports MonitorRun
begin

text \<open>
  A small run of the monitor: it is initialised, one command starts, and it ends. The theorems
  about the reachable states are applied to it.
\<close>

definition mon_sample_env :: "unit mon_env" where
  "mon_sample_env = \<lparr>me_shop = shop_sample_env, me_re = (\<lambda>_. None)\<rparr>"

definition mon_sample_props :: prop_state where
  "mon_sample_props = (prop_start [])\<lparr>pvals := (\<lambda>p. Some [])(P_AGGREGATION_STYLE := Some ''-'')\<rparr>"

definition mon_sample_dcode :: "unit dcode_cache" where
  "mon_sample_dcode = \<lparr>Ref_Time = zero_moment, Dcode_Offset = 0, Dcode_Hash_Table = None\<rparr>"

definition mon_sample_world :: "unit shop_world" where
  "mon_sample_world = \<lparr>sw_dcode = mon_sample_dcode, sw_props = mon_sample_props, sw_calls = [], sw_allocs = 0,
     RecycledCount = 0, ShopCDB = False\<rparr>"

definition mon_sample_boot :: "unit mon_state" where
  "mon_sample_boot = \<lparr>AuditHash = None, ms_store = (\<lambda>_. ca_new),
     ms_world = \<lparr>mw_shop = mon_sample_world, mw_effects = []\<rparr>\<rparr>"

definition mon_sample_start :: "unit mon_state" where
  "mon_sample_start = mon_sample_boot\<lparr>AuditHash := Some [], ms_world := (ms_world mon_sample_boot)\<lparr>
     mw_shop := mon_sample_world\<lparr>ShopCDB := True, sw_dcode := ps_dcode_cache_init () 0 (0, 0) mon_sample_dcode\<rparr>\<rparr>\<rparr>"

definition mon_sample_cmd :: cmd_audit_s where
  "mon_sample_cmd = (header_part sample_ca)\<lparr>ca_starttime := ca_starttime sample_ca, ca_started := True\<rparr>"

definition mon_sample_open :: "unit mon_state" where
  "mon_sample_open = mon_sample_start\<lparr>AuditHash := Some [(ck_new_from_ca (header_part sample_ca), 0)],
     ms_store := (\<lambda>_. ca_new)(0 := mon_sample_cmd)\<rparr>"

lemma mon_sample_env_simps:
  "se_ca shop_sample_env = sample_env" "se_pcre shop_sample_env = (\<lambda>_. None)"
  "me_shop mon_sample_env = shop_sample_env" "me_re mon_sample_env = (\<lambda>_. None)"
  by (simp_all add: mon_sample_env_def shop_sample_simps)

lemma mon_sample_hash: "ce_hash sample_env = list_hash"
  by (simp add: sample_env_def)

lemma mon_sample_laws: "hash_laws (ce_hash (me_ca mon_sample_env)) ca_o_hash_cmp ca_o_hash_func"
  by (simp add: mon_sample_env_simps mon_sample_hash list_hash_laws)

section \<open>The settings\<close>

lemma sample_str:
  "prop_get_str mon_sample_props p = Inr (Some (if p = P_AGGREGATION_STYLE then ''-'' else []))"
  using prop_get_str_Some [of mon_sample_props p "if p = P_AGGREGATION_STYLE then ''-'' else []"]
  by (simp add: mon_sample_props_def PROP_NULL_def)

lemma sample_number:
  assumes "p \<noteq> P_AGGREGATION_STYLE"
  shows "prop_get_ulong mon_sample_props p = Inr 0" and "prop_get_long mon_sample_props p = Inr 0"
    and "prop_is_true mon_sample_props p = Inr False"
proof -
  have t: "\<not> true_word []" by code_simp
  have u: "c_strtoul 10 [] = 0" "c_strtol 10 [] = 0"
    by (simp_all add: c_strtoul_def c_strtol_def scan_number_def skip_sign_def skip_0x_def digits_val_def)
  show "prop_get_ulong mon_sample_props p = Inr 0" and "prop_get_long mon_sample_props p = Inr 0"
    using assms t u by (simp_all add: prop_get_ulong_def prop_get_long_def sample_str number_base_def)
  then show "prop_is_true mon_sample_props p = Inr False" by (simp add: prop_is_true_def)
qed

lemma sample_re:
  assumes "p \<noteq> P_AGGREGATION_STYLE"
  shows "re_init_prop c mon_sample_props p = Inr (None, mon_sample_props)"
  using assms by (simp add: re_init_prop_def sample_str)

lemma sample_has_value: "p \<noteq> P_AGGREGATION_STYLE \<Longrightarrow> \<not> prop_has_value mon_sample_props p"
  by (simp add: prop_has_value_def mon_sample_props_def)

section \<open>The run\<close>

lemma mon_sample_init: "mon_init mon_sample_env () (0, 0) mon_sample_boot = Inr (me_re mon_sample_env, mon_sample_start)"
proof -
  have r: "(\<lambda>k. case k of LINE_BREAK \<Rightarrow> None | PROG_BREAK \<Rightarrow> None | LINE_STRONG \<Rightarrow> None
      | PROG_STRONG \<Rightarrow> None | LINE_WEAK \<Rightarrow> None | PROG_WEAK \<Rightarrow> None) = (\<lambda>_. None)"
    by (rule ext) (simp split: mon_re.splits)
  have p: "sw_props mon_sample_world = mon_sample_props" by (simp add: mon_sample_world_def)
  have w: "mon_sample_world\<lparr>sw_props := mon_sample_props\<rparr> = mon_sample_world" by (simp add: mon_sample_world_def)
  have m: "mw_shop (ms_world mon_sample_boot) = mon_sample_world" by (simp add: mon_sample_boot_def)
  have d: "sw_dcode mon_sample_world = mon_sample_dcode" by (simp add: mon_sample_world_def)
  have s: "shop_init shop_sample_env mon_sample_world = Inr (mon_sample_world\<lparr>ShopCDB := True\<rparr>)"
    by (simp add: shop_init_def p sample_str shop_sample_env_def)
  show ?thesis
    by (simp add: mon_init_def mon_sample_env_simps m p sample_re sample_number w s Let_def d r)
      (simp add: mon_sample_start_def mon_sample_boot_def)
qed

lemma sample_lookup:
  "mon_lookup mon_sample_env [] ck = None"
  "mon_lookup mon_sample_env [(k, ca)] ck = (if hash_match ca_o_hash_cmp ca_o_hash_func ck (k, ca) then Some ca else None)"
  by (simp_all add: mon_lookup_def mon_sample_env_simps mon_sample_hash list_hash_def)

lemma mon_sample_csv:
  "ca_newFromCSVString sample_env (header_csv sample_ca) = Inr (header_part sample_ca)"
  by (rule header_csv_parses(3) [OF sample_header_ok])

lemma mon_sample_props_start: "mw_props (ms_world mon_sample_start) = mon_sample_props"
  by (simp add: mon_sample_start_def mon_sample_world_def)

lemma mon_sample_live: "live mon_sample_start = {}" "live mon_sample_open = {0}"
  by (simp_all add: mon_sample_start_def mon_sample_open_def mon_sample_boot_def live_def open_cmds_def)

lemma mon_sample_soa:
  "\<exists>r. mon_record mon_sample_env 0 (ca_starttime sample_ca) (SOA @ header_csv sample_ca) 0 mon_sample_start =
     Inr (r, mon_sample_open)"
proof -
  let ?ck = "ck_new_from_ca (header_part sample_ca)"
  have h: "AuditHash mon_sample_start = Some []" by (simp add: mon_sample_start_def)
  have ins: "hash_insert (ce_hash sample_env) ca_o_hash_cmp ca_o_hash_func ?ck (0 :: nat) [] = Inr [(?ck, 0)]"
    by (simp add: mon_sample_hash list_hash_def)
  have st: "ms_store mon_sample_start = (\<lambda>_. ca_new)" by (simp add: mon_sample_start_def mon_sample_boot_def)
  have cmd: "(header_part sample_ca)\<lparr>ca_starttime := ca_starttime sample_ca, ca_started := True\<rparr> = mon_sample_cmd"
    by (simp add: mon_sample_cmd_def)
  have l: "ca_leader (((\<lambda>_. ca_new)(0 := mon_sample_cmd)) p) = None" for p :: nat
    by (simp add: mon_sample_cmd_def header_part_def ca_new_def)
  have n: "Option.bind q (\<lambda>p. ca_leader (((\<lambda>_. ca_new)(0 := mon_sample_cmd)) p)) = None" for q :: "nat option"
    by (cases q) (simp_all only: Option.bind.simps l)
  have agg: "mon_agglevel mon_sample_env (Some ''-'') s ldr ca = AGG_NONE" for s ldr ca
    by (simp add: mon_agglevel_def first_char_def)
  have op: "mon_sample_start\<lparr>AuditHash := Some [(?ck, 0)], ms_store := (\<lambda>_. ca_new)(0 := mon_sample_cmd)\<rparr> = mon_sample_open"
    by (simp add: mon_sample_open_def)
  have ns: "mon_shop mon_sample_env 0 False mon_sample_open = Inr (0, None, mon_sample_open)"
    using sample_has_value [of P_SERVER] mon_sample_props_start by (simp add: mon_shop_def mon_sample_open_def)
  have soa: "\<exists>r. mon_soa mon_sample_env 0 (ca_starttime sample_ca) False (header_csv sample_ca) 0 mon_sample_start =
      Inr (r, mon_sample_open)"
    unfolding mon_soa_def mon_sample_props_start Let_def mon_sample_env_simps
    by (simp add: sample_number mon_sample_csv h sample_lookup ins sample_str st cmd n agg mon_group_def op ns
        del: fun_upd_apply)
  show ?thesis
    using soa by (simp add: mon_record_def SOA_def first_char_def)
qed

lemma sample_eoa_rc: "eoa_rc (header_csv sample_ca) = Inr (0, header_csv sample_ca)"
proof -
  have "fmt_lu 10 = ''10''" by (simp add: fmt_lu_def nat_to_radix.simps CHRS_def)
  then have "first_char (header_csv sample_ca) = CHR ''1''"
    by (simp add: header_csv_def header_fields_def sample_ca_def first_char_def)
  then show ?thesis by (simp add: eoa_rc_def)
qed

lemma sample_header_text: "\<exists>t. ca_format_header (mon_sample_cmd\<lparr>ca_duration := d, ca_closed := c, ca_raw_pa_dict := Some [],
    ca_cooked_pa_dict := Some [], ca_pathcode := None\<rparr>) = Inr t"
proof -
  have "moment_format (ca_starttime sample_ca) MOMENT_BUFMAX \<noteq> Inl e" for e
    using header_csv_parses(1) [OF sample_header_ok] by (auto simp: ca_format_header_def)
  then obtain m where "moment_format (ca_starttime sample_ca) MOMENT_BUFMAX = Inr m"
    by (cases "moment_format (ca_starttime sample_ca) MOMENT_BUFMAX") auto
  then show ?thesis by (simp add: ca_format_header_def mon_sample_cmd_def header_part_def) (simp add: sample_ca_def)
qed

lemma mon_sample_close:
  "\<exists>st'. mon_close_one mon_sample_env 0 now mon_sample_open = Inr st'"
proof -
  let ?d = "moment_duration 1000 now (ca_starttime sample_ca)"
  let ?obj = "mon_sample_cmd\<lparr>ca_duration := ?d, ca_closed := True\<rparr>"
  let ?cooked = "?obj\<lparr>ca_raw_pa_dict := Some [], ca_cooked_pa_dict := Some []\<rparr>"
  have "ca_raw_pa_dict ?obj = Some []" "ca_cooked_pa_dict ?obj = None" "ca_group_hash ?obj = None"
    "ca_leader ?obj = None" "ca_recycled ?obj = None"
    by (simp_all add: mon_sample_cmd_def header_part_def) (simp_all add: sample_ca_def ca_new_def)
  moreover from this have "ca_coalesce sample_env ?obj = Inr ?cooked" by (simp add: ca_coalesce_def)
  moreover have "ca_derive_pathcode sample_env ?cooked = Inr (?cooked\<lparr>ca_pathcode := None\<rparr>)"
    by (simp add: ca_derive_pathcode_def ca_foreach_cooked_pa_def cooked_order_def)
  moreover obtain t where "ca_format_header (?cooked\<lparr>ca_pathcode := None\<rparr>) = Inr t"
    using sample_header_text [where d = ?d and c = True] by auto
  moreover have "ca_format_cooked_palist dall sys dc (?cooked\<lparr>ca_pathcode := None\<rparr>) = Inr ([], ?cooked\<lparr>ca_pathcode := None\<rparr>, dc)"
    for dall and sys :: "unit ps_sys" and dc
    by (simp add: ca_format_cooked_palist_def cooked_positions_def)
  moreover have "ca_starttime mon_sample_cmd = ca_starttime sample_ca" "ce_ro sample_env = 1000"
    by (simp_all add: mon_sample_cmd_def sample_env_def)
  moreover have "ms_store mon_sample_open 0 = mon_sample_cmd" "mw_props (ms_world mon_sample_open) = mon_sample_props"
    using mon_sample_props_start by (simp_all add: mon_sample_open_def)
  ultimately show ?thesis
    by (simp add: mon_close_one_def Let_def mon_sample_env_simps mon_publish_def ca_publish_def ca_finish_def
        mon_process_ca_def sample_number sample_str sample_has_value ca_toCSVString_def)
qed

lemma mon_sample_found: "mon_lookup mon_sample_env [(ck_new_from_ca (header_part sample_ca), 0)] (ck_new_from_ca (header_part sample_ca)) = Some 0"
proof -
  have "mon_lookup mon_sample_env [(k, ca)] k = Some ca" for k ca
    by (simp add: sample_lookup hash_match_def ca_o_hash_cmp_def ca_cmp_codes_def Let_def)
  then show ?thesis .
qed

lemma mon_sample_eoa:
  "\<exists>r st'. mon_eoa mon_sample_env now (header_csv sample_ca) 0 mon_sample_open = Inr (r, st')"
proof -
  have o: "ms_store mon_sample_open 0 = mon_sample_cmd"
    "AuditHash mon_sample_open = Some [(ck_new_from_ca (header_part sample_ca), 0)]"
    by (simp_all add: mon_sample_open_def)
  have c: "ca_depth mon_sample_cmd = 1" "ca_cmdid mon_sample_cmd = 10" "ca_leader mon_sample_cmd = None"
    by (simp_all add: mon_sample_cmd_def header_part_def) (simp_all add: sample_ca_def ca_new_def)
  obtain st' where close: "mon_close_one mon_sample_env 0 now mon_sample_open = Inr st'"
    using mon_sample_close by blast
  have nxt: "mon_lookup mon_sample_env [(ck_new_from_ca (header_part sample_ca), 0)] (ck_new pccode 0 10) = None" for pccode
  proof -
    have "ck_depth (ck_new_from_ca (header_part sample_ca)) = 1" "ck_depth (ck_new pccode 0 10) = 0"
      by (simp_all add: ck_new_from_ca_def ck_new_def header_part_def) (simp_all add: sample_ca_def)
    then show ?thesis by (auto simp: sample_lookup hash_match_def ca_o_hash_cmp_def Let_def to_int_def split: if_splits)
  qed
  have "mon_close_all mon_sample_env 0 now mon_sample_open = Inr (ca_is_top mon_sample_cmd, st')"
    by (simp add: mon_close_all_def o c Let_def close nxt mon_close_chain.simps)
  then show ?thesis
    by (simp add: mon_eoa_def sample_eoa_rc mon_sample_env_simps mon_sample_csv o mon_sample_found c Let_def)
qed

end
