(* ===== verification/MonitorReach.thy ===== *)
theory MonitorReach
  imports MonitorSample
begin

text \<open>
  The states the monitor can reach, as an inductive relation over the lines it receives, and
  what holds in all of them.
\<close>

section \<open>Reachable states\<close>

text \<open>
  A new object is allocated where no open command is: the addresses of the table are those of
  objects that have not been freed.
\<close>

inductive mon_reach :: "'h mon_env \<Rightarrow> 'h mon_state \<Rightarrow> bool" for env where
  start: "AuditHash st = None \<Longrightarrow> mon_init env table tv st = Inr (me_re env, st') \<Longrightarrow> mon_reach env st'"
| line: "mon_reach env st \<Longrightarrow> addr \<notin> live st \<Longrightarrow> mon_record env addr now buf rc st = Inr (r, st') \<Longrightarrow>
    mon_reach env st'"

inductive_cases mon_reachE: "mon_reach env st"

lemma mon_init_table:
  assumes "mon_init env table tv st = Inr (res, st')" and "AuditHash st = None"
  shows "AuditHash st' = Some []"
  using assms by (auto simp: mon_init_def bindR_eq_Inr Let_def)

lemma mon_reach_ok: "mon_reach env st \<Longrightarrow> env_ok env \<Longrightarrow> monitor_ok st"
proof (induction rule: mon_reach.induct)
  case (start st table tv st')
  have "AuditHash st' = Some []" by (rule mon_init_table [OF start(2,1)])
  then show ?case by (simp add: monitor_ok_def table_ok_def keys_ok_def open_cmds_def)
next
  case (line st addr now buf rc r st')
  then show ?case using mon_record_ok by blast
qed

section \<open>Aggregation switched off\<close>

lemma finish_world:
  assumes f: "\<And>ca ws w' s'. process ca ws = Inr (w', s') \<Longrightarrow> f w' = f (fst ws)"
    and run: "ca_finish env process ca ws = Inr (w', s')"
  shows "f w' = f (fst ws)"
  using run by (auto simp: ca_finish_def bindR_eq_Inr dest: f)

lemma publish_world:
  assumes f: "\<And>ca ws w' s'. process ca ws = Inr (w', s') \<Longrightarrow> f w' = f (fst ws)"
    and run: "ca_publish env process ca ws = Inr (w', s')"
  shows "f w' = f (fst ws)"
proof -
  have fin: "ca_finish env process x ws = Inr (w', s') \<Longrightarrow> f w' = f (fst ws)" for x ws w' s'
    by (rule finish_world [where f = f and process = process]) (rule f)
  show ?thesis using run by (auto simp: ca_publish_def bindR_eq_Inr dest!: fin)
qed

lemma disband_scan_world:
  assumes f: "\<And>ca ws w' s'. process ca ws = Inr (w', s') \<Longrightarrow> f w' = f (fst ws)"
  shows "disband_scan env process ldr es ws = Inr (w', s') \<Longrightarrow> f w' = f (fst ws)"
proof (induction es arbitrary: ws)
  have fin: "ca_finish env process x ws = Inr (w', s') \<Longrightarrow> f w' = f (fst ws)" for x ws w' s'
    by (rule finish_world [where f = f and process = process]) (rule f)
  case (Cons e es)
  then obtain w s where "(if ca_closed (snd ws (snd e)) then ca_finish env process (snd e) ws else Inr ws) = Inr (w, s)"
    and rest: "disband_scan env process ldr es (w, hash_scan_delete ldr e (ca_set_leader (snd e) None s)) = Inr (w', s')"
    by (auto simp: bindR_eq_Inr)
  then have "f w = f (fst ws)" by (auto split: if_splits dest: fin)
  with Cons.IH [OF rest] show ?case by simp
qed auto

lemma disband_world:
  assumes f: "\<And>ca ws w' s'. process ca ws = Inr (w', s') \<Longrightarrow> f w' = f (fst ws)"
    and run: "ca_disband env process ldr ws = Inr (w', s')"
  shows "f w' = f (fst ws)"
proof -
  obtain h w1 s1 w2 s2 where "disband_scan env process ldr h ws = Inr (w1, s1)"
    and "(if ca_closed (s1 ldr) then ca_finish env process ldr (w1, s1) else Inr (w1, s1)) = Inr (w2, s2)" and "w' = w2"
    using run by (auto simp: ca_disband_def bindR_eq_Inr split: option.splits)
  moreover have fin: "ca_finish env process x ws = Inr (w', s') \<Longrightarrow> f w' = f (fst ws)" for x ws w' s'
    by (rule finish_world [where f = f and process = process]) (rule f)
  moreover have "f w1 = f (fst ws)"
    by (rule disband_scan_world [where f = f and process = process]) (use f calculation(1) in auto)
  ultimately show ?thesis by (auto split: if_splits)
qed

lemma process_props: "mon_process_ca env ca ws = Inr (w', s') \<Longrightarrow> mw_props w' = mw_props (fst ws)"
  by (auto simp: mon_process_ca_def bindR_eq_Inr Let_def)

text \<open>Shopping changes no property but the expression it compiles.\<close>

lemma sw_call_props [simp]: "sw_props (snd (sw_call env c w)) = sw_props w"
  by (simp add: sw_call_def)

lemma mkdir_props: "putil_mkdir_p n env path w = Inr (ok, w') \<Longrightarrow> sw_props w' = sw_props w"
proof (induction n arbitrary: path ok w')
  case (Suc n)
  then obtain w1 where "(if sw_access env w (c_dirname path) then Inr w
      else bindR (putil_mkdir_p n env (c_dirname path) w) (\<lambda>(_, w). Inr w)) = Inr w1"
    and "sw_call env (Mkdir path) w1 = (ok, w')"
    by (auto simp: bindR_eq_Inr)
  then have "sw_props w1 = sw_props w" "w' = snd (sw_call env (Mkdir path) w1)"
    using Suc.IH by (auto simp: bindR_eq_Inr split: if_splits)
  then show ?case by simp
qed simp

lemma make_dir_props: "make_dir env path w = Inr (ok, w') \<Longrightarrow> sw_props w' = sw_props w"
  unfolding make_dir_def by (rule mkdir_props)

lemma call_props: "sw_call env c w = (ok, w') \<Longrightarrow> sw_props w' = sw_props w"
  by (auto simp: sw_call_def)

lemma make_dir_bind_props:
  "(if b then Inr w else bindR (make_dir env path w) (\<lambda>(_, w). Inr w)) = Inr w' \<Longrightarrow> sw_props w' = sw_props w"
  by (auto simp: bindR_eq_Inr dest!: make_dir_props split: if_splits)

lemma fetch_link_props:
  assumes "fetch_link env path path2 w = Inr (rc, w')"
  shows "sw_props w' = sw_props w"
proof -
  obtain w1 p2 where w1: "(if \<not> sw_access env w (c_dirname path) then bindR (make_dir env (c_dirname path) w) (\<lambda>(_, w). Inr w)
      else Inr (snd (sw_call env (Unlink path) w))) = Inr w1"
    and w': "w' = snd (sw_call env (Link p2 path) w1)"
    using assms by (auto simp: fetch_link_def bindR_eq_Inr case_prod_beta split: option.splits)
  have "sw_props w1 = sw_props w" using w1 by (auto simp: bindR_eq_Inr dest!: make_dir_props split: if_splits)
  then show ?thesis by (simp add: w')
qed

lemma fetch_symlink_props:
  assumes "fetch_symlink env path target w = Inr (rc, w')"
  shows "sw_props w' = sw_props w"
proof -
  obtain tgt where tgt: "target = Some tgt" using assms by (auto simp: fetch_symlink_def split: option.splits)
  show ?thesis
  proof (cases "sys_readlink (sw_sys env w) path")
    case None
    let ?w = "if fs_enoent (se_fs env) (sw_calls w) path then w else snd (sw_call env (Unlink path) w)"
    obtain w1 where "(if sw_access env ?w (c_dirname path) then Inr ?w
        else bindR (make_dir env (c_dirname path) ?w) (\<lambda>(_, w). Inr w)) = Inr w1"
      and "w' = snd (sw_call env (Symlink tgt path) w1)"
      using assms tgt None by (auto simp: fetch_symlink_def Let_def bindR_eq_Inr case_prod_beta)
    then show ?thesis using make_dir_bind_props by fastforce
  next
    case (Some l)
    then show ?thesis
      using assms tgt by (auto simp: fetch_symlink_def Let_def dest!: call_props split: if_splits prod.splits)
  qed
qed

lemma fetch_dir_props: "fetch_dir env path sps w = Inr (rc, w') \<Longrightarrow> sw_props w' = sw_props w"
  by (auto simp: fetch_dir_def bindR_eq_Inr dest!: make_dir_props split: if_splits)

lemma fetch_file_props: "fetch_file env sps w = Inr (rc, w') \<Longrightarrow> sw_props w' = sw_props w"
  by (auto simp: fetch_file_def Let_def split: if_splits)

lemmas fetch_props = fetch_link_props fetch_symlink_props fetch_dir_props fetch_file_props

lemma shop_fetch_props: "shop_fetch env spa w = Inr (rc, w') \<Longrightarrow> sw_props w' = sw_props w"
  by (auto simp: shop_fetch_def bindR_eq_Inr dest!: fetch_props call_props split: if_splits prod.splits)

lemma process_target_props:
  "shop_process_target env getfiles w spa = Inr (rc, w') \<Longrightarrow> sw_props w' = sw_props w"
  by (auto simp: shop_process_target_def shop_avoidable_def bindR_eq_Inr Let_def dest!: shop_fetch_props split: if_splits)

lemma shop_props:
  assumes run: "shop env ca None getfiles w = Inr (rc, ca', w')" and q: "q \<noteq> P_SHOP_IGNORE_PATH_RE"
  shows "pvals (sw_props w') q = pvals (sw_props w) q"
proof (cases "ShopCDB w")
  case False
  with run show ?thesis by (simp add: shop_def)
next
  case True
  with run obtain re props xns ssp0 line cmds rc1 ssp1 ssp2
    where re: "re_init_prop (se_pcre env) (sw_props w) P_SHOP_IGNORE_PATH_RE = Inr (re, props)"
      and s0: "ptx_lines env xns (shop_start ca getfiles re (w\<lparr>sw_props := props\<rparr>)) = Inr ssp0"
      and s1: "try_cmds env cmds SHOP_NOMATCH ssp0 = Inr (rc1, ssp1)"
      and s2: "(if rc1 = SHOP_RECYCLED then
            bindR (shop_collect_targets env ssp1 (ss_wincmd ssp1)) (\<lambda>ssp.
            bindR (shop_process_targets env ssp) (\<lambda>(err, ssp).
              Inr (if err \<noteq> 0 then (SHOP_ERR, ssp)
                   else (rc1, ssp\<lparr>ss_ca := (ss_ca ssp)\<lparr>ca_recycled := set_str (Some (ss_winner ssp))\<rparr>\<rparr>))))
          else Inr (rc1, ssp1)) = Inr (rc, ssp2)"
      and w': "w' = ss_world ssp2"
    by (rule shop_runE)
  have "frame_of ssp1 = frame_of (shop_start ca getfiles re (w\<lparr>sw_props := props\<rparr>))"
    using ptx_lines_frame [OF s0] try_cmds_frame [OF s1] by simp
  then have p1: "sw_props (ss_world ssp1) = props" by (simp add: frame_of_def shop_start_def)
  have "sw_props (ss_world ssp2) = sw_props (ss_world ssp1)"
  proof (cases "rc1 = SHOP_RECYCLED")
    case False
    with s2 show ?thesis by simp
  next
    case True
    then obtain ssp3 err ssp4 where col: "shop_collect_targets env ssp1 (ss_wincmd ssp1) = Inr ssp3"
      and pro: "shop_process_targets env ssp3 = Inr (err, ssp4)" and "ss_world ssp2 = ss_world ssp4"
      using s2 by (auto simp: bindR_eq_Inr split: if_splits)
    moreover have "sw_props (ss_world ssp3) = sw_props (ss_world ssp1)"
      using col collect_lines_effect by (auto simp: shop_collect_targets_def frame_of_def split: option.splits)
    moreover have "sw_props (ss_world ssp4) = sw_props (ss_world ssp3)"
      using pro foreach_dry [where f = sw_props, OF process_target_props]
      by (auto simp: shop_process_targets_def bindR_eq_Inr ca_foreach_cooked_pa_def)
    ultimately show ?thesis by simp
  qed
  then show ?thesis using w' p1 re_init_prop_frame(3) [OF re q] by simp
qed

definition agg_style :: "'h mon_state \<Rightarrow> string option result" where
  "agg_style st = prop_get_str (mw_props (ms_world st)) P_AGGREGATION_STYLE"

definition style_value :: "'h mon_state \<Rightarrow> string option" where
  "style_value st = pvals (mw_props (ms_world st)) P_AGGREGATION_STYLE"

lemma agg_style_value: "style_value st' = style_value st \<Longrightarrow> agg_style st' = agg_style st"
  by (simp add: agg_style_def style_value_def prop_get_str_def prop_get_str_i_def)

lemma clean_up_world [simp]: "ms_world (mon_clean_up_ca_table st) = ms_world st"
  by (simp add: mon_clean_up_ca_table_def)

lemma mon_publish_props:
  assumes "mon_publish env ca st = Inr st'"
  shows "mw_props (ms_world st') = mw_props (ms_world st)"
proof -
  obtain w s where p: "ca_publish (me_ca env) (mon_process_ca env) ca (ms_world st, ms_store st) = Inr (w, s)"
    and st': "st' = mon_clean_up_ca_table (with_store st (w, s))"
    using assms by (auto simp: mon_publish_def bindR_eq_Inr)
  have "mw_props w = mw_props (fst (ms_world st, ms_store st))"
    by (rule publish_world [where f = mw_props, OF process_props p])
  then show ?thesis by (simp add: st' with_store_def)
qed

lemma mon_close_one_props: "mon_close_one env x t st = Inr st' \<Longrightarrow> mw_props (ms_world st') = mw_props (ms_world st)"
  by (auto simp: mon_close_one_alt Let_def dest!: mon_publish_props split: if_splits)

lemma mon_close_chain_props:
  "mon_close_chain n env cmdid x t ended st = Some (Inr (e, st')) \<Longrightarrow> mw_props (ms_world st') = mw_props (ms_world st)"
proof (induction n arbitrary: st x t ended)
  case 0
  then show ?case by (cases x) auto
next
  case (Suc n)
  show ?case
  proof (cases x)
    case (Some z)
    with Suc show ?thesis by (auto simp: chain_Suc dest!: mon_close_one_props split: if_splits sum.splits)
  qed (use Suc.prems in auto)
qed

lemma mon_group_props:
  assumes "mon_group env a lev ldr st = Inr st'"
  shows "mw_props (ms_world st') = mw_props (ms_world st)"
proof -
  have dis: "ca_disband (me_ca env) (mon_process_ca env) l (ms_world st, ms_store st) = Inr (w, s) \<Longrightarrow>
      mw_props w = mw_props (ms_world st)" for l w s
    using disband_world [where f = mw_props, OF process_props] by fastforce
  show ?thesis
    using assms
    by (auto simp: mon_group_def Let_def bindR_eq_Inr with_store_def dest!: dis split: option.splits if_splits)
qed

lemma mon_shop_style: "mon_shop env a no_shop st = Inr (bits, winner, st') \<Longrightarrow> style_value st' = style_value st"
  using shop_props [where q = P_AGGREGATION_STYLE] by (fastforce simp: style_value_def dest: mon_shop_steps)

lemma mon_soa_steps:
  assumes "mon_soa env a now small csv rc st = Inr (r, st')"
  shows "\<exists>h1 s lev ldr st1 no_shop bits winner.
    mon_group env a lev ldr (st\<lparr>AuditHash := Some h1, ms_store := s\<rparr>) = Inr st1 \<and>
    mon_shop env a no_shop st1 = Inr (bits, winner, st')"
proof -
  obtain h where h: "AuditHash st = Some h"
    using assms by (auto simp: mon_soa_def bindR_eq_Inr Let_def split: option.splits)
  then show ?thesis using assms by (auto simp: mon_soa_def bindR_eq_Inr Let_def split: if_splits) blast+
qed

lemma mon_soa_style: "mon_soa env a now small csv rc st = Inr (r, st') \<Longrightarrow> style_value st' = style_value st"
  by (drule mon_soa_steps) (auto dest!: mon_shop_style mon_group_props simp: style_value_def)

lemma mon_eoa_steps:
  assumes "mon_eoa env now text rc st = Inr (r, st')"
  shows "st' = st \<or> (\<exists>ca ended st1. mon_close_all env ca now st = Inr (ended, st1) \<and>
    (st' = st1 \<or> (\<exists>l. mon_publish env l st1 = Inr st')))"
proof -
  obtain cmdrc csv eoa where eoa: "eoa_rc text = Inr (cmdrc, csv)" "ca_newFromCSVString (me_ca env) csv = Inr eoa"
    using assms by (auto simp: mon_eoa_def bindR_eq_Inr)
  show ?thesis
  proof (cases "Option.bind (AuditHash st) (\<lambda>h. mon_lookup env h (ck_new_from_ca eoa))")
    case (Some ca)
    then obtain ended st1 where all: "mon_close_all env ca now st = Inr (ended, st1)"
      and fin: "(case ca_leader (ms_store st ca) of
          Some l \<Rightarrow> if ca_closed (ms_store st1 l) then mon_publish env l st1 else Inr st1
        | None \<Rightarrow> Inr st1) = Inr st'"
      using assms eoa by (auto simp: mon_eoa_def bindR_eq_Inr Let_def)
    have "st' = st1 \<or> (\<exists>l. mon_publish env l st1 = Inr st')"
      using fin by (auto split: option.splits if_splits)
    with all show ?thesis by blast
  qed (use assms eoa in \<open>simp add: mon_eoa_def\<close>)
qed

lemma mon_eoa_style: "mon_eoa env now text rc st = Inr (r, st') \<Longrightarrow> style_value st' = style_value st"
  by (drule mon_eoa_steps)
    (auto simp: mon_close_all_def Let_def style_value_def dest!: mon_close_chain_props mon_publish_props split: option.splits)

lemma mon_pa_style: "mon_pa env addr buf rc st = Inr (r, st') \<Longrightarrow> style_value st' = style_value st"
  by (auto simp: mon_pa_def bindR_eq_Inr Let_def style_value_def split: option.splits)

lemma mon_record_style: "mon_record env addr now buf rc st = Inr (r, st') \<Longrightarrow> style_value st' = style_value st"
  by (auto simp: mon_record_def Let_def dest: mon_soa_style mon_eoa_style mon_pa_style split: if_splits)

definition no_groups :: "'h mon_state \<Rightarrow> bool" where
  "no_groups st = (\<forall>x \<in> live st. ca_leader (ms_store st x) = None)"

lemma mon_soa_no_groups:
  assumes env: "env_ok env" and ok: "monitor_ok st" and a: "a \<notin> live st" and ng: "no_groups st"
    and style: "agg_style st = Inr (Some s)" "first_char s = CHR ''-''"
    and run: "mon_soa env a now small csv rc st = Inr (r, st')"
  shows "no_groups st'"
proof -
  obtain h where h: "AuditHash st = Some h" "table_ok h (ms_store st)" "live st = open_cmds h"
    using monitor_okE [OF ok] .
  note laws = env [unfolded env_ok_def]
  let ?s = "ms_store st"
  obtain ca0 where ca0: "ca_newFromCSVString (me_ca env) csv = Inr ca0"
    using run by (auto simp: mon_soa_def bindR_eq_Inr Let_def)
  let ?ca = "ca0\<lparr>ca_starttime := now, ca_started := True\<rparr>"
  have "first_char s \<noteq> CHR ''+''" using style(2) by simp
  obtain h1 st1 no_shop bits winner
    where ins: "hash_insert (ce_hash (me_ca env)) ca_o_hash_cmp ca_o_hash_func (ck_new_from_ca ca0) a h = Inr h1"
      and none: "mon_lookup env h (ck_new_from_ca ca0) = None"
      and grp: "mon_group env a AGG_NONE (Option.bind (mon_pred env h ?ca) (\<lambda>p. ca_leader ((?s(a := ?ca)) p)))
          (st\<lparr>AuditHash := Some h1, ms_store := ?s(a := ?ca)\<rparr>) = Inr st1"
      and shop: "mon_shop env a no_shop st1 = Inr (bits, winner, st')"
    using run h(1) ca0 style by (auto simp: mon_soa_def bindR_eq_Inr Let_def mon_agglevel_def agg_style_def split: if_splits)
  have ldr: "Option.bind (mon_pred env h ?ca) (\<lambda>p. ca_leader ((?s(a := ?ca)) p)) = None"
    using mon_pred_live [OF laws, of h ?ca] ng h(3) a by (cases "mon_pred env h ?ca") (auto simp: no_groups_def)
  have st1: "st1 = st\<lparr>AuditHash := Some h1, ms_store := ?s(a := ?ca)\<rparr>"
    using grp unfolding ldr by (simp add: mon_group_def Let_def)
  have "hash_find (ce_hash (me_ca env)) ca_o_hash_cmp ca_o_hash_func (ck_new_from_ca ca0) h = None"
    using none by (simp add: mon_lookup_def)
  from mset_eq_setD [OF hash_insert_new [OF laws this ins]] have "set h1 = insert (ck_new_from_ca ca0, a) (set h)"
    by simp
  then have "open_cmds h1 = insert a (open_cmds h)" by (simp add: open_cmds_def)
  then have ng1: "no_groups st1"
    using ng h(3) newFromCSV_new [OF ca0] st1 by (auto simp: no_groups_def)
  have "AuditHash st' = AuditHash st1 \<and> (\<forall>x. ca_leader (ms_store st' x) = ca_leader (ms_store st1 x))"
    using mon_shop_steps [OF shop] by (auto simp: ca_clear_pa_def dest!: shop_leaves)
  with ng1 show ?thesis by (auto simp: no_groups_def live_def)
qed

lemma mon_record_no_groups:
  assumes env: "env_ok env" and ok: "monitor_ok st" and a: "addr \<notin> live st" and ng: "no_groups st"
    and style: "agg_style st = Inr (Some s)" "first_char s = CHR ''-''"
    and run: "mon_record env addr now buf rc st = Inr (r, st')"
  shows "no_groups st'"
proof -
  have eoa: "no_groups st'" if e: "mon_eoa env now t rc st = Inr (r, st')" for t
    unfolding no_groups_def
  proof
    fix y assume y: "y \<in> live st'"
    have "y \<in> live st" "control (ms_store st' y) = control (ms_store st y)"
      using mon_eoa_ok [OF env ok e] y by blast+
    then show "ca_leader (ms_store st' y) = None"
      using ng control_leader [of "ms_store st' y" "ms_store st y"] by (simp add: no_groups_def)
  qed
  have pa: "no_groups st'" if q: "mon_pa env addr buf rc st = Inr (r, st')"
  proof (cases "st' = st")
    case False
    then obtain pa ca obj where "ca_record_pa (me_ca env) (ms_store st ca) (addr, pa) = Inr obj"
      and "st' = st\<lparr>ms_store := (ms_store st)(ca := obj)\<rparr>"
      using q by (auto simp: mon_pa_def bindR_eq_Inr Let_def split: option.splits)
    moreover from this have "ca_leader obj = ca_leader (ms_store st ca)"
      using record_pa_control(1) control_leader by blast
    ultimately show ?thesis using ng by (auto simp: no_groups_def live_def)
  qed (use ng in simp)
  show ?thesis
    using run ng eoa pa mon_soa_no_groups [OF env ok a ng style] by (auto simp: mon_record_def Let_def split: if_splits)
qed

section \<open>The sample run\<close>

lemma mon_sample_reach: "mon_reach mon_sample_env mon_sample_start" "mon_reach mon_sample_env mon_sample_open"
proof -
  have "AuditHash mon_sample_boot = None" by (simp add: mon_sample_boot_def)
  from mon_reach.start [OF this mon_sample_init] show s: "mon_reach mon_sample_env mon_sample_start" .
  have a: "0 \<notin> live mon_sample_start" by (simp add: mon_sample_live)
  obtain r where "mon_record mon_sample_env 0 (ca_starttime sample_ca) (SOA @ header_csv sample_ca) 0 mon_sample_start =
      Inr (r, mon_sample_open)" using mon_sample_soa by blast
  from mon_reach.line [OF s a this] show "mon_reach mon_sample_env mon_sample_open" .
qed

section \<open>Properties\<close>

text \<open>
  C1. In every state the monitor can reach, each entry of its table has the key of its command
  and the command is still collecting actions; a command with a leader is in the leader's group,
  and the groups hold only commands of the table, whose leader is that of the group. So no
  pointer in the table or in a group is to a command that was handed over and freed.
\<close>

theorem monitor_table_consistent:
  assumes "mon_reach env st" and "hash_laws (ce_hash (me_ca env)) ca_o_hash_cmp ca_o_hash_func"
  shows "\<exists>h. AuditHash st = Some h \<and> table_ok h (ms_store st)"
  using mon_reach_ok [OF assms(1)] assms(2) by (simp add: env_ok_def monitor_ok_def)

theorem monitor_table_consistent_witness:
  "\<exists>h. AuditHash mon_sample_open = Some h \<and> table_ok h (ms_store mon_sample_open)"
  by (rule monitor_table_consistent [OF mon_sample_reach(2) mon_sample_laws])

text \<open>
  C14. Closing the chain of commands that one process went through by exec ends: with depths
  below 2 to the 31st, any fuel above the depth of the last command gives the same result.
\<close>

theorem exec_chain_ends:
  assumes "mon_reach env st" and "hash_laws (ce_hash (me_ca env)) ca_o_hash_cmp ca_o_hash_func"
    and "ca \<in> live st" and "\<forall>x \<in> live st. uint (ca_depth (ms_store st x)) < 2 ^ 31"
  shows "\<exists>r. \<forall>n > unat (ca_depth (ms_store st ca)). mon_close_chain n env cmdid (Some ca) t ended st = Some r"
proof (rule chain_enough_fuel)
  show "env_ok env" using assms(2) by (simp add: env_ok_def)
  then show "monitor_ok st" by (rule mon_reach_ok [OF assms(1)])
  show "ca \<in> live st" by (rule assms(3))
  show "depths_ok st" using assms(4) by (simp add: depths_ok_def)
qed simp

theorem exec_chain_ends_witness:
  "\<exists>r. \<forall>n > 1. mon_close_chain n mon_sample_env 10 (Some 0) (ca_starttime sample_ca) False mon_sample_open = Some r"
proof -
  have "ca_depth (ms_store mon_sample_open 0) = 1"
    by (simp add: mon_sample_open_def mon_sample_cmd_def header_part_def) (simp add: sample_ca_def)
  moreover from this have "\<forall>x \<in> live mon_sample_open. uint (ca_depth (ms_store mon_sample_open x)) < 2 ^ 31"
    by (simp add: mon_sample_live)
  ultimately show ?thesis
    using exec_chain_ends [OF mon_sample_reach(2) mon_sample_laws] by (simp add: mon_sample_live)
qed

text \<open>
  C13. When a command that leads a group, or is in none, ends, it leaves the table, and with it
  every command of its group: no audit is left behind without a leader that could publish it.
\<close>

theorem ended_group_leaves:
  assumes "mon_reach env st" and "hash_laws (ce_hash (me_ca env)) ca_o_hash_cmp ca_o_hash_func"
    and "eoa_rc text1 = Inr (cmdrc, csv)" and "ca_newFromCSVString (me_ca env) csv = Inr eoa"
    and "AuditHash st = Some h" and "mon_lookup env h (ck_new_from_ca eoa) = Some ca"
    and "ca_leader (ms_store st ca) = None \<or> ca_leader (ms_store st ca) = Some ca"
    and "mon_eoa env now text1 rc st = Inr (r, st')"
  shows "ca \<notin> live st' \<and> (\<forall>x \<in> live st'. ca_leader (ms_store st' x) \<noteq> Some ca)"
proof -
  have env: "env_ok env" using assms(2) by (simp add: env_ok_def)
  note ok = mon_reach_ok [OF assms(1) env]
  note mono = mon_eoa_ok [OF env ok assms(8)]
  have bits: "MON_EOA OR (if e then MON_TOP else 0) \<noteq> MON_ERR" for e
    by (cases e) (simp_all add: MON_EOA_def MON_TOP_def MON_ERR_def)
  have "ca \<notin> live st'"
    using env ok assms(8)
  proof (cases rule: mon_eoaE)
    case unknown
    have "r \<noteq> mon_result_of MON_ERR rc"
      using assms bits by (auto simp: mon_eoa_def bindR_eq_Inr Let_def mon_result_of_def)
    with unknown show ?thesis by simp
  next
    case (known cmdrc' csv' eoa' h' ca' st1)
    then have [simp]: "ca' = ca" using assms(3-6) by simp
    show ?thesis
    proof (cases "ca_leader (ms_store st ca)")
      case None
      then show ?thesis using known by simp
    next
      case (Some l)
      then have l: "l = ca" using assms(7) by simp
      then have "ca \<in> live st1" "ca_closed (ms_store st1 ca)" "control (ms_store st1 ca) = control (ms_store st ca)"
        using known Some by auto
      then have pub: "mon_publish env ca st1 = Inr st'" and "ca_leader (ms_store st1 ca) = Some ca"
        using known(9) Some l control_leader [of "ms_store st1 ca" "ms_store st ca"] by simp_all
      then have "ca_leader (ms_store st1 ca) = None \<or> ca_leader (ms_store st1 ca) = Some ca" by simp
      from mon_publish_ok [OF conjunct1 [OF known(6)] \<open>ca \<in> live st1\<close> this pub] show ?thesis by blast
    qed
  qed
  moreover have "ca_leader (ms_store st' x) \<noteq> Some ca" if "x \<in> live st'" for x
  proof
    assume "ca_leader (ms_store st' x) = Some ca"
    moreover obtain h' where "table_ok h' (ms_store st')" "live st' = open_cmds h'"
      using monitor_okE [OF conjunct1 [OF mono]] .
    ultimately have "ca \<in> live st'" using that table_okD(3) by blast
    with \<open>ca \<notin> live st'\<close> show False by blast
  qed
  ultimately show ?thesis by blast
qed

theorem ended_group_leaves_witness:
  "\<exists>r st'. mon_eoa mon_sample_env (ca_starttime sample_ca) (header_csv sample_ca) 0 mon_sample_open = Inr (r, st') \<and> 0 \<notin> live st'"
proof -
  obtain r st' where run: "mon_eoa mon_sample_env (ca_starttime sample_ca) (header_csv sample_ca) 0 mon_sample_open = Inr (r, st')"
    using mon_sample_eoa by blast
  have csv: "ca_newFromCSVString (me_ca mon_sample_env) (header_csv sample_ca) = Inr (header_part sample_ca)"
    by (simp add: mon_sample_env_simps mon_sample_csv)
  have "AuditHash mon_sample_open = Some [(ck_new_from_ca (header_part sample_ca), 0)]"
    by (simp add: mon_sample_open_def)
  moreover have "ca_leader (ms_store mon_sample_open 0) = None"
    by (simp add: mon_sample_open_def mon_sample_cmd_def header_part_def)
  ultimately have "0 \<notin> live st'"
    using ended_group_leaves [OF mon_sample_reach(2) mon_sample_laws sample_eoa_rc csv _ mon_sample_found _ run] by blast
  with run show ?thesis by blast
qed

text \<open>
  With the style of aggregation that starts with a minus sign no command ever gets into a
  group, so that each has its own audit; in particular the internal error about an impossible
  level of aggregation is not reached.
\<close>

theorem no_groups_without_aggregation:
  assumes "mon_reach env st" and "hash_laws (ce_hash (me_ca env)) ca_o_hash_cmp ca_o_hash_func"
    and "prop_get_str (mw_props (ms_world st)) P_AGGREGATION_STYLE = Inr (Some (CHR ''-'' # rest))"
    and "x \<in> live st"
  shows "ca_leader (ms_store st x) = None \<and> ca_group_hash (ms_store st x) = None"
proof -
  have env: "env_ok env" using assms(2) by (simp add: env_ok_def)
  have "agg_style st = Inr (Some (CHR ''-'' # rest)) \<Longrightarrow> no_groups st"
    using assms(1)
  proof (induction rule: mon_reach.induct)
    case (start st table tv st')
    have "AuditHash st' = Some []" by (rule mon_init_table [OF start(2,1)])
    then show ?case by (simp add: no_groups_def open_cmds_def)
  next
    case (line st addr now buf rc r st')
    have s: "agg_style st = Inr (Some (CHR ''-'' # rest))"
      using line.prems agg_style_value [OF mon_record_style [OF line.hyps(3)]] by simp
    have "first_char (CHR ''-'' # rest) = CHR ''-''" by (simp add: first_char_def)
    from mon_record_no_groups [OF env mon_reach_ok [OF line.hyps(1) env] line.hyps(2) line.IH [OF s] s this line.hyps(3)]
    show ?case .
  qed
  then have "ca_leader (ms_store st x) = None" using assms(3,4) by (simp add: agg_style_def no_groups_def)
  moreover obtain h where "table_ok h (ms_store st)" "live st = open_cmds h"
    using mon_reach_ok [OF assms(1) env] monitor_okE by blast
  ultimately show ?thesis using no_leader_no_group assms(4) by blast
qed

theorem no_groups_without_aggregation_witness:
  "ca_leader (ms_store mon_sample_open 0) = None \<and> ca_group_hash (ms_store mon_sample_open 0) = None"
proof (rule no_groups_without_aggregation [OF mon_sample_reach(2) mon_sample_laws])
  have "mw_props (ms_world mon_sample_open) = mon_sample_props"
    using mon_sample_props_start by (simp add: mon_sample_open_def)
  then show "prop_get_str (mw_props (ms_world mon_sample_open)) P_AGGREGATION_STYLE = Inr (Some (CHR ''-'' # []))"
    by (simp add: sample_str)
qed (simp add: mon_sample_live)

end
