(* ===== verification/Sha1.thy ===== *)
theory Sha1
  imports Prelude
begin

text \<open>
  The secure hash algorithm (\<open>src/sha1.c\<close>): the context into which a message is put byte by
  byte, the processing of a block, padding, and the digest. The theorem compares it with the
  definition of the standard, FIPS PUB 180-1, which is stated here over whole messages.
\<close>

unbundle bit_operations_syntax

section \<open>The program\<close>

record SHA1Context =
  Intermediate_Hash :: "u32 list"
  Length_Low :: u32
  Length_High :: u32
  Message_Block_Index :: nat
  Message_Block :: "u8 list"
  Computed :: bool
  Corrupted :: nat

definition shaSuccess :: nat where "shaSuccess = 0"
definition shaNull :: nat where "shaNull = 1"
definition shaStateError :: nat where "shaStateError = 3"

definition SHA1CircularShift :: "nat \<Rightarrow> u32 \<Rightarrow> u32" where
  "SHA1CircularShift bits word = push_bit bits word OR drop_bit (32 - bits) word"

definition H_init :: "u32 list" where
  "H_init = [0x67452301, 0xEFCDAB89, 0x98BADCFE, 0x10325476, 0xC3D2E1F0]"

definition SHA1Reset :: "SHA1Context option \<Rightarrow> nat \<times> SHA1Context option" where
  "SHA1Reset context =
     (case context of
        None \<Rightarrow> (shaNull, None)
      | Some c \<Rightarrow> (shaSuccess, Some (c\<lparr>Length_Low := 0, Length_High := 0, Message_Block_Index := 0,
          Intermediate_Hash := H_init, Computed := False, Corrupted := 0\<rparr>)))"

text \<open>The word sequence \<open>W\<close>.\<close>

definition W_first :: "u8 list \<Rightarrow> u32 list" where
  "W_first mb = map (\<lambda>t. push_bit 24 (ucast (mb ! (t * 4))) OR push_bit 16 (ucast (mb ! (t * 4 + 1)))
     OR push_bit 8 (ucast (mb ! (t * 4 + 2))) OR ucast (mb ! (t * 4 + 3))) [0..<16]"

definition W_next :: "u32 list \<Rightarrow> nat \<Rightarrow> u32 list" where
  "W_next W t = W @ [SHA1CircularShift 1 (W ! (t - 3) XOR W ! (t - 8) XOR W ! (t - 14) XOR W ! (t - 16))]"

definition W_all :: "u8 list \<Rightarrow> u32 list" where
  "W_all mb = foldl W_next (W_first mb) [16..<80]"

type_synonym word_buffers = "u32 \<times> u32 \<times> u32 \<times> u32 \<times> u32"

fun round_step :: "(u32 \<Rightarrow> u32 \<Rightarrow> u32 \<Rightarrow> u32) \<Rightarrow> u32 \<Rightarrow> u32 list \<Rightarrow> word_buffers \<Rightarrow> nat \<Rightarrow> word_buffers" where
  "round_step f k W (A, B, C, D, E) t =
     (SHA1CircularShift 5 A + f B C D + E + W ! t + k, A, SHA1CircularShift 30 B, C, D)"

definition rounds :: "u32 list \<Rightarrow> word_buffers \<Rightarrow> word_buffers" where
  "rounds W r =
     (let r = foldl (round_step (\<lambda>B C D. (B AND C) OR (NOT B AND D)) 0x5A827999 W) r [0..<20];
          r = foldl (round_step (\<lambda>B C D. B XOR C XOR D) 0x6ED9EBA1 W) r [20..<40];
          r = foldl (round_step (\<lambda>B C D. (B AND C) OR (B AND D) OR (C AND D)) 0x8F1BBCDC W) r [40..<60]
      in foldl (round_step (\<lambda>B C D. B XOR C XOR D) 0xCA62C1D6 W) r [60..<80])"

definition SHA1ProcessMessageBlock :: "SHA1Context \<Rightarrow> SHA1Context" where
  "SHA1ProcessMessageBlock context =
     (let H = Intermediate_Hash context
      in case rounds (W_all (Message_Block context)) (H ! 0, H ! 1, H ! 2, H ! 3, H ! 4) of
           (A, B, C, D, E) \<Rightarrow> context\<lparr>Intermediate_Hash := [H ! 0 + A, H ! 1 + B, H ! 2 + C, H ! 3 + D, H ! 4 + E],
             Message_Block_Index := 0\<rparr>)"

definition put_byte :: "u8 \<Rightarrow> SHA1Context \<Rightarrow> SHA1Context" where
  \<comment> \<open>\<open>context->Message_Block[context->Message_Block_Index++] = b\<close>\<close>
  "put_byte b c = c\<lparr>Message_Block := (Message_Block c)[Message_Block_Index c := b],
     Message_Block_Index := Message_Block_Index c + 1\<rparr>"

definition input_byte :: "u8 \<Rightarrow> SHA1Context \<Rightarrow> SHA1Context" where
  "input_byte b context =
     (let c = put_byte b context;
          c = c\<lparr>Length_Low := Length_Low c + 8\<rparr>;
          c = (if Length_Low c = 0 then c\<lparr>Length_High := Length_High c + 1\<rparr> else c);
          c = (if Length_Low c = 0 \<and> Length_High c = 0 then c\<lparr>Corrupted := 1\<rparr> else c)
      in if Message_Block_Index c = 64 then SHA1ProcessMessageBlock c else c)"

fun input_loop :: "u8 list \<Rightarrow> SHA1Context \<Rightarrow> SHA1Context" where
  "input_loop [] c = c"
| "input_loop (b # bs) c = (if Corrupted c \<noteq> 0 then c else input_loop bs (input_byte b c))"

definition SHA1Input ::
  "SHA1Context option \<Rightarrow> u8 list option \<Rightarrow> u32 \<Rightarrow> (nat \<times> SHA1Context option) result" where
  "SHA1Input context message_array len =
     (if len = 0 then Inr (shaSuccess, context)
      else case (context, message_array) of
        (Some c, Some bytes) \<Rightarrow>
          if Computed c then Inr (shaStateError, Some (c\<lparr>Corrupted := shaStateError\<rparr>))
          else if Corrupted c \<noteq> 0 then Inr (Corrupted c, Some c)
          else if length bytes < unat len then Inl (Fault ''message_array'')
          else Inr (shaSuccess, Some (input_loop (take (unat len) bytes) c))
      | _ \<Rightarrow> Inr (shaNull, context))"

function fill_zeros :: "nat \<Rightarrow> SHA1Context \<Rightarrow> SHA1Context" where
  "fill_zeros n c = (if Message_Block_Index c < n then fill_zeros n (put_byte 0 c) else c)"
  by pat_completeness auto

termination
  by (relation "measure (\<lambda>(n, c). n - Message_Block_Index c)") (auto simp: put_byte_def)

declare fill_zeros.simps [simp del]

definition length_bytes :: "u32 \<Rightarrow> u8 list" where
  "length_bytes w = [ucast (drop_bit 24 w), ucast (drop_bit 16 w), ucast (drop_bit 8 w), ucast w]"

definition SHA1PadMessage :: "SHA1Context \<Rightarrow> SHA1Context" where
  "SHA1PadMessage context =
     (let c = (if Message_Block_Index context > 55
               then fill_zeros 56 (SHA1ProcessMessageBlock (fill_zeros 64 (put_byte 0x80 context)))
               else fill_zeros 56 (put_byte 0x80 context));
          mb = take 56 (Message_Block c) @ length_bytes (Length_High c) @ length_bytes (Length_Low c)
      in SHA1ProcessMessageBlock (c\<lparr>Message_Block := mb\<rparr>))"

definition digest_bytes :: "u32 list \<Rightarrow> u8 list" where
  "digest_bytes H = map (\<lambda>i. ucast (drop_bit (8 * (3 - i mod 4)) (H ! (i div 4)))) [0..<20]"

definition SHA1Result :: "SHA1Context option \<Rightarrow> nat \<times> SHA1Context option \<times> u8 list option" where
  \<comment> \<open>the message digest is given where the code stores it\<close>
  "SHA1Result context =
     (case context of
        None \<Rightarrow> (shaNull, None, None)
      | Some c \<Rightarrow>
          if Corrupted c \<noteq> 0 then (Corrupted c, Some c, None)
          else
            let c = (if Computed c then c
                     else (SHA1PadMessage c)\<lparr>Message_Block := replicate 64 0, Length_Low := 0, Length_High := 0,
                            Computed := True\<rparr>)
            in (shaSuccess, Some c, Some (digest_bytes (Intermediate_Hash c))))"

section \<open>The standard\<close>

definition sha_f :: "nat \<Rightarrow> u32 \<Rightarrow> u32 \<Rightarrow> u32 \<Rightarrow> u32" where
  "sha_f t B C D =
     (if t < 20 then (B AND C) OR (NOT B AND D)
      else if t < 40 then B XOR C XOR D
      else if t < 60 then (B AND C) OR (B AND D) OR (C AND D)
      else B XOR C XOR D)"

definition sha_K :: "nat \<Rightarrow> u32" where
  "sha_K t = (if t < 20 then 0x5A827999 else if t < 40 then 0x6ED9EBA1 else if t < 60 then 0x8F1BBCDC else 0xCA62C1D6)"

text \<open>The words of a block, the first 16 being its bytes, most significant first.\<close>

fun sha_W :: "u8 list \<Rightarrow> nat \<Rightarrow> u32" where
  "sha_W M t =
     (if t < 16 then
        of_nat (unat (M ! (4 * t)) * 2 ^ 24 + unat (M ! (4 * t + 1)) * 2 ^ 16 + unat (M ! (4 * t + 2)) * 2 ^ 8
          + unat (M ! (4 * t + 3)))
      else word_rotl 1 (sha_W M (t - 3) XOR sha_W M (t - 8) XOR sha_W M (t - 14) XOR sha_W M (t - 16)))"

declare sha_W.simps [simp del]

fun sha_step :: "u8 list \<Rightarrow> word_buffers \<Rightarrow> nat \<Rightarrow> word_buffers" where
  "sha_step M (A, B, C, D, E) t =
     (word_rotl 5 A + sha_f t B C D + E + sha_W M t + sha_K t, A, word_rotl 30 B, C, D)"

definition sha_compress :: "u32 list \<Rightarrow> u8 list \<Rightarrow> u32 list" where
  "sha_compress H M =
     (case foldl (sha_step M) (H ! 0, H ! 1, H ! 2, H ! 3, H ! 4) [0..<80] of
        (A, B, C, D, E) \<Rightarrow> [H ! 0 + A, H ! 1 + B, H ! 2 + C, H ! 3 + D, H ! 4 + E])"

text \<open>A one bit, zeros, and the length in bits as eight bytes, to a multiple of 64 bytes.\<close>

definition sha_pad :: "u8 list \<Rightarrow> u8 list" where
  "sha_pad m = m @ 0x80 # replicate ((119 - length m mod 64) mod 64) 0
     @ map (\<lambda>i. of_nat (8 * length m div 256 ^ (7 - i))) [0..<8]"

function sha_blocks :: "u8 list \<Rightarrow> u8 list list" where
  "sha_blocks m = (if length m < 64 then [] else take 64 m # sha_blocks (drop 64 m))"
  by pat_completeness auto

termination
  by (relation "measure length") auto

declare sha_blocks.simps [simp del]

definition sha1_standard :: "u8 list \<Rightarrow> u8 list" where
  "sha1_standard m = concat (map length_bytes (foldl sha_compress H_init (sha_blocks (sha_pad m))))"


section \<open>Blocks\<close>

lemma bit_u8: "bit x n \<Longrightarrow> n < 8" for x :: u8
  using bit_imp_le_length [of x n] by simp

lemma bit_u32: "bit x n \<Longrightarrow> n < 32" for x :: u32
  using bit_imp_le_length [of x n] by simp

lemma circular_shift:
  assumes "0 < n" and "n < 32"
  shows "SHA1CircularShift n w = word_rotl n w"
proof (rule bit_word_eqI)
  fix i assume "i < LENGTH(32)"
  then have i: "i < 32" by simp
  have "\<not> bit w (i + (32 - n))" if "n \<le> i" using that assms i bit_u32 [of w "i + (32 - n)"] by linarith
  moreover have "(i + (32 - n)) mod 32 = i + (32 - n)" if "i < n" using that assms by simp
  moreover have "(i + (32 - n)) mod 32 = i - n" if "n \<le> i"
  proof -
    have "i + (32 - n) = (i - n) + 32" using that assms by simp
    moreover have "(i - n + 32) mod 32 = i - n" using i by simp
    ultimately show ?thesis by (simp only:)
  qed
  moreover have "bit (word_rotl n w) i = bit w ((i + (32 - n)) mod 32)"
    using i assms by (simp add: bit_word_rotl_iff)
  moreover have "bit (SHA1CircularShift n w) i = (n \<le> i \<and> bit w (i - n) \<or> bit w (i + (32 - n)))"
    using i assms by (auto simp: SHA1CircularShift_def bit_or_iff bit_push_bit_iff bit_drop_bit_eq add.commute)
  ultimately show "bit (SHA1CircularShift n w) i = bit (word_rotl n w) i"
    by (cases "i < n") simp_all
qed

lemma be_word:
  fixes a b c d :: u8
  shows "push_bit 24 (ucast a) OR push_bit 16 (ucast b) OR push_bit 8 (ucast c) OR ucast d =
    (of_nat (unat a * 2 ^ 24 + unat b * 2 ^ 16 + unat c * 2 ^ 8 + unat d) :: u32)"
proof -
  let ?a = "push_bit 24 (ucast a) :: u32" and ?b = "push_bit 16 (ucast b) :: u32"
  let ?c = "push_bit 8 (ucast c) :: u32" and ?d = "ucast d :: u32"
  note low = bit_u8 [of a] bit_u8 [of b] bit_u8 [of c] bit_u8 [of d]
  have "?c + ?d = ?c OR ?d"
    by (rule disjunctive_add_eq_or, rule bit_word_eqI) (auto simp: bit_simps dest!: low)
  moreover have "?b + (?c OR ?d) = ?b OR ?c OR ?d"
    by (rule disjunctive_add_eq_or, rule bit_word_eqI) (auto simp: bit_simps dest!: low)
  moreover have "?a + (?b OR ?c OR ?d) = ?a OR ?b OR ?c OR ?d"
    by (rule disjunctive_add_eq_or, rule bit_word_eqI) (auto simp: bit_simps dest!: low)
  ultimately have "?a OR ?b OR ?c OR ?d = ?a + (?b + (?c + ?d))" by simp
  then show ?thesis by (simp add: push_bit_eq_mult algebra_simps)
qed

lemma length_W_next: "length (foldl W_next W ts) = length W + length ts"
  by (induction ts arbitrary: W) (simp_all add: W_next_def)

lemma W_prefix:
  "k \<le> 80 \<Longrightarrow> 16 \<le> k \<Longrightarrow> length (foldl W_next (W_first mb) [16..<k]) = k \<and>
     (\<forall>t < k. foldl W_next (W_first mb) [16..<k] ! t = sha_W mb t)"
proof (induction k)
  case (Suc k)
  show ?case
  proof (cases "k < 16")
    case True
    with Suc.prems have "Suc k = 16" by simp
    moreover have "length (W_first mb) = 16" by (simp add: W_first_def)
    moreover have "W_first mb ! t = sha_W mb t" if "t < 16" for t
      using that by (simp add: W_first_def be_word sha_W.simps [of mb t] mult.commute)
    ultimately show ?thesis by simp
  next
    case False
    define W where "W = foldl W_next (W_first mb) [16..<k]"
    have W: "length W = k" "\<forall>t < k. W ! t = sha_W mb t" using Suc False by (simp_all add: W_def)
    have "W ! (k - 3) = sha_W mb (k - 3)" "W ! (k - 8) = sha_W mb (k - 8)" "W ! (k - 14) = sha_W mb (k - 14)"
      "W ! (k - 16) = sha_W mb (k - 16)" using W False by simp_all
    then have "SHA1CircularShift 1 (W ! (k - 3) XOR W ! (k - 8) XOR W ! (k - 14) XOR W ! (k - 16)) = sha_W mb k"
      using False sha_W.simps [of mb k] circular_shift [of 1] by simp
    then have "foldl W_next (W_first mb) [16..<Suc k] = W @ [sha_W mb k]"
      using False by (simp add: W_def [symmetric] W_next_def [of W])
    then show ?thesis using W by (simp add: nth_append less_Suc_eq)
  qed
qed simp

lemma W_all_nth: "t < 80 \<Longrightarrow> W_all mb ! t = sha_W mb t"
  using W_prefix [of 80 mb] by (simp add: W_all_def)

lemma rounds_standard: "rounds (W_all mb) r = foldl (sha_step mb) r [0..<80]"
proof -
  have step: "round_step f k (W_all mb) x t = sha_step mb x t" if "f = sha_f t" "k = sha_K t" "t < 80" for f k x t
    using that by (cases x) (simp add: circular_shift W_all_nth algebra_simps)
  have part: "foldl (round_step f k (W_all mb)) x [a..<b] = foldl (sha_step mb) x [a..<b]"
    if "\<And>t. a \<le> t \<Longrightarrow> t < b \<Longrightarrow> f = sha_f t \<and> k = sha_K t" "b \<le> 80" for f k x a b
  proof (rule foldl_cong)
    fix y t assume "t \<in> set [a..<b]"
    then have "f = sha_f t" "k = sha_K t" "t < 80" using that(1) [of t] that(2) by auto
    then show "round_step f k (W_all mb) y t = sha_step mb y t" by (rule step)
  qed simp_all
  have "[a..<c] = [a..<b] @ [b..<c]" if "a \<le> b" "b \<le> c" for a b c :: nat
    using upt_add_eq_append [of a b "c - b"] that by simp
  from this [of 0 20 80] this [of 20 40 80] this [of 40 60 80]
  have "[0..<80] = [0..<20] @ [20..<40] @ [40..<60] @ [60..<80]"
    by (simp del: upt_rec_numeral)
  then have "foldl (sha_step mb) r [0..<80] = foldl (sha_step mb) (foldl (sha_step mb)
      (foldl (sha_step mb) (foldl (sha_step mb) r [0..<20]) [20..<40]) [40..<60]) [60..<80]"
    by (simp del: upt_rec_numeral)
  moreover have "sha_f t = (\<lambda>B C D. B AND C OR NOT B AND D)" "sha_K t = 0x5A827999" if "t < 20" for t
    using that by (auto simp: sha_f_def sha_K_def fun_eq_iff)
  moreover have "sha_f t = (\<lambda>B C D. B XOR C XOR D)" "sha_K t = 0x6ED9EBA1" if "20 \<le> t" "t < 40" for t
    using that by (auto simp: sha_f_def sha_K_def fun_eq_iff)
  moreover have "sha_f t = (\<lambda>B C D. (B AND C) OR (B AND D) OR (C AND D))" "sha_K t = 0x8F1BBCDC" if "40 \<le> t" "t < 60" for t
    using that by (auto simp: sha_f_def sha_K_def fun_eq_iff)
  moreover have "sha_f t = (\<lambda>B C D. B XOR C XOR D)" "sha_K t = 0xCA62C1D6" if "60 \<le> t" for t
    using that by (auto simp: sha_f_def sha_K_def fun_eq_iff)
  ultimately show ?thesis by (simp add: rounds_def part Let_def del: upt_rec_numeral)
qed

lemma process_block:
  "SHA1ProcessMessageBlock c = c\<lparr>Intermediate_Hash := sha_compress (Intermediate_Hash c) (Message_Block c),
     Message_Block_Index := 0\<rparr>"
  by (simp add: SHA1ProcessMessageBlock_def sha_compress_def rounds_standard Let_def del: upt_rec_numeral
      split: prod.splits)


lemma sha_blocks_append: "length xs mod 64 = 0 \<Longrightarrow> sha_blocks (xs @ ys) = sha_blocks xs @ sha_blocks ys"
proof (induction xs rule: sha_blocks.induct)
  case (1 xs)
  show ?case
  proof (cases "length xs < 64")
    case True
    with 1 have "xs = []" by simp
    moreover have "sha_blocks [] = []" by (simp add: sha_blocks.simps)
    ultimately show ?thesis by simp
  next
    case False
    then have "length (drop 64 xs) mod 64 = 0" using 1(2) by (simp add: mod_if)
    with 1 False show ?thesis by (simp add: sha_blocks.simps [of "xs @ ys"] sha_blocks.simps [of xs])
  qed
qed

lemma sha_blocks_one: "length xs = 64 \<Longrightarrow> sha_blocks xs = [xs]"
  by (simp add: sha_blocks.simps [of xs] sha_blocks.simps [of "[]"])

section \<open>The context\<close>

text \<open>\<open>pre\<close> are the complete blocks of the message so far, \<open>rest\<close> what is in the buffer.\<close>

definition split_as :: "SHA1Context \<Rightarrow> u8 list \<Rightarrow> u8 list \<Rightarrow> u8 list \<Rightarrow> bool" where
  "split_as c m pre rest = (m = pre @ rest \<and> length pre mod 64 = 0 \<and> length rest < 64 \<and>
     Intermediate_Hash c = foldl sha_compress H_init (sha_blocks pre) \<and> Message_Block_Index c = length rest \<and>
     length (Message_Block c) = 64 \<and> take (length rest) (Message_Block c) = rest \<and>
     Length_Low c = of_nat (8 * length m) \<and> Length_High c = of_nat (8 * length m div 2 ^ 32) \<and>
     Corrupted c = 0 \<and> \<not> Computed c)"

definition represents :: "SHA1Context \<Rightarrow> u8 list \<Rightarrow> bool" where
  "represents c m = (\<exists>pre rest. split_as c m pre rest)"

lemma bit_length_step:
  "(8 * Suc n) div 2 ^ 32 = 8 * n div 2 ^ 32 + (if 8 * Suc n mod 2 ^ 32 = 0 then 1 else 0)"
proof -
  have q: "8 * k div 2 ^ 32 = k div 2 ^ 29" for k :: nat
    using div_mult_mult1 [of 8 k "2 ^ 29"] by simp
  have "8 * Suc n mod 2 ^ 32 = 8 * (Suc n mod 2 ^ 29)"
    using mult_mod_right [of 8 "Suc n" "2 ^ 29"] by simp
  then show ?thesis unfolding q by (simp add: div_Suc)
qed

lemma input_byte_represents:
  assumes "represents c m" and "8 * Suc (length m) < 2 ^ 64"
  shows "represents (input_byte b c) (m @ [b])"
proof -
  obtain pre tl where s: "split_as c m pre tl" using assms(1) by (auto simp: represents_def)
  then have m: "m = pre @ tl" "length pre mod 64 = 0" "length tl < 64"
    and c: "Intermediate_Hash c = foldl sha_compress H_init (sha_blocks pre)" "Message_Block_Index c = length tl"
      "length (Message_Block c) = 64" "take (length tl) (Message_Block c) = tl"
    and len: "Length_Low c = of_nat (8 * length m)" "Length_High c = of_nat (8 * length m div 2 ^ 32)"
    and ok: "Corrupted c = 0" "\<not> Computed c"
    by (simp_all only: split_as_def simp_thms)
  define L where "L = length m"
  let ?low = "Length_Low c + 8"
  let ?high = "if ?low = 0 then Length_High c + 1 else Length_High c"
  have low: "?low = of_nat (8 * Suc L)" using len by (simp add: L_def)
  have z: "?low = 0 \<longleftrightarrow> 8 * Suc L mod 2 ^ 32 = 0"
    unfolding low by (simp only: word_of_nat_eq_0_iff) (simp add: dvd_eq_mod_eq_0)
  have high: "?high = of_nat (8 * Suc L div 2 ^ 32)"
    unfolding bit_length_step z using len by (simp add: L_def)
  have "8 * Suc L div 2 ^ 32 < 2 ^ 32" using assms(2) by (simp add: L_def div_less_iff_less_mult)
  then have q: "(of_nat (8 * Suc L div 2 ^ 32) :: u32) = 0 \<longleftrightarrow> 8 * Suc L div 2 ^ 32 = 0"
    by (simp only: word_of_nat_eq_0_iff) (simp add: dvd_eq_mod_eq_0)
  have nc: "\<not> (?low = 0 \<and> ?high = 0)"
  proof
    assume a: "?low = 0 \<and> ?high = 0"
    have "8 * Suc L mod 2 ^ 32 = 0" using a z by (simp only: simp_thms)
    then have "8 * Suc L div 2 ^ 32 = 8 * L div 2 ^ 32 + 1" unfolding bit_length_step by (simp only: if_True simp_thms)
    then show False using a [THEN conjunct2] q unfolding high by linarith
  qed
  let ?mb = "(Message_Block c)[length tl := b]"
  have t: "take (Suc (length tl)) ?mb = tl @ [b]"
    using c(3,4) m(3) by (simp add: take_Suc_conv_app_nth)
  let ?put = "c\<lparr>Message_Block := ?mb, Message_Block_Index := Suc (length tl), Length_Low := ?low, Length_High := ?high\<rparr>"
  have put: "input_byte b c = (if Suc (length tl) = 64 then SHA1ProcessMessageBlock ?put else ?put)"
    using nc c(2) ok by (auto simp: input_byte_def put_byte_def Let_def)
  show ?thesis
  proof (cases "Suc (length tl) = 64")
    case True
    then have mb: "?mb = tl @ [b]" using t c(3) by simp
    then have "foldl sha_compress H_init (sha_blocks (m @ [b])) = sha_compress (Intermediate_Hash c) ?mb"
      using True m c(1) sha_blocks_append [OF m(2), of "tl @ [b]"] sha_blocks_one [of "tl @ [b]"] by simp
    moreover have "length (m @ [b]) = length pre + 64" using m(1) True by simp
    then have "length (m @ [b]) mod 64 = 0" using m(2) by (simp only: mod_add_self2)
    ultimately have "split_as (input_byte b c) (m @ [b]) (m @ [b]) []"
      unfolding split_as_def put process_block using True c ok low high by (simp add: L_def)
    then show ?thesis by (auto simp: represents_def)
  next
    case False
    then have "split_as (input_byte b c) (m @ [b]) pre (tl @ [b])"
      unfolding split_as_def put using m c ok low high t by (simp add: L_def)
    then show ?thesis by (auto simp: represents_def)
  qed
qed

lemma input_loop_represents:
  "represents c m \<Longrightarrow> 8 * length (m @ bs) < 2 ^ 64 \<Longrightarrow> represents (input_loop bs c) (m @ bs)"
proof (induction bs arbitrary: c m)
  case (Cons b bs)
  have "Corrupted c = 0" using Cons.prems(1) by (auto simp: represents_def split_as_def)
  moreover have "represents (input_byte b c) (m @ [b])"
    by (rule input_byte_represents [OF Cons.prems(1)]) (use Cons.prems(2) in simp)
  ultimately show ?case using Cons.IH [of "input_byte b c" "m @ [b]"] Cons.prems(2) by simp
qed simp


section \<open>Padding\<close>

lemma fill_zeros_eq:
  "Message_Block_Index c \<le> n \<Longrightarrow> n \<le> length (Message_Block c) \<Longrightarrow> fill_zeros n c =
     c\<lparr>Message_Block := take (Message_Block_Index c) (Message_Block c) @ replicate (n - Message_Block_Index c) 0
         @ drop n (Message_Block c), Message_Block_Index := n\<rparr>"
proof (induction n c rule: fill_zeros.induct)
  case (1 n c)
  show ?case
  proof (cases "Message_Block_Index c < n")
    case True
    let ?i = "Message_Block_Index c" and ?mb = "Message_Block c"
    have t: "take (Suc ?i) (?mb[?i := 0]) = take ?i ?mb @ [0]"
      using 1 True by (simp add: take_Suc_conv_app_nth)
    have d: "drop n (?mb[?i := 0]) = drop n ?mb" using True by simp
    have r: "replicate (n - ?i) (0 :: u8) = 0 # replicate (n - Suc ?i) 0"
      using True by (simp add: Suc_diff_Suc [symmetric])
    have "fill_zeros n (put_byte 0 c) = (put_byte 0 c)\<lparr>Message_Block := take (Suc ?i) (?mb[?i := 0])
        @ replicate (n - Suc ?i) 0 @ drop n (?mb[?i := 0]), Message_Block_Index := n\<rparr>"
      using 1 True by (simp add: put_byte_def)
    then show ?thesis
      unfolding t d using True by (simp add: fill_zeros.simps [of n c] r) (simp add: put_byte_def)
  next
    case False
    with 1 have "n = Message_Block_Index c" by simp
    then show ?thesis by (simp add: fill_zeros.simps)
  qed
qed

lemma byte_of_word:
  assumes "k \<le> 24"
  shows "(ucast (drop_bit k (of_nat x :: u32)) :: u8) = of_nat (x div 2 ^ k)"
proof (rule bit_word_eqI)
  fix n assume "n < LENGTH(8)"
  then show "bit (ucast (drop_bit k (of_nat x :: u32)) :: u8) n = bit (of_nat (x div 2 ^ k) :: u8) n"
    using assms by (simp add: bit_simps bit_drop_bit_eq flip: drop_bit_eq_div)
qed

definition pad_length :: "nat \<Rightarrow> u8 list" where
  \<comment> \<open>the length in bits, as in \<open>sha_pad\<close>\<close>
  "pad_length n = map (\<lambda>i. of_nat (8 * n div 256 ^ (7 - i))) [0..<8]"

lemma pad_length_words:
  "length_bytes (of_nat (8 * n div 2 ^ 32)) @ length_bytes (of_nat (8 * n)) = pad_length n"
proof -
  have d: "8 * n div 2 ^ 32 div 2 ^ k = 8 * n div 2 ^ (32 + k)" for k
    by (simp only: div_mult2_eq [symmetric] power_add)
  have b: "length_bytes (of_nat x) = [of_nat (x div 2 ^ 24), of_nat (x div 2 ^ 16), of_nat (x div 2 ^ 8), of_nat (x div 2 ^ 0)]" for x
    using byte_of_word [of 0 x] by (simp only: length_bytes_def byte_of_word drop_bit_0) simp
  have u: "[0..<8] = [0, 1, 2, 3, 4, 5, 6, 7 :: nat]" by (simp add: upt_rec)
  show ?thesis unfolding b d pad_length_def u by simp
qed

lemma sha_pad_eq: "sha_pad m = m @ 0x80 # replicate ((119 - length m mod 64) mod 64) 0 @ pad_length (length m)"
  by (simp add: sha_pad_def pad_length_def)

lemma length_pad_length [simp]: "length (pad_length n) = 8"
  by (simp add: pad_length_def)


lemma pad_message:
  assumes "represents c m"
  shows "Intermediate_Hash (SHA1PadMessage c) = foldl sha_compress H_init (sha_blocks (sha_pad m))"
proof -
  obtain pre tl where s: "split_as c m pre tl" using assms by (auto simp: represents_def)
  then have m: "m = pre @ tl" "length pre mod 64 = 0" "length tl < 64"
    and c: "Intermediate_Hash c = foldl sha_compress H_init (sha_blocks pre)" "Message_Block_Index c = length tl"
      "length (Message_Block c) = 64" "take (length tl) (Message_Block c) = tl"
    and len: "Length_Low c = of_nat (8 * length m)" "Length_High c = of_nat (8 * length m div 2 ^ 32)"
    by (simp_all only: split_as_def simp_thms)
  have lm: "length m mod 64 = length tl"
    using m mod_add_left_eq [of "length pre" 64 "length tl"] by simp
  have put: "put_byte 0x80 c = c\<lparr>Message_Block := (Message_Block c)[length tl := 0x80],
      Message_Block_Index := Suc (length tl)\<rparr>"
    using c(2) by (simp add: put_byte_def)
  have t: "take (Suc (length tl)) ((Message_Block c)[length tl := 0x80]) = tl @ [0x80]"
    using c(3,4) m(3) by (simp add: take_Suc_conv_app_nth)
  have lens: "length_bytes (Length_High c) @ length_bytes (Length_Low c) = pad_length (length m)"
    unfolding len by (rule pad_length_words)
  have app: "foldl sha_compress H_init (sha_blocks (pre @ ys)) =
      foldl sha_compress (Intermediate_Hash c) (sha_blocks ys)" for ys
    using sha_blocks_append [OF m(2)] c(1) by simp
  show ?thesis
  proof (cases "length tl > 55")
    case False
    let ?block = "tl @ 0x80 # replicate (55 - length tl) 0 @ pad_length (length m)"
    have "(119 - length tl) mod 64 = 55 - length tl"
    proof -
      have "119 - length tl = 55 - length tl + 64" using False by simp
      then show ?thesis by (simp only: mod_add_self2) simp
    qed
    then have "sha_pad m = pre @ ?block" using m lm by (simp add: sha_pad_eq)
    moreover have "fill_zeros 56 (put_byte 0x80 c) = c\<lparr>Message_Block := tl @ 0x80 # replicate (55 - length tl) 0
        @ drop 56 ((Message_Block c)[length tl := 0x80]), Message_Block_Index := 56\<rparr>"
      using False c(3) unfolding put by (subst fill_zeros_eq) (simp_all add: t)
    moreover have "length ?block = 64" "56 - length tl = Suc (55 - length tl)" using False by simp_all
    ultimately show ?thesis
      using False c(2) lens by (simp add: SHA1PadMessage_def process_block app sha_blocks_one Let_def)
  next
    case True
    let ?first = "tl @ 0x80 # replicate (63 - length tl) 0" and ?second = "replicate 56 0 @ pad_length (length m)"
    have "(119 - length tl) mod 64 = (63 - length tl) + 56" using True m(3) by simp
    moreover have "replicate (119 - length tl) (0 :: u8) = replicate (63 - length tl) 0 @ replicate 56 0"
      using True m(3) by (simp add: replicate_add [symmetric])
    ultimately have "sha_pad m = pre @ ?first @ ?second" using m(1,3) True lm by (simp add: sha_pad_eq)
    moreover have "fill_zeros 64 (put_byte 0x80 c) = c\<lparr>Message_Block := ?first, Message_Block_Index := 64\<rparr>"
      using m(3) c(3) unfolding put by (subst fill_zeros_eq) (simp_all add: t)
    moreover have "length ?first = 64" "length ?second = 64" using True m(3) by simp_all
    moreover from this have "sha_blocks (?first @ ?second) = [?first, ?second]"
      using sha_blocks_append [of ?first ?second] by (simp only: sha_blocks_one) simp
    ultimately show ?thesis
      using True c(2) lens by (simp add: SHA1PadMessage_def process_block app fill_zeros_eq Let_def)
  qed
qed

lemma digest_of_words:
  assumes "length H = 5"
  shows "digest_bytes H = concat (map length_bytes H)"
proof -
  obtain a b c d e where "H = [a, b, c, d, e]" using assms by (auto simp: eval_nat_numeral length_Suc_conv)
  then show ?thesis by (simp add: digest_bytes_def length_bytes_def upt_rec)
qed

lemma length_compress: "length (foldl sha_compress H_init bs) = 5"
  by (induction bs rule: rev_induct) (auto simp: H_init_def sha_compress_def split: prod.splits simp del: upt_rec_numeral)

section \<open>A message in pieces\<close>

fun sha1_inputs :: "u8 list list \<Rightarrow> SHA1Context option \<Rightarrow> (nat \<times> SHA1Context option) result" where
  \<comment> \<open>calls of \<open>SHA1Input\<close>, as long as they succeed\<close>
  "sha1_inputs [] context = Inr (shaSuccess, context)"
| "sha1_inputs (bytes # pieces) context =
     bindR (SHA1Input context (Some bytes) (of_nat (length bytes))) (\<lambda>(err, context).
       if err \<noteq> shaSuccess then Inr (err, context) else sha1_inputs pieces context)"

lemma input_represents:
  assumes "represents c m" and "unat len \<le> length bytes" and "8 * (length m + unat len) < 2 ^ 64"
  shows "\<exists>c'. SHA1Input (Some c) (Some bytes) len = Inr (shaSuccess, Some c') \<and> represents c' (m @ take (unat len) bytes)"
proof -
  have "Corrupted c = 0" "\<not> Computed c" using assms(1) by (auto simp: represents_def split_as_def)
  moreover have "represents (input_loop (take (unat len) bytes) c) (m @ take (unat len) bytes)"
    by (rule input_loop_represents [OF assms(1)]) (use assms(2,3) in \<open>simp add: min_absorb2\<close>)
  ultimately show ?thesis using assms(1,2) by (auto simp: SHA1Input_def)
qed

lemma reset_represents:
  "length (Message_Block c) = 64 \<Longrightarrow> \<exists>c'. SHA1Reset (Some c) = (shaSuccess, Some c') \<and> represents c' []"
  by (auto simp: SHA1Reset_def represents_def split_as_def sha_blocks.simps)

lemma result_represents:
  assumes "represents c m"
  shows "\<exists>c'. SHA1Result (Some c) = (shaSuccess, Some c', Some (sha1_standard m))"
proof -
  have "Corrupted c = 0" "\<not> Computed c" using assms by (auto simp: represents_def split_as_def)
  moreover have "digest_bytes (Intermediate_Hash (SHA1PadMessage c)) = sha1_standard m"
    unfolding pad_message [OF assms] sha1_standard_def by (rule digest_of_words) (rule length_compress)
  ultimately show ?thesis by (simp add: SHA1Result_def)
qed

lemma inputs_represent:
  "represents c m \<Longrightarrow> 8 * length (m @ concat pieces) < 2 ^ 64 \<Longrightarrow> \<forall>bytes \<in> set pieces. length bytes < 2 ^ 32 \<Longrightarrow>
     \<exists>c'. sha1_inputs pieces (Some c) = Inr (shaSuccess, Some c') \<and> represents c' (m @ concat pieces)"
proof (induction pieces arbitrary: c m)
  case (Cons bytes pieces)
  have l: "unat (of_nat (length bytes) :: u32) = length bytes"
    using Cons.prems(3) by (simp add: unsigned_of_nat take_bit_nat_eq_self)
  then obtain c' where "SHA1Input (Some c) (Some bytes) (of_nat (length bytes)) = Inr (shaSuccess, Some c')"
    and "represents c' (m @ bytes)"
    using input_represents [OF Cons.prems(1), of "of_nat (length bytes)" bytes] Cons.prems(2) by auto
  with Cons.IH [of c' "m @ bytes"] Cons.prems(2,3) show ?case by simp
qed simp

text \<open>
  C31. A message put in by any number of pieces, each shorter than 2 to the 32nd bytes and together shorter than
  2 to the 61st, yields the digest that the standard defines for the whole message: the buffering
  across pieces, the count of the bits in two words and the padding are right.
\<close>

theorem sha1_is_standard:
  assumes "length (Message_Block c) = 64" and "8 * length (concat pieces) < 2 ^ 64"
    and "\<forall>bytes \<in> set pieces. length bytes < 2 ^ 32"
  shows "\<exists>c' c''. sha1_inputs pieces (snd (SHA1Reset (Some c))) = Inr (shaSuccess, Some c') \<and>
    SHA1Result (Some c') = (shaSuccess, Some c'', Some (sha1_standard (concat pieces)))"
proof -
  obtain c0 where c0: "SHA1Reset (Some c) = (shaSuccess, Some c0)" "represents c0 []"
    using reset_represents [OF assms(1)] by blast
  from inputs_represent [OF c0(2)] assms(2,3) obtain c' where
    "sha1_inputs pieces (Some c0) = Inr (shaSuccess, Some c')" and "represents c' (concat pieces)"
    by auto
  with c0 result_represents show ?thesis by fastforce
qed

definition sha1_sample :: SHA1Context where
  "sha1_sample = \<lparr>Intermediate_Hash = [], Length_Low = 0, Length_High = 0, Message_Block_Index = 0,
     Message_Block = replicate 64 0, Computed = False, Corrupted = 0\<rparr>"

theorem sha1_is_standard_witness:
  "\<exists>c' c''. sha1_inputs [[0x61], [0x62, 0x63]] (snd (SHA1Reset (Some sha1_sample))) = Inr (shaSuccess, Some c') \<and>
    SHA1Result (Some c') = (shaSuccess, Some c'', Some (sha1_standard [0x61, 0x62, 0x63]))"
  using sha1_is_standard [of sha1_sample "[[0x61], [0x62, 0x63]]"] by (simp add: sha1_sample_def)

end
