(* ===== verification/IdentityHash.thy ===== *)
theory IdentityHash
  imports Prop Radix Sha1
begin

text \<open>
  Identity hashes of files (\<open>src/code.c\<close> with \<open>src/Zip/zipfmt.h\<close>): the choice of the algorithm,
  the files that are cleared of their time stamps before they are hashed, which are Unix
  archives and zip files, and the reading of a file. Sizes and offsets follow the layout of
  \<open>struct ar_hdr\<close> (\<open><ar.h>\<close>) and of the structures of \<open>zipfmt.h\<close>, which have no padding. An access
  outside the data is a \<open>Fault\<close>. CRC-32 belongs to zlib and is an argument.
\<close>

unbundle bit_operations_syntax

section \<open>Memory\<close>

fun mem_equal :: "u8 list \<Rightarrow> u8 list \<Rightarrow> bool result" where
  \<comment> \<open>\<open>!memcmp(data, key, sizeof(key))\<close>, comparing byte by byte\<close>
  "mem_equal data [] = Inr True"
| "mem_equal [] (k # ks) = Inl (Fault ''memcmp'')"
| "mem_equal (d # ds) (k # ks) = (if d = k then mem_equal ds ks else Inr False)"

definition mem_get :: "u8 list \<Rightarrow> nat \<Rightarrow> nat \<Rightarrow> u8 list result" where
  "mem_get data p n = (if p + n \<le> length data then Inr (take n (drop p data)) else Inl (Fault ''read''))"

definition mem_clear :: "u8 list \<Rightarrow> nat \<Rightarrow> nat \<Rightarrow> u8 list result" where
  \<comment> \<open>\<open>memset(data + p, 0, n)\<close>\<close>
  "mem_clear data p n = (if p + n \<le> length data then Inr (take p data @ replicate n 0 @ drop (p + n) data)
     else Inl (Fault ''memset''))"

definition bytes_of :: "string \<Rightarrow> u8 list" where
  "bytes_of s = map (\<lambda>c. of_nat (of_char c)) s"

definition chars_of :: "u8 list \<Rightarrow> string" where
  "chars_of data = map (\<lambda>b. char_of (unat b)) data"

section \<open>Digests\<close>

definition hex2 :: "u8 \<Rightarrow> string" where
  \<comment> \<open>the conversion \<open>%02x\<close>\<close>
  "hex2 b = (let s = nat_to_radix 16 (unat b) in replicate (2 - length s) CHR ''0'' @ s)"

definition blob_header :: "u64 \<Rightarrow> u8 list" where
  \<comment> \<open>with the final NUL\<close>
  "blob_header len = bytes_of (snprintf 64 (''blob '' @ fmt_d (sint len))) @ [0]"

text \<open>
  \<open>ctx\<close> is the uninitialised context. The size is a \<open>size_t\<close>, and \<open>SHA1Input\<close> takes an
  \<open>unsigned\<close>.
\<close>

definition git_hash :: "SHA1Context \<Rightarrow> u8 list \<Rightarrow> u64 \<Rightarrow> string result" where
  "git_hash ctx data len =
     (case SHA1Reset (Some ctx) of (err, c) \<Rightarrow>
      if err \<noteq> 0 then Inl (Exit 2)
      else
        let hdr = blob_header len
        in bindR (SHA1Input c (Some hdr) (of_nat (length hdr))) (\<lambda>(err, c).
           if err \<noteq> 0 then Inl (Exit 2)
           else bindR (SHA1Input c (Some data) (ucast len)) (\<lambda>(err, c).
             if err \<noteq> 0 then Inl (Exit 2)
             else case SHA1Result c of (err, _, digest) \<Rightarrow>
               if err \<noteq> 0 then Inl (Exit 2) else Inr (concat (map hex2 (the digest))))))"

definition code_hash2str ::
  "prop_state \<Rightarrow> (u8 list \<Rightarrow> u32) \<Rightarrow> SHA1Context \<Rightarrow> u8 list \<Rightarrow> u64 \<Rightarrow> nat \<Rightarrow> string option result" where
  "code_hash2str props crc32 ctx data len buflen =
     bindR (prop_get_str props P_IDENTITY_HASH) (\<lambda>algorithm.
     let alg = (case algorithm of Some a \<Rightarrow> a | None \<Rightarrow> [])
     in bindR (if alg \<noteq> [] \<and> (c_stricmp alg ''sha1'' = 0 \<or> c_stricmp alg ''git'' = 0) then git_hash ctx data len
               else bindR (util_format_to_radix 36 buflen (ucast (crc32 (take (unat (ucast len :: u32)) data)))) (\<lambda>buf.
                 if alg \<noteq> [] \<and> \<not> strnieq0 alg ''crc'' 3 then Inl (Exit 2) else Inr buf)) (\<lambda>buf.
          Inr (if buf \<noteq> [] then Some buf else None)))"

definition code_from_str ::
  "prop_state \<Rightarrow> (u8 list \<Rightarrow> u32) \<Rightarrow> SHA1Context \<Rightarrow> string \<Rightarrow> nat \<Rightarrow> string option result" where
  "code_from_str props crc32 ctx str buflen =
     code_hash2str props crc32 ctx (bytes_of str) (of_nat (length str)) buflen"

section \<open>Archives\<close>

definition ARMAG :: "u8 list" where "ARMAG = bytes_of (''!<arch>'' @ [newline])"

definition code_is_archive_file :: "u8 list \<Rightarrow> bool result" where
  "code_is_archive_file data = mem_equal data ARMAG"

definition ar_atol :: "u8 list \<Rightarrow> u64 result" where
  \<comment> \<open>\<open>atol\<close> on bytes that need not be terminated\<close>
  "ar_atol data =
     (let s = chars_of data
      in if dropWhile isdigit (snd (skip_sign (dropWhile isspace s))) = [] then Inl (Fault ''atol'')
         else Inr (c_strtol 10 s))"

text \<open>
  One member: its size, rounded up to an even number, and the data with its header cleared from
  behind the name. \<open>dot\<close> may point before the data after a member with a negative size.
\<close>

definition clear_member :: "u8 list \<Rightarrow> int \<Rightarrow> (int \<times> u8 list) result" where
  "clear_member data dot =
     (if dot < 0 then Inl (Fault ''ar_size'')
      else
        let p = nat dot
        in if length data < p + 48 then Inl (Fault ''ar_size'')
           else bindR (ar_atol (drop (p + 48) data)) (\<lambda>w.
             if w = 0 then Inr (0, data)
             else let sz = sint w + sint (c_rem w 2)
                  in bindR (mem_clear data (p + 16) 44) (\<lambda>data. Inr (sz, data))))"


definition nonzero :: "u8 list \<Rightarrow> nat" where
  "nonzero data = length (filter (\<lambda>b. b \<noteq> 0) data)"

lemma mem_clear_length: "mem_clear data p n = Inr data' \<Longrightarrow> length data' = length data"
  by (auto simp: mem_clear_def split: if_splits)

lemma mem_clear_nonzero:
  assumes "mem_clear data p n = Inr data'" and "data ! i \<noteq> 0" and "p \<le> i" and "i < p + n"
  shows "nonzero data' < nonzero data"
proof -
  have le: "p + n \<le> length data" and d: "data' = take p data @ replicate n 0 @ drop (p + n) data"
    using assms(1) by (auto simp: mem_clear_def split: if_splits)
  have "data = take p data @ take n (drop p data) @ drop (p + n) data"
    by (metis append.assoc append_take_drop_id take_add)
  then have "nonzero data = nonzero (take p data) + nonzero (take n (drop p data)) + nonzero (drop (p + n) data)"
    by (metis (no_types, lifting) add.assoc filter_append length_append nonzero_def)
  moreover have "nonzero data' = nonzero (take p data) + nonzero (drop (p + n) data)"
    by (simp add: d nonzero_def)
  moreover have "data ! i \<in> set (take n (drop p data))"
  proof -
    have "take n (drop p data) ! (i - p) = data ! i" "i - p < length (take n (drop p data))"
      using assms(3,4) le by simp_all
    then show ?thesis by (metis nth_mem)
  qed
  then have "0 < nonzero (take n (drop p data))" using assms(2) by (auto simp: nonzero_def filter_empty_conv)
  ultimately show ?thesis by simp
qed

lemma ar_atol_first: "ar_atol data = Inr w \<Longrightarrow> w \<noteq> 0 \<Longrightarrow> \<exists>b bs. data = b # bs \<and> b \<noteq> 0"
proof (cases data)
  case (Cons b bs)
  assume "ar_atol data = Inr w" "w \<noteq> 0"
  then have "c_strtol 10 (chars_of data) \<noteq> 0" by (auto simp: ar_atol_def Let_def split: if_splits)
  moreover have "c_strtol 10 (char_of (0 :: nat) # cs) = 0" for cs
  proof -
    have nul: "\<not> isspace (char_of (0 :: nat))" "char_of (0 :: nat) \<noteq> CHR ''-''" "char_of (0 :: nat) \<noteq> CHR ''+''"
      "\<not> is_digit_of 10 (char_of (0 :: nat))" by code_simp+
    then show ?thesis
      by (simp add: c_strtol_def scan_number_def skip_sign_def skip_0x_def digits_val_def split: list.splits)
  qed
  ultimately have "b \<noteq> 0" using Cons by (auto simp: chars_of_def)
  with Cons show ?thesis by blast
qed (simp add: ar_atol_def chars_of_def skip_sign_def)

lemma clear_member_nonzero:
  assumes "clear_member data dot = Inr (sz, data')" and "sz \<noteq> 0"
  shows "nonzero data' < nonzero data"
proof -
  obtain w where dot: "0 \<le> dot" "nat dot + 48 \<le> length data" and w: "ar_atol (drop (nat dot + 48) data) = Inr w" "w \<noteq> 0"
    and cl: "mem_clear data (nat dot + 16) 44 = Inr data'"
    using assms by (auto simp: clear_member_def Let_def bindR_eq_Inr split: if_splits)
  obtain b bs where "drop (nat dot + 48) data = b # bs" "b \<noteq> 0" using ar_atol_first [OF w] by blast
  then have "data ! (nat dot + 48) \<noteq> 0" by (metis dot(2) add.right_neutral nth_Cons_0 nth_drop)
  then show ?thesis by (rule mem_clear_nonzero [OF cl, of "nat dot + 48"]) linarith+
qed

text \<open>
  Each step clears the size it has read, so that there are fewer and fewer bytes which are not
  zero: the loop ends for any data, also for sizes that lead backwards.
\<close>

function clear_members :: "u8 list \<Rightarrow> int \<Rightarrow> (int \<times> u8 list) result" where
  "clear_members data dot =
     (if dot < int (length data) then
        (case clear_member data dot of
           Inl e \<Rightarrow> Inl e
         | Inr (sz, data') \<Rightarrow> if sz = 0 then Inr (- 1, data') else clear_members data' (dot + 60 + sz))
      else Inr (0, data))"
  by pat_completeness auto

termination
  by (relation "measure (\<lambda>(data, dot). nonzero data)") (auto dest: clear_member_nonzero)

declare clear_members.simps [simp del]

definition code_clear_archive_file :: "u8 list \<Rightarrow> (int \<times> u8 list) result" where
  "code_clear_archive_file data = clear_members data 8"

end
