(* ===== verification/ZipFile.thy ===== *)
theory ZipFile
  imports IdentityHash
begin

text \<open>
  Clearing the time stamps of a zip file (the second half of \<open>src/code.c\<close>). The code moves a
  pointer forward and counts down the size that is left; both are one position here, since
  they change together. \<open>Inr (data, None)\<close> is a return with -1, the data being what has been
  cleared so far; \<open>Inr (data, Some p)\<close> is a success at position \<open>p\<close>.
\<close>

unbundle bit_operations_syntax

type_synonym zip_result = "(u8 list \<times> nat option) result"

section \<open>Numbers and steps\<close>

fun get_le :: "u8 list \<Rightarrow> u64" where
  \<comment> \<open>\<open>_get_u16\<close>, \<open>_get_u32\<close> and \<open>_get_u64\<close> of 2, 4 and 8 bytes\<close>
  "get_le [] = 0"
| "get_le (b # bs) = ucast b OR push_bit 8 (get_le bs)"

definition zip_get :: "u8 list \<Rightarrow> nat \<Rightarrow> nat \<Rightarrow> u64 result" where
  "zip_get data p n = bindR (mem_get data p n) (\<lambda>bs. Inr (get_le bs))"

definition ADVANCE :: "u8 list \<Rightarrow> nat \<Rightarrow> u64 \<Rightarrow> nat option" where
  "ADVANCE data p n = (if length data - p < unat n then None else Some (p + unat n))"

definition zip_step :: "zip_result \<Rightarrow> (u8 list \<Rightarrow> nat \<Rightarrow> zip_result) \<Rightarrow> zip_result" where
  "zip_step r f = bindR r (\<lambda>(data, p). case p of None \<Rightarrow> Inr (data, None) | Some p \<Rightarrow> f data p)"

definition SIGNATURE_MATCHES :: "u8 list \<Rightarrow> nat \<Rightarrow> u8 list \<Rightarrow> bool result" where
  "SIGNATURE_MATCHES data p sig = mem_equal (drop p data) sig"

definition file_header_signature :: "u8 list" where "file_header_signature = [0x50, 0x4B, 0x03, 0x04]"
definition file_descriptor_signature :: "u8 list" where "file_descriptor_signature = [0x50, 0x4B, 0x07, 0x08]"
definition archive_extra_data_signature :: "u8 list" where "archive_extra_data_signature = [0x50, 0x4B, 0x06, 0x08]"
definition cd_file_signature :: "u8 list" where "cd_file_signature = [0x50, 0x4B, 0x01, 0x02]"
definition cd_signature_signature :: "u8 list" where "cd_signature_signature = [0x50, 0x4B, 0x05, 0x05]"
definition cd_end_zip64_v1_signature :: "u8 list" where "cd_end_zip64_v1_signature = [0x50, 0x4B, 0x06, 0x06]"
definition cd_end_locator_zip64_signature :: "u8 list" where "cd_end_locator_zip64_signature = [0x50, 0x4B, 0x06, 0x07]"
definition cd_end_signature :: "u8 list" where "cd_end_signature = [0x50, 0x4B, 0x05, 0x06]"
definition eh_id_zip64 :: "u8 list" where "eh_id_zip64 = [0x01, 0x00]"
definition eh_id_ext_timestamp :: "u8 list" where "eh_id_ext_timestamp = [0x55, 0x54]"

section \<open>Extra data\<close>

text \<open>
  The result has whether a zip64 record was seen, and the compressed size if the caller asked
  for it (\<open>want\<close>: the pointer is not NULL).
\<close>

record zip_extra =
  ze_data :: "u8 list"
  ze_pos :: "nat option"
  ze_zip64 :: bool
  ze_compressed :: u64

function clear_file_extra :: "nat \<Rightarrow> bool \<Rightarrow> u8 list \<Rightarrow> nat \<Rightarrow> bool \<Rightarrow> u64 \<Rightarrow> zip_extra result" where
  "clear_file_extra extra_len want data p zip64 cs =
     (let done = (\<lambda>data p. Inr \<lparr>ze_data = data, ze_pos = p, ze_zip64 = zip64, ze_compressed = cs\<rparr>)
      in if extra_len < 4 then done data (if extra_len \<noteq> 0 then None else Some p)
         else
           bindR (mem_get data p 4) (\<lambda>eh.
           case ADVANCE data p 4 of
             None \<Rightarrow> done data None
           | Some p \<Rightarrow>
               let n = unat (get_le (drop 2 eh))
               in if extra_len < 4 + n then done data None
                  else if take 2 eh = eh_id_zip64 then
                    bindR (if want then zip_get data (p + 8) 8 else Inr cs) (\<lambda>cs.
                    case ADVANCE data p (of_nat n) of
                      None \<Rightarrow> Inr \<lparr>ze_data = data, ze_pos = None, ze_zip64 = True, ze_compressed = cs\<rparr>
                    | Some p \<Rightarrow> clear_file_extra (extra_len - (4 + n)) want data p True cs)
                  else if take 2 eh = eh_id_ext_timestamp then
                    (if n < 1 then done data None
                     else case ADVANCE data p 1 of
                       None \<Rightarrow> done data None
                     | Some p \<Rightarrow>
                         bindR (mem_clear data p (n - 1)) (\<lambda>data.
                         case ADVANCE data p (of_nat (n - 1)) of
                           None \<Rightarrow> done data None
                         | Some p \<Rightarrow> clear_file_extra (extra_len - (4 + n)) want data p zip64 cs))
                  else
                    (case ADVANCE data p (of_nat n) of
                       None \<Rightarrow> done data None
                     | Some p \<Rightarrow> clear_file_extra (extra_len - (4 + n)) want data p zip64 cs)))"
  by pat_completeness auto


termination
  by (relation "measure (\<lambda>(extra_len, _). extra_len)") auto

declare clear_file_extra.simps [simp del]

section \<open>One file\<close>

lemma find_descriptor_forward:
  assumes "off < length data - p" and "dropWhile P (drop (p + off) data) = q # qs"
  shows "off \<le> length data - p - length (q # qs)"
proof -
  have "length (q # qs) \<le> length (drop (p + off) data)" by (metis assms(2) length_dropWhile_le)
  then show ?thesis using assms(1) by simp
qed

text \<open>
  The search for the descriptor. \<open>memchr\<close> looks for the first byte of the signature from
  \<open>off\<close>; if there is none, the code subtracts a pointer from \<open>NULL\<close>.
\<close>

function find_descriptor :: "u8 list \<Rightarrow> nat \<Rightarrow> nat \<Rightarrow> zip_result" where
  "find_descriptor data p off =
     (if off + 4 + 12 < length data - p then
        (case dropWhile (\<lambda>b. b \<noteq> 0x50) (drop (p + off) data) of
           [] \<Rightarrow> Inl (Fault ''NULL - data'')
         | q # qs \<Rightarrow>
             let at = length data - p - length (q # qs)
             in bindR (mem_equal (q # qs) file_descriptor_signature) (\<lambda>eq.
                  if eq then Inr (data, ADVANCE data p (of_nat at))
                  else find_descriptor data p (at + 1)))
      else Inr (data, Some p))"
  by pat_completeness auto

termination
proof (relation "measure (\<lambda>(data, p, off). length data - p - off)", goal_cases)
  case (2 data p off q qs at eq)
  then show ?case using find_descriptor_forward [of off data p] by fastforce
qed simp

declare find_descriptor.simps [simp del]

definition code_clear_one_file :: "u8 list \<Rightarrow> nat \<Rightarrow> zip_result" where
  "code_clear_one_file data p =
     bindR (mem_get data p 30) (\<lambda>h.
     bindR (mem_clear data (p + 10) 4) (\<lambda>data.
     let flags = h ! 6;
         compressed = get_le (take 4 (drop 18 h));
         uncompressed = take 4 (drop 22 h);
         name_length = get_le (take 2 (drop 26 h));
         extra_length = get_le (take 2 (drop 28 h));
         descriptor = (flags AND 8 \<noteq> 0)
     in zip_step (Inr (data, ADVANCE data p 30)) (\<lambda>data p.
        zip_step (Inr (data, ADVANCE data p name_length)) (\<lambda>data p.
        bindR (clear_file_extra (unat extra_length) (uncompressed = replicate 4 0xFF) data p False compressed) (\<lambda>ze.
        zip_step (Inr (ze_data ze, ze_pos ze)) (\<lambda>data p.
        zip_step (if ze_compressed ze \<noteq> 0 then Inr (data, ADVANCE data p (ze_compressed ze))
                  else if descriptor then find_descriptor data p 0
                  else Inr (data, Some p)) (\<lambda>data p.
          if descriptor then
            zip_step
              (if 4 \<le> length data - p then
                 bindR (mem_equal (drop p data) file_descriptor_signature) (\<lambda>eq.
                   Inr (data, if eq then ADVANCE data p 4 else Some p))
               else Inr (data, Some p)) (\<lambda>data p.
              Inr (data, ADVANCE data p (if ze_zip64 ze then 20 else 12)))
          else Inr (data, Some p))))))))"

definition code_clear_one_cd_file :: "u8 list \<Rightarrow> nat \<Rightarrow> zip_result" where
  "code_clear_one_cd_file data p =
     bindR (mem_get data p 46) (\<lambda>h.
     bindR (mem_clear data (p + 12) 4) (\<lambda>data.
     let name_length = get_le (take 2 (drop 28 h));
         extra_length = get_le (take 2 (drop 30 h));
         comment_length = get_le (take 2 (drop 32 h))
     in zip_step (Inr (data, ADVANCE data p 46)) (\<lambda>data p.
        zip_step (Inr (data, ADVANCE data p name_length)) (\<lambda>data p.
        bindR (clear_file_extra (unat extra_length) False data p False 0) (\<lambda>ze.
        zip_step (Inr (ze_data ze, ze_pos ze)) (\<lambda>data p.
          Inr (data, ADVANCE data p comment_length)))))))"

section \<open>Progress\<close>

lemma ADVANCE_Some: "ADVANCE data p n = Some q \<Longrightarrow> q = p + unat n \<and> (p \<le> length data \<longrightarrow> q \<le> length data)"
  by (auto simp: ADVANCE_def split: if_splits)

lemma zip_step_Some:
  assumes "zip_step r f = Inr (data', Some q)"
  obtains data p where "r = Inr (data, Some p)" and "f data p = Inr (data', Some q)"
  using assms by (auto simp: zip_step_def bindR_eq_Inr split: option.splits)

definition forward :: "u8 list \<Rightarrow> nat \<Rightarrow> u8 list \<Rightarrow> nat \<Rightarrow> bool" where
  "forward data p data' q = (length data' = length data \<and> p \<le> q \<and> (p \<le> length data \<longrightarrow> q \<le> length data))"

lemma forward_trans: "forward d p d' q \<Longrightarrow> forward d' q d'' r \<Longrightarrow> forward d p d'' r"
  by (auto simp: forward_def)

lemma forward_ADVANCE: "ADVANCE data p n = Some q \<Longrightarrow> forward data p data q"
  using ADVANCE_Some by (force simp: forward_def)

lemma forward_refl [simp]: "forward d p d p"
  by (simp add: forward_def)


lemma clear_file_extra_forward:
  "clear_file_extra extra_len want data p zip64 cs = Inr ze \<Longrightarrow>
     length (ze_data ze) = length data \<and> (\<forall>q. ze_pos ze = Some q \<longrightarrow> forward data p (ze_data ze) q)"
proof (induction extra_len arbitrary: data p zip64 cs rule: less_induct)
  case (less extra_len)
  note go = less.prems [unfolded clear_file_extra.simps [of extra_len] Let_def]
  show ?case
  proof (cases "extra_len < 4")
    case True
    with go show ?thesis by (auto split: if_splits)
  next
    case False
    with go obtain eh where eh: "mem_get data p 4 = Inr eh" by (auto simp: bindR_eq_Inr)
    show ?thesis
    proof (cases "ADVANCE data p 4")
      case None
      with go False eh show ?thesis by auto
    next
      case (Some p1)
      let ?n = "unat (get_le (drop 2 eh))"
      show ?thesis
      proof (cases "extra_len < 4 + ?n")
        case True
        with go False eh Some show ?thesis by auto
      next
        case long: False
        have rec: "length (ze_data ze) = length data \<and> (\<forall>q. ze_pos ze = Some q \<longrightarrow> forward data p (ze_data ze) q)"
          if "clear_file_extra (extra_len - (4 + ?n)) want data' p2 z c = Inr ze" "forward data p1 data' p2"
          for data' p2 z c
          using less.IH [OF _ that(1)] False that(2) forward_ADVANCE [OF Some]
          by (auto simp: forward_def)
        have clear: "mem_clear data p2 k = Inr data' \<Longrightarrow> ADVANCE data p1 1 = Some p2 \<Longrightarrow> ADVANCE data' p2 m = Some p3 \<Longrightarrow>
            forward data p1 data' p3" for p2 k data' m p3
          using forward_ADVANCE [of data p1 1 p2] forward_ADVANCE [of data' p2 m p3] mem_clear_length [of data p2 k data']
          by (auto simp: forward_def)
        show ?thesis
          using go False long eh Some
          by (auto simp: bindR_eq_Inr split: if_splits option.splits
              intro: rec [THEN conjunct1] rec [THEN conjunct2, THEN spec, THEN mp] forward_ADVANCE clear
              dest: mem_clear_length)
      qed
    qed
  qed
qed

lemma find_descriptor_pos: "find_descriptor data p off = Inr (data', Some q) \<Longrightarrow> forward data p data' q"
proof (induction data p off rule: find_descriptor.induct)
  case (1 data p off)
  from "1.prems" show ?case
    by (subst (asm) find_descriptor.simps)
      (auto simp: bindR_eq_Inr Let_def split: if_splits list.splits intro: "1.IH" dest: forward_ADVANCE)
qed

text \<open>\<open>advances k\<close>: on success the position is at least \<open>k\<close> further, and the data keep their length.\<close>

definition advances :: "nat \<Rightarrow> u8 list \<Rightarrow> nat \<Rightarrow> zip_result \<Rightarrow> bool" where
  "advances k data p r = (\<forall>data' q. r = Inr (data', Some q) \<longrightarrow> forward data p data' q \<and> p + k \<le> q)"

lemma advances_pos [intro]: "advances (unat n) data p (Inr (data, ADVANCE data p n))"
  by (auto simp: advances_def dest: ADVANCE_Some forward_ADVANCE)

lemma advances_zero [intro]:
  "advances 0 data p (Inr (data, Some p))" "advances 0 data p (Inr (data, ADVANCE data p n))"
  "advances 0 data p (Inr (data, if c then ADVANCE data p n else Some p))"
  by (auto simp: advances_def dest: forward_ADVANCE ADVANCE_Some)

lemma advances_step [intro]:
  assumes "advances k data p r" and "\<And>data' p'. advances 0 data' p' (f data' p')"
  shows "advances k data p (zip_step r f)"
  using assms forward_trans
  by (auto simp: advances_def elim!: zip_step_Some) (meson add_leE forward_trans le_trans trans_le_add1)+

lemma advances_bind [intro]: "(\<And>x. m = Inr x \<Longrightarrow> advances k data p (f x)) \<Longrightarrow> advances k data p (bindR m f)"
  by (auto simp: advances_def bindR_eq_Inr)

lemma advances_if [intro]:
  "(c \<Longrightarrow> advances k data p a) \<Longrightarrow> (\<not> c \<Longrightarrow> advances k data p b) \<Longrightarrow> advances k data p (if c then a else b)"
  by simp

lemma advances_cleared: "mem_clear data i n = Inr data' \<Longrightarrow> advances k data' p r \<Longrightarrow> advances k data p r"
  by (auto simp: advances_def forward_def dest: mem_clear_length)

lemma advances_extra:
  assumes "clear_file_extra extra_len want data p zip64 cs = Inr ze"
  shows "advances 0 data p (Inr (ze_data ze, ze_pos ze))"
  using clear_file_extra_forward [OF assms] by (auto simp: advances_def forward_def)

lemma advances_descriptor: "advances 0 data p (find_descriptor data p off)"
  using find_descriptor_pos [of data p off] by (auto simp: advances_def forward_def)

lemmas advances_intros = advances_bind advances_step advances_if advances_extra advances_descriptor advances_zero

lemma advances_header:
  assumes "\<And>data' p'. advances 0 data' p' (f data' p')"
  shows "advances (unat n) data p (bindR (mem_clear data i m) (\<lambda>data. zip_step (Inr (data, ADVANCE data p n)) f))"
proof (rule advances_bind)
  fix data' assume "mem_clear data i m = Inr data'"
  then show "advances (unat n) data p (zip_step (Inr (data', ADVANCE data' p n)) f)"
    by (rule advances_cleared) (intro advances_step advances_pos assms)
qed

lemma one_file_advances: "advances 30 data p (code_clear_one_file data p)"
  unfolding code_clear_one_file_def Let_def
  by (rule advances_bind, rule advances_header [where n = 30, simplified]) ((rule advances_intros | assumption)+)

lemma one_cd_file_advances: "advances 46 data p (code_clear_one_cd_file data p)"
  unfolding code_clear_one_cd_file_def Let_def
  by (rule advances_bind, rule advances_header [where n = 46, simplified]) ((rule advances_intros | assumption)+)


section \<open>The whole file\<close>

text \<open>The loops over the files and over the central directory.\<close>

lemma loop_decreases:
  assumes "advances k data p (f data p)" and "f data p = Inr (data', Some q)" and "0 < k" and "k \<le> length data - p"
  shows "length data' - q < length data - p"
  using assms by (force simp: advances_def forward_def)

function clear_files :: "u8 list \<Rightarrow> nat \<Rightarrow> zip_result" where
  "clear_files data p =
     (if 30 \<le> length data - p then
        (case SIGNATURE_MATCHES data p file_header_signature of
           Inl e \<Rightarrow> Inl e
         | Inr False \<Rightarrow> Inr (data, Some p)
         | Inr True \<Rightarrow>
             (case code_clear_one_file data p of
                Inr (data', Some q) \<Rightarrow> clear_files data' q
              | r \<Rightarrow> r))
      else Inr (data, Some p))"
  by pat_completeness auto

termination
  by (relation "measure (\<lambda>(data, p). length data - p)") (auto intro: loop_decreases [OF one_file_advances])

function clear_cd_files :: "u8 list \<Rightarrow> nat \<Rightarrow> zip_result" where
  "clear_cd_files data p =
     (if 46 \<le> length data - p then
        (case SIGNATURE_MATCHES data p cd_file_signature of
           Inl e \<Rightarrow> Inl e
         | Inr False \<Rightarrow> Inr (data, Some p)
         | Inr True \<Rightarrow>
             (case code_clear_one_cd_file data p of
                Inr (data', Some q) \<Rightarrow> clear_cd_files data' q
              | r \<Rightarrow> r))
      else Inr (data, Some p))"
  by pat_completeness auto

termination
  by (relation "measure (\<lambda>(data, p). length data - p)") (auto intro: loop_decreases [OF one_cd_file_advances])

declare clear_files.simps [simp del] clear_cd_files.simps [simp del]

text \<open>A record of at least \<open>n\<close> bytes with a signature is skipped, if it is there.\<close>

definition skip_record :: "nat \<Rightarrow> u8 list \<Rightarrow> (u8 list \<Rightarrow> nat \<Rightarrow> u64 result) \<Rightarrow> u8 list \<Rightarrow> nat \<Rightarrow> zip_result" where
  "skip_record n sig len data p =
     (if n \<le> length data - p then
        bindR (SIGNATURE_MATCHES data p sig) (\<lambda>eq.
          if eq then bindR (len data p) (\<lambda>l. Inr (data, ADVANCE data p l)) else Inr (data, Some p))
      else Inr (data, Some p))"

definition code_clear_zip_file :: "u8 list \<Rightarrow> (int \<times> u8 list) result" where
  "code_clear_zip_file data =
     bindR
       (zip_step (clear_files data 0) (\<lambda>data p.
        zip_step (skip_record 8 archive_extra_data_signature
          (\<lambda>data p. bindR (zip_get data (p + 4) 4) (\<lambda>l. Inr (8 + l))) data p) (\<lambda>data p.
        zip_step (clear_cd_files data p) (\<lambda>data p.
        zip_step (skip_record 6 cd_signature_signature
          (\<lambda>data p. bindR (zip_get data (p + 4) 2) (\<lambda>l. Inr (6 + l))) data p) (\<lambda>data p.
        zip_step (skip_record 56 cd_end_zip64_v1_signature
          (\<lambda>data p. bindR (zip_get data (p + 4) 8) (\<lambda>l. Inr (12 + l))) data p) (\<lambda>data p.
        zip_step (skip_record 20 cd_end_locator_zip64_signature (\<lambda>data p. Inr 20) data p) (\<lambda>data p.
          skip_record 22 cd_end_signature
            (\<lambda>data p. bindR (zip_get data (p + 20) 2) (\<lambda>l. Inr (22 + l))) data p)))))))
       (\<lambda>(data, p). Inr (if p = Some (length data) then 0 else - 1, data))"

definition code_is_zip_file :: "u8 list \<Rightarrow> nat \<Rightarrow> bool result" where
  "code_is_zip_file data n =
     (if n = 0 then Inr False
      else if 30 + 22 \<le> n then SIGNATURE_MATCHES data 0 file_header_signature else Inr False)"

section \<open>Malformed files\<close>

text \<open>A local file header, followed by an extended time stamp that says it has 96 bytes, in 52 bytes.\<close>

definition zip_long_stamp :: "u8 list" where
  "zip_long_stamp = [0x50, 0x4B, 0x03, 0x04] @ replicate 24 0 @ [0x64, 0] @ [0x55, 0x54, 0x60, 0] @ replicate 18 0"

text \<open>
  A record of time stamps is cleared before its length is checked against what is left of the file:
  there is a file which is taken for a zip file, and for which the code writes behind the end of
  the buffer.
\<close>

theorem zip_stamp_written_past_end:
  "code_is_zip_file zip_long_stamp 52 = Inr True \<and> code_clear_zip_file zip_long_stamp = Inl (Fault ''memset'')"
  by code_simp

end
