(* ===== verification/FileHash.thy ===== *)
theory FileHash
  imports ZipFile
begin

text \<open>
  The identity hash of a file (\<open>code_from_buffer\<close> and \<open>code_from_path\<close> of \<open>src/code.c\<close>), and what
  it does not depend on: the time stamps, owners and modes in the headers of an archive.
\<close>

section \<open>Buffers and files\<close>

definition code_needs_patching :: "u8 list \<Rightarrow> nat \<Rightarrow> bool result" where
  "code_needs_patching data n =
     bindR (code_is_archive_file data) (\<lambda>ar. if ar then Inr True else code_is_zip_file data n)"

definition HAS_TIMESTAMP :: "(string \<Rightarrow> bool) \<Rightarrow> string \<Rightarrow> bool result" where
  \<comment> \<open>the first argument is \<open>access\<close>\<close>
  "HAS_TIMESTAMP acc path =
     (if length path < 2 then Inl (Fault ''path - 2'')
      else Inr (drop (length path - 2) path = ''.a'' \<and> acc path))"

text \<open>
  \<open>writable\<close> says whether the buffer may be written to; otherwise it is a mapping for reading
  only. Warnings about corrupt files have no effect on the hash, which is that of the data as
  far as they were cleared.
\<close>

definition code_from_buffer ::
  "prop_state \<Rightarrow> (u8 list \<Rightarrow> u32) \<Rightarrow> SHA1Context \<Rightarrow> (string \<Rightarrow> bool) \<Rightarrow> bool \<Rightarrow> u8 list \<Rightarrow> string \<Rightarrow> nat \<Rightarrow> string option result" where
  "code_from_buffer props crc32 ctx acc writable data path buflen =
     bindR
       (if data = [] then Inr data
        else bindR (code_is_archive_file data) (\<lambda>ar.
          if ar then (if writable then bindR (code_clear_archive_file data) (\<lambda>(_, data). Inr data)
                      else Inl (Fault ''read-only mapping''))
          else bindR (code_is_zip_file data (length data)) (\<lambda>zip.
            if zip then (if writable then bindR (code_clear_zip_file data) (\<lambda>(_, data). Inr data)
                         else Inl (Fault ''read-only mapping''))
            else bindR (HAS_TIMESTAMP acc path) (\<lambda>_. Inr data)))) (\<lambda>data.
       code_hash2str props crc32 ctx data (of_nat (length data)) buflen)"

text \<open>
  What \<open>code_from_path\<close> asks of the system: the contents of a file that can be opened, and
  whether reading all of it and mapping it succeed.
\<close>

record file_access =
  fa_contents :: "string \<Rightarrow> u8 list option"
  fa_read :: "string \<Rightarrow> bool"
  fa_map :: "string \<Rightarrow> bool"
  fa_access :: "string \<Rightarrow> bool"

definition code_from_path ::
  "prop_state \<Rightarrow> (u8 list \<Rightarrow> u32) \<Rightarrow> SHA1Context \<Rightarrow> file_access \<Rightarrow> string \<Rightarrow> nat \<Rightarrow> string option result" where
  "code_from_path props crc32 ctx fa path len =
     bindR (prop_get_ulong props P_MMAP_LARGER_THAN) (\<lambda>map_cutoff.
     case fa_contents fa path of
       None \<Rightarrow> Inr None
     | Some data \<Rightarrow>
         let hash = (\<lambda>writable. code_from_buffer props crc32 ctx (fa_access fa) writable data path len);
             sz = (of_nat (length data) :: u64)
         in if sz = 0 then hash True
            else if sz \<le> map_cutoff \<or> map_cutoff = - 1 then (if fa_read fa path then hash True else Inr None)
            else
              bindR (if length data < 2048 \<or> \<not> fa_read fa path then Inr True
                     else code_needs_patching (take 2048 data) 2048) (\<lambda>writable.
              if fa_map fa path then hash writable else Inr None))"

section \<open>The mapping is writable where it has to be\<close>

lemma mem_equal_take: "length key \<le> n \<Longrightarrow> mem_equal (take n data) key = mem_equal data key"
  by (induction data key arbitrary: n rule: mem_equal.induct) (auto simp: take_Cons' split: nat.splits)

lemma patching_known:
  assumes "2048 \<le> length data"
  shows "code_needs_patching (take 2048 data) 2048 =
    bindR (code_is_archive_file data) (\<lambda>ar. if ar then Inr True else code_is_zip_file data (length data))"
proof -
  have "length ARMAG \<le> 2048" "length file_header_signature \<le> 2048"
    by (simp_all add: ARMAG_def bytes_of_def file_header_signature_def)
  then have "code_is_zip_file (take 2048 data) 2048 = code_is_zip_file data (length data)"
    and "code_is_archive_file (take 2048 data) = code_is_archive_file data"
    using assms by (auto simp: code_is_archive_file_def code_is_zip_file_def SIGNATURE_MATCHES_def mem_equal_take)
  then show ?thesis by (simp only: code_needs_patching_def)
qed

lemma from_buffer_writable:
  assumes "code_is_archive_file data = Inr ar" and "(if ar then Inr True else code_is_zip_file data (length data)) = Inr w"
  shows "code_from_buffer props crc32 ctx acc w data path len = code_from_buffer props crc32 ctx acc True data path len"
  using assms by (cases ar; cases w) (simp_all add: code_from_buffer_def)


section \<open>Archives\<close>

text \<open>
  A member of a well-formed archive: the name, the stamps (date, owner, group, mode), the size
  as text, the end of the header, and the contents, padded to an even length.
\<close>

record ar_member =
  am_name :: "u8 list"
  am_stamps :: "u8 list"
  am_size :: "u8 list"
  am_contents :: "u8 list"

definition member_ok :: "ar_member \<Rightarrow> bool" where
  "member_ok m = (length (am_name m) = 16 \<and> length (am_stamps m) = 32 \<and> length (am_size m) = 12 \<and>
     am_contents m \<noteq> [] \<and> even (length (am_contents m)) \<and>
     (\<exists>w. (\<forall>more. ar_atol (am_size m @ more) = Inr w) \<and> 0 < sint w \<and>
          sint w + sint w mod 2 = int (length (am_contents m))))"

definition member_bytes :: "ar_member \<Rightarrow> u8 list" where
  "member_bytes m = am_name m @ am_stamps m @ am_size m @ am_contents m"

definition member_cleared :: "ar_member \<Rightarrow> u8 list" where
  "member_cleared m = am_name m @ replicate 44 0 @ am_contents m"

lemma clear_member_ok:
  assumes m: "member_ok m"
  shows "clear_member (pre @ member_bytes m @ post) (int (length pre)) =
    Inr (int (length (am_contents m)), pre @ member_cleared m @ post)"
proof -
  obtain w where w: "\<And>more. ar_atol (am_size m @ more) = Inr w" and pos: "0 < sint w"
    and len: "sint w + sint w mod 2 = int (length (am_contents m))"
    using m by (auto simp: member_ok_def)
  have ls: "length (am_name m) = 16" "length (am_stamps m) = 32" "length (am_size m) = 12"
    using m by (simp_all add: member_ok_def)
  have d: "drop (length pre + 48) (pre @ member_bytes m @ post) = am_size m @ am_contents m @ post"
    using ls by (simp add: member_bytes_def)
  have "sint (c_rem w 2) = sint w mod 2"
  proof -
    have "sint (2 :: u64) = 2" by simp
    then have "c_rem w 2 = word_of_int (sint w mod 2)"
      using quot_rem_nonneg [of "sint w" 2] pos by (simp add: c_rem_def)
    moreover have "sint (word_of_int (sint w mod 2) :: u64) = sint w mod 2"
      by (cases "sint w mod 2 = 0") (auto simp: not_mod_2_eq_0_eq_1)
    ultimately show ?thesis by simp
  qed
  then have s: "sint w + sint (c_rem w 2) = int (length (am_contents m))" using len by simp
  have c: "mem_clear (pre @ member_bytes m @ post) (length pre + 16) 44 = Inr (pre @ member_cleared m @ post)"
    using ls by (simp add: mem_clear_def member_bytes_def member_cleared_def)
  have "w \<noteq> 0" using pos by auto
  then show ?thesis
    using ls d w s c by (simp add: clear_member_def Let_def member_bytes_def)
qed

lemma clear_members_ok:
  assumes "\<forall>m \<in> set ms. member_ok m"
  shows "clear_members (pre @ concat (map member_bytes ms)) (int (length pre)) =
    Inr (0, pre @ concat (map member_cleared ms))"
  using assms
proof (induction ms arbitrary: pre)
  case (Cons m ms)
  then have m: "member_ok m" by simp
  have l: "length (member_cleared m) = 60 + length (am_contents m)" "length (member_bytes m) = 60 + length (am_contents m)"
    and ne: "am_contents m \<noteq> []"
    using m by (simp_all add: member_ok_def member_cleared_def member_bytes_def)
  have "clear_members (pre @ concat (map member_bytes (m # ms))) (int (length pre)) =
      clear_members ((pre @ member_cleared m) @ concat (map member_bytes ms)) (int (length (pre @ member_cleared m)))"
    using clear_member_ok [OF m, of pre "concat (map member_bytes ms)"] l ne
    by (simp add: clear_members.simps [of "pre @ member_bytes m @ concat (map member_bytes ms)"] algebra_simps)
  also have "\<dots> = Inr (0, (pre @ member_cleared m) @ concat (map member_cleared ms))"
    by (rule Cons.IH) (use Cons.prems in simp)
  finally show ?case by simp
qed (simp add: clear_members.simps)

definition archive_bytes :: "ar_member list \<Rightarrow> u8 list" where
  "archive_bytes ms = ARMAG @ concat (map member_bytes ms)"

lemma mem_equal_append: "mem_equal (key @ ys) key = Inr True"
  by (induction key) simp_all

lemma length_ARMAG: "length ARMAG = 8"
  by (simp add: ARMAG_def bytes_of_def)

lemma clear_archive_ok:
  "\<forall>m \<in> set ms. member_ok m \<Longrightarrow> code_clear_archive_file (archive_bytes ms) = Inr (0, ARMAG @ concat (map member_cleared ms))"
  using clear_members_ok [of ms ARMAG] by (simp add: code_clear_archive_file_def archive_bytes_def length_ARMAG)

lemma hash_archive:
  assumes "\<forall>m \<in> set ms. member_ok m"
  shows "code_from_buffer props crc32 ctx acc True (archive_bytes ms) path len =
    (let data = ARMAG @ concat (map member_cleared ms) in code_hash2str props crc32 ctx data (of_nat (length data)) len)"
proof -
  have "archive_bytes ms \<noteq> []" using length_ARMAG by (auto simp: archive_bytes_def)
  moreover have "code_is_archive_file (archive_bytes ms) = Inr True"
    by (simp add: code_is_archive_file_def archive_bytes_def mem_equal_append)
  ultimately show ?thesis by (simp add: code_from_buffer_def clear_archive_ok [OF assms] Let_def)
qed


section \<open>Properties\<close>

text \<open>
  C32. The hash of a well-formed archive without empty members depends on the names and the contents
  of its members only: archives that were made at different times, or by different users, get the
  same hash. (At an empty member the clearing stops, so that the headers behind it are hashed as
  they are.)
\<close>

theorem archive_hash_ignores_stamps:
  assumes "\<forall>m \<in> set ms \<union> set ms'. member_ok m" and "map am_name ms = map am_name ms'"
    and "map am_contents ms = map am_contents ms'"
  shows "code_from_buffer props crc32 ctx acc True (archive_bytes ms) path len =
    code_from_buffer props crc32 ctx acc True (archive_bytes ms') path len"
proof -
  have "map member_cleared ms = map2 (\<lambda>n c. n @ replicate 44 0 @ c) (map am_name ms) (map am_contents ms)" for ms
    by (induction ms) (simp_all add: member_cleared_def)
  then have "map member_cleared ms = map member_cleared ms'" using assms(2,3) by simp
  then show ?thesis using assms(1) by (simp add: hash_archive)
qed

lemma chars_of_bytes: "chars_of (bytes_of s) = s"
  by (induction s) (simp_all add: chars_of_def bytes_of_def unsigned_of_nat char_of_take_bit_eq)

definition sample_member :: "string \<Rightarrow> ar_member" where
  "sample_member date = \<lparr>am_name = bytes_of ''a.o/            '', am_stamps = bytes_of (date @ ''100   100   100644  ''),
     am_size = bytes_of (''2         `'' @ [newline]), am_contents = [7, 8]\<rparr>"

lemma sample_member_ok: "length date = 12 \<Longrightarrow> member_ok (sample_member date)"
proof -
  assume d: "length date = 12"
  have c: "chars_of (bytes_of (''2         `'' @ [newline]) @ ys) = ''2         `'' @ newline # chars_of ys" for ys
    using chars_of_bytes [of "''2         `'' @ [newline]"] by (simp add: chars_of_def)
  have k: "isdigit (CHR ''2'')" "\<not> isspace (CHR ''2'')" "\<not> isdigit (CHR '' '')" "is_digit_of 10 (CHR ''2'')"
    "\<not> is_digit_of 10 (CHR '' '')" "digits_val 10 ''2'' = 2" by code_simp+
  have "ar_atol (bytes_of (''2         `'' @ [newline]) @ ys) = Inr 2" for ys
    unfolding ar_atol_def c using k
    by (simp add: skip_sign_def c_strtol_def scan_number_def skip_0x_def)
  moreover have "sint (2 :: u64) = 2" by simp
  ultimately show "member_ok (sample_member date)"
    using d by (auto simp: member_ok_def sample_member_def bytes_of_def intro!: exI [of _ 2])
qed

theorem archive_hash_ignores_stamps_witness:
  "code_from_buffer (prop_start []) (\<lambda>_. 0) sha1_sample (\<lambda>_. True) True (archive_bytes [sample_member ''1262304000  '']) ''/p/x.a'' 256 =
   code_from_buffer (prop_start []) (\<lambda>_. 0) sha1_sample (\<lambda>_. True) True (archive_bytes [sample_member ''1577836800  '']) ''/p/x.a'' 256"
  by (rule archive_hash_ignores_stamps) (simp_all add: sample_member_ok, simp_all add: sample_member_def)

text \<open>
  With the algorithm git the hash is that of a git blob, the SHA-1 digest of the header
  and the contents, for data of less than 2 to the 32nd bytes. For longer data only as many
  bytes are hashed as the length leaves modulo 2 to the 32nd, because \<open>SHA1Input\<close> takes an \<open>unsigned\<close>.
\<close>

theorem git_hash_is_blob_digest:
  assumes "length (Message_Block ctx) = 64"
  shows "git_hash ctx data (of_nat (length data)) =
    Inr (concat (map hex2 (sha1_standard (blob_header (of_nat (length data)) @ take (length data mod 2 ^ 32) data))))"
proof -
  let ?hdr = "blob_header (of_nat (length data))" and ?len = "ucast (of_nat (length data) :: u64) :: u32"
  have u: "unat ?len = length data mod 2 ^ 32"
    by (simp add: unsigned_ucast_eq unsigned_of_nat take_bit_take_bit) (simp add: take_bit_eq_mod)
  have h: "length ?hdr \<le> 64" by (simp add: blob_header_def bytes_of_def snprintf_def)
  then have hu: "unat (of_nat (length ?hdr) :: u32) = length ?hdr" by (simp add: unsigned_of_nat take_bit_nat_eq_self)
  obtain c0 where c0: "SHA1Reset (Some ctx) = (shaSuccess, Some c0)" "represents c0 []"
    using reset_represents [OF assms] by blast
  obtain c1 where c1: "SHA1Input (Some c0) (Some ?hdr) (of_nat (length ?hdr)) = Inr (shaSuccess, Some c1)"
    and r1: "represents c1 ?hdr"
    using input_represents [OF c0(2), of "of_nat (length ?hdr)" ?hdr] h hu by auto
  have "8 * (a + b) < 18446744073709551616" if "a \<le> 64" "b < 4294967296" for a b :: nat
    using that by simp
  from this [OF h, of "length data mod 2 ^ 32"] have "8 * (length ?hdr + unat ?len) < 2 ^ 64" unfolding u by simp
  moreover have "unat ?len \<le> length data" unfolding u by simp
  ultimately obtain c2 where c2: "SHA1Input (Some c1) (Some data) ?len = Inr (shaSuccess, Some c2)"
    and r2: "represents c2 (?hdr @ take (length data mod 2 ^ 32) data)"
    using input_represents [OF r1, of ?len data] unfolding u by blast
  obtain c3 where "SHA1Result (Some c2) = (shaSuccess, Some c3, Some (sha1_standard (?hdr @ take (length data mod 2 ^ 32) data)))"
    using result_represents [OF r2] by blast
  then show ?thesis using c0(1) c1 c2 by (simp add: git_hash_def shaSuccess_def Let_def)
qed

theorem git_hash_is_blob_digest_witness:
  "git_hash sha1_sample [1, 2] 2 = Inr (concat (map hex2 (sha1_standard (blob_header 2 @ [1, 2]))))"
  using git_hash_is_blob_digest [of sha1_sample "[1, 2]"] by (simp add: sha1_sample_def)

text \<open>
  A mapping for reading only is never written to: with the answer which the first bytes of
  the file gave before the mapping, hashing does the same as on a buffer that may be written.
\<close>

theorem mapping_written_only_if_writable:
  assumes "2048 \<le> length data" and "code_needs_patching (take 2048 data) 2048 = Inr writable"
  shows "code_from_buffer props crc32 ctx acc writable data path len =
    code_from_buffer props crc32 ctx acc True data path len"
  using assms(2) unfolding patching_known [OF assms(1)] bindR_eq_Inr
  by (elim exE conjE) (rule from_buffer_writable)

theorem mapping_written_only_if_writable_witness:
  "code_from_buffer (prop_start []) (\<lambda>_. 0) sha1_sample (\<lambda>_. True) False (replicate 3000 1) ''/p/x'' 256 =
   code_from_buffer (prop_start []) (\<lambda>_. 0) sha1_sample (\<lambda>_. True) True (replicate 3000 1) ''/p/x'' 256"
proof (rule mapping_written_only_if_writable)
  have "replicate 2048 (1 :: u8) = 1 # replicate 2047 1" by (simp add: numeral_eq_Suc)
  then show "code_needs_patching (take 2048 (replicate 3000 1)) 2048 = Inr False"
    by (simp add: code_needs_patching_def code_is_archive_file_def ARMAG_def bytes_of_def code_is_zip_file_def
        SIGNATURE_MATCHES_def file_header_signature_def)
qed simp

end
