(* ===== verification/Prefs.thy ===== *)
theory Prefs
  imports Prop "HOL-Library.Sublist"
begin

text \<open>
  Finding and loading the settings (\<open>src/prefs.c\<close>): the environment first, then properties
  files from general to particular, last the one of the project, which is found by searching
  upward from the working directory.
\<close>

section \<open>Data\<close>

text \<open>
  What the code asks the system: the contents of readable files, \<open>access(path, F_OK) == 0\<close>,
  \<open>wordexp\<close> with its words if it returns 0, the working directory and the limit on paths.
\<close>

record prefs_env =
  pf_files :: "string \<Rightarrow> string option"
  pf_access :: "string \<Rightarrow> bool"
  pf_wordexp :: "string \<Rightarrow> string list option"
  pf_cwd :: "string option"
  pf_path_max :: nat

section \<open>Searching upward\<close>

definition scratch_size :: "string option \<Rightarrow> nat" where
  "scratch_size scratch = (case scratch of None \<Rightarrow> 0 | Some s \<Rightarrow> Suc (length s))"

lemma scratch_size_simps [simp]:
  "scratch_size None = 0"
  "scratch_size (Some s) = Suc (length s)"
  by (simp_all add: scratch_size_def)

lemma strsep_scan_shorter: "scratch_size (snd (strsep_scan delim s)) \<le> length s"
  by (induction s) (auto split: prod.splits)

lemma util_strsep_shorter:
  assumes "util_strsep scratch delim = Some (tok, rest)"
  shows "scratch_size rest < scratch_size scratch"
proof -
  obtain t where t: "scratch = Some t" "strsep_scan delim t = (tok, rest)"
    using assms by (auto simp: util_strsep_def split: option.splits)
  then show ?thesis using strsep_scan_shorter [of delim t] by simp
qed

text \<open>The patterns of \<open>Project.Base.Glob\<close>, one after the other.\<close>

function glob_scan :: "prefs_env \<Rightarrow> string \<Rightarrow> string option \<Rightarrow> string option" where
  "glob_scan env dir scratch =
     (case util_strsep scratch '' '' of
        None \<Rightarrow> None
      | Some (g, rest) \<Rightarrow>
         (case pf_wordexp env (dir @ ''/'' @ g) of
            Some (w # _) \<Rightarrow> if pf_access env w then Some (dir @ ''/'' @ c_basename w) else glob_scan env dir rest
          | _ \<Rightarrow> glob_scan env dir rest))"
  by pat_completeness auto

termination glob_scan
  by (relation "measure (\<lambda>(env, dir, scratch). scratch_size scratch)") (auto dest: util_strsep_shorter)

declare glob_scan.simps [simp del]

text \<open>\<open>_find_file_up\<close>, from the directory it has come to.\<close>

function find_file_up :: "prefs_env \<Rightarrow> string \<Rightarrow> string option \<Rightarrow> string \<Rightarrow> string option" where
  "find_file_up env name glob dir =
     (if dir = ''/'' then None
      else case (if glob = None then None else glob_scan env dir glob) of
        Some found \<Rightarrow> Some found
      | None \<Rightarrow>
          let found = dir @ ''/'' @ name
          in if pf_access env found then Some found
             else let pdir = c_dirname dir
                  in if length dir \<le> length pdir then None else find_file_up env name glob pdir)"
  by pat_completeness auto

termination find_file_up
  by (relation "measure (\<lambda>(env, name, glob, dir). length dir)") (auto simp: not_le)

declare find_file_up.simps [simp del]

section \<open>Loading\<close>

definition PROP_EXT :: string where "PROP_EXT = ''.properties''"

definition putil_get_homedir :: "prefs_env \<Rightarrow> prop_state \<Rightarrow> nat \<Rightarrow> string option" where
  "putil_get_homedir env st buflen =
     (case getenv ''HOME'' (environ st) of
        Some h \<Rightarrow> if length h + 1 \<le> buflen then Some h else None
      | None \<Rightarrow> None)"

text \<open>The files outside the project: personal, system-wide, and beside the program.\<close>

definition load_site_files ::
  "prefs_env \<Rightarrow> string \<Rightarrow> string \<Rightarrow> string \<Rightarrow> prop_state \<Rightarrow> prop_state result" where
  "load_site_files env exe app ext st =
     bindR (case putil_get_homedir env st (pf_path_max env + 1) of
              None \<Rightarrow> Inr st
            | Some home \<Rightarrow>
                let hidden = home @ ''/'' @ ''.'' @ app @ ext; plain = home @ ''/'' @ app @ ext
                in prop_load (pf_files env) st (Some (if pf_access env hidden then hidden else plain)) False) (\<lambda>st.
     bindR (prop_load (pf_files env) st (Some (''/etc'' @ ''/'' @ app @ ext)) False) (\<lambda>st.
       prop_load (pf_files env) st (Some (c_dirname (c_dirname exe) @ ''/etc/'' @ app @ ext)) False))"

text \<open>The project: its file wins over earlier settings, its place is the base directory.\<close>

definition load_project ::
  "prefs_env \<Rightarrow> string \<Rightarrow> prop_state \<Rightarrow> prop_state result" where
  "load_project env app st =
     (case pf_cwd env of
        None \<Rightarrow> Inl (Exit 2)
      | Some cwd \<Rightarrow>
          bindR (prop_get_str st P_PROJECT_BASE_GLOB) (\<lambda>glob.
            case find_file_up env (''.'' @ app) glob cwd of
              Some cfgpath \<Rightarrow>
                bindR (prop_load (pf_files env) st (Some (cfgpath @ ''/'' @ app @ PROP_EXT)) True) (\<lambda>st.
                  prop_put_str st P_BASE_DIR (c_dirname cfgpath))
            | None \<Rightarrow> prop_put_str st P_BASE_DIR cwd))"

definition prefs_strict :: "prop_state \<Rightarrow> prop_state result" where
  "prefs_strict st =
     bindR (prop_is_true st P_STRICT) (\<lambda>strict.
       if strict then
         bindR (prop_set_true st P_STRICT_UPLOAD) (\<lambda>st.
         bindR (prop_set_true st P_STRICT_DOWNLOAD) (\<lambda>st.
         bindR (prop_put_long st P_STRICT_ERROR 1) (\<lambda>st.
           prop_set_true st P_STRICT_AUDIT)))
       else Inr st)"

text \<open>
  \<open>prefs_init\<close>: the second component is the level passed to \<open>putil_strict_error\<close>, if it is
  called. The auditor calls it without an extension, so that only the environment is read.
\<close>

definition prefs_init ::
  "prefs_env \<Rightarrow> string \<Rightarrow> string option \<Rightarrow> prop_state \<Rightarrow> (prop_state \<times> u64 option) result" where
  "prefs_init env exe ext st =
     (let progname = (if CHR ''/'' \<in> set exe then rev (takeWhile (\<lambda>c. c \<noteq> CHR ''/'') (rev exe)) else exe) in
      bindR (prop_put_str st P_PROGNAME progname) (\<lambda>st.
      bindR (prop_load (pf_files env) st None False) (\<lambda>st.
      bindR (case ext of
               None \<Rightarrow> Inr st
             | Some e \<Rightarrow>
                (case prop_get_app st of
                   None \<Rightarrow> Inl (Fault ''%s of NULL'')
                 | Some app \<Rightarrow> bindR (load_site_files env exe app e st) (load_project env app))) (\<lambda>st.
      bindR (prefs_strict st) (\<lambda>st.
        if prop_has_value st P_STRICT_ERROR
        then bindR (prop_get_long st P_STRICT_ERROR) (\<lambda>level. Inr (st, Some level))
        else Inr (st, None))))))"

section \<open>The nearest directory wins\<close>

definition dir_component :: "string \<Rightarrow> bool" where
  "dir_component c = (c \<noteq> [] \<and> CHR ''/'' \<notin> set c)"

definition dir_path :: "string list \<Rightarrow> string" where
  "dir_path cs = concat (map (\<lambda>c. CHR ''/'' # c) cs)"

definition ancestors :: "string list \<Rightarrow> string list" where
  \<comment> \<open>a directory, its parent, and so on up to the one below the root\<close>
  "ancestors cs = map dir_path (rev (tl (prefixes cs)))"

definition found_in :: "prefs_env \<Rightarrow> string \<Rightarrow> string option \<Rightarrow> string \<Rightarrow> string option" where
  "found_in env name glob dir =
     (case (if glob = None then None else glob_scan env dir glob) of
        Some found \<Rightarrow> Some found
      | None \<Rightarrow> if pf_access env (dir @ ''/'' @ name) then Some (dir @ ''/'' @ name) else None)"

definition first_found :: "'a option list \<Rightarrow> 'a option" where
  "first_found xs = (case filter (\<lambda>x. x \<noteq> None) xs of [] \<Rightarrow> None | x # _ \<Rightarrow> x)"

lemma first_found_Cons [simp]:
  "first_found [] = None"
  "first_found (x # xs) = (if x \<noteq> None then x else first_found xs)"
  by (simp_all add: first_found_def)

lemma ancestors_snoc: "ancestors (cs @ [c]) = dir_path (cs @ [c]) # ancestors cs"
  by (cases cs) (simp_all add: ancestors_def)

lemma dropWhile_sep: "c \<noteq> [] \<Longrightarrow> CHR ''/'' \<notin> set c \<Longrightarrow> dropWhile (\<lambda>x. x = CHR ''/'') (rev c @ s) = rev c @ s"
  by (cases c rule: rev_cases) auto

lemma dropWhile_component: "CHR ''/'' \<notin> set c \<Longrightarrow> dropWhile (\<lambda>x. x \<noteq> CHR ''/'') (rev c @ CHR ''/'' # s) = CHR ''/'' # s"
  by (subst dropWhile_append2) auto

lemma c_dirname_snoc:
  assumes "list_all dir_component (cs @ [c])"
  shows "c_dirname (dir_path (cs @ [c])) = (if cs = [] then ''/'' else dir_path cs)"
proof -
  have c: "c \<noteq> []" "CHR ''/'' \<notin> set c" using assms by (auto simp: dir_component_def)
  show ?thesis
  proof (cases cs rule: rev_cases)
    case Nil
    then show ?thesis
      using c by (simp add: c_dirname_def dir_path_def Let_def dropWhile_sep dropWhile_component)
  next
    case (snoc ds d)
    then have d: "d \<noteq> []" "CHR ''/'' \<notin> set d" using assms by (auto simp: dir_component_def)
    show ?thesis
      using c d snoc by (simp add: c_dirname_def dir_path_def Let_def dropWhile_sep dropWhile_component)
  qed
qed

lemma find_file_up_step:
  "find_file_up env name glob dir =
     (if dir = ''/'' then None
      else case found_in env name glob dir of Some found \<Rightarrow> Some found
        | None \<Rightarrow> if length dir \<le> length (c_dirname dir) then None else find_file_up env name glob (c_dirname dir))"
  by (subst find_file_up.simps) (simp add: found_in_def Let_def split: option.splits)

text \<open>
  The search for the project's file returns what it finds in the nearest directory, going
  from the working directory toward the root, which is itself not searched: it is the first
  result in the list of directories above. It ends for every path.
\<close>

theorem find_file_up_nearest:
  assumes "list_all dir_component cs" and "cs \<noteq> []"
  shows "find_file_up env name glob (dir_path cs) = first_found (map (found_in env name glob) (ancestors cs))"
  using assms
proof (induction cs rule: rev_induct)
  case (snoc c cs)
  have c: "c \<noteq> []" "CHR ''/'' \<notin> set c" using snoc.prems by (auto simp: dir_component_def)
  have root: "dir_path (cs @ [c]) \<noteq> ''/''"
    using c by (cases cs) (auto simp: dir_path_def dir_component_def)
  have len: "length (dir_path cs) < length (dir_path (cs @ [c]))" "Suc 0 < length (dir_path (cs @ [c]))"
    using c by (auto simp: dir_path_def)
  have up: "find_file_up env name glob (dir_path cs) = first_found (map (found_in env name glob) (ancestors cs))"
    if "cs \<noteq> []" using snoc.IH that snoc.prems by simp
  have top: "find_file_up env name glob ''/'' = None" by (simp add: find_file_up.simps)
  show ?case
    unfolding find_file_up_step [of env name glob "dir_path (cs @ [c])"]
    using root len up top c_dirname_snoc [OF snoc.prems(1)] ancestors_snoc [of cs c]
    by (cases "cs = []") (simp_all add: ancestors_def split: option.split)
qed simp

theorem find_file_up_nearest_witness:
  "find_file_up \<lparr>pf_files = (\<lambda>_. None), pf_access = (\<lambda>p. p = ''/w/.ao'' \<or> p = ''/w/p/.ao''), pf_wordexp = (\<lambda>_. None),
       pf_cwd = None, pf_path_max = 100\<rparr> ''.ao'' None ''/w/p/src'' = Some ''/w/p/.ao''"
  using find_file_up_nearest [of "[''w'', ''p'', ''src'']"
      "\<lparr>pf_files = (\<lambda>_. None), pf_access = (\<lambda>p. p = ''/w/.ao'' \<or> p = ''/w/p/.ao''), pf_wordexp = (\<lambda>_. None),
        pf_cwd = None, pf_path_max = 100\<rparr>" "''.ao''" None]
  by (simp add: dir_component_def dir_path_def ancestors_def found_in_def)

end
