(* ===== verification/Auditor.thy ===== *)
theory Auditor
  imports Re Prefs CmdAction
begin

text \<open>
  The auditor (\<open>src/libcommon.c\<close>, with \<open>_ignore_path\<close> of \<open>src/libunix.c\<close>): the library inside
  each audited process. It reports the start of its command to the monitor and waits for the
  answer, collects the actions on files, writes them to a temporary file before the process
  forks, and sends them with the end of the command. The model is that of Linux.
\<close>

section \<open>Data\<close>

datatype activation = LIBAO_INACTIVE | LIBAO_ACTIVE_BY_DEFAULT | LIBAO_ACTIVE_BY_REQUEST

text \<open>
  The static variables. \<open>AuditFD\<close> is -1 or the descriptor of a file, and
  \<open>audit_file\<close> is what this process wrote to the file since it opened it, or emptied it: the contents of
  the temporary file, which is new when it is opened. (Without a monitor the file may be one to
  which several processes append; it is then never read.) \<open>ReportSocket\<close> is \<open>None\<close> for
  \<open>INVALID_SOCKET\<close>, else what was sent over the open connection; \<open>wire\<close> has the connections
  which were closed, in order. \<open>as_basedir\<close> is the static of \<open>util_is_tmp\<close>.
\<close>

record 'h aud_state =
  Activated :: activation
  Depth :: u64
  CurrentCA :: "cmd_audit_s option"
  AuditFD :: int
  audit_file :: string
  ReportSocket :: "string option"
  wire :: "string list"
  IgnorePathRE :: "re_o option"
  IgnoreProgRE :: "re_o option"
  AllowedWritePathRE :: "re_o option"
  as_props :: prop_state
  as_basedir :: "string option"
  as_dcode :: "'h dcode_cache"

datatype recv_io = Got string | RFail nat

datatype fd_kind = FD_UNUSED | FD_SEEKABLE | FD_STREAM

text \<open>
  The process and the system around it. \<open>ae_connect\<close> is the outcome of the n-th \<open>connect\<close>, to a
  port; \<open>ae_send\<close> the outcomes of the calls which send a text; \<open>ae_reply\<close> what \<open>recv\<close> returns
  on a connection, given the earlier connections and what was sent, before the monitor closes it.
  \<open>ae_ackbuf\<close> is the buffer for the answer as it is found on the stack, \<open>ae_junk\<close> the
  uninitialised variable of \<open>util_is_tmp\<close>. \<open>ae_fd\<close> says what a descriptor number is in use for,
  \<open>ae_dup2\<close> whether \<open>dup2\<close> to it succeeds, \<open>ae_open\<close> what \<open>open\<close> returns for a name, with
  \<open>O_CREAT\<close> or without.
\<close>

record 'h aud_env =
  ae_ca :: ca_env
  ae_sys :: "'h ps_sys"
  ae_pcre :: pcre
  ae_prefs :: prefs_env
  ae_pid :: u64
  ae_tid :: u64
  ae_execpath :: string
  ae_host :: "string option"
  ae_junk :: nat
  ae_ackbuf :: string
  ae_socket :: bool
  ae_connect :: "nat \<Rightarrow> u16 \<Rightarrow> io"
  ae_send :: "string \<Rightarrow> io list"
  ae_reply :: "string list \<Rightarrow> string \<Rightarrow> recv_io list"
  ae_tmpfile :: bool
  ae_fd :: "nat \<Rightarrow> fd_kind"
  ae_dup2 :: "nat \<Rightarrow> bool"
  ae_dup :: int
  ae_open :: "string \<Rightarrow> bool \<Rightarrow> int"

definition auditor_isActiveByDefault :: "'h aud_state \<Rightarrow> bool" where
  "auditor_isActiveByDefault st = (Activated st = LIBAO_ACTIVE_BY_DEFAULT)"

definition auditor_isActiveByRequest :: "'h aud_state \<Rightarrow> bool" where
  "auditor_isActiveByRequest st = (Activated st = LIBAO_ACTIVE_BY_REQUEST)"

definition auditor_isActive :: "'h aud_state \<Rightarrow> bool" where
  "auditor_isActive st = (Activated st \<noteq> LIBAO_INACTIVE)"

definition auditor_setActive :: "'h aud_state \<Rightarrow> 'h aud_state" where
  "auditor_setActive st = st\<lparr>Activated := LIBAO_ACTIVE_BY_REQUEST\<rparr>"

definition auditor_setActiveByDefault :: "'h aud_state \<Rightarrow> 'h aud_state" where
  "auditor_setActiveByDefault st = st\<lparr>Activated := LIBAO_ACTIVE_BY_DEFAULT\<rparr>"

definition auditor_setInactive :: "'h aud_state \<Rightarrow> 'h aud_state" where
  "auditor_setInactive st = st\<lparr>Activated := LIBAO_INACTIVE\<rparr>"

section \<open>Recording an action\<close>

definition ignored_name :: "string \<Rightarrow> bool" where
  \<comment> \<open>the tests of \<open>_ignore_path\<close> before that for temporary files\<close>
  "ignored_name path =
     (prefix_of ''/proc/'' path \<or> prefix_of ''/xfn/'' path \<or> prefix_of ''/dev/'' path \<or> prefix_of ''/devices/'' path
      \<or> has_substring ''/.ccache/'' path
      \<or> path = ''/etc/mtab'' \<or> path = ''/proc/mounts''
      \<or> (5 \<le> length path \<and> drop (length path - 5) path = ''/core''))"

definition ignore_path :: "'h aud_env \<Rightarrow> 'h aud_state \<Rightarrow> string \<Rightarrow> (bool \<times> 'h aud_state) result" where
  "ignore_path env st path =
     (if ignored_name path then Inr (True, st)
      else
        bindR (if as_basedir st = None then prop_get_str (as_props st) P_BASE_DIR else Inr None) (\<lambda>base.
        bindR (util_is_tmp (ae_junk env) (as_basedir st) base path) (\<lambda>(tmp, basedir).
        let st = st\<lparr>as_basedir := basedir\<rparr>
        in Inr (tmp
             \<or> (prefix_of ''/tmp/sh'' path \<and> 7 < length path \<and> isdigit (path ! 7))
             \<or> re_match (IgnorePathRE st) (Some path) \<noteq> None, st))))"

definition pa_record_ps :: "pn_env \<Rightarrow> op_e \<Rightarrow> path_name_s \<Rightarrow> string option \<Rightarrow> path_state_s" where
  \<comment> \<open>the path state, with the second path of a link and the kind of file\<close>
  "pa_record_ps env op pn extra =
     (let ps = ps_new\<lparr>ps_pn := Some pn\<rparr>;
          ps = (case extra of
                  None \<Rightarrow> ps
                | Some e \<Rightarrow> if op = OP_SYMLINK then ps\<lparr>ps_target := set_str (Some e)\<rparr>
                            else ps\<lparr>ps_pn2 := pn_new env e True\<rparr>)
      in if op = OP_UNLINK then ps_set_unlinked ps
         else if op = OP_MKDIR then ps_set_dir ps
         else if op = OP_SYMLINK then ps_set_symlinked ps
         else if op = OP_LINK then ps_set_linked ps
         else ps)"

definition pa_record_pa ::
  "'h aud_env \<Rightarrow> moment_s \<Rightarrow> string \<Rightarrow> path_name_s \<Rightarrow> string option \<Rightarrow> u32 \<Rightarrow> op_e \<Rightarrow> cmd_audit_s \<Rightarrow> path_action_s" where
  "pa_record_pa env now call pn extra fd op ca =
     (let pa = pa_new\<lparr>pa_op := op, pa_call := set_str (Some call), pa_pid := ca_cmdid ca, pa_ppid := ca_pcmdid ca,
            pa_depth := ca_depth ca, pa_pccode := set_str (Some (ca_get_pccode ca)),
            pa_ccode := set_str (Some (ca_get_ccode ca)), pa_fd := fd, pa_tid := ae_tid env,
            pa_ps := Some (pa_record_ps (ce_pn (ae_ca env)) op pn extra)\<rparr>
      in if pa_is_read pa then pa else pa\<lparr>pa_timestamp := now\<rparr>)"

text \<open>
  \<open>_pa_record\<close>. \<open>addr\<close> is where the new action is allocated and \<open>now\<close> the time of day. Writes
  outside the paths allowed end the process.
\<close>

definition pa_record ::
  "'h aud_env \<Rightarrow> nat \<Rightarrow> moment_s \<Rightarrow> string \<Rightarrow> string \<Rightarrow> string option \<Rightarrow> u32 \<Rightarrow> op_e \<Rightarrow> 'h aud_state \<Rightarrow> 'h aud_state result"
  where
  "pa_record env addr now call path extra fd op st =
     (if \<not> auditor_isActive st then Inr st
      else case pn_new (ce_pn (ae_ca env)) path True of
        None \<Rightarrow> Inl (Fault ''NULL pn'')
      | Some pn \<Rightarrow>
          bindR (ignore_path env st (pn_get_abs pn)) (\<lambda>(ignored, st).
          if ignored then Inr st
          else case CurrentCA st of
            None \<Rightarrow> Inl (Abort ''PA after EOA'')
          | Some ca \<Rightarrow>
              let pa = pa_record_pa env now call pn extra fd op ca
              in if \<not> pa_is_read pa \<and> AllowedWritePathRE st \<noteq> None
                     \<and> re_match (AllowedWritePathRE st) (Some (pn_get_abs pn)) = None
                 then Inl (Exit 2)
                 else bindR (ca_record_pa (ae_ca env) ca (addr, pa)) (\<lambda>ca. Inr (st\<lparr>CurrentCA := Some ca\<rparr>))))"

section \<open>The connection to the monitor\<close>

definition strtoul0_base :: "string \<Rightarrow> nat" where
  \<comment> \<open>the base which \<open>strtoul(s, .., 0)\<close> finds, from the text after white space and sign\<close>
  "strtoul0_base t = (if skip_0x 16 t \<noteq> t then 16 else if first_char t = CHR ''0'' then 8 else 10)"

definition strtoul0 :: "string \<Rightarrow> u64 \<times> string" where
  \<comment> \<open>the value and the rest of the text, which is the text itself if there is no digit\<close>
  "strtoul0 s =
     (let t = snd (skip_sign (dropWhile isspace s)); b = strtoul0_base t; d = skip_0x b t
      in if takeWhile (is_digit_of b) d = [] then (0, s) else (c_strtoul b s, dropWhile (is_digit_of b) d))"

definition ETIMEDOUT :: nat where "ETIMEDOUT = 110"
definition EISCONN :: nat where "EISCONN = 106"

lemma skip_0x_shorter: "length (skip_0x b s) \<le> length s"
  by (auto simp: skip_0x_def split: list.splits)

lemma skip_sign_shorter: "length (snd (skip_sign s)) \<le> length s"
  by (auto simp: skip_sign_def split: list.splits)

lemma strtoul0_shorter: "length (snd (strtoul0 s)) \<le> length s"
proof -
  let ?t = "snd (skip_sign (dropWhile isspace s))"
  have "length (dropWhile p (skip_0x b ?t)) \<le> length s" for p b
    using length_dropWhile_le [of p "skip_0x b ?t"] skip_0x_shorter [of b ?t]
      skip_sign_shorter [of "dropWhile isspace s"] length_dropWhile_le [of isspace s]
    by linarith
  then show ?thesis by (simp add: strtoul0_def Let_def)
qed

text \<open>
  The ports are tried one after the other, each followed by a separator. A list which ends with
  a number makes the loop go on behind the end of the string.
\<close>

function connect_loop :: "(nat \<Rightarrow> u16 \<Rightarrow> io) \<Rightarrow> nat \<Rightarrow> string \<Rightarrow> u16 result" where
  "connect_loop conn tries portstr =
     (if portstr = [] then Inl (Exit 2)
      else
        let (v, nextport) = strtoul0 portstr; port = ucast v
        in case conn tries port of
             Done _ \<Rightarrow> Inr port
           | Fail e \<Rightarrow> if e = EISCONN then Inr port
                       else if nextport = [] then Inl (Fault ''read behind the ports'')
                       else connect_loop conn (Suc tries) (tl nextport))"
  by pat_completeness auto

termination connect_loop
proof (relation "measure (\<lambda>(conn, tries, portstr). length portstr)")
  fix conn :: "nat \<Rightarrow> u16 \<Rightarrow> io" and tries portstr x v nextport e
  assume "portstr \<noteq> []" and "x = strtoul0 portstr" and "(v, nextport) = x" and "nextport \<noteq> []"
  moreover from this have "length nextport \<le> length portstr" using strtoul0_shorter [of portstr] by (metis snd_conv)
  ultimately show "((conn, Suc tries, tl nextport), conn, tries, portstr) \<in> measure (\<lambda>(conn, tries, portstr). length portstr)"
    by (cases nextport) simp_all
qed simp

declare connect_loop.simps [simp del]

definition monitor_open :: "'h aud_env \<Rightarrow> 'h aud_state \<Rightarrow> 'h aud_state result" where
  "monitor_open env st =
     (if ReportSocket st \<noteq> None then Inr st
      else if \<not> ae_socket env then Inl (Exit 2)
      else
        bindR (prop_get_str (as_props st) P_MONITOR_HOST) (\<lambda>host.
        bindR (prop_get_str (as_props st) P_MONITOR_PORT) (\<lambda>portstr.
          case (host, portstr) of
            (_, None) \<Rightarrow> Inl (Exit 2)
          | (None, Some p) \<Rightarrow> if p = [] then Inl (Exit 2) else Inl (Fault ''inet_addr of NULL'')
          | (Some _, Some p) \<Rightarrow> bindR (connect_loop (ae_connect env) 0 p) (\<lambda>_. Inr (st\<lparr>ReportSocket := Some []\<rparr>)))))"

text \<open>
  \<open>_monitor_send\<close>; a call of \<open>send\<close> which never returns is not among the behaviours considered
  below, and stands here as an abort.
\<close>

definition monitor_send :: "'h aud_env \<Rightarrow> string \<Rightarrow> 'h aud_state \<Rightarrow> 'h aud_state result" where
  "monitor_send env buf st =
     (case ReportSocket st of
        None \<Rightarrow> Inl (Exit 2)
      | Some sent \<Rightarrow>
         (case util_send_all (ae_send env buf) buf of
            None \<Rightarrow> Inl (Abort ''blocked in send'')
          | Some (r, out) \<Rightarrow> if sint r < 0 then Inl (Exit 2) else Inr (st\<lparr>ReportSocket := Some (sent @ out)\<rparr>)))"

text \<open>
  \<open>_monitor_recv_line\<close>: the buffer is not cleared, and \<open>strchr\<close> runs over what was received
  into what was there before, up to a newline or a zero. When the outcomes are used up the
  monitor has closed the connection.
\<close>

definition recv_scan :: "string \<Rightarrow> nat \<Rightarrow> nat" where
  \<comment> \<open>where \<open>strchr(buf + p, newline)\<close> stops\<close>
  "recv_scan buf p = p + length (takeWhile (\<lambda>c. c \<noteq> newline \<and> c \<noteq> nul) (drop p buf))"

definition recv_store :: "string \<Rightarrow> nat \<Rightarrow> string \<Rightarrow> string" where
  "recv_store buf p d = take p buf @ d @ drop (p + length d) buf"

primrec recv_line :: "recv_io list \<Rightarrow> string \<Rightarrow> nat \<Rightarrow> string result" where
  "recv_line [] buf p = Inr buf"
| "recv_line (r # rs) buf p =
     (case r of
        RFail e \<Rightarrow> if e = EINTR then recv_line rs buf p else Inl (Exit 2)
      | Got data \<Rightarrow>
          let d = take (length buf - p) data; buf' = recv_store buf p d; e = recv_scan buf' p
          in if d = [] then Inr buf
             else if e = length buf then Inl (Fault ''strchr past the buffer'')
             else if buf' ! e = newline then Inr (buf'[e := nul])
             else recv_line rs buf' (p + length d))"

definition monitor_recv_line :: "'h aud_env \<Rightarrow> 'h aud_state \<Rightarrow> string result" where
  \<comment> \<open>the buffer afterwards\<close>
  "monitor_recv_line env st =
     (case ReportSocket st of
        None \<Rightarrow> Inl (Exit 2)
      | Some sent \<Rightarrow> recv_line (ae_reply env (wire st) sent) (ae_ackbuf env) 0)"

definition monitor_close :: "'h aud_state \<Rightarrow> 'h aud_state" where
  "monitor_close st =
     (case ReportSocket st of
        None \<Rightarrow> st
      | Some sent \<Rightarrow> st\<lparr>wire := wire st @ [sent], ReportSocket := None\<rparr>)"

definition ack_string :: "string \<Rightarrow> string result" where
  \<comment> \<open>the C string in the buffer\<close>
  "ack_string buf = (if nul \<in> set buf then Inr (buf_string buf) else Inl (Fault ''read past the buffer''))"

section \<open>The file for the actions\<close>

definition PREFERRED_FD :: nat where "PREFERRED_FD = 212"

definition pick_fd :: "'h aud_env \<Rightarrow> nat option" where
  \<comment> \<open>the first of ten descriptors at which \<open>lseek\<close> fails and to which \<open>dup2\<close> succeeds\<close>
  "pick_fd env =
     map_option (\<lambda>i. PREFERRED_FD + i)
       (find (\<lambda>i. ae_fd env (PREFERRED_FD + i) \<noteq> FD_SEEKABLE \<and> ae_dup2 env (PREFERRED_FD + i)) [0..<10])"

definition audit_open :: "'h aud_env \<Rightarrow> 'h aud_state \<Rightarrow> int result" where
  "audit_open env st =
     (if \<not> auditor_isActive st then Inr (- 1)
      else bindR (prop_is_true (as_props st) P_NO_MONITOR) (\<lambda>nomon.
        if nomon then
          bindR (prop_get_str (as_props st) P_OUTPUT_FILE) (\<lambda>ofile.
            case ofile of
              None \<Rightarrow> Inr 2
            | Some f \<Rightarrow>
                if f = ''-'' then Inr 1
                else if f = ''='' then Inr 2
                else if ae_open env f False \<noteq> - 1 then Inr (ae_open env f False)
                else let fd = ae_open env (f @ ''.'' @ fmt_lu (ae_pid env)) True
                     in if fd = - 1 then Inl (Exit 2) else Inr fd)
        else if \<not> ae_tmpfile env then Inl (Exit 2)
        else case pick_fd env of
               Some fd \<Rightarrow> Inr (int fd)
             | None \<Rightarrow> if ae_dup env = - 1 then Inl (Exit 2) else Inr (ae_dup env)))"

definition audit_write :: "string \<Rightarrow> 'h aud_state \<Rightarrow> 'h aud_state" where
  \<comment> \<open>\<open>write(AuditFD, ..)\<close>\<close>
  "audit_write t st = (if AuditFD st = - 1 then st else st\<lparr>audit_file := audit_file st @ t\<rparr>)"

definition ca_get_pa_count :: "cmd_audit_s \<Rightarrow> nat result" where
  "ca_get_pa_count ca =
     (case ca_raw_pa_dict ca of None \<Rightarrow> Inl (Fault ''NULL dictionary'') | Some d \<Rightarrow> Inr (length d))"

definition audit_flush :: "'h aud_env \<Rightarrow> 'h aud_state \<Rightarrow> 'h aud_state result" where
  "audit_flush env st =
     (if \<not> auditor_isActive st then Inr st
      else case CurrentCA st of
        None \<Rightarrow> Inl (Fault ''NULL ca'')
      | Some ca \<Rightarrow>
          if ca_recycled ca \<noteq> None then Inr st
          else bindR (ca_get_pa_count ca) (\<lambda>n.
            if n = 0 then Inr st
            else bindR (ca_write (ae_sys env) (as_dcode st) ca) (\<lambda>(bufs, ca, dc).
              Inr ((audit_write (concat bufs) st)\<lparr>CurrentCA := Some ca, as_dcode := dc\<rparr>))))"

section \<open>The end of a process or command\<close>

text \<open>The contents of the file go out in pieces of 1024 bytes.\<close>

function send_file :: "'h aud_env \<Rightarrow> string \<Rightarrow> 'h aud_state \<Rightarrow> 'h aud_state result" where
  "send_file env f st =
     (if f = [] then Inr st
      else bindR (monitor_send env (take 1024 f) st) (\<lambda>st. send_file env (drop 1024 f) st))"
  by pat_completeness auto

termination send_file
  by (relation "measure (\<lambda>(env, f, st). length f)") auto

declare send_file.simps [simp del]

definition audit_send_actions :: "'h aud_env \<Rightarrow> bool \<Rightarrow> 'h aud_state \<Rightarrow> 'h aud_state result" where
  "audit_send_actions env nomon st =
     (if \<not> nomon \<and> AuditFD st \<noteq> - 1 \<and> (case CurrentCA st of None \<Rightarrow> False | Some ca \<Rightarrow> ca_recycled ca = None)
      then bindR (monitor_open env st) (send_file env (audit_file st))
      else Inr st)"

definition audit_end_cmd :: "'h aud_env \<Rightarrow> int \<Rightarrow> cmd_audit_s \<Rightarrow> 'h aud_state \<Rightarrow> 'h aud_state result" where
  \<comment> \<open>the EOA, after which the command is gone\<close>
  "audit_end_cmd env status ca st =
     bindR (ca_format_header ca) (\<lambda>hdr.
     let eoa = ''<EOA>'' @ ''['' @ fmt_d status @ '']'' @ hdr in
     bindR (if ReportSocket st = None then Inr (audit_write eoa st) else monitor_send env eoa st) (\<lambda>st.
       Inr (st\<lparr>CurrentCA := None, AuditFD := - 1\<rparr>)))"

definition audit_truncate :: "'h aud_state \<Rightarrow> 'h aud_state result" where
  "audit_truncate st = (if AuditFD st = - 1 then Inl (Exit 2) else Inr (st\<lparr>audit_file := []\<rparr>))"

text \<open>\<open>_audit_end\<close>; the answer to an EOA is read but not looked at.\<close>

definition audit_end :: "'h aud_env \<Rightarrow> bool \<Rightarrow> int \<Rightarrow> 'h aud_state \<Rightarrow> 'h aud_state result" where
  "audit_end env exiting status st =
     (if \<not> auditor_isActive st then Inr st
      else
        bindR (audit_flush env st) (\<lambda>st.
        bindR (prop_is_true (as_props st) P_NO_MONITOR) (\<lambda>nomon.
        bindR (audit_send_actions env nomon st) (\<lambda>st.
        bindR (case CurrentCA st of
                 None \<Rightarrow> if exiting then Inl (Fault ''NULL ca'') else if nomon then Inr st else audit_truncate st
               | Some ca \<Rightarrow> if exiting \<and> ca_started ca then audit_end_cmd env status ca st
                           else if nomon then Inr st else audit_truncate st) (\<lambda>st.
          if ReportSocket st = None then Inr st
          else bindR (monitor_recv_line env st) (\<lambda>_. Inr (monitor_close st)))))))"

section \<open>The start of a command\<close>

definition ACK_BUFFER_SIZE :: nat where "ACK_BUFFER_SIZE = 256"
definition ACK_OK :: string where "ACK_OK = ''-OK-''"
definition ACK_OK_AGG :: string where "ACK_OK_AGG = ''-OK_AGG-''"
definition ACK_FAILURE :: string where "ACK_FAILURE = ''-FAILURE-''"

text \<open>
  What the auditor does on the answer to its SOA. The second component says whether the process
  exits, and with which status.
\<close>

definition audit_answer :: "'h aud_env \<Rightarrow> string \<Rightarrow> cmd_audit_s \<Rightarrow> 'h aud_state \<Rightarrow> ('h aud_state \<times> int option) result" where
  "audit_answer env ack ca st =
     (if ack = ACK_FAILURE then bindR (audit_end env True 2 st) (\<lambda>st. Inr (st, Some 2))
      else if ack = ACK_OK_AGG then
        (if prop_has_value (as_props st) P_AGGREGATED_SUBCMD
         then bindR (prop_mod_ulong (as_props st) P_AGGREGATED_SUBCMD 1 None) (\<lambda>(props, _).
                Inr (st\<lparr>as_props := props\<rparr>, None))
         else Inr (st, None))
      else if ack = ACK_OK then Inr (st, None)
      else
        let st = (case split_at CHR '','' ack of
                    Some (ptx, _) \<Rightarrow> st\<lparr>CurrentCA := Some (ca\<lparr>ca_recycled := set_str (Some ptx)\<rparr>)\<rparr>
                  | None \<Rightarrow> st)
        in bindR (audit_end env True 0 st) (\<lambda>st. Inr (st, Some 0)))"

definition audit_start :: "'h aud_env \<Rightarrow> 'h aud_state \<Rightarrow> ('h aud_state \<times> int option) result" where
  "audit_start env st =
     (if \<not> auditor_isActive st then Inr (st, None)
      else case CurrentCA st of
        None \<Rightarrow> Inl (Fault ''NULL ca'')
      | Some ca \<Rightarrow>
          bindR (ca_format_header ca) (\<lambda>hdr.
          bindR (prop_is_true (as_props st) P_AGGREGATED_SUBCMD) (\<lambda>sub.
          let soa = (if sub then ''<sOA>'' else ''<SOA>'') @ hdr in
          bindR (audit_open env st) (\<lambda>fd.
          let st = st\<lparr>AuditFD := fd, audit_file := []\<rparr> in
          bindR (prop_is_true (as_props st) P_NO_MONITOR) (\<lambda>nomon.
          if nomon then
            if fd = - 1 then Inl (Exit 2) else Inr (audit_write soa st, None)
          else
            bindR (monitor_open env st) (\<lambda>st.
            bindR (monitor_send env soa st) (\<lambda>st.
            bindR (monitor_recv_line env st) (\<lambda>buf.
            let st = monitor_close st in
            bindR (ack_string buf) (\<lambda>ack. audit_answer env ack ca st)))))))))"

section \<open>Initialisation\<close>

text \<open>
  The environment is recorded with a command which matches \<open>Track.Env.RE\<close>; behind the last colon
  of that property is an expression for the variables. The block is not terminated if no
  variable is taken.
\<close>

definition track_split :: "string \<Rightarrow> string \<times> string option" where
  "track_split str =
     (if CHR '':'' \<in> set str
      then (let r = rev str in (rev (tl (dropWhile (\<lambda>c. c \<noteq> CHR '':'') r)), Some (rev (takeWhile (\<lambda>c. c \<noteq> CHR '':'') r))))
      else (str, None))"

definition track_env :: "pcre \<Rightarrow> prop_state \<Rightarrow> string \<Rightarrow> cmd_audit_s \<Rightarrow> cmd_audit_s result" where
  "track_env pcre_compile props cmdstr ca =
     bindR (prop_get_str props P_TRACK_ENV_RE) (\<lambda>v. case v of
       None \<Rightarrow> Inr ca
     | Some str \<Rightarrow>
         let (cmd, var) = track_split str;
             cmd_re = re_init pcre_compile cmd;
             var_re = (case var of None \<Rightarrow> None | Some r \<Rightarrow> re_init pcre_compile r);
             taken = filter (\<lambda>e. \<not> has_substring ''TRACK_ENV'' e \<and> (var_re = None \<or> re_match var_re (Some e) \<noteq> None))
                       (environ props)
         in if re_match cmd_re (Some cmdstr) = None then Inr ca
            else if taken = [] then Inl (Fault ''read of an unset block'')
            else Inr (ca\<lparr>ca_freetext := set_str (Some (util_encode_minimal
                        (concat (map (\<lambda>e. e @ [newline]) taken))))\<rparr>))"

text \<open>The first part of \<open>_init_auditlib\<close>: the settings and the place in the tree of commands.\<close>

definition init_props :: "'h aud_env \<Rightarrow> string \<Rightarrow> 'h aud_state \<Rightarrow> (string option \<times> 'h aud_state) result" where
  "init_props env exe st =
     bindR (prop_init (as_props st) ''AO'') (\<lambda>props.
     bindR (prefs_init (ae_prefs env) exe None props) (\<lambda>(props, _).
       if prop_has_value props P_DEPTH then
         bindR (prop_get_ulong props P_DEPTH) (\<lambda>depth.
         bindR (prop_mod_ulong props P_DEPTH (depth + 1) None) (\<lambda>(props, _).
         bindR (prop_get_str props P_PCCODE) (\<lambda>pccode.
           Inr (pccode, st\<lparr>as_props := props, Depth := depth\<rparr>))))
       else bindR (prop_override_true props P_NO_MONITOR) (\<lambda>props. Inr (None, st\<lparr>as_props := props\<rparr>))))"

definition init_activation :: "'h aud_env \<Rightarrow> string \<Rightarrow> 'h aud_state \<Rightarrow> 'h aud_state result" where
  "init_activation env exe st =
     (if auditor_isActive st then Inr st
      else bindR (re_init_prop (ae_pcre env) (as_props st) P_ACTIVATION_PROG_RE) (\<lambda>(re, props).
        let st = st\<lparr>as_props := props\<rparr>
        in case re of
             None \<Rightarrow> Inr (auditor_setActiveByDefault st)
           | Some _ \<Rightarrow>
               if re_match re (Some exe) \<noteq> None then
                 bindR (prop_mod_str props P_ACTIVATION_PROG_RE [] False None) (\<lambda>(props, _).
                   Inr ((auditor_setActive st)\<lparr>as_props := props\<rparr>))
               else Inr st))"

definition init_ca :: "'h aud_env \<Rightarrow> string \<Rightarrow> string \<Rightarrow> string option \<Rightarrow> 'h aud_state \<Rightarrow> cmd_audit_s result" where
  "init_ca env exe cmdstr pccode st =
     bindR (prop_get_ulong (as_props st) P_PCMDID) (\<lambda>pcmdid.
     bindR (prop_get_str (as_props st) P_BASE_DIR) (\<lambda>base.
     let ca = ca_new\<lparr>ca_cmdid := ae_pid env, ca_depth := Depth st, ca_pcmdid := pcmdid,
           ca_prog := set_str (Some exe), ca_rwd := set_str (util_get_rwd (pf_cwd (ae_prefs env)) base),
           ca_started := True\<rparr>
     in case ae_host env of
          None \<Rightarrow> Inl (Exit 2)
        | Some h \<Rightarrow>
            let ca = ca_set_line (ae_ca env) (ca\<lparr>ca_host := set_str (Some h)\<rparr>) (Some cmdstr)
            in bindR (track_env (ae_pcre env) (as_props st) cmdstr ca) (\<lambda>ca.
                 case pccode of
                   None \<Rightarrow> Inr (ca\<lparr>ca_pccode := None\<rparr>)
                 | Some c \<Rightarrow>
                     if CSV_FIELD_IS_NULL c then Inr (ca\<lparr>ca_pccode := None\<rparr>)
                     else bindR (util_strtrim (snprintf 256 c)) (\<lambda>c. Inr (ca\<lparr>ca_pccode := set_str (Some c)\<rparr>)))))"

text \<open>
  \<open>_init_auditlib\<close>. The second component says that the process exits, the third is the process
  number returned.
\<close>

definition init_auditlib ::
  "'h aud_env \<Rightarrow> nat \<Rightarrow> moment_s \<Rightarrow> string \<Rightarrow> string \<Rightarrow> string \<Rightarrow> 'h aud_state \<Rightarrow> ('h aud_state \<times> int option \<times> u64) result"
  where
  "init_auditlib env addr now call exe cmdstr st =
     bindR (init_props env exe st) (\<lambda>(pccode, st).
     bindR (init_activation env exe st) (\<lambda>st.
     if \<not> auditor_isActive st then Inr (st, None, ae_pid env)
     else
       bindR (init_ca env exe cmdstr pccode st) (\<lambda>ca.
       bindR (audit_start env (st\<lparr>CurrentCA := Some ca\<rparr>)) (\<lambda>(st, ended).
       if ended \<noteq> None then Inr (st, ended, ae_pid env)
       else
         bindR (if prop_has_value (as_props st) P_PCCODE
                then (case CurrentCA st of
                        None \<Rightarrow> Inl (Fault ''NULL ca'')
                      | Some ca \<Rightarrow> bindR (prop_mod_str (as_props st) P_PCCODE (ca_get_ccode ca) False None) (\<lambda>(props, _).
                          Inr (st\<lparr>as_props := props\<rparr>)))
                else Inr st) (\<lambda>st.
         bindR (pa_record env addr now call (ae_execpath env) None (- 1) OP_EXEC st) (\<lambda>st.
         bindR (re_init_prop (ae_pcre env) (as_props st) P_AUDIT_IGNORE_PATH_RE) (\<lambda>(r1, props).
         bindR (re_init_prop (ae_pcre env) props P_AUDIT_IGNORE_PROG_RE) (\<lambda>(r2, props).
         bindR (re_init_prop (ae_pcre env) props P_ALLOWED_WRITE_PATH_RE) (\<lambda>(r3, props).
           Inr (st\<lparr>IgnorePathRE := r1, IgnoreProgRE := r2, AllowedWritePathRE := r3, as_props := props\<rparr>, None,
                ae_pid env))))))))))"

end
