(* ===== verification/Wrappers.thy ===== *)
theory Wrappers
  imports Auditor
begin

text \<open>
  The functions which the auditor puts around those of the C library (\<open>src/libunix.c\<close>). Each
  calls the function it replaces and reports what happened. The result of that call is an
  argument of the model, as are the address of the new action and the time of day.
\<close>

unbundle bit_operations_syntax

section \<open>Starting and ending\<close>

definition interposed_late_init ::
  "'h aud_env \<Rightarrow> nat \<Rightarrow> moment_s \<Rightarrow> string \<Rightarrow> string \<Rightarrow> string \<Rightarrow> 'h aud_state \<Rightarrow> ('h aud_state \<times> int option \<times> bool) result"
  where
  \<comment> \<open>the last component is whether interception is on\<close>
  "interposed_late_init env addr now call exe cmdline st =
     bindR (init_auditlib env addr now call exe cmdline st) (\<lambda>(st, ended, pid).
       if ended \<noteq> None then Inr (st, ended, False)
       else if pid = 0 then Inr (st, None, False)
       else if prop_has_value (as_props st) P_PCMDID then
         bindR (prop_mod_ulong (as_props st) P_PCMDID pid None) (\<lambda>(props, _).
           Inr (st\<lparr>as_props := props\<rparr>, None, True))
       else Inr (st, None, True))"

text \<open>
  \<open>interposed_finalize\<close> and \<open>_exit_wrapper\<close>. With activation on request the process forks to
  learn its own exit status, \<open>wstatus\<close>, \<open>None\<close> if the child did not exit by itself or could
  not be waited for; \<open>forked\<close> is -1, 0 in the child, or positive.
\<close>

definition interposed_finalize :: "'h aud_env \<Rightarrow> int \<Rightarrow> int option \<Rightarrow> 'h aud_state \<Rightarrow> 'h aud_state result" where
  "interposed_finalize env forked wstatus st =
     (if auditor_isActiveByRequest st then
        (if forked = - 1 \<or> forked = 0 then Inr st
         else audit_end env True (case wstatus of Some s \<Rightarrow> s | None \<Rightarrow> 7) st)
      else if auditor_isActiveByDefault st then audit_end env True 0 st
      else Inr st)"

definition exit_wrapper :: "'h aud_env \<Rightarrow> int \<Rightarrow> 'h aud_state \<Rightarrow> 'h aud_state result" where
  "exit_wrapper env status st =
     (if CurrentCA st \<noteq> None then audit_end env True status st else Inr st)"

section \<open>New processes\<close>

definition pre_exec :: "'h aud_env \<Rightarrow> (string \<Rightarrow> bool) \<Rightarrow> string option \<Rightarrow> 'h aud_state \<Rightarrow> 'h aud_state result" where
  \<comment> \<open>the second argument is \<open>access(path, X_OK) == 0\<close>\<close>
  "pre_exec env exec_ok path st =
     (case path of
        None \<Rightarrow> Inr st
      | Some p \<Rightarrow> if exec_ok p then audit_end env False 0 st else Inr st)"

definition execv_wrapper :: "'h aud_env \<Rightarrow> (string \<Rightarrow> bool) \<Rightarrow> string \<Rightarrow> 'h aud_state \<Rightarrow> 'h aud_state result" where
  "execv_wrapper env exec_ok path st = pre_exec env exec_ok (Some path) st"

definition execve_wrapper ::
  "'h aud_env \<Rightarrow> (string \<Rightarrow> bool) \<Rightarrow> string \<Rightarrow> string list option \<Rightarrow> 'h aud_state \<Rightarrow>
     ('h aud_state \<times> string list option) result" where
  \<comment> \<open>with the environment of the new program\<close>
  "execve_wrapper env exec_ok path envp st =
     bindR (pre_exec env exec_ok (Some path) st) (\<lambda>st.
       Inr (st, map_option (prop_custom_envA (as_props st)) envp))"

definition execvp_wrapper ::
  "'h aud_env \<Rightarrow> (string \<Rightarrow> bool) \<Rightarrow> (string \<Rightarrow> string option) \<Rightarrow> string \<Rightarrow> 'h aud_state \<Rightarrow> 'h aud_state result" where
  \<comment> \<open>the third argument is the search along the path\<close>
  "execvp_wrapper env exec_ok search file st =
     pre_exec env exec_ok (if CHR ''/'' \<in> set file then Some file else search file) st"

text \<open>
  A call of \<open>fork\<close> which succeeds. The parent's state is that before the call; the child begins
  with a copy of it, in which it opens a file of its own.
\<close>

definition fork_child :: "'h aud_env \<Rightarrow> 'h aud_state \<Rightarrow> 'h aud_state result" where
  "fork_child env st =
     (if \<not> auditor_isActive st then Inr st
      else bindR (audit_open env st) (\<lambda>fd.
        case CurrentCA st of
          None \<Rightarrow> Inl (Fault ''NULL ca'')
        | Some ca \<Rightarrow> Inr (st\<lparr>AuditFD := fd, audit_file := [], CurrentCA := Some (ca\<lparr>ca_started := False\<rparr>)\<rparr>)))"

definition fork_wrapper ::
  "'h aud_env \<Rightarrow> 'h aud_env \<Rightarrow> 'h aud_state \<Rightarrow> ('h aud_state \<times> 'h aud_state) result" where
  \<comment> \<open>the parent and the child, each in its own process environment\<close>
  "fork_wrapper env child_env st =
     bindR (audit_flush env st) (\<lambda>st. bindR (fork_child child_env st) (\<lambda>child. Inr (st, child)))"

definition system_wrapper :: "'h aud_env \<Rightarrow> 'h aud_state \<Rightarrow> 'h aud_state result" where
  "system_wrapper env st = audit_flush env st"

section \<open>Files\<close>

definition O_WRONLY :: u32 where "O_WRONLY = 0x1"
definition O_RDWR :: u32 where "O_RDWR = 0x2"
definition O_CREAT :: u32 where "O_CREAT = 0x40"
definition O_TRUNC :: u32 where "O_TRUNC = 0x200"
definition O_APPEND :: u32 where "O_APPEND = 0x400"

definition open_op :: "u32 \<Rightarrow> op_e" where
  "open_op oflag =
     (if oflag AND (O_RDWR OR O_APPEND) \<noteq> 0 then OP_APPEND
      else if oflag AND O_WRONLY \<noteq> 0 then OP_CREAT else OP_READ)"

definition open_wrapper ::
  "'h aud_env \<Rightarrow> nat \<Rightarrow> moment_s \<Rightarrow> string \<Rightarrow> string \<Rightarrow> u32 \<Rightarrow> u32 \<Rightarrow> 'h aud_state \<Rightarrow> 'h aud_state result" where
  \<comment> \<open>the last argument but one is the descriptor returned\<close>
  "open_wrapper env addr now call path oflag ret st =
     (if ret \<noteq> - 1 then pa_record env addr now call path None ret (open_op oflag) st else Inr st)"

definition creat_wrapper ::
  "'h aud_env \<Rightarrow> nat \<Rightarrow> moment_s \<Rightarrow> string \<Rightarrow> string \<Rightarrow> u32 \<Rightarrow> 'h aud_state \<Rightarrow> 'h aud_state result" where
  "creat_wrapper env addr now call path ret st =
     open_wrapper env addr now call path (O_WRONLY OR O_CREAT OR O_TRUNC) ret st"

text \<open>A path relative to a descriptor is looked up in \<open>/proc/<pid>/path\<close>, as it is on Solaris.\<close>

definition openat_wrapper ::
  "'h aud_env \<Rightarrow> (string \<Rightarrow> string option) \<Rightarrow> nat \<Rightarrow> moment_s \<Rightarrow> string \<Rightarrow> int \<Rightarrow> string \<Rightarrow> u32 \<Rightarrow> u32 \<Rightarrow> 'h aud_state \<Rightarrow>
     'h aud_state result" where
  \<comment> \<open>the second argument is \<open>readlink\<close>\<close>
  "openat_wrapper env readlink addr now call fildes path oflag ret st =
     (if ret = - 1 then Inr st
      else if fildes = - 100 \<or> putil_is_absolute path
      then pa_record env addr now call path None ret (open_op oflag) st
      else case readlink (''/proc/'' @ fmt_lu (ae_pid env) @ ''/path/'' @ fmt_d fildes) of
             Some lbuf \<Rightarrow> pa_record env addr now call (lbuf @ ''/'' @ path) None ret (open_op oflag) st
           | None \<Rightarrow> Inr st)"

definition mode2op :: "string \<Rightarrow> op_e" where
  "mode2op mode =
     (if first_char mode = CHR ''w'' \<or> (first_char mode = CHR ''r'' \<and> CHR ''+'' \<in> set mode) then OP_CREAT
      else if first_char mode = CHR ''a'' \<or> CHR ''+'' \<in> set mode then OP_APPEND
      else OP_READ)"

definition fopen_wrapper ::
  "'h aud_env \<Rightarrow> nat \<Rightarrow> moment_s \<Rightarrow> string \<Rightarrow> string \<Rightarrow> string \<Rightarrow> u32 option \<Rightarrow> 'h aud_state \<Rightarrow> 'h aud_state result" where
  \<comment> \<open>the result is the descriptor of the stream, if it was opened\<close>
  "fopen_wrapper env addr now call path mode ret st =
     (case ret of
        Some fd \<Rightarrow> pa_record env addr now call path None fd (mode2op mode) st
      | None \<Rightarrow> Inr st)"

definition close_wrapper :: "(int \<Rightarrow> int) \<Rightarrow> int \<Rightarrow> 'h aud_state \<Rightarrow> int" where
  \<comment> \<open>the result; the first argument is the real \<open>close\<close>\<close>
  "close_wrapper next_close fildes st = (if fildes = AuditFD st then 0 else next_close fildes)"

definition mkdir_wrapper ::
  "'h aud_env \<Rightarrow> nat \<Rightarrow> moment_s \<Rightarrow> string \<Rightarrow> string \<Rightarrow> int \<Rightarrow> 'h aud_state \<Rightarrow> 'h aud_state result" where
  "mkdir_wrapper env addr now call path ret st =
     (if ret = 0 then pa_record env addr now call path None 0 OP_MKDIR st else Inr st)"

definition link_wrapper ::
  "'h aud_env \<Rightarrow> nat \<Rightarrow> moment_s \<Rightarrow> string \<Rightarrow> string \<Rightarrow> string \<Rightarrow> int \<Rightarrow> 'h aud_state \<Rightarrow> 'h aud_state result" where
  "link_wrapper env addr now call existing newpath ret st =
     (if ret = 0 then pa_record env addr now call newpath (Some existing) (- 1) OP_LINK st else Inr st)"

definition symlink_wrapper ::
  "'h aud_env \<Rightarrow> nat \<Rightarrow> moment_s \<Rightarrow> string \<Rightarrow> string \<Rightarrow> string \<Rightarrow> int \<Rightarrow> 'h aud_state \<Rightarrow> 'h aud_state result" where
  "symlink_wrapper env addr now call name1 name2 ret st =
     (if ret = 0 then pa_record env addr now call name2 (Some name1) (- 1) OP_SYMLINK st else Inr st)"

text \<open>
  A rename is an unlink and a creation. The second argument is \<open>stat64\<close> after the call, giving
  device and inode.
\<close>

definition rename_wrapper ::
  "'h aud_env \<Rightarrow> (string \<Rightarrow> (u64 \<times> u64) option) \<Rightarrow> nat \<times> nat \<Rightarrow> moment_s \<times> moment_s \<Rightarrow> string \<Rightarrow> string \<Rightarrow> string \<Rightarrow> int \<Rightarrow>
     'h aud_state \<Rightarrow> 'h aud_state result" where
  "rename_wrapper env stat addrs now call oldpath newpath ret st =
     (if ret \<noteq> 0 \<or> (stat oldpath \<noteq> None \<and> stat oldpath = stat newpath) then Inr st
      else bindR (pa_record env (fst addrs) (fst now) call oldpath None (- 1) OP_UNLINK st)
             (pa_record env (snd addrs) (snd now) call newpath None (- 1) OP_CREAT))"

definition unlink_wrapper ::
  "'h aud_env \<Rightarrow> nat \<Rightarrow> moment_s \<Rightarrow> string \<Rightarrow> string option \<Rightarrow> 'h aud_state \<Rightarrow> 'h aud_state result" where
  \<comment> \<open>before the call\<close>
  "unlink_wrapper env addr now call path st =
     (case path of
        None \<Rightarrow> Inr st
      | Some p \<Rightarrow> if p \<noteq> [] then pa_record env addr now call p None (- 1) OP_UNLINK st else Inr st)"

section \<open>Other names of the same functions\<close>

text \<open>
  The wrappers of functions which exist under several names. \<open>popen\<close> and \<open>clone\<close> flush before they
  make a process, \<open>vfork\<close> is turned into \<open>fork\<close> if interception is on. \<open>O_LARGEFILE\<close> is 0 where
  all files are large.
\<close>

definition popen_wrapper :: "'h aud_env \<Rightarrow> 'h aud_state \<Rightarrow> 'h aud_state result" where
  "popen_wrapper env st = audit_flush env st"

definition clone_wrapper :: "'h aud_env \<Rightarrow> 'h aud_state \<Rightarrow> 'h aud_state result" where
  "clone_wrapper env st = audit_flush env st"

definition vfork_wrapper ::
  "bool \<Rightarrow> 'h aud_env \<Rightarrow> 'h aud_env \<Rightarrow> 'h aud_state \<Rightarrow> ('h aud_state \<times> 'h aud_state) result" where
  "vfork_wrapper active env child_env st = (if active then fork_wrapper env child_env st else Inr (st, st))"

definition O_LARGEFILE :: u32 where "O_LARGEFILE = 0x8000"

definition open64_wrapper ::
  "'h aud_env \<Rightarrow> nat \<Rightarrow> moment_s \<Rightarrow> string \<Rightarrow> string \<Rightarrow> u32 \<Rightarrow> u32 \<Rightarrow> 'h aud_state \<Rightarrow> 'h aud_state result" where
  "open64_wrapper env addr now call path oflag ret st =
     open_wrapper env addr now call path (oflag OR O_LARGEFILE) ret st"

definition open_2_wrapper ::
  "'h aud_env \<Rightarrow> nat \<Rightarrow> moment_s \<Rightarrow> string \<Rightarrow> string \<Rightarrow> u32 \<Rightarrow> u32 \<Rightarrow> 'h aud_state \<Rightarrow> 'h aud_state result" where
  "open_2_wrapper env addr now call path oflag ret st = open_wrapper env addr now call path oflag ret st"

definition open64_2_wrapper ::
  "'h aud_env \<Rightarrow> nat \<Rightarrow> moment_s \<Rightarrow> string \<Rightarrow> string \<Rightarrow> u32 \<Rightarrow> u32 \<Rightarrow> 'h aud_state \<Rightarrow> 'h aud_state result" where
  "open64_2_wrapper env addr now call path oflag ret st = open64_wrapper env addr now call path oflag ret st"

definition creat64_wrapper ::
  "'h aud_env \<Rightarrow> nat \<Rightarrow> moment_s \<Rightarrow> string \<Rightarrow> string \<Rightarrow> u32 \<Rightarrow> 'h aud_state \<Rightarrow> 'h aud_state result" where
  "creat64_wrapper env addr now call path ret st =
     open64_wrapper env addr now call path (O_WRONLY OR O_CREAT OR O_TRUNC) ret st"

definition openat64_wrapper ::
  "'h aud_env \<Rightarrow> (string \<Rightarrow> string option) \<Rightarrow> nat \<Rightarrow> moment_s \<Rightarrow> string \<Rightarrow> int \<Rightarrow> string \<Rightarrow> u32 \<Rightarrow> u32 \<Rightarrow> 'h aud_state \<Rightarrow>
     'h aud_state result" where
  "openat64_wrapper env readlink addr now call fildes path oflag ret st =
     openat_wrapper env readlink addr now call fildes path oflag ret st"

definition fopen64_wrapper ::
  "'h aud_env \<Rightarrow> nat \<Rightarrow> moment_s \<Rightarrow> string \<Rightarrow> string \<Rightarrow> string \<Rightarrow> u32 option \<Rightarrow> 'h aud_state \<Rightarrow> 'h aud_state result" where
  "fopen64_wrapper env addr now call path mode ret st = fopen_wrapper env addr now call path mode ret st"

definition freopen_wrapper ::
  "'h aud_env \<Rightarrow> nat \<Rightarrow> moment_s \<Rightarrow> string \<Rightarrow> string \<Rightarrow> string \<Rightarrow> u32 option \<Rightarrow> 'h aud_state \<Rightarrow> 'h aud_state result" where
  "freopen_wrapper env addr now call path mode ret st =
     (case ret of
        Some fd \<Rightarrow> pa_record env addr now call path None fd (mode2op mode) st
      | None \<Rightarrow> Inr st)"

definition mkdirp_wrapper ::
  "'h aud_env \<Rightarrow> nat \<Rightarrow> moment_s \<Rightarrow> string \<Rightarrow> string \<Rightarrow> int \<Rightarrow> 'h aud_state \<Rightarrow> 'h aud_state result" where
  "mkdirp_wrapper env addr now call path ret st =
     (if ret = 0 then pa_record env addr now call path None 0 OP_MKDIR st else Inr st)"

definition Exit_wrapper :: "'h aud_env \<Rightarrow> int \<Rightarrow> 'h aud_state \<Rightarrow> 'h aud_state result" where
  "Exit_wrapper env status st = exit_wrapper env status st"

text \<open>
  The flag for large files makes no difference to what is reported, so that all these are alike.
\<close>

lemma open_op_large: "open_op (oflag OR O_LARGEFILE) = open_op oflag"
proof -
  have "(oflag OR O_LARGEFILE) AND m = oflag AND m" if "O_LARGEFILE AND m = 0" for m
    using that by (simp add: bit.conj_disj_distrib2)
  then show ?thesis by (simp add: open_op_def O_LARGEFILE_def O_RDWR_def O_APPEND_def O_WRONLY_def)
qed

lemma open64_like_open:
  "open64_wrapper env addr now call path oflag ret st = open_wrapper env addr now call path oflag ret st"
  "creat64_wrapper env addr now call path ret st = creat_wrapper env addr now call path ret st"
  by (simp_all add: creat64_wrapper_def creat_wrapper_def open64_wrapper_def open_wrapper_def open_op_large)

end
