(* ===== verification/AuditorProofs.thy ===== *)
theory AuditorProofs
  imports Wrappers
begin

text \<open>
  What an audited process sends: at the end, before an exec and before a fork; and how it reads
  the answer of the monitor.
\<close>

section \<open>The texts of the actions\<close>

definition pa_text :: "path_action_s \<Rightarrow> string" where
  "pa_text pa = (case pa_toCSVString pa of Inr t \<Rightarrow> t | Inl e \<Rightarrow> [])"

definition pa_line :: "path_action_s \<Rightarrow> string" where
  "pa_line pa = butlast (pa_text pa)"

definition texts :: "path_action_s list \<Rightarrow> string" where
  "texts pas = concat (map (\<lambda>pa. pa_line pa @ [newline]) pas)"

lemma texts_simps [simp]:
  "texts [] = []"
  "texts (pa # pas) = pa_line pa @ newline # texts pas"
  by (simp_all add: texts_def)

text \<open>
  The actions as they are written: those which read a file outside the project are completed
  with the state of the file.
\<close>

fun sample_all ::
  "'h ps_sys \<Rightarrow> path_action_s list \<Rightarrow> 'h dcode_cache \<Rightarrow> (path_action_s list \<times> 'h dcode_cache) result" where
  "sample_all sys [] dc = Inr ([], dc)"
| "sample_all sys (pa # pas) dc =
     bindR (if pa_is_read pa
            then bindR (pa_is_member pa) (\<lambda>m. if m then Inr (pa, dc)
              else bindR (pa_stat sys dc pa False) (\<lambda>(_, pa, dc). Inr (pa, dc)))
            else Inr (pa, dc)) (\<lambda>(pa, dc).
     bindR (sample_all sys pas dc) (\<lambda>(pas, dc). Inr (pa # pas, dc)))"

definition sendable :: "path_action_s \<Rightarrow> bool" where
  \<comment> \<open>it has a text, which is a line\<close>
  "sendable pa = (pa_toCSVString pa = Inr (pa_line pa @ [newline]))"

lemma ca_write_all_texts:
  "sample_all sys pas dc = Inr (pas', dc') \<Longrightarrow> list_all sendable pas' \<Longrightarrow>
   ca_write_all sys pas dc = Inr (map (\<lambda>pa. pa_line pa @ [newline]) pas', dc')"
proof (induction pas arbitrary: pas' dc)
  case (Cons pa pas)
  let ?r = "if pa_is_read pa
            then bindR (pa_is_member pa) (\<lambda>m. if m then Inr (pa, dc)
              else bindR (pa_stat sys dc pa False) (\<lambda>(_, pa, dc). Inr (pa, dc)))
            else Inr (pa, dc)"
  obtain pa1 dc1 pas1 where r: "?r = Inr (pa1, dc1)" "sample_all sys pas dc1 = Inr (pas1, dc')" "pas' = pa1 # pas1"
    using Cons.prems(1) by (auto simp: bindR_eq_Inr)
  have "pa_toCSVString pa1 = Inr (pa_line pa1 @ [newline])" using Cons.prems(2) r(3) by (simp add: sendable_def)
  moreover have "ca_write_all sys pas dc1 = Inr (map (\<lambda>pa. pa_line pa @ [newline]) pas1, dc')"
    using Cons.IH [OF r(2)] Cons.prems(2) r(3) by simp
  ultimately show ?case unfolding ca_write_all.simps r(1) using r(3) by simp
qed simp

lemma sample_all_length: "sample_all sys pas dc = Inr (pas', dc') \<Longrightarrow> length pas' = length pas"
  by (induction pas arbitrary: pas' dc) (auto simp: bindR_eq_Inr)

section \<open>Flushing\<close>

text \<open>The process has a command, has collected the actions \<open>d\<close>, and writes them as \<open>pas\<close>.\<close>

definition auditing :: "'h aud_env \<Rightarrow> 'h aud_state \<Rightarrow> cmd_audit_s \<Rightarrow> path_action_s list \<Rightarrow> 'h dcode_cache \<Rightarrow> bool" where
  "auditing env st ca pas dc = (auditor_isActive st \<and> CurrentCA st = Some ca \<and> ca_recycled ca = None \<and> AuditFD st \<noteq> - 1 \<and>
     (\<exists>d. ca_raw_pa_dict ca = Some d \<and> sample_all (ae_sys env) (map snd d) (as_dcode st) = Inr (pas, dc)) \<and>
     list_all sendable pas)"

definition flushed :: "cmd_audit_s \<Rightarrow> path_action_s list \<Rightarrow> 'h dcode_cache \<Rightarrow> 'h aud_state \<Rightarrow> 'h aud_state" where
  "flushed ca pas dc st = st\<lparr>CurrentCA := Some (ca\<lparr>ca_raw_pa_dict := Some []\<rparr>), audit_file := audit_file st @ texts pas,
     as_dcode := dc\<rparr>"

lemma same_dict: "ca_raw_pa_dict ca = Some d \<Longrightarrow> ca\<lparr>ca_raw_pa_dict := Some d\<rparr> = ca"
  by (drule sym) simp

lemma same_ca: "CurrentCA st = Some ca \<Longrightarrow> st\<lparr>CurrentCA := Some ca\<rparr> = st"
  by (drule sym) simp

lemma audit_flush_texts:
  assumes "auditing env st ca pas dc"
  shows "audit_flush env st = Inr (flushed ca pas dc st)"
proof -
  obtain d where d: "ca_raw_pa_dict ca = Some d" "sample_all (ae_sys env) (map snd d) (as_dcode st) = Inr (pas, dc)"
    and ca: "auditor_isActive st" "CurrentCA st = Some ca" "ca_recycled ca = None" "AuditFD st \<noteq> - 1"
    and s: "list_all sendable pas"
    using assms by (auto simp: auditing_def)
  show ?thesis
  proof (cases "d = []")
    case True
    then have "pas = []" "dc = as_dcode st" using d by simp_all
    moreover have "ca\<lparr>ca_raw_pa_dict := Some []\<rparr> = ca" using d(1) True by (simp add: same_dict)
    moreover have "audit_flush env st = Inr st"
      using ca d(1) True by (simp add: audit_flush_def ca_get_pa_count_def)
    ultimately show ?thesis using same_ca [OF ca(2)] by (simp add: flushed_def)
  next
    case False
    then show ?thesis
      using ca d ca_write_all_texts [OF d(2) s]
      by (simp add: audit_flush_def flushed_def ca_get_pa_count_def ca_write_def audit_write_def texts_def)
  qed
qed

section \<open>Sending\<close>

text \<open>
  Assumptions on the socket: it can be opened, and each call of \<open>send\<close> takes a piece of the text, of
  any size, until all of it is taken. So no call fails, and none is interrupted by a signal: after
  an interruption a byte is sent twice (\<open>send_all_interrupted\<close>).
\<close>

definition takes_pieces :: "io list \<Rightarrow> string \<Rightarrow> bool" where
  "takes_pieces outs buf = (\<exists>sizes. outs = map Done sizes \<and> sum_list sizes = length buf)"

lemma send_loop_pieces:
  "length buf < 2 ^ 63 \<Longrightarrow> k + sum_list sizes = length buf \<Longrightarrow>
   send_loop (map Done sizes) buf (of_nat k) (take k buf) = Some (of_nat (length buf), buf)"
proof (induction sizes arbitrary: k)
  case Nil
  then show ?case by simp
next
  case (Cons n sizes)
  have u: "unat (of_nat k :: u64) = k" "unat (of_nat (length buf) :: u64) = length buf"
    using Cons.prems by (simp_all add: unsigned_of_nat take_bit_nat_eq_self)
  show ?case
  proof (cases "k = length buf")
    case True
    then show ?thesis by simp
  next
    case False
    then have "(of_nat k :: u64) < of_nat (length buf)" using u Cons.prems(2) by (simp add: word_less_nat_alt)
    moreover have "take k buf @ take n (drop k buf) = take (k + n) buf" by (simp add: take_add)
    ultimately show ?thesis using Cons.IH [of "k + n"] Cons.prems u(1) by simp
  qed
qed

lemma takes_pieces_sends:
  assumes "takes_pieces outs buf" and "length buf < 2 ^ 63"
  shows "util_send_all outs buf = Some (of_nat (length buf), buf)" and "\<not> sint (of_nat (length buf) :: u64) < 0"
proof -
  show "util_send_all outs buf = Some (of_nat (length buf), buf)"
    using assms send_loop_pieces [of buf 0] by (auto simp: takes_pieces_def util_send_all_def)
  have "uint (of_nat (length buf) :: u64) = int (length buf)"
    using assms(2) by (simp add: unsigned_of_nat take_bit_nat_eq_self)
  then show "\<not> sint (of_nat (length buf) :: u64) < 0" using assms(2) by (simp add: sint_u64)
qed

definition sends_all :: "'h aud_env \<Rightarrow> bool" where
  "sends_all env = (\<forall>buf. length buf < 2 ^ 63 \<longrightarrow> takes_pieces (ae_send env buf) buf)"

definition connects :: "'h aud_env \<Rightarrow> prop_state \<Rightarrow> bool" where
  "connects env props = (ae_socket env \<and> prop_is_true props P_NO_MONITOR = Inr False \<and>
     (\<exists>host portstr port. prop_get_str props P_MONITOR_HOST = Inr (Some host) \<and>
        prop_get_str props P_MONITOR_PORT = Inr (Some portstr) \<and> connect_loop (ae_connect env) 0 portstr = Inr port))"

lemma monitor_open_connects:
  "connects env (as_props st) \<Longrightarrow> ReportSocket st = None \<Longrightarrow> monitor_open env st = Inr (st\<lparr>ReportSocket := Some []\<rparr>)"
  by (auto simp: connects_def monitor_open_def)

lemma monitor_send_all:
  assumes "sends_all env" and "length buf < 2 ^ 63" and "ReportSocket st = Some sent"
  shows "monitor_send env buf st = Inr (st\<lparr>ReportSocket := Some (sent @ buf)\<rparr>)"
proof -
  have "takes_pieces (ae_send env buf) buf" using assms(1,2) by (simp add: sends_all_def)
  then show ?thesis using takes_pieces_sends [of "ae_send env buf" buf] assms(2,3) by (simp add: monitor_send_def)
qed

lemma send_file_all:
  "sends_all env \<Longrightarrow> ReportSocket st = Some sent \<Longrightarrow> send_file env f st = Inr (st\<lparr>ReportSocket := Some (sent @ f)\<rparr>)"
proof (induction env f st arbitrary: sent rule: send_file.induct)
  case (1 env f st)
  show ?case
  proof (cases "f = []")
    case True
    have "st\<lparr>ReportSocket := Some sent\<rparr> = st" using 1(3) by (drule_tac sym) simp
    then show ?thesis using True by (simp add: send_file.simps)
  next
    case False
    have "length (take 1024 f) < 2 ^ 63" by (simp add: min_less_iff_disj)
    then have send: "monitor_send env (take 1024 f) st = Inr (st\<lparr>ReportSocket := Some (sent @ take 1024 f)\<rparr>)"
      using monitor_send_all [OF 1(2) _ 1(3)] by simp
    moreover have "send_file env (drop 1024 f) (st\<lparr>ReportSocket := Some (sent @ take 1024 f)\<rparr>) =
        Inr (st\<lparr>ReportSocket := Some (sent @ take 1024 f), ReportSocket := Some ((sent @ take 1024 f) @ drop 1024 f)\<rparr>)"
      by (rule 1(1) [OF False 1(2)]) simp
    ultimately show ?thesis using False by (simp add: send_file.simps [of env f])
  qed
qed

definition eoa_text :: "int \<Rightarrow> cmd_audit_s \<Rightarrow> string" where
  "eoa_text status ca = (case ca_format_header ca of Inr hdr \<Rightarrow> ''<EOA>'' @ ''['' @ fmt_d status @ '']'' @ hdr | Inl e \<Rightarrow> [])"

definition audit_ended :: "'h aud_state \<Rightarrow> string \<Rightarrow> bool \<Rightarrow> cmd_audit_s \<Rightarrow> 'h dcode_cache \<Rightarrow> 'h aud_state" where
  \<comment> \<open>after a delivery; the second argument says whether the command is over\<close>
  "audit_ended st sent over ca dc =
     (if over then st\<lparr>CurrentCA := None, AuditFD := - 1, audit_file := sent, as_dcode := dc\<rparr>
      else st\<lparr>CurrentCA := Some (ca\<lparr>ca_raw_pa_dict := Some []\<rparr>), audit_file := [], as_dcode := dc\<rparr>)"

lemma audit_end_sends:
  assumes a: "auditing env st ca pas dc" and c: "connects env (as_props st)" "sends_all env" "ReportSocket st = None"
    and r: "\<And>sent. ae_reply env (wire st) sent = []"
    and over: "over = (exiting \<and> ca_started ca)"
    and hdr: "over \<Longrightarrow> ca_format_header ca = Inr hdr \<and> length (eoa_text status ca) < 2 ^ 63"
  shows "audit_end env exiting status st =
    Inr ((audit_ended st (audit_file st @ texts pas) over ca dc)
          \<lparr>wire := wire st @ [audit_file st @ texts pas @ (if over then eoa_text status ca else [])]\<rparr>)"
proof -
  let ?f = "audit_file st @ texts pas" and ?ca = "ca\<lparr>ca_raw_pa_dict := Some []\<rparr>"
  let ?st = "flushed ca pas dc st"
  have act: "auditor_isActive st" "AuditFD st \<noteq> - 1" "ca_recycled ca = None" using a by (auto simp: auditing_def)
  have f: "ReportSocket ?st = None" "as_props ?st = as_props st" "CurrentCA ?st = Some ?ca" "AuditFD ?st = AuditFD st"
    "audit_file ?st = ?f" "wire ?st = wire st"
    using c(3) by (simp_all add: flushed_def)
  have nomon: "prop_is_true (as_props st) P_NO_MONITOR = Inr False" using c(1) by (simp add: connects_def)
  have send: "audit_send_actions env False ?st = Inr (?st\<lparr>ReportSocket := Some ?f\<rparr>)"
    using f act c monitor_open_connects [of env ?st] send_file_all [OF c(2), of "?st\<lparr>ReportSocket := Some []\<rparr>" "[]" ?f]
    by (simp add: audit_send_actions_def)
  have recv: "monitor_recv_line env s = Inr (ae_ackbuf env)" if "wire s = wire st" "ReportSocket s = Some x" for s x
    using r that by (simp add: monitor_recv_line_def)
  show ?thesis
  proof (cases over)
    case True
    then have h: "ca_format_header ca = Inr hdr" "length (eoa_text status ca) < 2 ^ 63" using hdr by simp_all
    have h': "ca_format_header ?ca = Inr hdr" using h(1) by (simp add: ca_format_header_def ca_get_pccode_def ca_get_ccode_def
        ca_get_pathcode_def cong: option.case_cong)
    have eoa: "eoa_text status ca = ''<EOA>'' @ ''['' @ fmt_d status @ '']'' @ hdr" using h(1) by (simp add: eoa_text_def)
    have e: "audit_end_cmd env status ?ca (?st\<lparr>ReportSocket := Some ?f\<rparr>) =
        Inr (?st\<lparr>ReportSocket := Some (?f @ eoa_text status ca), CurrentCA := None, AuditFD := - 1\<rparr>)"
      unfolding audit_end_cmd_def h' bindR_simps Let_def eoa [symmetric]
      using monitor_send_all [OF c(2) h(2), of "?st\<lparr>ReportSocket := Some ?f\<rparr>" ?f] by simp
    have "audit_end env exiting status st =
        Inr (monitor_close (?st\<lparr>ReportSocket := Some (?f @ eoa_text status ca), CurrentCA := None, AuditFD := - 1\<rparr>))"
      using True e recv f by (simp add: audit_end_def audit_flush_texts [OF a] act nomon send over)
    moreover have "monitor_close (?st\<lparr>ReportSocket := Some (?f @ eoa_text status ca), CurrentCA := None, AuditFD := - 1\<rparr>) =
        (audit_ended st ?f True ca dc)\<lparr>wire := wire st @ [?f @ eoa_text status ca]\<rparr>"
      by (rule aud_state.equality) (simp_all add: monitor_close_def audit_ended_def flushed_def c(3))
    ultimately show ?thesis using True by simp
  next
    case False
    then have no: "(exiting \<and> ca_started ca) = False" using over by simp
    have "audit_truncate (?st\<lparr>ReportSocket := Some ?f\<rparr>) = Inr (?st\<lparr>ReportSocket := Some ?f, audit_file := []\<rparr>)"
      using act f by (simp add: audit_truncate_def)
    then have "audit_end env exiting status st = Inr (monitor_close (?st\<lparr>ReportSocket := Some ?f, audit_file := []\<rparr>))"
      using recv f no by (simp add: audit_end_def audit_flush_texts [OF a] act nomon send del: de_Morgan_conj)
    moreover have "monitor_close (?st\<lparr>ReportSocket := Some ?f, audit_file := []\<rparr>) =
        (audit_ended st ?f False ca dc)\<lparr>wire := wire st @ [?f]\<rparr>"
      by (rule aud_state.equality) (simp_all add: monitor_close_def audit_ended_def flushed_def c(3))
    ultimately show ?thesis using False by simp
  qed
qed

text \<open>
  C4. What a process has collected goes to the monitor in one delivery, earlier actions first,
  and is not kept, whatever the pieces are in which the socket takes the texts, provided that no
  call of \<open>send\<close> fails or is interrupted by a signal, that the monitor can be reached, and that it
  closes the connection without an answer. At the end of a command the delivery closes with the EOA
  record, and the auditor is then done; before an exec, and at the end of a forked process, which has no command
  of its own, there is no EOA, and the file and the list of actions are empty afterwards.
\<close>

theorem audit_end_delivers:
  assumes "auditing env st ca pas dc" and "connects env (as_props st)" and "sends_all env" and "ReportSocket st = None"
    and "\<forall>sent. ae_reply env (wire st) sent = []"
    and "over = (exiting \<and> ca_started ca)"
    and "over \<longrightarrow> ca_format_header ca = Inr hdr \<and> length (eoa_text status ca) < 2 ^ 63"
  shows "audit_end env exiting status st =
    Inr ((audit_ended st (audit_file st @ texts pas) over ca dc)
          \<lparr>wire := wire st @ [audit_file st @ texts pas @ (if over then eoa_text status ca else [])]\<rparr>)"
  using assms by (intro audit_end_sends [of env st ca pas dc]) auto

section \<open>Forking\<close>

text \<open>
  C5. No action is reported twice after a fork. The parent has written what it collected to its
  file before it forks; the child begins with an empty list and has written nothing to its own file, and is
  not to report the end of the command.
\<close>

theorem fork_reports_once:
  assumes "auditing env st ca pas dc" and "audit_open child_env (flushed ca pas dc st) = Inr fd"
  shows "\<exists>parent child ca1 ca2. fork_wrapper env child_env st = Inr (parent, child) \<and>
    audit_file parent = audit_file st @ texts pas \<and> audit_file child = [] \<and>
    CurrentCA parent = Some ca1 \<and> ca_raw_pa_dict ca1 = Some [] \<and> ca_started ca1 = ca_started ca \<and>
    CurrentCA child = Some ca2 \<and> ca_raw_pa_dict ca2 = Some [] \<and> \<not> ca_started ca2 \<and> AuditFD child = fd"
proof -
  have act: "auditor_isActive (flushed ca pas dc st)"
    using assms(1) by (simp add: auditing_def flushed_def auditor_isActive_def)
  have "CurrentCA (flushed ca pas dc st) = Some (ca\<lparr>ca_raw_pa_dict := Some []\<rparr>)" by (simp add: flushed_def)
  then have "fork_wrapper env child_env st = Inr (flushed ca pas dc st, (flushed ca pas dc st)
      \<lparr>AuditFD := fd, audit_file := [], CurrentCA := Some (ca\<lparr>ca_raw_pa_dict := Some [], ca_started := False\<rparr>)\<rparr>)"
    using act assms(2) by (simp add: fork_wrapper_def audit_flush_texts [OF assms(1)] fork_child_def)
  then show ?thesis by (simp add: flushed_def)
qed

section \<open>The answer to the start of a command\<close>

lemma recv_whole_line:
  assumes "newline \<notin> set t" and "nul \<notin> set t" and "length t < length buf"
  shows "\<exists>b. recv_line (Got (t @ [newline]) # rs) buf 0 = Inr b \<and> ack_string b = Inr t"
proof -
  let ?d = "t @ [newline]" and ?r = "drop (Suc (length t)) buf"
  have d: "take (length buf) ?d = ?d" using assms(3) by simp
  have store: "recv_store buf 0 ?d = t @ newline # ?r" by (simp add: recv_store_def)
  have "takeWhile (\<lambda>c. c \<noteq> newline \<and> c \<noteq> nul) (t @ newline # ?r) = t"
    using assms(1,2) by (subst takeWhile_append2) auto
  then have scan: "recv_scan (t @ newline # ?r) 0 = length t" by (simp add: recv_scan_def)
  have "recv_line (Got ?d # rs) buf 0 = Inr ((t @ newline # ?r)[length t := nul])"
    using assms(3) d store scan by (simp add: Let_def nth_append)
  moreover have "(t @ newline # ?r)[length t := nul] = t @ nul # ?r" by simp
  moreover have "ack_string (t @ nul # ?r) = Inr t" using assms(2) by (simp add: ack_string_def buf_string_append)
  ultimately show ?thesis by simp
qed

text \<open>The auditor is about to report the start of \<open>ca\<close>, with the text \<open>soa\<close>.\<close>

definition starting :: "'h aud_env \<Rightarrow> 'h aud_state \<Rightarrow> cmd_audit_s \<Rightarrow> int \<Rightarrow> string \<Rightarrow> bool" where
  "starting env st ca fd soa = (auditor_isActive st \<and> CurrentCA st = Some ca \<and> audit_open env st = Inr fd \<and>
     connects env (as_props st) \<and> sends_all env \<and> ReportSocket st = None \<and> length soa < 2 ^ 63 \<and>
     (\<exists>hdr sub. ca_format_header ca = Inr hdr \<and> prop_is_true (as_props st) P_AGGREGATED_SUBCMD = Inr sub \<and>
        soa = (if sub then ''<sOA>'' else ''<SOA>'') @ hdr))"

definition reported :: "'h aud_state \<Rightarrow> int \<Rightarrow> string \<Rightarrow> 'h aud_state" where
  "reported st fd soa = st\<lparr>AuditFD := fd, audit_file := [], wire := wire st @ [soa]\<rparr>"

lemma audit_start_answer:
  assumes "starting env st ca fd soa" and "recv_line (ae_reply env (wire st) soa) (ae_ackbuf env) 0 = Inr buf"
    and "ack_string buf = Inr ack"
  shows "audit_start env st = audit_answer env ack ca (reported st fd soa)"
proof -
  obtain hdr sub where h: "ca_format_header ca = Inr hdr" "prop_is_true (as_props st) P_AGGREGATED_SUBCMD = Inr sub"
    "soa = (if sub then ''<sOA>'' else ''<SOA>'') @ hdr"
    and s: "auditor_isActive st" "CurrentCA st = Some ca" "audit_open env st = Inr fd" "connects env (as_props st)"
      "sends_all env" "ReportSocket st = None" "length soa < 2 ^ 63"
    using assms(1) by (auto simp: starting_def)
  let ?st = "st\<lparr>AuditFD := fd, audit_file := []\<rparr>"
  have nomon: "prop_is_true (as_props st) P_NO_MONITOR = Inr False" using s(4) by (simp add: connects_def)
  have op: "monitor_open env ?st = Inr (?st\<lparr>ReportSocket := Some []\<rparr>)" using s by (intro monitor_open_connects) simp_all
  have send: "monitor_send env soa (?st\<lparr>ReportSocket := Some []\<rparr>) = Inr (?st\<lparr>ReportSocket := Some soa\<rparr>)"
    using monitor_send_all [OF s(5,7), of "?st\<lparr>ReportSocket := Some []\<rparr>" "[]"] by simp
  have recv: "monitor_recv_line env (?st\<lparr>ReportSocket := Some soa\<rparr>) = Inr buf"
    using assms(2) by (simp add: monitor_recv_line_def)
  have cl: "monitor_close (?st\<lparr>ReportSocket := Some soa\<rparr>) = reported st fd soa"
    by (rule aud_state.equality) (simp_all add: monitor_close_def reported_def s(6))
  show ?thesis
    unfolding audit_start_def
    using s(1,2) h(1,2) s(3) nomon op send recv cl assms(3)
    by (simp add: Let_def h(3) [symmetric])
qed

end
