(* ===== verification/Session.thy ===== *)
theory Session
  imports Monitor Prefs
begin

text \<open>
  The process which runs the monitor on Unix (\<open>run_cmd\<close> in \<open>src/unix.c\<close>): the list of its
  ports, the reading of one delivery to its end, the loop over the lines of the delivery with the
  answer to the start of a command, and the exit status. Opening sockets, \<open>select\<close> and the
  forking of the build are calls into the system and are not modelled.
\<close>

unbundle bit_operations_syntax

section \<open>The ports\<close>

text \<open>
  The buffer has 11 characters for each port; each is printed at the end of what is there, into
  the space left.
\<close>

fun port_string :: "nat \<Rightarrow> u16 list \<Rightarrow> string \<Rightarrow> string" where
  "port_string len [] portstr = portstr"
| "port_string len (port # ports) portstr =
     port_string len ports (portstr @ snprintf (len - length portstr) (nat_to_radix 10 (unat port) @ '':''))"

definition monitor_ports :: "u16 list \<Rightarrow> string" where
  "monitor_ports ports = port_string (length ports * 11) ports []"

section \<open>Reading a delivery\<close>

text \<open>
  \<open>_read_available\<close>: \<open>inp\<close> is what the descriptor still delivers. A call transfers at most the
  bytes asked for, one less than what is left of the buffer, which doubles when it is full; a
  call which transfers nothing ends the loop. \<open>None\<close> while the loop waits.
\<close>

definition read_room :: "string \<Rightarrow> nat \<Rightarrow> nat" where
  \<comment> \<open>the size after a read into the buffer: \<open>if (len + 1 >= bufsize) bufsize *= 2\<close>\<close>
  "read_room buf bufsize = (if bufsize \<le> length buf + 1 then 2 * bufsize else bufsize)"

primrec read_available :: "io list \<Rightarrow> string \<Rightarrow> string \<Rightarrow> nat \<Rightarrow> string result option" where
  "read_available [] inp buf bufsize = None"
| "read_available (r # rs) inp buf bufsize =
     (case r of
        Fail e \<Rightarrow> if e \<noteq> EAGAIN then Some (Inl (Exit 2)) else read_available rs inp buf bufsize
      | Done n \<Rightarrow>
          let got = take (min n (bufsize - length buf - 1)) inp
          in if got = [] then Some (Inr buf)
             else read_available rs (drop (length got) inp) (buf @ got) (read_room (buf @ got) bufsize))"

section \<open>The lines of a delivery\<close>

datatype ptx_event = PtxStart | PtxEnd int

text \<open>
  \<open>ss_next\<close> counts the lines, which gives each its own address for what is allocated on it.
  \<open>ss_acks\<close> is what was sent back over the connection, \<open>ss_ptx\<close> the builds begun and ended on the
  server.
\<close>

record 'h session =
  ss_mon :: "'h mon_state"
  ss_exit :: int
  ss_done :: bool
  ss_started :: bool
  ss_next :: nat
  ss_acks :: string
  ss_ptx :: "ptx_event list"

definition DONE_TOKEN :: string where "DONE_TOKEN = ''{DONE}''"

definition ack_line :: "string \<Rightarrow> string" where
  \<comment> \<open>\<open>snprintf(ack, ACK_BUFFER_SIZE, ..)\<close>\<close>
  "ack_line s = snprintf 256 (s @ [newline])"

definition ack_text :: "u32 \<Rightarrow> string option \<Rightarrow> string result" where
  "ack_text monrc winner =
     (if monrc AND MON_RECYCLED \<noteq> 0 then
        (case winner of Some w \<Rightarrow> Inr (ack_line w) | None \<Rightarrow> Inl (Fault ''%s of NULL''))
      else if monrc AND MON_STRICT \<noteq> 0 then Inr (ack_line ''-FAILURE-'')
      else if monrc AND MON_AGG \<noteq> 0 then Inr (ack_line ''-OK_AGG-'')
      else Inr (ack_line ''-OK-''))"

definition session_soa :: "(string \<Rightarrow> io list) \<Rightarrow> mon_result \<Rightarrow> 'h session \<Rightarrow> 'h session result" where
  \<comment> \<open>the first argument are the outcomes of the calls which send an answer\<close>
  "session_soa send r s =
     bindR (ack_text (mr_bits r) (mr_winner r)) (\<lambda>ack.
     let s = (if mr_bits r AND MON_RECYCLED = 0 \<and> mr_bits r AND MON_STRICT \<noteq> 0 then s\<lparr>ss_exit := 3\<rparr> else s)
     in case util_send_all (send ack) ack of
          None \<Rightarrow> Inl (Abort ''blocked in send'')
        | Some (_, out) \<Rightarrow>
            let s = s\<lparr>ss_acks := ss_acks s @ out\<rparr>
            in Inr (if mr_bits r AND MON_TOP \<noteq> 0
                    then s\<lparr>ss_ptx := ss_ptx s @ (if ss_started s then [PtxEnd (ss_exit s)] else []) @ [PtxStart],
                           ss_started := True\<rparr>
                    else s))"

definition session_line ::
  "'h mon_env \<Rightarrow> (string \<Rightarrow> io list) \<Rightarrow> (nat \<Rightarrow> moment_s) \<Rightarrow> string \<Rightarrow> 'h session \<Rightarrow> (bool \<times> 'h session) result" where
  \<comment> \<open>the first component says to leave the loop\<close>
  "session_line env send clock line s =
     (if line = DONE_TOKEN then Inr (False, s\<lparr>ss_done := True\<rparr>)
      else
        bindR (mon_record env (ss_next s) (clock (ss_next s)) line (ss_exit s) (ss_mon s)) (\<lambda>(r, mon).
        let monrc = mr_bits r;
            s = s\<lparr>ss_mon := mon, ss_exit := mr_rc r, ss_next := Suc (ss_next s)\<rparr>
        in if monrc AND MON_NEXT \<noteq> 0 then Inr (False, s)
           else if monrc AND MON_ERR \<noteq> 0 then Inr (False, s)
           else if monrc AND MON_CANTRUN \<noteq> 0 then Inr (True, s\<lparr>ss_done := True\<rparr>)
           else if monrc AND MON_SOA \<noteq> 0 then bindR (session_soa send r s) (\<lambda>s. Inr (False, s))
           else Inr (False, s)))"

function session_lines ::
  "'h mon_env \<Rightarrow> (string \<Rightarrow> io list) \<Rightarrow> (nat \<Rightarrow> moment_s) \<Rightarrow> string option \<Rightarrow> 'h session \<Rightarrow> 'h session result" where
  "session_lines env send clock buftmp s =
     (case util_strsep buftmp [newline] of
        None \<Rightarrow> Inr s
      | Some (line, rest) \<Rightarrow>
          if line = [] then Inr s
          else bindR (session_line env send clock line s) (\<lambda>(leave, s).
            if leave then Inr s else session_lines env send clock rest s))"
  by pat_completeness auto

termination session_lines
  by (relation "measure (\<lambda>(env, send, clock, buftmp, s). scratch_size buftmp)") (auto dest: util_strsep_shorter)

declare session_lines.simps [simp del]

definition session_delivery ::
  "'h mon_env \<Rightarrow> (string \<Rightarrow> io list) \<Rightarrow> (nat \<Rightarrow> moment_s) \<Rightarrow> string \<Rightarrow> 'h session \<Rightarrow> 'h session result" where
  \<comment> \<open>one connection, from its first byte to its end\<close>
  "session_delivery env send clock buffer s = session_lines env send clock (Some buffer) (s\<lparr>ss_acks := []\<rparr>)"

section \<open>The exit status\<close>

datatype wait_status = WaitFailed | Exited int | Ended_otherwise

definition final_status :: "wait_status \<Rightarrow> int \<Rightarrow> int" where
  "final_status w exitstatus =
     (case w of
        WaitFailed \<Rightarrow> 5
      | Exited n \<Rightarrow> if exitstatus = 0 then n else exitstatus
      | Ended_otherwise \<Rightarrow> 2)"

end
