(* ===== verification/SessionProofs.thy ===== *)
theory SessionProofs
  imports Session Auditor
begin

text \<open>
  A delivery is read to its end; the auditor tries the ports of the monitor in the order in
  which they were opened.
\<close>

section \<open>Reading\<close>

lemma read_room_less: "length buf < bufsize \<Longrightarrow> length buf + 1 < read_room buf bufsize"
  if "1 < bufsize" for buf :: string
  using that by (auto simp: read_room_def)

definition read_outcome :: "io \<Rightarrow> bool" where
  \<comment> \<open>a call waits, or transfers something unless the input is at its end\<close>
  "read_outcome r = (case r of Done n \<Rightarrow> 0 < n | Fail e \<Rightarrow> e = EAGAIN)"

definition calls :: "io list \<Rightarrow> nat" where
  "calls outs = length (filter (\<lambda>r. case r of Done _ \<Rightarrow> True | Fail _ \<Rightarrow> False) outs)"

lemma read_available_all:
  assumes "list_all read_outcome outs" and "length inp < calls outs" and "length buf + 1 < bufsize"
  shows "read_available outs inp buf bufsize = Some (Inr (buf @ inp))"
  using assms
proof (induction outs arbitrary: inp buf bufsize)
  case (Cons r rs)
  show ?case
  proof (cases r)
    case (Fail e)
    then show ?thesis using Cons by (simp add: read_outcome_def calls_def)
  next
    case (Done n)
    let ?got = "take (min n (bufsize - length buf - 1)) inp"
    have n: "0 < n" using Cons.prems Done by (simp add: read_outcome_def)
    show ?thesis
    proof (cases "inp = []")
      case True
      then show ?thesis using Done by simp
    next
      case False
      have got: "?got \<noteq> []" "length ?got \<le> length inp" "length ?got \<le> bufsize - length buf - 1"
        using False n Cons.prems(3) by auto
      have len: "length (buf @ ?got) < bufsize" using got(3) Cons.prems(3) by simp
      have "read_available rs (drop (length ?got) inp) (buf @ ?got) (read_room (buf @ ?got) bufsize) =
          Some (Inr ((buf @ ?got) @ drop (length ?got) inp))"
      proof (rule Cons.IH)
        show "list_all read_outcome rs" using Cons.prems(1) by simp
        show "length (drop (length ?got) inp) < calls rs"
        proof -
          have "calls (r # rs) = Suc (calls rs)" using Done by (simp add: calls_def)
          moreover have "0 < length ?got" using got(1) by simp
          moreover have "0 < length inp" using False by simp
          ultimately show ?thesis using Cons.prems(2) by (simp only: length_drop)
        qed
        show "length (buf @ ?got) + 1 < read_room (buf @ ?got) bufsize"
          using read_room_less [OF _ len] Cons.prems(3) by simp
      qed
      moreover have "?got @ drop (length ?got) inp = inp" by (metis append_take_drop_id length_take min.absorb_iff2 min_def take_all_iff)
      ultimately show ?thesis using Done got(1) by (simp add: Let_def)
    qed
  qed
qed (simp add: calls_def)

text \<open>
  C12. A delivery of any length is read completely and in order: whatever amounts the calls of
  \<open>read\<close> transfer, as long as each transfers something while there is something, and whatever
  calls find nothing yet, the buffer never becomes so full that a call asks for no bytes, which
  would be taken for the end of the delivery.
\<close>

theorem delivery_read_completely:
  assumes "list_all read_outcome outs" and "length inp < calls outs"
  shows "read_available outs inp [] 1024 = Some (Inr inp)"
  using read_available_all [OF assms, of "[]" 1024] by simp

theorem delivery_read_completely_witness:
  "read_available [Fail EAGAIN, Done 2, Done 1, Done 7, Done 1, Done 1, Done 1] ''hello'' [] 1024 = Some (Inr ''hello'')"
  by (rule delivery_read_completely) (simp_all add: read_outcome_def calls_def EAGAIN_def)

section \<open>Ports\<close>

definition port_text :: "u16 \<Rightarrow> string" where
  "port_text port = nat_to_radix 10 (unat port) @ '':''"

lemma length_port_text: "length (port_text port) \<le> 6"
proof -
  have "unat port < 2 ^ LENGTH(16)" by (rule unsigned_less)
  then have "unat port < 10 ^ 5" by simp
  then have "length (nat_to_radix 10 (unat port)) \<le> 5" by (rule length_nat_to_radix [rotated]) simp_all
  then show ?thesis by (simp add: port_text_def)
qed

lemma port_string_fits:
  "length portstr + 11 * length ports \<le> len \<Longrightarrow>
   port_string len ports portstr = portstr @ concat (map port_text ports)"
proof (induction ports arbitrary: portstr)
  case (Cons p ps)
  have "snprintf (len - length portstr) (port_text p) = port_text p"
    using Cons.prems length_port_text [of p] by (simp add: snprintf_def)
  then show ?case
    using Cons.IH [of "portstr @ port_text p"] Cons.prems length_port_text [of p] by (simp add: port_text_def)
qed simp

lemma monitor_ports_text: "monitor_ports ports = concat (map port_text ports)"
  by (simp add: monitor_ports_def port_string_fits)

lemma nat_to_radix_10_chars: "c \<in> set (nat_to_radix 10 n) \<Longrightarrow> isdigit c"
  using nat_to_radix_digits [of 10 c n]
  by (auto simp: is_digit_of_def digit_val_def ctype_defs split: if_splits)

lemma nat_to_radix_first: "0 < n \<Longrightarrow> hd (nat_to_radix 10 n) \<noteq> CHR ''0''"
proof (induction n rule: less_induct)
  case (less n)
  show ?case
  proof (cases "n < 10")
    case True
    then have "n \<in> {1, 2, 3, 4, 5, 6, 7, 8, 9}" using less.prems by auto
    then show ?thesis by (auto simp: nat_to_radix_less CHRS_def)
  next
    case False
    then have "hd (nat_to_radix 10 (n div 10)) \<noteq> CHR ''0''" using less.IH [of "n div 10"] by simp
    then show ?thesis using False by (simp add: nat_to_radix_ge)
  qed
qed

lemma port_first_not_x: "skip_0x 16 (nat_to_radix 10 n @ CHR '':'' # rest) = nat_to_radix 10 n @ CHR '':'' # rest"
proof -
  have x: "tolower c \<noteq> CHR ''x''" if "isdigit c \<or> c = CHR '':''" for c
    using that by (auto simp: tolower_def ctype_defs)
  obtain c t where ct: "nat_to_radix 10 n = c # t" by (cases "nat_to_radix 10 n") auto
  show ?thesis
  proof (cases t)
    case Nil
    then show ?thesis using ct x by (cases rest) (auto simp: skip_0x_def)
  next
    case (Cons d u)
    then have "isdigit d" using nat_to_radix_10_chars [of d n] ct by simp
    then show ?thesis using ct Cons x by (cases "u @ CHR '':'' # rest") (auto simp: skip_0x_def)
  qed
qed

lemma strtoul0_port: "strtoul0 (port_text port @ rest) = (of_nat (unat port), CHR '':'' # rest)"
proof -
  let ?s = "nat_to_radix 10 (unat port) @ CHR '':'' # rest"
  obtain c t where ct: "nat_to_radix 10 (unat port) = c # t" by (cases "nat_to_radix 10 (unat port)") auto
  have c: "isdigit c" using nat_to_radix_10_chars [of c "unat port"] ct by simp
  have start: "snd (skip_sign (dropWhile isspace ?s)) = ?s"
    using ct c by (auto simp: skip_sign_def ctype_defs)
  have "unat port < 2 ^ LENGTH(16)" by (rule unsigned_less)
  then have lim: "unat port < 2 ^ 64" by simp
  have colon: "\<not> is_digit_of b (CHR '':'')" for b by (simp add: is_digit_of_def digit_val_def ctype_defs)
  show ?thesis
  proof (cases "unat port = 0")
    case True
    then have s: "?s = ''0'' @ CHR '':'' # rest" by (simp add: nat_to_radix_less CHRS_def)
    have "c_strtoul 8 (nat_to_radix 8 0 @ CHR '':'' # rest) = 0"
      using c_strtoul_nat_to_radix [of 8 "CHR '':'' # rest" 0] colon by simp
    then have "c_strtoul 8 ?s = 0" using s by (simp add: nat_to_radix_less CHRS_def)
    moreover have "skip_0x 8 ?s = ?s" by (auto simp: skip_0x_def split: list.splits)
    moreover have "is_digit_of 8 (CHR ''0'')" by (simp add: is_digit_of_def digit_val_def ctype_defs)
    ultimately show ?thesis
      using True s start port_first_not_x [of "unat port" rest] colon
      by (simp add: strtoul0_def strtoul0_base_def port_text_def first_char_def)
  next
    case False
    then have "c \<noteq> CHR ''0''" using nat_to_radix_first [of "unat port"] ct by simp
    then have base: "strtoul0_base ?s = 10"
      using port_first_not_x [of "unat port" rest] ct by (simp add: strtoul0_base_def first_char_def)
    have digits: "is_digit_of 10 x" if "x \<in> set (nat_to_radix 10 (unat port))" for x
      using that by (rule nat_to_radix_digits [rotated 2]) simp_all
    have "takeWhile (is_digit_of 10) ?s = nat_to_radix 10 (unat port)"
      "dropWhile (is_digit_of 10) ?s = CHR '':'' # rest"
      using digits colon by (simp_all add: takeWhile_append2 dropWhile_append2)
    moreover have "skip_0x 10 ?s = ?s" by (auto simp: skip_0x_def split: list.splits)
    moreover have "c_strtoul 10 ?s = of_nat (unat port)"
      using c_strtoul_nat_to_radix [of 10 "CHR '':'' # rest" "unat port"] colon lim by simp
    ultimately show ?thesis
      using start base by (simp add: strtoul0_def port_text_def)
  qed
qed

fun try_ports :: "(nat \<Rightarrow> u16 \<Rightarrow> io) \<Rightarrow> nat \<Rightarrow> u16 list \<Rightarrow> u16 result" where
  \<comment> \<open>the specification: the first port which accepts the connection\<close>
  "try_ports conn tries [] = Inl (Exit 2)"
| "try_ports conn tries (p # ps) =
     (case conn tries p of
        Done _ \<Rightarrow> Inr p
      | Fail e \<Rightarrow> if e = EISCONN then Inr p else try_ports conn (Suc tries) ps)"

lemma connect_loop_ports: "connect_loop conn tries (concat (map port_text ports)) = try_ports conn tries ports"
proof (induction ports arbitrary: tries)
  case (Cons p ps)
  have p: "ucast (ucast p :: u64) = p"
    by (rule bit_word_eqI) (auto simp: bit_unsigned_iff dest: bit_imp_le_length)
  have ne: "concat (map port_text (p # ps)) \<noteq> []" by (simp add: port_text_def)
  have "strtoul0 (concat (map port_text (p # ps))) = (of_nat (unat p), CHR '':'' # concat (map port_text ps))"
    by (simp add: strtoul0_port)
  then show ?case
    using Cons.IH [of "Suc tries"] ne p
    by (subst connect_loop.simps) (auto simp: Let_def split: io.splits)
qed (simp add: connect_loop.simps)

text \<open>
  The monitor's list of ports, as it is written into its buffer, is complete, and the auditor
  reads from it the ports in order: it connects to the first one which answers, gives up after
  the last, and does not read behind the end of the list.
\<close>

theorem ports_tried_in_order:
  "connect_loop conn 0 (monitor_ports ports) = try_ports conn 0 ports"
  by (simp add: monitor_ports_text connect_loop_ports)

end
