(* ===== verification/Delivery.thy ===== *)
theory Delivery
  imports AuditorProofs SessionProofs MonitorReach
begin

text \<open>
  From the auditor to the monitor: what a process records arrives at the monitor and is entered
  into the command it belongs to; the answer of the monitor is obeyed.
\<close>

unbundle bit_operations_syntax

section \<open>The text of an action\<close>

definition wire_pa :: "path_action_s \<Rightarrow> path_action_s" where
  \<comment> \<open>what the text carries: not the descriptor\<close>
  "wire_pa pa = pa\<lparr>pa_fd := 0\<rparr>"

text \<open>
  The parts of an action which go into the text as they are. Numbers, times and the target of a
  link are written without newlines in any case.
\<close>

definition plain_parts :: "path_action_s \<Rightarrow> string list" where
  "plain_parts pa = [[op_char (pa_op pa)], (case pa_call pa of Some c \<Rightarrow> c | None \<Rightarrow> []), pa_get_pccode pa, pa_get_ccode pa] @
     (case pa_ps pa of None \<Rightarrow> []
      | Some ps \<Rightarrow> [[ps_e_char (ps_datatype ps)], (case ps_fsname ps of Some f \<Rightarrow> f | None \<Rightarrow> []), ps_get_dcode ps,
                    (case ps_pn ps of Some pn \<Rightarrow> pn_get_rel pn | None \<Rightarrow> [])])"

definition one_line :: "path_action_s \<Rightarrow> bool" where
  "one_line pa = list_all (\<lambda>t. newline \<notin> set t) (plain_parts pa)"

lemma encode_no_newline: "newline \<notin> set (util_encode_minimal t)"
  using encode_char_safe by (auto simp: util_encode_minimal_def)

lemma ps_text_no_newline:
  assumes "ps_toCSVString ps = Inr t" and "newline \<noteq> ps_e_char (ps_datatype ps)"
    and "newline \<notin> set (case ps_fsname ps of Some f \<Rightarrow> f | None \<Rightarrow> [])" and "newline \<notin> set (ps_get_dcode ps)"
    and "newline \<notin> set (case ps_pn ps of Some pn \<Rightarrow> pn_get_rel pn | None \<Rightarrow> [])"
  shows "newline \<notin> set t"
proof -
  let ?m = "ucast (ps_mode ps) :: u64"
  have "length (nat_to_radix 36 (unat ?m)) < 32" using length_radix36 [of ?m] by simp
  then obtain mb where mb: "util_format_to_radix CSV_RADIX 32 ?m = Inr mb" "buf_string mb = nat_to_radix 36 (unat ?m)"
    using format_to_radix_fits [of 36 ?m 32] by (auto simp: CSV_RADIX_def)
  have c: "newline \<notin> set FS1" "newline \<notin> set ''?''" "newline \<notin> set (nat_to_radix 36 n)" for n
    by (simp_all add: FS1_def newline_def nat_to_radix_no_special(3) [of 36 n, unfolded newline_def])
  show ?thesis
    using assms mb c encode_no_newline
    by (auto simp: ps_toCSVString_def bindR_eq_Inr ps_get_rel_def Let_def split: option.splits if_splits)
qed

lemma one_line_text:
  assumes "pa_toCSVString pa = Inr t" and "one_line pa"
  shows "newline \<notin> set (butlast t)"
proof -
  obtain ps psbuf call where ps: "pa_ps pa = Some ps" "ps_toCSVString ps = Inr psbuf" "pa_call pa = Some call"
    using assms(1) by (auto simp: pa_toCSVString_def bindR_eq_Inr pa_get_ps_def Let_def split: option.splits)
  then have "newline \<notin> set psbuf"
    using assms(2) by (intro ps_text_no_newline [OF ps(2)]) (simp_all add: one_line_def plain_parts_def)
  moreover have "newline \<notin> set FS1" by (simp add: FS1_def newline_def)
  ultimately show ?thesis
    using assms ps by (auto simp: pa_toCSVString_def pa_get_ps_def Let_def butlast_append one_line_def plain_parts_def)
qed

text \<open>
  An action of the command \<open>ca\<close> that can be sent: its text is a single line, it has the key of
  the command, and its operation is one of those the auditor reports.
\<close>

definition action_of :: "ca_env \<Rightarrow> cmd_audit_s \<Rightarrow> path_action_s \<Rightarrow> bool" where
  "action_of env ca pa = (pa_ok (ce_pn env) (wire_pa pa) \<and> one_line pa \<and>
     pa_get_ccode pa = ca_get_ccode ca \<and> pa_depth pa = ca_depth ca \<and> pa_pid pa = ca_cmdid ca \<and>
     isalpha (op_char (pa_op pa)))"

lemma pa_toCSVString_fd [simp]: "pa_toCSVString (wire_pa pa) = pa_toCSVString pa"
  by (simp add: pa_toCSVString_def wire_pa_def pa_get_pccode_def pa_get_ccode_def pa_get_ps_def
      cong: option.case_cong)

lemma pa_toCSVString_op: "pa_toCSVString pa = Inr t \<Longrightarrow> t \<noteq> [] \<and> hd t = op_char (pa_op pa)"
  by (auto simp: pa_toCSVString_def bindR_eq_Inr Let_def split: option.splits)

lemma action_text:
  assumes "action_of env ca pa"
  shows "pa_toCSVString pa = Inr (pa_line pa @ [newline])" and "newline \<notin> set (pa_line pa)"
    and "pa_newFromCSVString (ce_pn env) (pa_line pa) = Inr (wire_pa pa)"
    and "pa_line pa \<noteq> []" and "isalpha (first_char (pa_line pa))"
proof -
  obtain csv where csv: "pa_toCSVString pa = Inr (csv @ [newline])" "pa_newFromCSVString (ce_pn env) csv = Inr (wire_pa pa)"
    using pa_csv_core [of "ce_pn env" "wire_pa pa"] assms by (auto simp: action_of_def)
  then have line: "pa_line pa = csv" by (simp add: pa_line_def pa_text_def)
  have nl: "newline \<notin> set csv" using one_line_text [of pa "csv @ [newline]"] csv(1) assms by (simp add: action_of_def)
  have hd: "hd (csv @ [newline]) = op_char (pa_op pa)" using pa_toCSVString_op [OF csv(1)] by simp
  have alpha: "isalpha (op_char (pa_op pa))" using assms by (simp add: action_of_def)
  have "\<not> isalpha newline" by (simp add: newline_def ctype_defs)
  then have ne: "csv \<noteq> []" using hd alpha by auto
  show "pa_toCSVString pa = Inr (pa_line pa @ [newline])" "newline \<notin> set (pa_line pa)"
    "pa_newFromCSVString (ce_pn env) (pa_line pa) = Inr (wire_pa pa)" "pa_line pa \<noteq> []"
    "isalpha (first_char (pa_line pa))"
    using csv line ne hd alpha nl by (auto simp: first_char_def neq_Nil_conv)
qed

section \<open>Actions at the monitor\<close>

definition up_pa :: "bool \<Rightarrow> path_action_s \<Rightarrow> path_action_s" where
  \<comment> \<open>the action as the monitor keeps it; the argument is \<open>Upload.Reads\<close>\<close>
  "up_pa u pa = (if pa_is_write pa \<or> u then (wire_pa pa)\<lparr>pa_uploadable := 1\<rparr> else wire_pa pa)"

definition command_open :: "'h mon_env \<Rightarrow> cmd_audit_s \<Rightarrow> ca_o \<Rightarrow> bool \<Rightarrow> 'h mon_state \<Rightarrow> bool" where
  \<comment> \<open>the command is in the table, at this address; the value of \<open>Upload.Reads\<close>\<close>
  "command_open env ca a u st = (\<exists>h. AuditHash st = Some h \<and> mon_lookup env h (ck_new_from_ca ca) = Some a \<and>
     prop_is_true (mw_props (ms_world st)) P_UPLOAD_READS = Inr u)"

lemma mon_record_action:
  assumes act: "action_of (me_ca env) ca pa" and op: "command_open env ca a u st"
    and rec: "ca_record_pa (me_ca env) (ms_store st a) (addr, up_pa u pa) = Inr obj"
  shows "mon_record env addr now (pa_line pa) rc st =
    Inr (mon_result_of MON_NEXT rc, st\<lparr>ms_store := (ms_store st)(a := obj)\<rparr>)"
proof -
  note t = action_text [OF act]
  obtain h where h: "AuditHash st = Some h" "mon_lookup env h (ck_new_from_ca ca) = Some a"
    "prop_is_true (mw_props (ms_world st)) P_UPLOAD_READS = Inr u"
    using op by (auto simp: command_open_def)
  have w: "pa_is_write (wire_pa pa) = pa_is_write pa" by (simp add: pa_is_write_def wire_pa_def)
  have q: "(if (if pa_is_write pa then True else u) then (wire_pa pa)\<lparr>pa_uploadable := 1\<rparr> else wire_pa pa) = up_pa u pa"
    by (simp add: up_pa_def)
  have key: "ck_new (pa_get_ccode (up_pa u pa)) (pa_depth (up_pa u pa)) (pa_pid (up_pa u pa)) = ck_new_from_ca ca"
    using act by (simp add: action_of_def ck_new_from_ca_def wire_pa_def up_pa_def pa_get_ccode_def)
  have "mon_pa env addr (pa_line pa) rc st = Inr (mon_result_of MON_NEXT rc, st\<lparr>ms_store := (ms_store st)(a := obj)\<rparr>)"
  proof (cases "pa_is_write pa")
    case True
    then show ?thesis using t(3) h key q rec by (simp add: mon_pa_def w Let_def)
  next
    case False
    then show ?thesis using t(3) h key q rec by (simp add: mon_pa_def w Let_def)
  qed
  moreover have "first_char (pa_line pa) \<noteq> CHR ''<''" using t(5) by (auto simp: ctype_defs)
  ultimately show ?thesis using t(5) by (simp add: mon_record_def Let_def)
qed

definition after_actions :: "ca_o \<Rightarrow> pa_o list \<Rightarrow> nat \<Rightarrow> 'h session \<Rightarrow> 'h session" where
  \<comment> \<open>the session when a command has these raw actions, so many lines later\<close>
  "after_actions a d n s = s\<lparr>ss_next := ss_next s + n, ss_mon := (ss_mon s)\<lparr>ms_store := (ms_store (ss_mon s))
     (a := (ms_store (ss_mon s) a)\<lparr>ca_raw_pa_dict := Some d\<rparr>)\<rparr>\<rparr>"

lemma session_line_action:
  assumes act: "action_of (me_ca env) ca pa" and op: "command_open env ca a u (ss_mon s)"
    and rec: "ca_record_pa (me_ca env) (ms_store (ss_mon s) a) (ss_next s, up_pa u pa) =
      Inr ((ms_store (ss_mon s) a)\<lparr>ca_raw_pa_dict := Some d\<rparr>)"
  shows "session_line env send clock (pa_line pa) s = Inr (False, after_actions a d 1 s)"
proof -
  have "pa_line pa \<noteq> DONE_TOKEN" using action_text(5) [OF act] by (auto simp: DONE_TOKEN_def first_char_def ctype_defs)
  then show ?thesis
    using mon_record_action [OF act op rec, of "clock (ss_next s)" "ss_exit s"]
    by (simp add: session_line_def mon_result_of_def MON_NEXT_def after_actions_def)
qed

lemma session_lines_cons:
  assumes "newline \<notin> set line" and "line \<noteq> []"
  shows "session_lines env send clock (Some (line @ newline # rest)) s =
    bindR (session_line env send clock line s) (\<lambda>(leave, s).
      if leave then Inr s else session_lines env send clock (Some rest) s)"
  using assms by (subst session_lines.simps) (simp add: util_strsep_def)

lemma session_lines_end [simp]: "session_lines env send clock (Some []) s = Inr s"
  by (subst session_lines.simps) (simp add: util_strsep_def)

definition arrivals :: "bool \<Rightarrow> nat \<Rightarrow> path_action_s list \<Rightarrow> pa_o list" where
  \<comment> \<open>the objects the monitor makes of a series of lines\<close>
  "arrivals u n pas = zip [n..<n + length pas] (map (up_pa u) pas)"

lemma arrivals_simps [simp]:
  "arrivals u n [] = []"
  "arrivals u n (pa # pas) = (n, up_pa u pa) # arrivals u (Suc n) pas"
  by (simp_all add: arrivals_def upt_rec)

lemma command_open_after: "command_open env ca a u (ss_mon (after_actions b d n s)) = command_open env ca a u (ss_mon s)"
  by (simp add: command_open_def after_actions_def)

lemma after_actions_id:
  assumes "ca_raw_pa_dict (ms_store (ss_mon s) a) = Some d"
  shows "after_actions a d 0 s = s"
proof -
  have "(ms_store (ss_mon s) a)\<lparr>ca_raw_pa_dict := Some d\<rparr> = ms_store (ss_mon s) a"
    unfolding assms [symmetric] by simp
  then show ?thesis by (simp add: after_actions_def)
qed

lemma after_actions_twice [simp]: "after_actions a d m (after_actions a d' n s) = after_actions a d (n + m) s"
  by (simp add: after_actions_def)

lemma after_actions_dict [simp]: "ca_raw_pa_dict (ms_store (ss_mon (after_actions a d n s)) a) = Some d"
  by (simp add: after_actions_def)

lemma after_actions_next [simp]: "ss_next (after_actions a d n s) = ss_next s + n"
  by (simp add: after_actions_def)

lemma session_lines_actions:
  assumes laws: "raw_laws (me_ca env) S"
  shows "list_all (action_of (me_ca env) ca) pas \<Longrightarrow> command_open env ca a u (ss_mon s) \<Longrightarrow>
    ca_raw_pa_dict (ms_store (ss_mon s) a) = Some d \<Longrightarrow> raw_ok (me_ca env) S d \<Longrightarrow>
    list_all (pa_valid (ce_ro (me_ca env)) S) (arrivals u (ss_next s) pas) \<Longrightarrow>
    set (arrivals u (ss_next s) pas) \<inter> set d = {} \<Longrightarrow>
    \<exists>d'. session_lines env send clock (Some (texts pas @ rest)) s =
           session_lines env send clock (Some rest) (after_actions a d' (length pas) s) \<and>
         raw_ok (me_ca env) S d' \<and> set d' = set d \<union> set (arrivals u (ss_next s) pas)"
proof (induction pas arbitrary: s d)
  case Nil
  then show ?case by (intro exI [of _ d]) (simp add: after_actions_id)
next
  case (Cons pa pas)
  let ?p = "(ss_next s, up_pa u pa)"
  have act: "action_of (me_ca env) ca pa" using Cons.prems(1) by simp
  obtain d1 where d1: "ca_record_pa (me_ca env) (ms_store (ss_mon s) a) ?p =
      Inr ((ms_store (ss_mon s) a)\<lparr>ca_raw_pa_dict := Some d1\<rparr>)" "raw_ok (me_ca env) S d1" "set d1 = insert ?p (set d)"
    using record_pa_ok [OF laws Cons.prems(3,4), of ?p] Cons.prems(5,6) by auto
  let ?s = "after_actions a d1 1 s"
  have fresh: "?p \<notin> set (arrivals u (Suc (ss_next s)) pas)" by (auto simp: arrivals_def dest: set_zip_leftD)
  have step: "session_lines env send clock (Some (texts (pa # pas) @ rest)) s =
      session_lines env send clock (Some (texts pas @ rest)) ?s"
    using session_line_action [OF act Cons.prems(2) d1(1)] action_text(2,4) [OF act]
    by (simp add: session_lines_cons)
  have "\<exists>d'. session_lines env send clock (Some (texts pas @ rest)) ?s =
      session_lines env send clock (Some rest) (after_actions a d' (length pas) ?s) \<and>
      raw_ok (me_ca env) S d' \<and> set d' = set d1 \<union> set (arrivals u (ss_next ?s) pas)"
    by (rule Cons.IH) (use Cons.prems d1 fresh in \<open>auto simp: command_open_after\<close>)
  then show ?case using d1(3) step by auto
qed

text \<open>
  A delivery with the actions of a command is taken apart by the monitor into the same
  actions: every line is understood, finds the command by the key it carries, and is entered
  into it once; nothing else of the session changes, and nothing is answered.
\<close>

theorem delivered_actions_recorded:
  assumes "raw_laws (me_ca env) S" and "list_all (action_of (me_ca env) ca) pas"
    and "command_open env ca a u (ss_mon s)"
    and "ca_raw_pa_dict (ms_store (ss_mon s) a) = Some d" and "raw_ok (me_ca env) S d"
    and "list_all (pa_valid (ce_ro (me_ca env)) S) (arrivals u (ss_next s) pas)"
    and "set (arrivals u (ss_next s) pas) \<inter> set d = {}"
  shows "\<exists>d'. session_delivery env send clock (texts pas) s =
      Inr (after_actions a d' (length pas) (s\<lparr>ss_acks := []\<rparr>)) \<and>
    set d' = set d \<union> set (arrivals u (ss_next s) pas)"
  using session_lines_actions [of env S ca pas a u "s\<lparr>ss_acks := []\<rparr>" d send clock "[]"] assms
  by (auto simp: session_delivery_def)

section \<open>From the auditor to the monitor\<close>

lemma action_sendable: "action_of env ca pa \<Longrightarrow> sendable pa"
  using action_text(1) by (simp add: sendable_def)

text \<open>
  C3. The auditor and the monitor together. When a process is about to execute another program
  (\<open>execv\<close>), or exits, and the monitor reads the delivery, the open command of the process has,
  besides what it had, exactly the actions which the process had collected. Before another program
  this is all. At the exit of the process of a command, the monitor is then at the EOA record, so
  that it ends a command which has all its actions; at the exit of a forked process there is no EOA.
  Assumed is that the socket takes all texts (\<open>sends_all\<close>), that nothing was collected in the file
  before a fork, that the actions have one-line texts with the key of the command (\<open>action_of\<close>),
  and that the monitor has the command.
\<close>

theorem collected_actions_arrive:
  assumes "auditing env st ca pas dc" and "connects env (as_props st)" and "sends_all env" and "ReportSocket st = None"
    and "\<forall>sent. ae_reply env (wire st) sent = []" and "audit_file st = []"
    and "ca_started ca \<longrightarrow> ca_format_header ca = Inr hdr \<and> length (eoa_text status ca) < 2 ^ 63"
    and "raw_laws (me_ca menv) S" and "list_all (action_of (me_ca menv) ca) pas"
    and "command_open menv ca a u (ss_mon s)"
    and "ca_raw_pa_dict (ms_store (ss_mon s) a) = Some d" and "raw_ok (me_ca menv) S d"
    and "list_all (pa_valid (ce_ro (me_ca menv)) S) (arrivals u (ss_next s) pas)"
    and "set (arrivals u (ss_next s) pas) \<inter> set d = {}"
    and "exec_ok path"
  shows "\<exists>st1 st2 d1 d2. execv_wrapper env exec_ok path st = Inr st1 \<and> exit_wrapper env status st = Inr st2 \<and>
    session_delivery menv send clock (last (wire st1)) s = Inr (after_actions a d1 (length pas) (s\<lparr>ss_acks := []\<rparr>)) \<and>
    session_delivery menv send clock (last (wire st2)) s =
      (if ca_started ca then session_lines menv send clock (Some (eoa_text status ca)) (after_actions a d2 (length pas) (s\<lparr>ss_acks := []\<rparr>))
       else Inr (after_actions a d2 (length pas) (s\<lparr>ss_acks := []\<rparr>))) \<and>
    set d1 = set d \<union> set (arrivals u (ss_next s) pas) \<and> set d2 = set d \<union> set (arrivals u (ss_next s) pas)"
proof -
  let ?eoa = "if ca_started ca then eoa_text status ca else []"
  have "audit_end env False 0 st = Inr ((audit_ended st (texts pas) False ca dc)\<lparr>wire := wire st @ [texts pas]\<rparr>)"
    using audit_end_sends [OF assms(1-4), of False False] assms(5,6) by simp
  moreover have "audit_end env True status st =
      Inr ((audit_ended st (texts pas) (ca_started ca) ca dc)\<lparr>wire := wire st @ [texts pas @ ?eoa]\<rparr>)"
    using audit_end_sends [OF assms(1-4), of "ca_started ca" True hdr status] assms(5-7) by simp
  moreover have "CurrentCA st \<noteq> None" using assms(1) by (auto simp: auditing_def)
  moreover have "\<exists>d'. session_lines menv send clock (Some (texts pas @ rest)) (s\<lparr>ss_acks := []\<rparr>) =
      session_lines menv send clock (Some rest) (after_actions a d' (length pas) (s\<lparr>ss_acks := []\<rparr>)) \<and>
      set d' = set d \<union> set (arrivals u (ss_next s) pas)" for rest
    using session_lines_actions [OF assms(8,9), of a u "s\<lparr>ss_acks := []\<rparr>" d send clock rest] assms(10-14) by auto
  then obtain d1 d2 where "session_lines menv send clock (Some (texts pas @ [])) (s\<lparr>ss_acks := []\<rparr>) =
      session_lines menv send clock (Some []) (after_actions a d1 (length pas) (s\<lparr>ss_acks := []\<rparr>))"
    "session_lines menv send clock (Some (texts pas @ ?eoa)) (s\<lparr>ss_acks := []\<rparr>) =
      session_lines menv send clock (Some ?eoa) (after_actions a d2 (length pas) (s\<lparr>ss_acks := []\<rparr>))"
    "set d1 = set d \<union> set (arrivals u (ss_next s) pas)" "set d2 = set d \<union> set (arrivals u (ss_next s) pas)"
    by meson
  ultimately show ?thesis
    using assms(15)
    by (intro exI [of _ "(audit_ended st (texts pas) False ca dc)\<lparr>wire := wire st @ [texts pas]\<rparr>"]
        exI [of _ "(audit_ended st (texts pas) (ca_started ca) ca dc)\<lparr>wire := wire st @ [texts pas @ ?eoa]\<rparr>"]
        exI [of _ d1] exI [of _ d2])
      (auto simp: execv_wrapper_def exit_wrapper_def pre_exec_def session_delivery_def)
qed

section \<open>The answer\<close>






text \<open>
  C7. An answer which arrives in two pieces can be cut short by what is left on the stack: the
  buffer is not cleared, and a newline behind the first piece is taken for the end of the
  answer. A command that the monitor told to run then ends with status 0 without having run.
\<close>

theorem split_answer_skips_command:
  assumes "starting env st ca fd soa" and "length (ae_ackbuf env) = 256" and "ae_ackbuf env ! 2 = newline"
    and "ae_reply env (wire st) soa = [Got ''-O'', Got (''K-'' @ [newline])]"
    and "audit_end env True 0 (reported st fd soa) = Inr st'"
  shows "audit_start env st = Inr (st', Some 0)"
proof -
  let ?r = "drop 3 (ae_ackbuf env)"
  have two: "drop 2 (ae_ackbuf env) = newline # ?r"
    using Cons_nth_drop_Suc [of 2 "ae_ackbuf env"] assms(2,3) by (simp add: eval_nat_numeral)
  have "recv_store (ae_ackbuf env) 0 ''-O'' = ''-O'' @ newline # ?r"
    using two by (simp add: recv_store_def eval_nat_numeral)
  then have "recv_line (ae_reply env (wire st) soa) (ae_ackbuf env) 0 = Inr (''-O'' @ nul # ?r)"
    using assms(2,4) by (simp add: recv_scan_def newline_def nul_def Let_def)
  moreover have "ack_string (''-O'' @ nul # ?r) = Inr ''-O''"
    using buf_string_append [of "''-O''" ?r] by (simp add: ack_string_def nul_def)
  ultimately have "audit_start env st = audit_answer env ''-O'' ca (reported st fd soa)"
    by (rule audit_start_answer [OF assms(1)])
  then show ?thesis
    using assms(5) by (simp add: audit_answer_def ACK_OK_def ACK_OK_AGG_def ACK_FAILURE_def split_at_def)
qed

section \<open>Paths of two lines\<close>

definition with_path :: "path_action_s \<Rightarrow> path_name_s \<Rightarrow> path_action_s" where
  "with_path pa pn = pa\<lparr>pa_ps := map_option (\<lambda>ps. ps\<lparr>ps_pn := Some pn\<rparr>) (pa_ps pa)\<rparr>"

lemma pa_text_path:
  assumes "pa_toCSVString (with_path pa pn) = Inr t"
  shows "\<exists>pre. \<forall>q. pa_toCSVString (with_path pa q) = Inr (pre @ pn_get_rel q @ [newline])"
proof -
  obtain ps where ps: "pa_ps pa = Some ps"
    using assms by (cases "pa_ps pa") (auto simp: pa_toCSVString_def with_path_def pa_get_ps_def bindR_eq_Inr split: option.splits)
  have get: "ps_get_rel (ps\<lparr>ps_pn := Some q\<rparr>) = Inr (pn_get_rel q)" "ps_get_rel2 (ps\<lparr>ps_pn := Some q\<rparr>) = ps_get_rel2 ps"
    "ps_get_dcode (ps\<lparr>ps_pn := Some q\<rparr>) = ps_get_dcode ps" for q
    by (simp_all add: ps_get_rel_def ps_get_rel2_def ps_get_dcode_def)
  obtain mb where m: "util_format_to_radix CSV_RADIX 32 (ucast (ps_mode ps)) = Inr mb"
    using assms ps
    by (auto simp: pa_toCSVString_def with_path_def pa_get_ps_def bindR_eq_Inr ps_toCSVString_def split: option.splits)
  define psp where "psp = [ps_e_char (ps_datatype ps)] @ FS1 @ (case ps_fsname ps of Some f \<Rightarrow> if f \<noteq> [] then f else ''?'' | None \<Rightarrow> ''?'')
      @ FS1 @ moment_str (ps_moment ps) @ FS1 @ fmt_lu (ps_size ps) @ FS1 @ buf_string mb @ FS1 @ ps_get_dcode ps @ FS1 @
      (case ps_get_rel2 ps of Some t \<Rightarrow> util_encode_minimal t
             | None \<Rightarrow> (case ps_target ps of Some t \<Rightarrow> util_encode_minimal t | None \<Rightarrow> [])) @ FS1"
  have p: "ps_toCSVString (ps\<lparr>ps_pn := Some q\<rparr>) = Inr (psp @ pn_get_rel q)" for q
    by (simp add: ps_toCSVString_def m get psp_def Let_def cong: option.case_cong)
  obtain call where t: "pa_call pa = Some call"
    using assms by (auto simp: pa_toCSVString_def with_path_def bindR_eq_Inr split: option.splits)
  define pap where "pap = [op_char (pa_op pa)] @ FS1 @ call @ FS1 @ moment_str (pa_timestamp pa) @ FS1 @ fmt_lu (pa_pid pa) @ FS1
               @ fmt_lu (pa_depth pa) @ FS1 @ fmt_lu (pa_ppid pa) @ FS1 @ fmt_lu (pa_tid pa) @ FS1
               @ pa_get_pccode pa @ FS1 @ pa_get_ccode pa @ FS1"
  have "pa_toCSVString (with_path pa q) = Inr ((pap @ psp) @ pn_get_rel q @ [newline])" for q
    by (simp add: pa_toCSVString_def with_path_def t ps p pa_get_ps_def pap_def Let_def pa_get_pccode_def pa_get_ccode_def)
  then show ?thesis by blast
qed

lemma take_fields_short: "length (filter (\<lambda>c. c = CHR '','') s) < n \<Longrightarrow> take_fields (Suc n) (Some s) = None"
proof (induction n arbitrary: s)
  case (Suc n)
  obtain tok rest where t: "strsep_scan FS1 s = (tok, rest)" by (cases "strsep_scan FS1 s")
  have "case rest of None \<Rightarrow> True | Some r \<Rightarrow> length (filter (\<lambda>c. c = CHR '','') r) < n"
    using t Suc.prems by (induction s arbitrary: tok rest) (auto simp: FS1_def split: if_splits prod.splits option.splits)
  then have "take_fields (Suc n) rest = None"
    using Suc.IH by (cases rest) (auto simp: util_strsep_def)
  then show ?case using t by (subst take_fields.simps) (simp add: util_strsep_def del: take_fields.simps)
qed simp

lemma rest_lines:
  assumes "newline \<notin> set y"
  shows "session_lines env send clock (Some (y @ newline # [])) r =
    (if y = [] then Inr r else bindR (session_line env send clock y r) (\<lambda>(leave, s). Inr s))"
  using assms
  by (cases "y = []") (auto simp: session_lines.simps [of _ _ _ "Some (newline # _)"] session_lines_cons util_strsep_def
      bindR_def split: sum.splits)

lemma rest_taken_for_action:
  assumes "isalpha (first_char y)" and "length (filter (\<lambda>c. c = CHR '','') y) < 8"
  shows "session_line env send clock y r = Inl (Abort ''bad format'')"
proof -
  have y: "y \<noteq> DONE_TOKEN" "first_char y \<noteq> CHR ''<''"
    using assms(1) by (auto simp: first_char_def DONE_TOKEN_def ctype_defs nul_def)
  have "pa_newFromCSVString (ce_pn (me_ca env)) y = Inl (Abort ''bad format'')"
    using take_fields_short [OF assms(2)] by (simp add: pa_newFromCSVString_def)
  then show ?thesis using y assms(1) by (simp add: session_line_def mon_record_def mon_pa_def Let_def)
qed

lemma rest_skipped:
  assumes "y \<noteq> []" and "\<not> isalpha (first_char y)" and "first_char y \<notin> set ''<!{''"
  shows "session_line env send clock y r = Inr (False, r\<lparr>ss_next := Suc (ss_next r)\<rparr>)"
proof -
  have y: "y \<noteq> DONE_TOKEN" using assms(3) by (auto simp: first_char_def DONE_TOKEN_def)
  have "mon_record env (ss_next r) (clock (ss_next r)) y (ss_exit r) (ss_mon r) =
      Inr (mon_result_of (if first_char y \<in> set ''+#'' then MON_NEXT else MON_ERR) (ss_exit r), ss_mon r)"
    using assms(2,3) by (auto simp: mon_record_def Let_def)
  then show ?thesis using y
    by (simp add: session_line_def mon_result_of_def MON_NEXT_def MON_ERR_def)
qed

text \<open>
  C8. The path, which ends the text of an action, is written as it is. If it has a newline the
  monitor reads two lines: it records an action on another path, the part before the newline. What
  it does with the rest, which has no further newline here, depends on how it begins. If it begins with a letter it is taken for
  an action of its own, and if it has fewer than eight commas the program stops; if it is empty,
  or begins with a character without meaning, such as a digit or a slash, it is skipped, with the
  action on the wrong path kept. (A rest that begins with \<open><\<close> or \<open>!\<close> is taken for a start or an end, or
  for a command that cannot run.)
\<close>

theorem newline_in_path_aborts:
  assumes "pn_get_rel pn = x @ newline # y" and "pn_get_rel pnx = x"
    and "action_of (me_ca menv) ca (with_path pa pnx)" and "command_open menv ca a u (ss_mon s)"
    and "ca_record_pa (me_ca menv) (ms_store (ss_mon s) a) (ss_next s, up_pa u (with_path pa pnx)) =
      Inr ((ms_store (ss_mon s) a)\<lparr>ca_raw_pa_dict := Some d\<rparr>)"
    and "newline \<notin> set y"
  shows "(isalpha (first_char y) \<and> length (filter (\<lambda>c. c = CHR '','') y) < 8 \<longrightarrow>
      session_delivery menv send clock (pa_text (with_path pa pn)) s = Inl (Abort ''bad format'')) \<and>
    (\<not> isalpha (first_char y) \<and> first_char y \<notin> set ''<!{'' \<longrightarrow>
      (\<exists>n. session_delivery menv send clock (pa_text (with_path pa pn)) s = Inr (after_actions a d n (s\<lparr>ss_acks := []\<rparr>))))"
proof -
  note t = action_text [OF assms(3)]
  obtain pre where pre: "\<And>q. pa_toCSVString (with_path pa q) = Inr (pre @ pn_get_rel q @ [newline])"
    using pa_text_path [OF t(1)] by auto
  have line: "pa_line (with_path pa pnx) = pre @ x" using pre [of pnx] assms(2) by (simp add: pa_line_def pa_text_def butlast_append)
  have whole: "pa_text (with_path pa pn) = pa_line (with_path pa pnx) @ newline # (y @ newline # [])"
    using pre [of pn] assms(1) line by (simp add: pa_text_def)
  let ?s1 = "after_actions a d 1 (s\<lparr>ss_acks := []\<rparr>)"
  have deliv: "session_delivery menv send clock (pa_text (with_path pa pn)) s =
      session_lines menv send clock (Some (y @ newline # [])) ?s1"
    unfolding session_delivery_def whole session_lines_cons [OF t(2,4)]
    using session_line_action [OF assms(3), of a u "s\<lparr>ss_acks := []\<rparr>" d send clock] assms(4,5) by simp
  have "session_lines menv send clock (Some (y @ newline # [])) ?s1 = Inl (Abort ''bad format'')"
    if y: "isalpha (first_char y)" "length (filter (\<lambda>c. c = CHR '','') y) < 8"
  proof -
    have "y \<noteq> []" using y(1) by (auto simp: first_char_def ctype_defs nul_def)
    then show ?thesis using rest_lines [OF assms(6), of menv send clock ?s1] rest_taken_for_action [OF y, of menv] by simp
  qed
  moreover have "\<exists>n. session_lines menv send clock (Some (y @ newline # [])) ?s1 = Inr (after_actions a d n (s\<lparr>ss_acks := []\<rparr>))"
    if y: "\<not> isalpha (first_char y)" "first_char y \<notin> set ''<!{''"
  proof (cases "y = []")
    case True
    then show ?thesis using rest_lines [OF assms(6), of menv send clock ?s1] by (intro exI [of _ 1]) simp
  next
    case False
    then show ?thesis
      using rest_lines [OF assms(6), of menv send clock ?s1] rest_skipped [OF False y, of menv] by (intro exI [of _ 2]) (simp add: after_actions_def)
  qed
  ultimately show ?thesis unfolding deliv by blast
qed

end
