(* ===== verification/DeliverySample.thy ===== *)
theory DeliverySample
  imports Delivery
begin

text \<open>
  A process with one recorded action and a monitor on which its command is open: the theorems on
  the auditor and on deliveries apply to them.
\<close>

unbundle bit_operations_syntax

section \<open>The process\<close>

definition aud_sample_props :: prop_state where
  "aud_sample_props = (prop_start [])\<lparr>pvals := (\<lambda>p. Some [])(P_MONITOR_HOST := Some ''h'', P_MONITOR_PORT := Some (monitor_ports [7]))\<rparr>"

definition aud_sample_sys :: "unit ps_sys" where
  "aud_sample_sys = \<lparr>sys_lstat = (\<lambda>_. None), sys_readlink = (\<lambda>_. None), sys_code_from_path = (\<lambda>_. None),
     sys_code_from_buffer = (\<lambda>_ _. None), hash_lookup = (\<lambda>_ _. None), hash_alloc_insert = (\<lambda>h _ _. Inr h)\<rparr>"

definition aud_sample_prefs :: prefs_env where
  "aud_sample_prefs = \<lparr>pf_files = (\<lambda>_. None), pf_access = (\<lambda>_. False), pf_wordexp = (\<lambda>_. None), pf_cwd = None,
     pf_path_max = 4096\<rparr>"

definition aud_sample_env :: "string \<Rightarrow> (string list \<Rightarrow> recv_io list) \<Rightarrow> unit aud_env" where
  "aud_sample_env ackbuf reply = \<lparr>ae_ca = sample_env, ae_sys = aud_sample_sys, ae_pcre = (\<lambda>_. None),
     ae_prefs = aud_sample_prefs, ae_pid = 10, ae_tid = 0, ae_execpath = ''/bin/cc'', ae_host = Some ''h'', ae_junk = 0,
     ae_ackbuf = ackbuf, ae_socket = True, ae_connect = (\<lambda>_ _. Done 0), ae_send = (\<lambda>t. [Done (length t div 2), Done (length t - length t div 2)]),
     ae_reply = (\<lambda>w _. reply w), ae_tmpfile = True, ae_fd = (\<lambda>_. FD_UNUSED), ae_dup2 = (\<lambda>_. True), ae_dup = - 1,
     ae_open = (\<lambda>_ _. - 1)\<rparr>"

definition deliv_pa :: path_action_s where
  "deliv_pa = sample_pa\<lparr>pa_pid := 10, pa_depth := 1, pa_ccode := Some ''c0de+6''\<rparr>"

definition aud_sample_ca :: cmd_audit_s where
  "aud_sample_ca = sample_ca\<lparr>ca_raw_pa_dict := Some [(1, deliv_pa)], ca_started := True\<rparr>"

definition aud_sample_state :: "unit aud_state" where
  "aud_sample_state = \<lparr>Activated = LIBAO_ACTIVE_BY_DEFAULT, Depth = 1, CurrentCA = Some aud_sample_ca, AuditFD = 212,
     audit_file = [], ReportSocket = None, wire = [], IgnorePathRE = None, IgnoreProgRE = None,
     AllowedWritePathRE = None, as_props = aud_sample_props, as_basedir = None, as_dcode = mon_sample_dcode\<rparr>"

lemma aud_sample_str: "prop_get_str aud_sample_props p = Inr (Some (if p = P_MONITOR_HOST then ''h'' else if p = P_MONITOR_PORT
    then monitor_ports [7] else []))"
proof -
  have "monitor_ports [7] \<noteq> PROP_NULL" by code_simp
  then show ?thesis
    using prop_get_str_Some [of aud_sample_props p "if p = P_MONITOR_HOST then ''h'' else if p = P_MONITOR_PORT then monitor_ports [7] else []"]
    by (auto simp: aud_sample_props_def PROP_NULL_def)
qed

lemma aud_sample_false: "p \<noteq> P_MONITOR_HOST \<Longrightarrow> p \<noteq> P_MONITOR_PORT \<Longrightarrow> prop_is_true aud_sample_props p = Inr False"
proof -
  assume p: "p \<noteq> P_MONITOR_HOST" "p \<noteq> P_MONITOR_PORT"
  have "\<not> true_word []" by code_simp
  moreover have "c_strtoul 10 [] = 0"
    by (simp add: c_strtoul_def scan_number_def skip_sign_def skip_0x_def digits_val_def)
  ultimately show ?thesis using p by (simp add: prop_is_true_def prop_get_ulong_def aud_sample_str number_base_def)
qed


lemma two_pieces: "takes_pieces [Done (length buf div 2), Done (length buf - length buf div 2)] buf"
  unfolding takes_pieces_def by (rule exI [of _ "[length buf div 2, length buf - length buf div 2]"]) simp

lemma aud_sample_sends: "sends_all (aud_sample_env b r)"
  using two_pieces by (auto simp: sends_all_def aud_sample_env_def)

lemma aud_sample_connects: "connects (aud_sample_env b r) aud_sample_props"
proof -
  have "connect_loop (\<lambda>_ _. Done 0) 0 (monitor_ports [7]) = Inr 7"
    unfolding monitor_ports_text connect_loop_ports by simp
  then show ?thesis by (auto simp: connects_def aud_sample_str aud_sample_false aud_sample_env_def)
qed

lemma deliv_pa_ok: "pa_ok (ce_pn sample_env) (wire_pa deliv_pa)"
proof -
  have "pa_ok (ce_pn sample_env) sample_pa" using sample_ok by (simp add: sample_env_def)
  then show ?thesis
    by (simp add: pa_ok_def wire_pa_def deliv_pa_def) (simp add: str_ok_def CSV_FIELD_IS_NULL_def nul_def)
qed

lemma deliv_action: "action_of sample_env aud_sample_ca deliv_pa"
proof -
  have "one_line deliv_pa"
    by (simp add: one_line_def plain_parts_def deliv_pa_def pa_get_pccode_def pa_get_ccode_def)
      (simp add: ps_get_dcode_def sample_pa_def sample_ps_def sample_pn_def op_char_def ps_e_char_def pn_get_rel_def newline_def)
  then show ?thesis
    using deliv_pa_ok
    by (simp add: action_of_def aud_sample_ca_def ca_get_ccode_def pa_get_ccode_def)
      (simp add: deliv_pa_def sample_ca_def sample_pa_def op_char_def ctype_defs)
qed

lemma deliv_sampled: "sample_all sys [deliv_pa] dc = Inr ([deliv_pa], dc)"
  by (simp add: deliv_pa_def sample_pa_def sample_ps_def sample_pn_def pa_is_read_def pa_is_member_def pa_get_ps_def
      ps_is_member_def pn_is_member_def)

lemma sample_auditing: "auditing (aud_sample_env b r) aud_sample_state aud_sample_ca [deliv_pa] mon_sample_dcode"
  using action_sendable [OF deliv_action] deliv_sampled
  by (simp add: auditing_def aud_sample_state_def auditor_isActive_def aud_sample_ca_def sample_ca_def ca_new_def
      del: sample_all.simps)

lemma sample_connected:
  "connects (aud_sample_env b r) (as_props aud_sample_state)" "ReportSocket aud_sample_state = None"
  "audit_file aud_sample_state = []"
  using aud_sample_connects by (simp_all add: aud_sample_state_def)

lemma sample_header:
  "ca_format_header (sample_ca\<lparr>ca_raw_pa_dict := d, ca_started := b\<rparr>) = ca_format_header sample_ca"
  by (simp add: ca_format_header_def ca_get_pccode_def ca_get_ccode_def ca_get_pathcode_def cong: option.case_cong)

section \<open>The monitor\<close>

definition sample_session :: "unit session" where
  "sample_session = \<lparr>ss_mon = mon_sample_open, ss_exit = 0, ss_done = False, ss_started = True, ss_next = 5, ss_acks = [],
     ss_ptx = []\<rparr>"

definition sample_objects :: "pa_o set" where
  "sample_objects = {(5, wire_pa deliv_pa)}"

lemma sample_open: "command_open mon_sample_env aud_sample_ca 0 False (ss_mon sample_session)"
proof -
  have k: "ck_new_from_ca aud_sample_ca = ck_new_from_ca (header_part sample_ca)"
    by (simp add: ck_new_from_ca_def ca_get_ccode_def aud_sample_ca_def header_part_def)
  have p: "mw_props (ms_world mon_sample_open) = mon_sample_props"
    using mon_sample_props_start by (simp add: mon_sample_open_def)
  show ?thesis
    unfolding command_open_def k
    using mon_sample_found p sample_number(3) [of P_UPLOAD_READS] by (simp add: sample_session_def mon_sample_open_def)
qed

lemma sample_arrivals: "arrivals False 5 [deliv_pa] = [(5, wire_pa deliv_pa)]"
  by (simp add: up_pa_def pa_is_write_def) (simp add: deliv_pa_def sample_pa_def)

lemma sample_env_ca: "me_ca mon_sample_env = sample_env"
  by (simp add: mon_sample_env_simps)

lemma sample_monitor:
  "raw_laws (me_ca mon_sample_env) sample_objects"
  "list_all (action_of (me_ca mon_sample_env) aud_sample_ca) [deliv_pa]"
  "ca_raw_pa_dict (ms_store (ss_mon sample_session) 0) = Some []"
  "raw_ok (me_ca mon_sample_env) sample_objects []"
  "list_all (pa_valid (ce_ro (me_ca mon_sample_env)) sample_objects) (arrivals False (ss_next sample_session) [deliv_pa])"
  "set (arrivals False (ss_next sample_session) [deliv_pa]) \<inter> set [] = {}"
proof -
  show "raw_laws (me_ca mon_sample_env) sample_objects"
    by (simp add: raw_laws_def sample_env_ca) (simp add: sample_env_def list_dict_laws)
  show "list_all (action_of (me_ca mon_sample_env) aud_sample_ca) [deliv_pa]"
    using deliv_action by (simp add: sample_env_ca)
  show "ca_raw_pa_dict (ms_store (ss_mon sample_session) 0) = Some []"
    by (simp add: sample_session_def mon_sample_open_def mon_sample_cmd_def header_part_def)
  show "raw_ok (me_ca mon_sample_env) sample_objects []" by (simp add: raw_ok_def dict_sorted_def)
  have "ss_next sample_session = 5" by (simp add: sample_session_def)
  moreover have "pa_valid 1000 sample_objects (5, wire_pa deliv_pa)"
    by (simp add: pa_valid_def pa_objects_def sample_objects_def wire_pa_def deliv_pa_def moment_ok_def ns_def)
      (simp add: sample_pa_def)
  ultimately show "list_all (pa_valid (ce_ro (me_ca mon_sample_env)) sample_objects) (arrivals False (ss_next sample_session) [deliv_pa])"
    "set (arrivals False (ss_next sample_session) [deliv_pa]) \<inter> set [] = {}"
    using sample_arrivals by (simp_all add: sample_env_ca) (simp add: sample_env_def)
qed

theorem delivered_actions_recorded_witness:
  "\<exists>d'. session_delivery mon_sample_env (\<lambda>t. [Done (length t)]) (\<lambda>_. zero_moment) (texts [deliv_pa]) sample_session =
      Inr (after_actions 0 d' 1 sample_session) \<and> set d' = {(5, wire_pa deliv_pa)}"
  using delivered_actions_recorded [OF sample_monitor(1,2) sample_open sample_monitor(3-6),
      of "\<lambda>t. [Done (length t)]" "\<lambda>_. zero_moment"] sample_arrivals
  by (simp add: sample_session_def)

lemma deliv_header_text: "ca_format_header aud_sample_ca = Inr (header_csv sample_ca @ [newline])"
  unfolding aud_sample_ca_def sample_header by (rule header_csv_parses(1) [OF sample_header_ok])

lemma sample_header_length: "length (header_csv sample_ca) < 300"
proof -
  have "length (fmt_lu (10 :: u64)) \<le> 20" "length (fmt_lu (1 :: u64)) \<le> 20" "length (fmt_lu (9 :: u64)) \<le> 20"
    "length (fmt_lu (0 :: u64)) \<le> 20" "length (moment_str \<lparr>ntv_sec = 8, ntv_nsec = 9\<rparr>) \<le> 27"
    by (rule length_fmt_lu length_moment_str)+
  then show ?thesis
    by (simp add: header_csv_def header_fields_def csv_fields_def encode_newlines_def CSV_NEWLINE_TOKEN_def ca_get_pccode_def
        ca_get_ccode_def ca_get_pathcode_def newline_def FS1_def)
      (simp add: sample_ca_def ca_new_def newline_def CSV_NEWLINE_TOKEN_def)
qed

lemma sample_eoa: "eoa_text 0 aud_sample_ca = ''<EOA>[0]'' @ header_csv sample_ca @ [newline]"
proof -
  have "fmt_d 0 = ''0''" by (simp add: fmt_d_def nat_to_radix_less CHRS_def)
  then show ?thesis by (simp add: eoa_text_def deliv_header_text)
qed

theorem collected_actions_arrive_witness:
  "\<exists>st1 st2 d1 d2. execv_wrapper (aud_sample_env [] (\<lambda>_. [])) (\<lambda>_. True) ''/bin/ld'' aud_sample_state = Inr st1 \<and>
    exit_wrapper (aud_sample_env [] (\<lambda>_. [])) 0 aud_sample_state = Inr st2 \<and>
    session_delivery mon_sample_env (\<lambda>t. [Done (length t)]) (\<lambda>_. zero_moment) (last (wire st1)) sample_session =
      Inr (after_actions 0 d1 1 sample_session) \<and>
    session_delivery mon_sample_env (\<lambda>t. [Done (length t)]) (\<lambda>_. zero_moment) (last (wire st2)) sample_session =
      session_lines mon_sample_env (\<lambda>t. [Done (length t)]) (\<lambda>_. zero_moment) (Some (eoa_text 0 aud_sample_ca))
        (after_actions 0 d2 1 sample_session) \<and>
    set d1 = {(5, wire_pa deliv_pa)} \<and> set d2 = {(5, wire_pa deliv_pa)}"
proof -
  have h: "ca_started aud_sample_ca \<longrightarrow>
      ca_format_header aud_sample_ca = Inr (header_csv sample_ca @ [newline]) \<and> length (eoa_text 0 aud_sample_ca) < 2 ^ 63"
    using sample_eoa sample_header_length by (simp add: deliv_header_text)
  have a: "ca_started aud_sample_ca" by (simp add: aud_sample_ca_def)
  have q: "sample_session\<lparr>ss_acks := []\<rparr> = sample_session" by (simp add: sample_session_def)
  have n: "ss_next sample_session = 5" by (simp add: sample_session_def)
  have r: "\<forall>sent. ae_reply (aud_sample_env [] (\<lambda>_. [])) (wire aud_sample_state) sent = []" by (simp add: aud_sample_env_def)
  show ?thesis
    using collected_actions_arrive [OF sample_auditing sample_connected(1) aud_sample_sends sample_connected(2) r
        sample_connected(3) h sample_monitor(1,2) sample_open sample_monitor(3-6),
        of "\<lambda>_. True" "''/bin/ld''" "\<lambda>t. [Done (length t)]" "\<lambda>_. zero_moment"] sample_arrivals
    by (simp add: q n a)
qed

section \<open>The end and the start of the command\<close>

theorem audit_end_delivers_witness:
  "\<exists>st'. audit_end (aud_sample_env [] (\<lambda>_. [])) True 0 aud_sample_state = Inr st' \<and> CurrentCA st' = None \<and>
    wire st' = [texts [deliv_pa] @ ''<EOA>[0]'' @ header_csv sample_ca @ [newline]]"
proof -
  have r: "\<forall>sent. ae_reply (aud_sample_env [] (\<lambda>_. [])) (wire aud_sample_state) sent = []" by (simp add: aud_sample_env_def)
  have s: "ca_started aud_sample_ca" by (simp add: aud_sample_ca_def)
  have e: "eoa_text 0 aud_sample_ca = ''<EOA>[0]'' @ header_csv sample_ca @ [newline]" by (rule sample_eoa)
  have "ca_format_header aud_sample_ca = Inr (header_csv sample_ca @ [newline]) \<and> length (eoa_text 0 aud_sample_ca) < 2 ^ 63"
    using sample_header_length by (simp add: e deliv_header_text)
  then show ?thesis
    using audit_end_delivers [OF sample_auditing sample_connected(1) aud_sample_sends sample_connected(2) r, of True True]
      s by (simp add: e sample_connected(3)) (simp add: audit_ended_def aud_sample_state_def)
qed

theorem fork_reports_once_witness:
  "\<exists>parent child ca1 ca2. fork_wrapper (aud_sample_env [] (\<lambda>_. [])) (aud_sample_env [] (\<lambda>_. [])) aud_sample_state = Inr (parent, child) \<and>
    audit_file parent = texts [deliv_pa] \<and> audit_file child = [] \<and>
    CurrentCA parent = Some ca1 \<and> ca_raw_pa_dict ca1 = Some [] \<and> ca_started ca1 \<and>
    CurrentCA child = Some ca2 \<and> ca_raw_pa_dict ca2 = Some [] \<and> \<not> ca_started ca2 \<and> AuditFD child = 212"
proof -
  have "find (\<lambda>i. True) [0..<10] = Some (0 :: nat)" by (simp add: upt_rec)
  then have "audit_open (aud_sample_env [] (\<lambda>_. [])) (flushed aud_sample_ca [deliv_pa] mon_sample_dcode aud_sample_state) = Inr 212"
    by (simp add: audit_open_def auditor_isActive_def flushed_def aud_sample_state_def aud_sample_false)
      (simp add: aud_sample_env_def pick_fd_def PREFERRED_FD_def)
  then show ?thesis
    using fork_reports_once [OF sample_auditing] by (simp add: sample_connected(3)) (simp add: aud_sample_ca_def)
qed

definition sample_reply :: "recv_io list \<Rightarrow> string list \<Rightarrow> recv_io list" where
  \<comment> \<open>what the monitor sends on the first connection\<close>
  "sample_reply answer w = (if w = [] then answer else [])"

lemma sample_starting:
  "starting (aud_sample_env b r) aud_sample_state aud_sample_ca 212 (''<SOA>'' @ header_csv sample_ca @ [newline])"
proof -
  have "find (\<lambda>i. True) [0..<10] = Some (0 :: nat)" by (simp add: upt_rec)
  then have "audit_open (aud_sample_env b r) aud_sample_state = Inr 212"
    by (simp add: audit_open_def auditor_isActive_def aud_sample_state_def aud_sample_false)
      (simp add: aud_sample_env_def pick_fd_def PREFERRED_FD_def)
  moreover have "prop_is_true (as_props aud_sample_state) P_AGGREGATED_SUBCMD = Inr False"
    by (simp add: aud_sample_state_def aud_sample_false)
  moreover have "CurrentCA aud_sample_state = Some aud_sample_ca" "auditor_isActive aud_sample_state"
    by (simp_all add: aud_sample_state_def auditor_isActive_def)
  ultimately show ?thesis
    using sample_connected(1,2) aud_sample_sends sample_header_length deliv_header_text by (auto simp: starting_def)
qed


text \<open>After the start was reported the process has the same command, and still its actions.\<close>

lemma reported_auditing:
  "auditing (aud_sample_env b r) (reported aud_sample_state 212 soa) aud_sample_ca [deliv_pa] mon_sample_dcode"
  using sample_auditing [of b r] by (simp add: auditing_def reported_def auditor_isActive_def aud_sample_state_def)

lemma reported_end:
  "\<exists>st'. audit_end (aud_sample_env b (sample_reply answer)) True 0 (reported aud_sample_state 212 soa) = Inr st' \<and>
    wire st' = [soa, texts [deliv_pa] @ eoa_text 0 aud_sample_ca]"
proof -
  let ?st = "reported aud_sample_state 212 soa"
  have st: "as_props ?st = as_props aud_sample_state" "ReportSocket ?st = None" "audit_file ?st = []" "wire ?st = [soa]"
    by (simp_all add: reported_def aud_sample_state_def)
  have r: "\<And>sent. ae_reply (aud_sample_env b (sample_reply answer)) (wire ?st) sent = []"
    by (simp add: aud_sample_env_def sample_reply_def st)
  have f: "fmt_d 0 = ''0''" by (simp add: fmt_d_def nat_to_radix_less CHRS_def)
  have h: "ca_format_header aud_sample_ca = Inr (header_csv sample_ca @ [newline]) \<and> length (eoa_text 0 aud_sample_ca) < 2 ^ 63"
    using sample_header_length by (simp add: eoa_text_def f deliv_header_text)
  have s: "True = (True \<and> ca_started aud_sample_ca)" by (simp add: aud_sample_ca_def)
  show ?thesis
    using audit_end_sends [OF reported_auditing _ aud_sample_sends st(2) r s h] sample_connected(1)
    by (simp add: st)
qed


theorem split_answer_skips_command_witness:
  "\<exists>st'. audit_start (aud_sample_env (replicate 256 newline) (sample_reply [Got ''-O'', Got (''K-'' @ [newline])])) aud_sample_state =
    Inr (st', Some 0)"
proof -
  let ?env = "aud_sample_env (replicate 256 newline) (sample_reply [Got ''-O'', Got (''K-'' @ [newline])])"
  have b: "length (ae_ackbuf ?env) = 256" "ae_ackbuf ?env ! 2 = newline" by (simp_all add: aud_sample_env_def)
  have r: "ae_reply ?env (wire aud_sample_state) soa = [Got ''-O'', Got (''K-'' @ [newline])]" for soa
    by (simp add: aud_sample_env_def aud_sample_state_def sample_reply_def)
  obtain st' where e: "audit_end ?env True 0 (reported aud_sample_state 212 (''<SOA>'' @ header_csv sample_ca @ [newline])) = Inr st'"
    using reported_end by blast
  show ?thesis
    using split_answer_skips_command [OF sample_starting b r e] by blast
qed

section \<open>A path of two lines\<close>

definition short_pn :: path_name_s where
  "short_pn = \<lparr>pn_abs = ''/p/a'', pn_rel = 3\<rparr>"

definition slash_pn :: path_name_s where
  "slash_pn = \<lparr>pn_abs = ''/p/a'' @ newline # ''/b'', pn_rel = 3\<rparr>"

definition broken_pn :: path_name_s where
  "broken_pn = \<lparr>pn_abs = ''/p/a'' @ newline # ''b'', pn_rel = 3\<rparr>"

lemma short_action: "action_of sample_env aud_sample_ca (with_path deliv_pa short_pn)"
proof -
  have "pn_ok (ce_pn sample_env) short_pn"
    by (simp add: pn_ok_def short_pn_def sample_env_def pn_get_rel_def pn_new_def Let_def pn_make_project_relative_def
        putil_is_absolute_def pn_abs_to_project_relative_path_def strneq0_def sepchar_def backslash_def nul_def)
  moreover have "pa_ps (wire_pa deliv_pa) = Some sample_ps" by (simp add: wire_pa_def deliv_pa_def sample_pa_def)
  moreover from this have "ps_ok (ce_pn sample_env) sample_ps" using deliv_pa_ok by (simp add: pa_ok_def)
  ultimately have "ps_ok (ce_pn sample_env) (sample_ps\<lparr>ps_pn := Some short_pn\<rparr>)"
    by (simp add: ps_ok_def cong: if_cong option.case_cong)
  then have ok: "pa_ok (ce_pn sample_env) (wire_pa (with_path deliv_pa short_pn))"
    using deliv_pa_ok by (simp add: pa_ok_def wire_pa_def with_path_def deliv_pa_def) (simp add: sample_pa_def)
  have "one_line (with_path deliv_pa short_pn)"
    by (simp add: one_line_def plain_parts_def with_path_def deliv_pa_def pa_get_pccode_def pa_get_ccode_def)
      (simp add: sample_pa_def sample_ps_def short_pn_def op_char_def ps_e_char_def pn_get_rel_def ps_get_dcode_def newline_def)
  then show ?thesis
    using deliv_action ok by (simp add: action_of_def with_path_def pa_get_ccode_def)
qed

theorem newline_in_path_aborts_witness:
  "session_delivery mon_sample_env (\<lambda>t. [Done (length t)]) (\<lambda>_. zero_moment) (pa_text (with_path deliv_pa broken_pn)) sample_session =
    Inl (Abort ''bad format'') \<and>
  (\<exists>n. session_delivery mon_sample_env (\<lambda>t. [Done (length t)]) (\<lambda>_. zero_moment) (pa_text (with_path deliv_pa slash_pn)) sample_session =
    Inr (after_actions 0 [(5, up_pa False (with_path deliv_pa short_pn))] n sample_session))"
proof -
  let ?p = "(ss_next sample_session, up_pa False (with_path deliv_pa short_pn))"
  have rec: "ca_record_pa (me_ca mon_sample_env) (ms_store (ss_mon sample_session) 0) ?p =
      Inr ((ms_store (ss_mon sample_session) 0)\<lparr>ca_raw_pa_dict := Some [?p]\<rparr>)"
    using sample_monitor(3) by (simp add: ca_record_pa_def sample_env_ca) (simp add: sample_env_def list_dict_def place_def)
  have act: "action_of (me_ca mon_sample_env) aud_sample_ca (with_path deliv_pa short_pn)"
    using short_action by (simp add: sample_env_ca)
  have pn: "pn_get_rel broken_pn = ''a'' @ newline # ''b''" "pn_get_rel slash_pn = ''a'' @ newline # ''/b''" "pn_get_rel short_pn = ''a''"
    by (simp_all add: broken_pn_def slash_pn_def short_pn_def pn_get_rel_def)
  have nl: "newline \<notin> set ''b''" "newline \<notin> set ''/b''" by (simp_all add: newline_def)
  have c: "isalpha (first_char ''b'')" "\<not> isalpha (first_char ''/b'')" "first_char ''/b'' \<notin> set ''<!{''"
    by (simp_all add: first_char_def ctype_defs)
  have s: "sample_session\<lparr>ss_acks := []\<rparr> = sample_session" "ss_next sample_session = 5" by (simp_all add: sample_session_def)
  show ?thesis
    using newline_in_path_aborts [OF pn(1,3) act sample_open rec nl(1)] c(1)
      newline_in_path_aborts [OF pn(2,3) act sample_open rec nl(2)] c(2,3)
    by (simp add: s)
qed

end
