(* ===== verification/Verbosity.thy ===== *)
theory Verbosity
  imports Prop
begin

text \<open>
  Verbosity (\<open>src/vb.c\<close>, \<open>VB.h\<close>): the names of the kinds of messages, the list of names in the
  property \<open>Verbosity\<close>, and the mask computed from it, which is kept until the list changes.
  The stream is always \<open>stderr\<close>; writing to it is not modelled.
\<close>

unbundle bit_operations_syntax

section \<open>Data\<close>

text \<open>Name, whether it is public, and description.\<close>

definition vbtab :: "(string \<times> bool \<times> string) list" where
  "vbtab =
    [(''STD'', True, ''Default verbosity ({UP,DOWN}LOADING messages)''),
     (''TMP'', False, ''Undefined: temporary bit for debug work''),
     (''AG'', False, ''Show details of aggregation processing''),
     (''CA'', False, ''Show details of cmdaction processing''),
     (''CURL'', False, ''Show libcurl activities''),
     (''EXEC'', True, ''Show child processes as they are executed''),
     (''HTTP'', True, ''Show headers of all HTTP transactions''),
     (''MON'', False, ''Show each raw audit line as delivered to monitor''),
     (''PA'', False, ''Show details of pathaction processing''),
     (''SHOP'', True, ''Show shopping activities''),
     (''TIME'', False, ''Show HTTP transaction times''),
     (''URL'', True, ''Show just the URLs of HTTP transactions''),
     (''WHY'', False, ''Show the reason a candidate PTX didn'' @ [CHR 0x27] @ ''t match''),
     (''RE'', False, ''Show what'' @ [CHR 0x27] @ ''s going on within the RE subsystem''),
     (''MAP'', False, ''Show file map/unmap activity''),
     (''UP'', False, ''Show what'' @ [CHR 0x27] @ ''s going on within the uploading subsystem''),
     (''REC'', False, ''Report each time the auditor calls the file-access-reporting function'')]"

definition VB_STD :: nat where "VB_STD = 0"
definition VB_TMP :: nat where "VB_TMP = 1"
definition VB_AG :: nat where "VB_AG = 2"
definition VB_CA :: nat where "VB_CA = 3"
definition VB_CURL :: nat where "VB_CURL = 4"
definition VB_EXEC :: nat where "VB_EXEC = 5"
definition VB_HTTP :: nat where "VB_HTTP = 6"
definition VB_MON :: nat where "VB_MON = 7"
definition VB_PA :: nat where "VB_PA = 8"
definition VB_SHOP :: nat where "VB_SHOP = 9"
definition VB_TIME :: nat where "VB_TIME = 10"
definition VB_URL :: nat where "VB_URL = 11"
definition VB_WHY :: nat where "VB_WHY = 12"
definition VB_RE :: nat where "VB_RE = 13"
definition VB_MAP :: nat where "VB_MAP = 14"
definition VB_UP :: nat where "VB_UP = 15"
definition VB_REC :: nat where "VB_REC = 16"

definition VB_ON :: int where "VB_ON = -1"
definition VB_OFF :: int where "VB_OFF = -2"

lemmas VB_defs =
  VB_STD_def VB_TMP_def VB_AG_def VB_CA_def VB_CURL_def VB_EXEC_def VB_HTTP_def VB_MON_def VB_PA_def
  VB_SHOP_def VB_TIME_def VB_URL_def VB_WHY_def VB_RE_def VB_MAP_def VB_UP_def VB_REC_def

definition VBMASK_UNSET :: u64 where "VBMASK_UNSET = -2"

record vb_state =
  VerbosityMask :: u64
  vb_props :: prop_state

section \<open>Operations\<close>

definition vb_help :: "bool \<Rightarrow> string" where
  \<comment> \<open>the list of the names\<close>
  "vb_help all =
     (let line = (\<lambda>n d. fmt_left 8 n @ '' '' @ d @ [newline])
      in line ''OFF'' ''No verbosity messages''
         @ concat (map (\<lambda>(n, public, d). if all \<or> public then line n d else []) vbtab))"

definition vb_addstr :: "string option \<Rightarrow> vb_state \<Rightarrow> vb_state result" where
  "vb_addstr vbstr st =
     (let s = (case vbstr of None \<Rightarrow> [] | Some v \<Rightarrow> if v \<noteq> [] \<and> hd v = CHR ''='' then tl v else v)
      in if s = [] \<or> hd s = CHR ''?'' \<or> hd s = CHR ''+'' then Inl (Exit 0)
         else
           bindR (prop_get_str (vb_props st) P_VERBOSITY) (\<lambda>currval.
           bindR (case currval of
                    Some c \<Rightarrow> if c \<noteq> [] then prop_override_str (vb_props st) P_VERBOSITY (c @ '','' @ s)
                              else prop_override_str (vb_props st) P_VERBOSITY s
                  | None \<Rightarrow> prop_put_str (vb_props st) P_VERBOSITY s) (\<lambda>props.
             Inr (st\<lparr>VerbosityMask := VBMASK_UNSET, vb_props := props\<rparr>))))"

definition vb_addbit :: "nat \<Rightarrow> vb_state \<Rightarrow> vb_state result" where
  "vb_addbit addbit st =
     (if addbit < length vbtab then vb_addstr (Some (fst (vbtab ! addbit))) st
      else if addbit = length vbtab then vb_addstr None st
      else Inl (Fault ''vbtab''))"

text \<open>\<open>strtok\<close> skips separators, so that there are no empty words.\<close>

function strtok_all :: "char \<Rightarrow> string \<Rightarrow> string list" where
  "strtok_all sep s =
     (case dropWhile (\<lambda>c. c = sep) s of
        [] \<Rightarrow> []
      | c # cs \<Rightarrow> (c # takeWhile (\<lambda>x. x \<noteq> sep) cs) # strtok_all sep (dropWhile (\<lambda>x. x \<noteq> sep) cs))"
  by pat_completeness auto

termination strtok_all
proof (relation "measure (\<lambda>(sep, s). length s)")
  fix sep :: char and s c cs
  assume "dropWhile (\<lambda>c. c = sep) s = c # cs"
  then have "length (c # cs) \<le> length s" by (metis length_dropWhile_le)
  then show "((sep, dropWhile (\<lambda>x. x \<noteq> sep) cs), sep, s) \<in> measure (\<lambda>(sep, s). length s)"
    using length_dropWhile_le [of "\<lambda>x. x \<noteq> sep" cs] by simp
qed simp

declare strtok_all.simps [simp del]

definition word_starts :: "char \<Rightarrow> string \<Rightarrow> bool" where
  "word_starts c t = (t \<noteq> [] \<and> hd t = c)"

definition vb_find :: "string \<Rightarrow> nat option" where
  \<comment> \<open>the first entry whose name the word abbreviates\<close>
  "vb_find t = find (\<lambda>i. strnieq0 t (fst (vbtab ! i)) (length t)) [0..<length vbtab]"

definition vb_term :: "u64 \<Rightarrow> string \<Rightarrow> u64" where
  \<comment> \<open>the body of the loop\<close>
  "vb_term m t =
     (if c_stricmp t ''OFF'' = 0 \<or> word_starts (CHR ''-'') t then 0
      else if c_stricmp t ''ON'' = 0 then m OR push_bit VB_STD 1
      else if word_starts (CHR ''*'') t then - 1
      else case vb_find t of Some i \<Rightarrow> m OR push_bit i 1 | None \<Rightarrow> m)"

definition vb_name2mask :: "string \<Rightarrow> u64" where
  "vb_name2mask list = foldl vb_term (push_bit VB_STD 1) (strtok_all (CHR '','') (snprintf 1024 list))"

definition vb_bitmatch :: "int \<Rightarrow> vb_state \<Rightarrow> (bool \<times> vb_state) result" where
  "vb_bitmatch b st =
     (if b = VB_ON then Inr (True, st)
      else if b = VB_OFF then Inr (False, st)
      else
        bindR (if VerbosityMask st = VBMASK_UNSET
               then bindR (prop_get_str (vb_props st) P_VERBOSITY) (\<lambda>v. case v of
                      None \<Rightarrow> Inl (Fault ''%s of NULL'')
                    | Some l \<Rightarrow> Inr (st\<lparr>VerbosityMask := vb_name2mask l\<rparr>))
               else Inr st) (\<lambda>st.
          if b < 0 \<or> 30 < b then Inl (Fault ''shift'')
          else Inr (VerbosityMask st AND push_bit (nat b) 1 \<noteq> 0, st)))"

section \<open>Table and names\<close>

lemma vb_find_name: "i < length vbtab \<Longrightarrow> vb_find (fst (vbtab ! i)) = Some i"
proof -
  have "map (\<lambda>e. vb_find (fst e)) vbtab = map Some [0..<length vbtab]" by code_simp
  then have "map (\<lambda>e. vb_find (fst e)) vbtab ! i = map Some [0..<length vbtab] ! i" by simp
  then show "i < length vbtab \<Longrightarrow> ?thesis" by simp
qed

text \<open>
  The constants of \<open>VB.h\<close> are the places of their names in the table, and each name stands for
  its own bit, although a name may begin another.
\<close>

theorem vbtab_in_sync:
  "map (\<lambda>i. fst (vbtab ! i))
     [VB_STD, VB_TMP, VB_AG, VB_CA, VB_CURL, VB_EXEC, VB_HTTP, VB_MON, VB_PA, VB_SHOP, VB_TIME, VB_URL, VB_WHY, VB_RE,
      VB_MAP, VB_UP, VB_REC] = map fst vbtab \<and>
   map (\<lambda>e. vb_find (fst e)) vbtab = map Some [0..<length vbtab]"
proof
  show "map (\<lambda>e. vb_find (fst e)) vbtab = map Some [0..<length vbtab]"
    by (rule nth_equalityI) (simp_all add: vb_find_name)
qed (simp add: VB_defs vbtab_def)

section \<open>Words\<close>

lemma strtok_Nil [simp]: "strtok_all sep [] = []"
  by (simp add: strtok_all.simps)

lemma strtok_sep [simp]: "strtok_all sep (sep # s) = strtok_all sep s"
  by (simp add: strtok_all.simps [of sep s] strtok_all.simps [of sep "sep # s"])

lemma strtok_word:
  "w \<noteq> [] \<Longrightarrow> sep \<notin> set w \<Longrightarrow> s = [] \<or> hd s = sep \<Longrightarrow> strtok_all sep (w @ s) = w # strtok_all sep s"
proof -
  assume w: "w \<noteq> []" "sep \<notin> set w" and s: "s = [] \<or> hd s = sep"
  obtain c cs where "w = c # cs" "c \<noteq> sep" "sep \<notin> set cs" using w by (cases w) auto
  moreover have "takeWhile (\<lambda>x. x \<noteq> sep) (cs @ s) = cs" "dropWhile (\<lambda>x. x \<noteq> sep) (cs @ s) = s" if "sep \<notin> set cs" for cs
    using s that by (induction cs) (cases s; auto)+
  ultimately show ?thesis using w by (simp add: strtok_all.simps [of sep "c # cs @ s"])
qed

lemma strtok_append: "strtok_all sep (s @ sep # t) = strtok_all sep s @ strtok_all sep t"
proof (induction s rule: length_induct)
  case (1 s)
  show ?case
  proof (cases "dropWhile (\<lambda>c. c = sep) s")
    case Nil
    then have "strtok_all sep s = []" by (simp add: strtok_all.simps del: dropWhile_eq_Nil_conv)
    moreover have "strtok_all sep (s @ sep # t) = strtok_all sep t"
      using Nil by (induction s) (auto split: if_splits)
    ultimately show ?thesis by simp
  next
    case (Cons c cs)
    let ?w = "c # takeWhile (\<lambda>x. x \<noteq> sep) cs" and ?r = "dropWhile (\<lambda>x. x \<noteq> sep) cs"
    have split: "s = takeWhile (\<lambda>c. c = sep) s @ ?w @ ?r" by (metis Cons append_Cons takeWhile_dropWhile_id)
    have lead: "strtok_all sep (replicate n sep @ u) = strtok_all sep u" for n u by (induction n) simp_all
    have reps: "takeWhile (\<lambda>c. c = sep) s = replicate (length (takeWhile (\<lambda>c. c = sep) s)) sep"
      by (induction s) auto
    have c: "c \<noteq> sep" using Cons by (metis (mono_tags, lifting) hd_dropWhile list.distinct(1) list.sel(1))
    have w: "?w \<noteq> []" "sep \<notin> set ?w" using c by (auto dest: set_takeWhileD)
    have r: "?r = [] \<or> hd ?r = sep" by (metis (mono_tags, lifting) hd_dropWhile)
    have len: "length ?r < length s"
      using arg_cong [OF split, of length] length_dropWhile_le [of "\<lambda>x. x \<noteq> sep" cs] by simp
    have "strtok_all sep s = ?w # strtok_all sep ?r"
      by (subst split, subst reps, subst lead) (rule strtok_word [OF w r])
    moreover have "strtok_all sep (s @ sep # t) = ?w # strtok_all sep (?r @ sep # t)"
    proof -
      have "?r @ sep # t = [] \<or> hd (?r @ sep # t) = sep" using r by (cases "?r = []") (simp_all add: hd_append del: dropWhile_eq_Nil_conv)
      note word = strtok_word [OF w this]
      have "s @ sep # t = replicate (length (takeWhile (\<lambda>c. c = sep) s)) sep @ ?w @ ?r @ sep # t"
        using split reps by (metis append.assoc)
      then show ?thesis using word lead by metis
    qed
    ultimately show ?thesis using 1 len by simp
  qed
qed

text \<open>
  A word that switches verbosity off makes the words before it irrelevant, whatever they are:
  what follows is counted from nothing, without the standard messages.
\<close>

theorem vb_off_resets:
  assumes "length (s @ '','' @ off @ '','' @ t) < 1024" and "c_stricmp off ''OFF'' = 0 \<or> word_starts (CHR ''-'') off"
    and "CHR '','' \<notin> set off" and "off \<noteq> []"
  shows "vb_name2mask (s @ '','' @ off @ '','' @ t) = foldl vb_term 0 (strtok_all (CHR '','') t)"
proof -
  have "strtok_all (CHR '','') (s @ CHR '','' # off @ CHR '','' # t) =
      strtok_all (CHR '','') s @ off # strtok_all (CHR '','') t"
    using strtok_word [of off "CHR '',''" "CHR '','' # t"] assms(3,4) by (simp add: strtok_append)
  then show ?thesis
    using assms(1,2) by (simp add: vb_name2mask_def snprintf_def vb_term_def)
qed

theorem vb_off_resets_witness:
  "vb_name2mask ''http,shop,-,why'' = push_bit VB_WHY 1"
proof -
  have "strtok_all (CHR '','') ''why'' = [''why'']" using strtok_word [of "''why''" "CHR '',''" "[]"] by simp
  moreover have "vb_term 0 ''why'' = push_bit VB_WHY 1" by code_simp
  moreover have "word_starts (CHR ''-'') ''-''" by (simp add: word_starts_def)
  ultimately show ?thesis using vb_off_resets [of "''http,shop''" "''-''" "''why''"] by simp
qed

section \<open>Switching on a kind of message\<close>

lemma vb_add_on:
  assumes "vb_find t = Some i" and "i < 17"
    and "c_stricmp t ''OFF'' \<noteq> 0" "\<not> word_starts (CHR ''-'') t" "c_stricmp t ''ON'' \<noteq> 0" "\<not> word_starts (CHR ''*'') t"
  shows "vb_term m t AND push_bit i 1 \<noteq> 0"
proof -
  have one: "bit (push_bit i 1 :: u64) i" using assms(2) by (simp add: bit_push_bit_iff del: push_bit_of_1)
  have "vb_term m t = m OR push_bit i 1" using assms by (simp add: vb_term_def)
  then have "bit (vb_term m t AND push_bit i 1) i" using one by (simp only: bit_and_iff bit_or_iff) simp
  then show ?thesis by auto
qed

definition vb_plain :: "string \<Rightarrow> bool" where
  \<comment> \<open>no word of another meaning, and no list\<close>
  "vb_plain t = (c_stricmp t ''OFF'' \<noteq> 0 \<and> \<not> word_starts (CHR ''-'') t \<and> c_stricmp t ''ON'' \<noteq> 0 \<and> \<not> word_starts (CHR ''*'') t \<and>
     CHR '','' \<notin> set t \<and> t \<noteq> [] \<and> isupper (hd t) \<and> length t < 5)"

lemma vb_names: "e \<in> set vbtab \<Longrightarrow> vb_plain (fst e)"
proof -
  have "list_all vb_plain (map fst vbtab)" by code_simp
  then show "e \<in> set vbtab \<Longrightarrow> ?thesis" by (simp add: list_all_iff)
qed


lemma vb_list_on:
  assumes "i < length vbtab" and "t = fst (vbtab ! i)" and "length s < 1018" and "s = [] \<or> last s = CHR '',''"
  shows "vb_name2mask (s @ t) AND push_bit i 1 \<noteq> 0"
proof -
  have t: "vb_plain t" using assms(1,2) vb_names [of "vbtab ! i"] by simp
  have i: "vb_find t = Some i" "i < 17" using vb_find_name [OF assms(1)] assms(1,2) by (auto simp: vbtab_def)
  have "strtok_all (CHR '','') t = [t]"
    using t strtok_word [of t "CHR '',''" "[]"] by (simp add: vb_plain_def)
  then have "strtok_all (CHR '','') (s @ t) = strtok_all (CHR '','') (butlast s) @ [t]"
    using assms(4) strtok_append [of "CHR '',''" "butlast s" t] append_butlast_last_id [of s]
    by (cases "s = []") (auto, metis append.assoc append_Cons append_Nil)
  moreover have "length (s @ t) \<le> 1023" using assms(3) t by (auto simp: vb_plain_def)
  then have "snprintf 1024 (s @ t) = s @ t" by (simp add: snprintf_def)
  ultimately show ?thesis
    using vb_add_on [OF i] t by (simp add: vb_name2mask_def vb_plain_def)
qed

text \<open>
  Switching on a kind of message by its number has the effect that messages of this kind are
  shown, whatever was set before, and although the mask was computed already.
\<close>

theorem vb_addbit_turns_on:
  assumes "i < length vbtab" and "prop_get_str (vb_props st) P_VERBOSITY = Inr (Some cur)" and "length cur < 1017"
  shows "\<exists>st' st''. vb_addbit i st = Inr st' \<and> vb_bitmatch (int i) st' = Inr (True, st'')"
proof -
  let ?t = "fst (vbtab ! i)" and ?s = "if cur = [] then [] else cur @ '',''"
  have t: "vb_plain ?t" using assms(1) vb_names [of "vbtab ! i"] by simp
  have up: "hd ?t \<noteq> CHR ''='' \<and> hd ?t \<noteq> CHR ''?'' \<and> hd ?t \<noteq> CHR ''+'' \<and> hd ?t \<noteq> CHR ''<''"
    using t by (auto simp: vb_plain_def isupper_def)
  have "CHR '','' \<notin> set PROP_NULL" "hd PROP_NULL = CHR ''<''" by (simp_all add: PROP_NULL_def)
  then have "?s @ ?t \<noteq> PROP_NULL" using up by (cases "cur = []") (auto, metis in_set_conv_decomp)
  then obtain props where props: "prop_override_str (vb_props st) P_VERBOSITY (?s @ ?t) = Inr props"
      "prop_get_str props P_VERBOSITY = Inr (Some (?s @ ?t))" 
    using prop_override_get [of P_VERBOSITY "?s @ ?t" "vb_props st"] by (auto simp: prop_entry_VERBOSITY)
  then have add: "vb_addbit i st = Inr (st\<lparr>VerbosityMask := VBMASK_UNSET, vb_props := props\<rparr>)"
    using assms(1,2) up t by (cases "cur = []") (simp_all add: vb_addbit_def vb_addstr_def Let_def vb_plain_def)
  have "vb_name2mask (?s @ ?t) AND push_bit i 1 \<noteq> 0"
    using assms(1,3) by (intro vb_list_on) auto
  moreover have "i \<le> 30" using assms(1) by (simp add: vbtab_def)
  ultimately show ?thesis
    using props(2) by (simp add: add vb_bitmatch_def VB_ON_def VB_OFF_def)
qed

theorem vb_addbit_turns_on_witness:
  "\<exists>st0 st' st''. vb_addbit VB_WHY \<lparr>VerbosityMask = 0, vb_props = st0\<rparr> = Inr st' \<and>
     vb_bitmatch (int VB_WHY) st' = Inr (True, st'')"
proof -
  have "app_ok ''AO''" by code_simp
  then obtain st0 :: prop_state where "pvals st0 = [P_APP \<mapsto> util_strdown ''AO'']" by (rule prop_init_start [where env = "[]"]) blast
  then have "prop_get_str st0 P_VERBOSITY = Inr (Some ''STD'')"
    by (simp add: prop_get_str_def prop_get_str_i_def prop_get_value_simp prop_entry_VERBOSITY Let_def)
  then show ?thesis
    using vb_addbit_turns_on [of VB_WHY "\<lparr>VerbosityMask = 0, vb_props = st0\<rparr>" "''STD''"]
    by (auto simp: VB_WHY_def vbtab_def)
qed

end
