(* ===== verification/Http.thy ===== *)
theory Http
  imports Verbosity PathState
begin

text \<open>
  The conversation with the server (\<open>src/http.c\<close>): the addresses with their parameters, the
  headers of requests and answers, and the text of an answer, which comes in pieces. \<open>libcurl\<close>
  and the server are parameters.
\<close>

section \<open>Addresses\<close>

text \<open>\<open>esc\<close> is \<open>curl_easy_escape\<close>.\<close>

definition http_add_param :: "(string \<Rightarrow> string) \<Rightarrow> string \<Rightarrow> string option \<Rightarrow> string \<Rightarrow> string" where
  "http_add_param esc param val url =
     (case val of
        None \<Rightarrow> url
      | Some v \<Rightarrow> if v = [] then url
                  else url @ (if CHR ''?'' \<in> set url then ''&'' else ''?'') @ esc param @ ''='' @ esc v)"

definition http_make_url_pfx :: "prop_state \<Rightarrow> string option \<Rightarrow> string \<Rightarrow> string result" where
  \<comment> \<open>\<open>_http_make_url\<close>\<close>
  "http_make_url_pfx st pfx cmd =
     bindR (prop_get_str st P_SERVER) (\<lambda>svr. case svr of
       None \<Rightarrow> Inl (Exit 2)
     | Some s \<Rightarrow>
         if s = [] then Inl (Exit 2)
         else
           bindR (prop_get_str st P_SERVER_CONTEXT) (\<lambda>c.
             case (case c of Some x \<Rightarrow> Some x | None \<Rightarrow> prop_get_app st) of
               None \<Rightarrow> Inl (Fault ''%s of NULL'')
             | Some ctx \<Rightarrow>
                 Inr (''http://'' @ s @ ''/'' @ ctx @ ''/'' @ (case pfx of Some p \<Rightarrow> p @ ''/'' | None \<Rightarrow> []) @ cmd)))"

definition http_make_url :: "prop_state \<Rightarrow> string \<Rightarrow> string result" where
  "http_make_url st cmd = http_make_url_pfx st None cmd"

text \<open>
  The name of the servlet for the statistics of times: \<open>strncpy\<close> copies one character less than
  the place of the terminator, so that the last character is whatever was in the memory, \<open>junk\<close>.
\<close>

definition url_servlet :: "char \<Rightarrow> string \<Rightarrow> string" where
  "url_servlet junk url =
     (case (case split_at (CHR ''?'') url of Some x \<Rightarrow> Some x | None \<Rightarrow> split_at (CHR ''&'') url) of
        Some (path, _) \<Rightarrow> buf_string (rev (takeWhile (\<lambda>c. c \<noteq> CHR ''/'') (rev path)) @ [junk, nul])
      | None \<Rightarrow> if CHR ''/'' \<in> set url then rev (takeWhile (\<lambda>c. c \<noteq> CHR ''/'') (rev url)) else ''(unknown)'')"

section \<open>Headers of an answer\<close>

definition CR :: char where "CR = CHR 0x0D"

definition http_chomp :: "string \<Rightarrow> string result" where
  \<comment> \<open>the last two characters are looked at, in any case\<close>
  "http_chomp buf =
     (if length buf < 2 then Inl (Fault ''read before the header'')
      else if buf ! (length buf - 2) = CR then Inr (take (length buf - 2) buf)
      else Inr (if last buf = newline then butlast buf else buf))"

definition c_atoi :: "string \<Rightarrow> int" where
  "c_atoi s = sint (ucast (c_strtol 10 s) :: u32)"

definition http_parse_error_from_server :: "string \<Rightarrow> int result" where
  "http_parse_error_from_server hdr =
     bindR (http_chomp hdr) (\<lambda>hdr.
       case split_at (CHR '':'') hdr of
         None \<Rightarrow> Inr 3
       | Some (_, r) \<Rightarrow>
           let p = dropWhile isspace r;
               rc = (if c_atoi p = 0 then 2 else c_atoi p)
           in if dropWhile isspace (dropWhile isdigit p) \<noteq> [] then Inl (Exit 2) else Inr rc)"

definition exit_status :: "int \<Rightarrow> nat" where
  \<comment> \<open>what the parent of the process sees\<close>
  "exit_status rc = nat (rc mod 256)"

definition X_SERVER_STATUS_HEADER :: string where "X_SERVER_STATUS_HEADER = ''X-Server-Status''"
definition X_SET_PROPERTY_HEADER :: string where "X_SET_PROPERTY_HEADER = ''X-Set-Property''"

definition header_is :: "string \<Rightarrow> string \<Rightarrow> bool" where
  \<comment> \<open>\<open>!strnicmp(hdr, name, strlen(name))\<close>\<close>
  "header_is name hdr = strnieq0 hdr name (length name)"

definition http_find_errors :: "string \<Rightarrow> unit result" where
  "http_find_errors hdr =
     (if header_is X_SERVER_STATUS_HEADER hdr
      then bindR (http_parse_error_from_server hdr) (\<lambda>rc. Inl (Exit (exit_status rc)))
      else Inr ())"

definition set_property_header :: "string \<Rightarrow> prop_state \<Rightarrow> prop_state result" where
  "set_property_header hdr st =
     bindR (http_chomp hdr) (\<lambda>hdr.
       case split_at (CHR '':'') hdr of
         None \<Rightarrow> Inl (Fault ''no colon'')
       | Some (_, r) \<Rightarrow>
          (case split_at (CHR ''='') (dropWhile isspace r) of
             None \<Rightarrow> Inl (Fault ''no equals sign'')
           | Some (name, val) \<Rightarrow>
              (case prop_from_name name of
                 Some p \<Rightarrow> prop_put_str st p val
               | None \<Rightarrow> Inl (Abort ''property''))))"

fun drop_to :: "string \<Rightarrow> string \<Rightarrow> string option" where
  \<comment> \<open>\<open>strstr\<close>\<close>
  "drop_to p [] = (if p = [] then Some [] else None)"
| "drop_to p (x # xs) = (if prefix_of p (x # xs) then Some (x # xs) else drop_to p xs)"

definition cookie_header :: "string \<Rightarrow> prop_state \<Rightarrow> prop_state result" where
  "cookie_header hdr st =
     bindR (http_chomp hdr) (\<lambda>hdr.
       case drop_to ''JSESSIONID='' hdr of
         None \<Rightarrow> Inr st
       | Some r \<Rightarrow>
          (case split_at (CHR '';'') (drop 11 r) of
             None \<Rightarrow> Inl (Fault ''no semicolon'')
           | Some (sessid, _) \<Rightarrow> prop_put_str st P_SESSIONID sessid))"

definition http_parse_startup_headers :: "string \<Rightarrow> prop_state \<Rightarrow> prop_state result" where
  "http_parse_startup_headers hdr st =
     (if prefix_of X_SET_PROPERTY_HEADER hdr then set_property_header hdr st
      else if header_is ''Set-Cookie:'' hdr then cookie_header hdr st
      else bindR (http_find_errors hdr) (\<lambda>_. Inr st))"

section \<open>The text of an answer\<close>

text \<open>What becomes of a line: a note if these are wanted, an error, a warning, or output.\<close>

datatype body_line = BodyNote string | BodyError string | BodyWarning string | BodyText string

definition HTTP_NOTE :: string where "HTTP_NOTE = ''<<-NOTE->>: ''"
definition HTTP_ERROR :: string where "HTTP_ERROR = ''<<-ERROR->>: ''"
definition HTTP_WARNING :: string where "HTTP_WARNING = ''<<-WARNING->>: ''"

definition body_line :: "string \<Rightarrow> body_line" where
  "body_line line =
     (if prefix_of HTTP_NOTE line then BodyNote (drop (length HTTP_NOTE) line)
      else if prefix_of HTTP_ERROR line then BodyError (drop (length HTTP_ERROR) line)
      else if prefix_of HTTP_WARNING line then BodyWarning (drop (length HTTP_WARNING) line)
      else BodyText line)"

definition skip_newline :: "string \<Rightarrow> string" where
  "skip_newline s = (case s of c # r \<Rightarrow> if c = newline then r else s | [] \<Rightarrow> [])"

lemma skip_newline_shorter: "length (skip_newline s) \<le> length s"
  by (cases s) (simp_all add: skip_newline_def)

lemma strsep_rest: "strsep_scan delim s = (tok, Some rest) \<Longrightarrow> length rest < length s"
  by (induction s arbitrary: tok) (auto split: if_splits prod.splits)

text \<open>The lines which are complete, and the rest.\<close>

function body_scan :: "string \<Rightarrow> string list \<times> string" where
  "body_scan cur =
     (case strsep_scan [CR, newline] cur of
        (line, None) \<Rightarrow> ([], cur)
      | (line, Some r) \<Rightarrow> (let (lines, left) = body_scan (skip_newline r) in (line # lines, left)))"
  by pat_completeness auto

termination
  by (relation "measure length") (auto dest!: strsep_rest [OF sym] simp: le_less_trans [OF skip_newline_shorter])

declare body_scan.simps [simp del]

text \<open>
  \<open>_http_stream_body\<close>: the static \<open>leftover\<close> is empty where it is NULL. The return code is
  changed if there is one, and it is 0.
\<close>

record body_state =
  bs_leftover :: string
  bs_lines :: "body_line list"
  bs_rc :: "int option"

definition http_stream_body :: "string \<Rightarrow> body_state \<Rightarrow> body_state" where
  "http_stream_body buffer bs =
     (let body = buf_string (bs_leftover bs @ buffer @ [nul]);
          (lines, left) = body_scan (skip_newline body);
          ls = map body_line lines
      in bs\<lparr>bs_leftover := left, bs_lines := bs_lines bs @ ls,
            bs_rc := (if bs_rc bs = Some 0 \<and> list_ex (\<lambda>l. case l of BodyError _ \<Rightarrow> True | _ \<Rightarrow> False) ls
                      then Some 2 else bs_rc bs)\<rparr>)"

definition http_read_body :: "string \<Rightarrow> string option \<Rightarrow> string option" where
  \<comment> \<open>the buffer, if the body is wanted\<close>
  "http_read_body chunk buf = map_option (\<lambda>b. b @ chunk) buf"

section \<open>Requests\<close>

text \<open>
  A request as \<open>libcurl\<close> is told of it, and the answer: whether the transfer succeeded, the
  code of the protocol, the headers as they come, and the pieces of the body.
\<close>

record http_request =
  rq_url :: string
  rq_headers :: "(string \<times> string) list"
  rq_cookie :: "string option"
  rq_post :: "string option"

record http_reply =
  hr_ok :: bool
  hr_code :: int
  hr_headers :: "string list"
  hr_body :: "string list"

text \<open>
  \<open>he_reply\<close> is the answer to a request, given the requests before it; \<open>he_uname\<close> are system,
  release, machine and node. \<open>ht_cookie\<close> is the static \<open>SessionCookie\<close>, \<open>ht_requests\<close> are all
  requests made.
\<close>

record http_env =
  he_escape :: "string \<Rightarrow> string"
  he_reply :: "http_request list \<Rightarrow> http_request \<Rightarrow> http_reply"
  he_version :: string
  he_uname :: "(string \<times> string \<times> string \<times> string) option"
  he_handle :: string
  he_locale :: "string option"

record http_state =
  ht_props :: prop_state
  ht_cookie :: "string option"
  ht_requests :: "http_request list"
  ht_body :: body_state

definition http_add_header :: "string \<Rightarrow> string \<Rightarrow> http_request \<Rightarrow> http_request" where
  "http_add_header header val rq = rq\<lparr>rq_headers := rq_headers rq @ [(header, val)]\<rparr>"

definition http_get_curl_handle :: "http_env \<Rightarrow> http_state \<Rightarrow> (http_request \<times> http_state) result" where
  \<comment> \<open>the request as it is before anything is added for its purpose\<close>
  "http_get_curl_handle env ht =
     bindR (if ht_cookie ht = None
            then bindR (prop_get_str (ht_props ht) P_SESSIONID) (\<lambda>s. Inr (ht\<lparr>ht_cookie := map_option (\<lambda>s. ''JSESSIONID='' @ s) s\<rparr>))
            else Inr ht) (\<lambda>ht.
       case he_uname env of
         None \<Rightarrow> Inl (Exit 2)
       | Some (sysname, release, machine, _) \<Rightarrow>
           let rq = \<lparr>rq_url = [], rq_headers = [], rq_cookie = ht_cookie ht, rq_post = None\<rparr>;
               rq = http_add_header ''User-Agent''
                      (''AO '' @ he_version env @ '' ('' @ sysname @ '' '' @ release @ '' '' @ machine @ '')'') rq;
               rq = http_add_header ''X-Curl-Handle'' (snprintf 32 (he_handle env)) rq;
               rq = (case he_locale env of
                       None \<Rightarrow> rq
                     | Some al \<Rightarrow> http_add_header ''Accept-Language'' (takeWhile (\<lambda>c. c \<noteq> CHR ''.'') al) rq)
           in Inr (http_add_header ''Expect'' [] rq, ht))"

definition http_connect :: "http_env \<Rightarrow> http_request \<Rightarrow> http_state \<Rightarrow> bool \<times> http_reply \<times> http_state" where
  \<comment> \<open>whether it failed, and the answer\<close>
  "http_connect env rq ht =
     (let rq = rq\<lparr>rq_url := http_add_param (he_escape env) ''clientver'' (Some (he_version env)) (rq_url rq)\<rparr>;
          r = he_reply env (ht_requests ht) rq
      in (\<not> (hr_ok r \<and> hr_code r = 200), r, ht\<lparr>ht_requests := ht_requests ht @ [rq]\<rparr>))"

definition http_ping :: "http_env \<Rightarrow> http_state \<Rightarrow> (int \<times> http_state) result" where
  "http_ping env ht =
     bindR (http_get_curl_handle env ht) (\<lambda>(rq, ht).
     bindR (http_make_url_pfx (ht_props ht) (Some ''action'') ''ping'') (\<lambda>url.
       let (failed, _, ht) = http_connect env (rq\<lparr>rq_url := url\<rparr>) ht
       in Inr (if failed then 2 else 0, ht)))"

definition http_heartbeat :: "http_env \<Rightarrow> http_state \<Rightarrow> (int \<times> http_state) result" where
  "http_heartbeat env ht = http_ping env ht"

definition http_restart :: "http_env \<Rightarrow> http_state \<Rightarrow> (int \<times> http_state) result" where
  "http_restart env ht =
     bindR (http_get_curl_handle env ht) (\<lambda>(rq, ht).
     bindR (prop_get_str (ht_props ht) P_SERVER) (\<lambda>svr.
     bindR (prop_get_str (ht_props ht) P_SERVER_CONTEXT) (\<lambda>c.
       case (svr, case c of Some x \<Rightarrow> Some x | None \<Rightarrow> prop_get_app (ht_props ht)) of
         (Some s, Some app) \<Rightarrow>
           let url = (\<lambda>cmd. ''http://'' @ s @ ''/manager/'' @ cmd @ ''?path=/'' @ app);
               (failed, _, ht) = http_connect env (rq\<lparr>rq_url := url ''stop''\<rparr>) ht
           in if failed then Inr (2, ht)
              else let (failed, _, ht) = http_connect env (rq\<lparr>rq_url := url ''start''\<rparr>) ht
                   in Inr (if failed then 2 else 0, ht)
       | _ \<Rightarrow> Inl (Fault ''%s of NULL''))))"

text \<open>
  \<open>http_async_transfer\<close>: the outcomes of \<open>curl_multi_perform\<close> are whether it wants to be called
  again and the number of transfers which still run. The result is the number of calls made,
  \<open>None\<close> while it waits.
\<close>

fun http_async_transfer :: "nat \<Rightarrow> (bool \<times> nat) list \<Rightarrow> nat option" where
  "http_async_transfer limit [] = None"
| "http_async_transfer limit ((again, still_running) # rs) =
     (if again then map_option Suc (http_async_transfer limit rs)
      else if still_running = 0 \<or> limit = 0 \<or> still_running < limit then Some 1
      else map_option Suc (http_async_transfer limit rs))"

end
