(* ===== verification/HttpProofs.thy ===== *)
theory HttpProofs
  imports Http
begin

text \<open>
  The lines of an answer do not depend on the pieces in which it comes, if its lines end as the
  protocol has it; the parameters of an address can be read off it.
\<close>

section \<open>Pieces of a text\<close>

text \<open>What the pieces amount to, character by character: the beginning of a line, and the lines.\<close>

definition crlf_step :: "string \<times> string list \<Rightarrow> char \<Rightarrow> string \<times> string list" where
  "crlf_step s c = (if c = CR then ([], snd s @ [fst s]) else if c = newline then s else (fst s @ [c], snd s))"

fun lf_ok :: "bool \<Rightarrow> string \<Rightarrow> bool" where
  \<comment> \<open>a newline follows a carriage return only\<close>
  "lf_ok after_cr [] = True"
| "lf_ok after_cr (c # s) = ((c = newline \<longrightarrow> after_cr) \<and> lf_ok (c = CR) s)"

definition plain :: "string \<Rightarrow> bool" where
  "plain s = (CR \<notin> set s \<and> newline \<notin> set s \<and> nul \<notin> set s)"

lemma lf_ok_append: "lf_ok b (x @ y) = (lf_ok b x \<and> lf_ok (if x = [] then b else last x = CR) y)"
  by (induction x arbitrary: b) auto

lemma plain_simps [simp]:
  "plain []" "plain (x @ y) = (plain x \<and> plain y)" "plain (c # s) = (c \<noteq> CR \<and> c \<noteq> newline \<and> c \<noteq> nul \<and> plain s)"
  by (auto simp: plain_def)

lemma lf_ok_plain: "plain x \<Longrightarrow> lf_ok b x"
  by (induction x arbitrary: b) auto

lemma foldl_plain: "plain w \<Longrightarrow> foldl crlf_step (x, acc) w = (x @ w, acc)"
  by (induction w arbitrary: x) (auto simp: crlf_step_def)

lemma plain_last: "plain s \<Longrightarrow> s \<noteq> [] \<Longrightarrow> last s \<noteq> CR"
  by (metis last_in_set plain_def)

lemma strsep_scan_split:
  "strsep_scan delim s = (takeWhile (\<lambda>c. c \<notin> set delim) s,
     case dropWhile (\<lambda>c. c \<notin> set delim) s of [] \<Rightarrow> None | _ # r \<Rightarrow> Some r)"
  by (induction s) auto

lemma CR_newline [simp]: "CR \<noteq> newline" "newline \<noteq> CR" "CR \<noteq> nul" "newline \<noteq> nul" "nul \<noteq> CR" "nul \<noteq> newline"
  by (simp_all add: CR_def newline_def nul_def)

lemma crlf_step_simps [simp]: "crlf_step (x, acc) CR = ([], acc @ [x])" "crlf_step (x, acc) newline = (x, acc)"
  by (simp_all add: crlf_step_def)

lemma body_scan_step:
  "body_scan cur = (case strsep_scan [CR, newline] cur of (line, None) \<Rightarrow> ([], cur)
     | (line, Some r) \<Rightarrow> (line # fst (body_scan (skip_newline r)), snd (body_scan (skip_newline r))))"
  by (subst body_scan.simps) (simp split: option.split prod.split)

lemma lf_ok_first: "lf_ok False s \<Longrightarrow> plain (takeWhile (\<lambda>c. c \<notin> set [CR, newline]) s) \<or> nul \<in> set s"
  by (induction s) (auto simp: plain_def dest: set_takeWhileD)

lemma body_scan_lines:
  "lf_ok False s \<Longrightarrow> nul \<notin> set s \<Longrightarrow>
   foldl crlf_step ([], acc) s = (snd (body_scan s), acc @ fst (body_scan s)) \<and> plain (snd (body_scan s)) \<and>
   (s \<noteq> [] \<and> last s = CR \<longrightarrow> snd (body_scan s) = [])"
proof (induction s arbitrary: acc rule: length_induct)
  case (1 s)
  let ?w = "takeWhile (\<lambda>c. c \<notin> set [CR, newline]) s" and ?r = "dropWhile (\<lambda>c. c \<notin> set [CR, newline]) s"
  have s: "s = ?w @ ?r" by simp
  have w: "plain ?w" using "1.prems" by (auto simp: plain_def dest: set_takeWhileD)
  show ?case
  proof (cases ?r)
    case Nil
    then have "?w = s" using s by simp
    then have "plain s" using w by metis
    moreover from this have "last s \<noteq> CR" if "s \<noteq> []" using that by (rule plain_last)
    moreover have "body_scan s = ([], s)"
      by (subst body_scan_step) (simp only: strsep_scan_split Nil list.case prod.case option.case)
    ultimately show ?thesis by (auto simp: foldl_plain)
  next
    case (Cons c r)
    have "lf_ok False (c # r)"
    proof -
      have "lf_ok False (?w @ c # r)" using "1.prems"(1) s Cons by metis
      moreover have "?w \<noteq> [] \<Longrightarrow> last ?w \<noteq> CR" using w by (rule plain_last)
      ultimately show ?thesis by (auto simp: lf_ok_append split: if_splits)
    qed
    moreover have "c = CR \<or> c = newline" using Cons by (metis (mono_tags, lifting) dropWhile_eq_Cons_conv list.set_intros(1)
        empty_iff empty_set insert_iff list.simps(15))
    ultimately have c: "c = CR" "lf_ok True r" by auto
    let ?s = "skip_newline r"
    have len: "length ?s < length s"
      using skip_newline_shorter [of r] length_dropWhile_le [of "\<lambda>c. c \<notin> set [CR, newline]" s] Cons by simp
    have r: "lf_ok False ?s" using c(2) by (cases r) (auto simp: skip_newline_def)
    have "set ?s \<subseteq> set r" by (cases r) (auto simp: skip_newline_def)
    moreover have "set r \<subseteq> set s" using set_dropWhileD [of _ "\<lambda>c. c \<notin> set [CR, newline]" s] Cons by auto
    ultimately have nn: "nul \<notin> set ?s" using "1.prems"(2) by auto
    have "last s = last (c # r)" using s Cons by (metis last_appendR list.distinct(1))
    then have last: "last s = CR \<Longrightarrow> ?s = [] \<or> last ?s = CR"
      by (cases r) (auto simp: skip_newline_def split: if_splits)
    have fold: "foldl crlf_step (x, ac) r = foldl crlf_step (x, ac) ?s" for x ac
      by (cases r) (auto simp: skip_newline_def crlf_step_def)
    have scan: "body_scan s = (?w # fst (body_scan ?s), snd (body_scan ?s))"
      using Cons by (subst body_scan_step) (simp add: strsep_scan_split)
    have "foldl crlf_step ([], acc) s = foldl crlf_step ([], acc @ [?w]) ?s"
    proof -
      have "foldl crlf_step ([], acc) (?w @ c # r) = foldl crlf_step ([], acc @ [?w]) r"
        by (simp only: c(1) foldl_append foldl_Cons foldl_plain [OF w] append_Nil crlf_step_simps)
      then show ?thesis using s Cons fold by metis
    qed
    moreover have "body_scan [] = ([], [])" by (subst body_scan_step) simp
    ultimately show ?thesis using "1.IH" len r nn scan last by (metis append.assoc append_Cons append_Nil fst_conv snd_conv)
  qed
qed

lemma stream_piece:
  assumes "lf_ok b x" and "nul \<notin> set x" and "b \<longrightarrow> left = []" and "plain left"
  defines "r \<equiv> body_scan (skip_newline (left @ x))"
  shows "foldl crlf_step (left, acc) x = (snd r, acc @ fst r) \<and> plain (snd r) \<and>
    ((if x = [] then b else last x = CR) \<longrightarrow> snd r = [])"
proof -
  consider (lf) x' where "left = []" "x = newline # x'" | (other) "skip_newline (left @ x) = left @ x" "lf_ok False (left @ x)"
  proof (cases "left @ x")
    case Nil
    then show ?thesis using other by (simp add: skip_newline_def)
  next
    case (Cons c s)
    show ?thesis
    proof (cases "c = newline")
      case True
      then show ?thesis using Cons assms(4) lf by (cases left) auto
    next
      case False
      have "lf_ok False (left @ x)"
      proof (cases "left = []")
        case True
        then show ?thesis using assms(1) Cons False by simp
      next
        case False
        then have "last left \<noteq> CR" using assms(4) plain_last by blast
        then show ?thesis using False assms(1,3,4) by (simp add: lf_ok_append lf_ok_plain)
      qed
      then show ?thesis using other Cons False by (simp add: skip_newline_def)
    qed
  qed
  then show ?thesis
  proof cases
    case lf
    then have "lf_ok False x'" "nul \<notin> set x'" using assms(1,2) by auto
    then show ?thesis
      using body_scan_lines [of x' acc] lf body_scan_step [of "[]"] by (auto simp: r_def skip_newline_def crlf_step_def)
  next
    case other
    have "nul \<notin> set (left @ x)" using assms(2,4) by (auto simp: plain_def)
    moreover have "foldl crlf_step ([], acc) (left @ x) = foldl crlf_step (left, acc) x" using assms(4) by (simp add: foldl_plain)
    moreover have "body_scan [] = ([], [])" by (subst body_scan_step) simp
    ultimately show ?thesis
      using body_scan_lines [of "left @ x" acc] other assms(3) by (auto simp: r_def)
  qed
qed


definition error_among :: "body_line list \<Rightarrow> bool" where
  "error_among ls = list_ex (\<lambda>l. case l of BodyError _ \<Rightarrow> True | _ \<Rightarrow> False) ls"

definition rc_after :: "body_line list \<Rightarrow> int option \<Rightarrow> int option" where
  "rc_after ls rc = (if rc = Some 0 \<and> error_among ls then Some 2 else rc)"

lemma rc_after_append: "rc_after (x @ y) rc = rc_after y (rc_after x rc)"
  by (auto simp: rc_after_def error_among_def)

lemma buf_string_plain: "nul \<notin> set s \<Longrightarrow> buf_string (s @ [nul]) = s"
  using buf_string_append [of s "[]"] by (simp add: nul_def)

lemma stream_body_piece:
  assumes "lf_ok b x" and "nul \<notin> set x" and "b \<longrightarrow> bs_leftover bs = []" and "plain (bs_leftover bs)"
    and "foldl crlf_step (bs_leftover bs, []) x = (left, lines)"
  shows "http_stream_body x bs = bs\<lparr>bs_leftover := left, bs_lines := bs_lines bs @ map body_line lines,
      bs_rc := rc_after (map body_line lines) (bs_rc bs)\<rparr> \<and> plain left \<and>
    ((if x = [] then b else last x = CR) \<longrightarrow> left = [])"
proof -
  have "nul \<notin> set (bs_leftover bs @ x)" using assms(2,4) by (auto simp: plain_def)
  from buf_string_plain [OF this] show ?thesis
    using stream_piece [OF assms(1-4), of "[]"] assms(5)
    by (auto simp: http_stream_body_def Let_def rc_after_def error_among_def split: prod.splits)
qed

lemma crlf_acc: "foldl crlf_step (left, acc) x = (fst (foldl crlf_step (left, []) x), acc @ snd (foldl crlf_step (left, []) x))"
proof (induction x arbitrary: left acc)
  case (Cons c x)
  have "\<exists>l a. \<forall>acc. crlf_step (left, acc) c = (l, acc @ a)" by (auto simp: crlf_step_def)
  then obtain l a where a: "\<And>acc. crlf_step (left, acc) c = (l, acc @ a)" by blast
  then show ?case using Cons.IH [of l "acc @ a"] Cons.IH [of l a] by simp
qed simp

lemma stream_bodies:
  "lf_ok b (concat chunks) \<Longrightarrow> nul \<notin> set (concat chunks) \<Longrightarrow> (b \<longrightarrow> bs_leftover bs = []) \<Longrightarrow> plain (bs_leftover bs) \<Longrightarrow>
   (let (left, lines) = foldl crlf_step (bs_leftover bs, []) (concat chunks) in
    foldl (\<lambda>bs x. http_stream_body x bs) bs chunks = bs\<lparr>bs_leftover := left, bs_lines := bs_lines bs @ map body_line lines,
      bs_rc := rc_after (map body_line lines) (bs_rc bs)\<rparr>)"
proof (induction chunks arbitrary: b bs)
  case Nil
  then show ?case by (simp add: rc_after_def error_among_def)
next
  case (Cons x chunks)
  obtain left lines where f: "foldl crlf_step (bs_leftover bs, []) x = (left, lines)" by fastforce
  have ok: "lf_ok b x" "lf_ok (if x = [] then b else last x = CR) (concat chunks)" "nul \<notin> set x" "nul \<notin> set (concat chunks)"
    using Cons.prems(1,2) by (simp_all add: lf_ok_append)
  note p = stream_body_piece [OF ok(1,3) Cons.prems(3,4) f]
  note IH = Cons.IH [OF ok(2,4), of "http_stream_body x bs"]
  show ?case
    using IH p f crlf_acc [of left lines "concat chunks"]
    by (auto simp: Let_def rc_after_append split: prod.splits)
qed

definition crlf_text :: "string list \<Rightarrow> string" where
  "crlf_text ls = concat (map (\<lambda>l. l @ [CR, newline]) ls)"

lemma lf_ok_crlf: "list_all plain ls \<Longrightarrow> lf_ok b (crlf_text ls) \<and> nul \<notin> set (crlf_text ls)"
proof (induction ls arbitrary: b)
  case (Cons l ls)
  then show ?case by (auto simp: crlf_text_def lf_ok_append lf_ok_plain plain_def)
qed (simp add: crlf_text_def)

lemma crlf_lines: "list_all plain ls \<Longrightarrow> foldl crlf_step ([], acc) (crlf_text ls) = ([], acc @ ls)"
proof (induction ls arbitrary: acc)
  case (Cons l ls)
  then show ?case using Cons.IH [of "acc @ [l]"] by (simp add: crlf_text_def foldl_plain)
qed (simp add: crlf_text_def)

text \<open>
  C19. An answer whose lines end as the protocol has it is taken line by line, with the same lines
  in the same order and the same return code, whatever the pieces are in which \<open>libcurl\<close> hands
  it out, also if a piece ends between the two characters of an end of line.
\<close>

theorem body_independent_of_pieces:
  assumes "concat chunks = crlf_text ls" and "list_all plain ls" and "bs_leftover bs = []"
  shows "foldl (\<lambda>bs x. http_stream_body x bs) bs chunks =
    bs\<lparr>bs_lines := bs_lines bs @ map body_line ls, bs_rc := rc_after (map body_line ls) (bs_rc bs)\<rparr>"
proof -
  note ok = lf_ok_crlf [OF assms(2), of False]
  have "bs\<lparr>bs_leftover := [], bs_lines := x, bs_rc := y\<rparr> = bs\<lparr>bs_lines := x, bs_rc := y\<rparr>" for x y
    using assms(3) by (cases bs) simp
  then show ?thesis
    using stream_bodies [of False chunks bs] assms(1,3) ok crlf_lines [OF assms(2), of "[]"] by simp
qed

theorem body_independent_of_pieces_witness:
  "foldl (\<lambda>bs x. http_stream_body x bs) \<lparr>bs_leftover = [], bs_lines = [], bs_rc = Some 0\<rparr>
     [''a'' @ [CR], newline # CR # newline # ''<<-ERR'', ''OR->>: no'' @ [CR, newline]] =
   \<lparr>bs_leftover = [], bs_lines = [BodyText ''a'', BodyText [], BodyError ''no''], bs_rc = Some 2\<rparr>"
proof -
  have "list_all plain [''a'', [], ''<<-ERROR->>: no'']" by (simp add: CR_def newline_def nul_def)
  moreover have "map body_line [''a'', [], ''<<-ERROR->>: no''] = [BodyText ''a'', BodyText [], BodyError ''no'']"
    by (simp add: body_line_def HTTP_NOTE_def HTTP_ERROR_def HTTP_WARNING_def prefix_of_def)
  ultimately show ?thesis
    using body_independent_of_pieces [of "[''a'' @ [CR], newline # CR # newline # ''<<-ERR'', ''OR->>: no'' @ [CR, newline]]"
        "[''a'', [], ''<<-ERROR->>: no'']" "\<lparr>bs_leftover = [], bs_lines = [], bs_rc = Some 0\<rparr>"]
    by (simp add: crlf_text_def rc_after_def error_among_def)
qed

text \<open>
  With lines that end in a newline only, as the code means to allow, empty lines are lost; and
  a last line without an end is not shown, but put in front of the next answer.
\<close>

theorem empty_line_lost:
  assumes "plain a" and "plain b" and "b \<noteq> []" and "plain c" and "bs_leftover bs = []" and "a \<noteq> []"
  shows "bs_lines (http_stream_body (a @ [newline, newline] @ b @ [newline] @ c) bs) =
      bs_lines bs @ [body_line a, body_line b] \<and>
    bs_leftover (http_stream_body (a @ [newline, newline] @ b @ [newline] @ c) bs) = c"
proof -
  have scan: "body_scan (w @ newline # r) = (w # fst (body_scan (skip_newline r)), snd (body_scan (skip_newline r)))"
    if "plain w" for w r
    using that by (subst body_scan_step) (auto simp: plain_def)
  have last: "body_scan c = ([], c)" using assms(4) by (subst body_scan_step) (auto simp: plain_def)
  have skip: "skip_newline (x @ y) = x @ y" if "plain x" "x \<noteq> []" for x y
    using that by (cases x) (auto simp: skip_newline_def)
  have sc: "skip_newline c = c" using assms(4) by (cases c) (auto simp: skip_newline_def)
  have "nul \<notin> set (a @ [newline, newline] @ b @ [newline] @ c)" using assms by (auto simp: plain_def)
  from buf_string_plain [OF this]
  have "body_scan (skip_newline (buf_string (bs_leftover bs @ (a @ [newline, newline] @ b @ [newline] @ c) @ [nul]))) = ([a, b], c)"
    using scan [of a "newline # b @ newline # c"] scan [of b c] skip [of b "newline # c"] skip [of a "newline # newline # b @ newline # c"]
      last sc assms by (simp add: skip_newline_def)
  then show ?thesis by (simp add: http_stream_body_def Let_def)
qed

theorem empty_line_lost_witness:
  "bs_lines (http_stream_body (''a'' @ [newline, newline] @ ''b'' @ [newline] @ ''c'')
       \<lparr>bs_leftover = [], bs_lines = [], bs_rc = None\<rparr>) = [body_line ''a'', body_line ''b''] \<and>
   bs_leftover (http_stream_body (''a'' @ [newline, newline] @ ''b'' @ [newline] @ ''c'')
       \<lparr>bs_leftover = [], bs_lines = [], bs_rc = None\<rparr>) = ''c''"
  using empty_line_lost [of "''a''" "''b''" "''c''" "\<lparr>bs_leftover = [], bs_lines = [], bs_rc = None\<rparr>"]
  by (simp add: plain_def CR_def newline_def nul_def)


section \<open>Parameters\<close>

text \<open>What a server reads off an address.\<close>

primrec split_on :: "char \<Rightarrow> string \<Rightarrow> string list" where
  "split_on c [] = [[]]"
| "split_on c (x # s) = (if x = c then [] # split_on c s else (x # hd (split_on c s)) # tl (split_on c s))"

definition query_pair :: "(string \<Rightarrow> string) \<Rightarrow> string \<Rightarrow> string \<times> string" where
  "query_pair unesc t = (case split_at (CHR ''='') t of Some (k, v) \<Rightarrow> (unesc k, unesc v) | None \<Rightarrow> (unesc t, []))"

definition query_params :: "(string \<Rightarrow> string) \<Rightarrow> string \<Rightarrow> (string \<times> string) list" where
  "query_params unesc url =
     (case split_at (CHR ''?'') url of
        None \<Rightarrow> []
      | Some (_, q) \<Rightarrow> map (query_pair unesc) (split_on (CHR ''&'') q))"

text \<open>
  \<open>curl_easy_escape\<close> and \<open>curl_easy_unescape\<close>: what is escaped has none of the characters with a
  meaning in addresses, and is restored.
\<close>

definition escape_laws :: "(string \<Rightarrow> string) \<Rightarrow> (string \<Rightarrow> string) \<Rightarrow> bool" where
  "escape_laws esc unesc = (\<forall>s. unesc (esc s) = s \<and> set (esc s) \<inter> set ''?&='' = {})"

definition add_params :: "(string \<Rightarrow> string) \<Rightarrow> (string \<times> string option) list \<Rightarrow> string \<Rightarrow> string" where
  "add_params esc ps url = foldl (\<lambda>u p. http_add_param esc (fst p) (snd p) u) url ps"

definition given :: "(string \<times> string option) list \<Rightarrow> (string \<times> string) list" where
  \<comment> \<open>the parameters which have a value\<close>
  "given ps = concat (map (\<lambda>p. case snd p of Some v \<Rightarrow> if v = [] then [] else [(fst p, v)] | None \<Rightarrow> []) ps)"

lemma split_on_word: "c \<notin> set w \<Longrightarrow> split_on c w = [w]"
  by (induction w) auto

lemma split_on_words: "c \<notin> set w \<Longrightarrow> split_on c (w @ c # s) = w # split_on c s"
  by (induction w) auto

definition pair_text :: "(string \<Rightarrow> string) \<Rightarrow> string \<times> string \<Rightarrow> string" where
  "pair_text esc p = esc (fst p) @ ''='' @ esc (snd p)"

definition query_text :: "(string \<Rightarrow> string) \<Rightarrow> (string \<times> string) list \<Rightarrow> string" where
  "query_text esc ps = (case ps of [] \<Rightarrow> [] | p # ps \<Rightarrow> ''?'' @ pair_text esc p @ concat (map (\<lambda>p. ''&'' @ pair_text esc p) ps))"

lemma query_text_snoc:
  "query_text esc (ps @ [p]) = query_text esc ps @ (if ps = [] then ''?'' else ''&'') @ pair_text esc p"
  by (simp add: query_text_def split: list.split)

lemma add_params_text:
  assumes "CHR ''?'' \<notin> set url"
  shows "add_params esc ps url = url @ query_text esc (given ps)"
proof (induction ps rule: rev_induct)
  case (snoc p ps)
  have "CHR ''?'' \<in> set (url @ query_text esc qs) \<longleftrightarrow> qs \<noteq> []" for qs
    using assms by (cases qs) (simp_all add: query_text_def)
  then have step: "http_add_param esc k (Some v) (url @ query_text esc qs) = url @ query_text esc (qs @ [(k, v)])" if "v \<noteq> []" for k v qs
    using that by (simp add: http_add_param_def query_text_snoc pair_text_def)
  have "given (ps @ [p]) = given ps @ (case snd p of Some v \<Rightarrow> if v = [] then [] else [(fst p, v)] | None \<Rightarrow> [])"
    by (simp add: given_def)
  moreover have "add_params esc (ps @ [p]) url = http_add_param esc (fst p) (snd p) (url @ query_text esc (given ps))"
    using snoc by (simp add: add_params_def)
  moreover have "http_add_param esc k None u = u" "http_add_param esc k (Some []) u = u" for k u
    by (simp_all add: http_add_param_def)
  ultimately show ?case
    using step [of _ "fst p" "given ps"] by (cases "snd p"; cases "snd p = Some []") auto
qed (simp add: add_params_def given_def query_text_def)

lemma params_read:
  assumes "escape_laws esc unesc" and "CHR ''?'' \<notin> set url"
  shows "query_params unesc (add_params esc ps url) = given ps"
proof -
  have esc: "unesc (esc s) = s" "c \<in> set ''?&='' \<Longrightarrow> c \<notin> set (esc s)" for s c
    using assms(1) by (auto simp: escape_laws_def)
  have pair: "query_pair unesc (pair_text esc p) = p" "CHR ''&'' \<notin> set (pair_text esc p)" for p
    using split_at_append [of "CHR ''=''" "esc (fst p)" "esc (snd p)"] esc by (auto simp: query_pair_def pair_text_def)
  have split: "split_on (CHR ''&'') (pair_text esc p @ concat (map (\<lambda>p. ''&'' @ pair_text esc p) ps)) = map (pair_text esc) (p # ps)" for p ps
    by (induction ps arbitrary: p) (simp_all add: split_on_word split_on_words pair(2))
  show ?thesis
  proof (cases "given ps")
    case Nil
    then show ?thesis using assms(2) by (simp add: add_params_text query_text_def query_params_def split_at_def)
  next
    case (Cons p qs)
    have "split_at (CHR ''?'') (url @ query_text esc (p # qs)) =
        Some (url, pair_text esc p @ concat (map (\<lambda>p. ''&'' @ pair_text esc p) qs))"
      using split_at_append [of "CHR ''?''" url] assms(2) by (simp add: query_text_def)
    then show ?thesis
      using Cons assms(2) split [of p qs] pair(1) by (simp add: add_params_text query_params_def comp_def del: append.simps)
  qed
qed

text \<open>
  The parameters of an address are exactly those which were added with a value, in the order in
  which they were added, whatever characters are in their names and values.
\<close>

theorem params_roundtrip:
  assumes "escape_laws esc unesc" and "CHR ''?'' \<notin> set url"
  shows "query_params unesc (add_params esc ps url) = given ps"
  using assms by (rule params_read)

definition hex_esc :: "string \<Rightarrow> string" where
  \<comment> \<open>an escape function: each character by its number\<close>
  "hex_esc s = concat (map (\<lambda>c. [CHRS ! (of_char c div 16), CHRS ! (of_char c mod 16)]) s)"


lemma hex_esc_laws: "\<exists>unesc. escape_laws hex_esc unesc"
proof -
  have "distinct CHRS" by code_simp
  have "inj hex_esc"
  proof (rule injI)
    fix s t
    show "hex_esc s = hex_esc t \<Longrightarrow> s = t"
    proof (induction s arbitrary: t)
      case Nil
      then show ?case by (cases t) (simp_all add: hex_esc_def)
    next
      case (Cons c s)
      then obtain d u where t: "t = d # u" by (cases t) (simp_all add: hex_esc_def)
      have nth: "i < 16 \<Longrightarrow> j < 16 \<Longrightarrow> CHRS ! i = CHRS ! j \<Longrightarrow> i = j" for i j
        using \<open>distinct CHRS\<close> by (simp add: nth_eq_iff_index_eq)
      have lt: "of_char x div 16 < (16 :: nat)" for x :: char
        using nat_of_char_less_256 [of x] by linarith
      have "CHRS ! (of_char c div 16) = CHRS ! (of_char d div 16)" "CHRS ! (of_char c mod 16) = CHRS ! (of_char d mod 16)"
          "hex_esc s = hex_esc u"
        using Cons.prems t by (simp_all add: hex_esc_def)
      then have "of_char c div 16 = (of_char d div 16 :: nat)" "of_char c mod 16 = (of_char d mod 16 :: nat)"
        using nth lt by simp_all
      then have "of_char c = (of_char d :: nat)" by (metis div_mult_mod_eq)
      then show ?case using Cons.IH \<open>hex_esc s = hex_esc u\<close> t by simp
    qed
  qed
  then have "inv hex_esc (hex_esc s) = s" for s by simp
  moreover have "set (hex_esc s) \<inter> set ''?&='' = {}" for s
  proof -
    have "CHRS ! (i mod 16) \<in> set CHRS" for i by (rule nth_mem) (simp add: length_CHRS)
    moreover have "set CHRS \<inter> set ''?&='' = {}" by code_simp
    ultimately have "CHRS ! (i mod 16) \<notin> set ''?&=''" for i by blast
    moreover have "of_char c div 16 = (of_char c div 16) mod (16 :: nat)" for c :: char
      by (rule mod_less [symmetric]) (use nat_of_char_less_256 [of c] in linarith)
    ultimately show ?thesis by (auto simp: hex_esc_def) (metis empty_iff insert_iff list.set)+
  qed
  ultimately show ?thesis unfolding escape_laws_def by blast
qed

theorem params_roundtrip_witness:
  "\<exists>unesc. escape_laws hex_esc unesc \<and>
     query_params unesc (add_params hex_esc [(''prog'', Some ''a&b=?''), (''group'', None), (''name'', Some ''x'')] ''http://h/AO/START'') =
     [(''prog'', ''a&b=?''), (''name'', ''x'')]"
proof -
  obtain unesc where "escape_laws hex_esc unesc" using hex_esc_laws by blast
  with params_roundtrip [OF this, of "''http://h/AO/START''" "[(''prog'', Some ''a&b=?''), (''group'', None), (''name'', Some ''x'')]"]
  show ?thesis by (auto simp: given_def)
qed

end
