(* ===== verification/Outputs.thy ===== *)
theory Outputs
  imports Shop
begin

text \<open>
  Where results go: the pipe to the makefile generator (\<open>src/make.c\<close>), the pipe to the delivery
  into git and the objects of a git repository (\<open>src/git.c\<close>), and the log of a build
  (\<open>src/tee.c\<close>). The processes at the other ends, \<open>zlib\<close> and the clock are parameters.
\<close>

section \<open>Data\<close>

text \<open>
  \<open>oe_subst\<close> is what \<open>util_substitute_params\<close> knows with given settings, \<open>oe_readable\<close> is
  \<open>access(path, R_OK) == 0\<close>, \<open>oe_popen\<close> whether a command can be started, \<open>oe_pclose\<close> whether it
  ended well. The commands and what was written to them are the static variables of the sources.
\<close>

record out_env =
  oe_subst :: "prop_state \<Rightarrow> subst_env"
  oe_readable :: "string \<Rightarrow> bool"
  oe_popen :: "string \<Rightarrow> bool"
  oe_pclose :: "string \<Rightarrow> bool"
  oe_logname :: string
  oe_now_id :: string

record out_state =
  os_props :: prop_state
  MakeCmd :: "string option"
  MakeFP :: "string option"
  GitCmd :: "string option"
  GitFP :: "string option"

section \<open>Flags for the programs at the other end\<close>

text \<open>
  \<open>-Wm,-v,file\<close> hands \<open>-v file\<close> to the makefile generator; with \<open>g\<close> it is for git. The flags
  are collected in a property, one on a line (the option \<open>-W\<close> in \<open>src/aotool.c\<close>).
\<close>

definition add_wflag :: "string \<Rightarrow> prop_state \<Rightarrow> prop_state result" where
  "add_wflag arg st =
     bindR (prop_get_str st P_WFLAG) (\<lambda>v. case v of
       Some old \<Rightarrow> prop_override_str st P_WFLAG (old @ [newline] @ arg)
     | None \<Rightarrow> prop_put_str st P_WFLAG arg)"

definition comma_to_blank :: "string \<Rightarrow> string" where
  "comma_to_blank t = (case split_at (CHR '','') t of None \<Rightarrow> t | Some (a, b) \<Rightarrow> a @ '' '' @ b)"

fun wflag_words :: "char \<Rightarrow> string list \<Rightarrow> string \<Rightarrow> string result" where
  "wflag_words key [] cmd = Inr cmd"
| "wflag_words key (t # ts) cmd =
     (if first_char t = key then
        if length t < 2 then Inl (Fault ''read behind the flag'')
        else wflag_words key ts (cmd @ '' '' @ comma_to_blank (drop 2 t))
      else wflag_words key ts cmd)"

definition add_wflags :: "char \<Rightarrow> prop_state \<Rightarrow> string \<Rightarrow> string result" where
  "add_wflags key st cmd =
     bindR (prop_get_str st P_WFLAG) (\<lambda>v. case v of
       Some str \<Rightarrow> wflag_words key (strsep_all [newline] (Some str)) cmd
     | None \<Rightarrow> Inr cmd)"

definition perl_cmd :: "prop_state \<Rightarrow> string result" where
  "perl_cmd st =
     bindR (prop_get_str st P_PERL_CMD) (\<lambda>v. Inr (case v of
       Some p \<Rightarrow> p
     | None \<Rightarrow> (case getenv ''PERL'' (environ st) of Some p \<Rightarrow> p | None \<Rightarrow> ''perl'')))"

section \<open>The makefile generator\<close>

text \<open>The first part of \<open>make_init\<close>: make is asked to run each recipe in one shell.\<close>

definition make_oneshell :: "out_env \<Rightarrow> string option \<Rightarrow> prop_state \<Rightarrow> prop_state result" where
  "make_oneshell env exe st =
     bindR (prop_is_true st P_EXECUTE_ONLY) (\<lambda>only. if only then Inr st else
     bindR (prop_is_true st P_MAKE_ONESHELL) (\<lambda>oneshell. if \<not> oneshell then Inr st else
       case exe of
         None \<Rightarrow> Inr st
       | Some e \<Rightarrow>
          (case prop_get_app st of
             None \<Rightarrow> Inl (Fault ''%s of NULL'')
           | Some app \<Rightarrow>
              let fragment = c_dirname (c_dirname e) @ ''/etc/'' @ app @ ''.mk''
              in Inr (if \<not> oe_readable env fragment then st
                      else case getenv ''MAKEFILES'' (environ st) of
                        Some mf \<Rightarrow> if has_substring fragment mf then st
                                   else st\<lparr>environ := putenv ''MAKEFILES'' (fragment @ '' '' @ mf) (environ st)\<rparr>
                      | None \<Rightarrow> st\<lparr>environ := putenv ''MAKEFILES'' fragment (environ st)\<rparr>))))"

text \<open>The command, if there is to be one.\<close>

definition make_cmd :: "out_env \<Rightarrow> prop_state \<Rightarrow> string option result" where
  "make_cmd env st =
     bindR (prop_get_str st P_MAKE_FILE) (\<lambda>mf.
     if mf = None \<and> \<not> prop_has_value st P_MAKE_DEPENDS then Inr None
     else
       bindR (perl_cmd st) (\<lambda>perl.
       bindR (case mf of
                None \<Rightarrow> Inr []
              | Some f \<Rightarrow> bindR (util_substitute_params (oe_subst env st) f) (\<lambda>(t, _).
                  Inr ('' --MF='' @ [dquote] @ t @ [dquote]))) (\<lambda>mfopt.
       bindR (prop_get_str st P_MAKE_DEPENDS) (\<lambda>dep.
       bindR (prop_is_true st P_MEMBERS_ONLY) (\<lambda>members.
       bindR (add_wflags (CHR ''m'') st
                (perl @ '' -S ao2make'' @ mfopt
                 @ (case dep of Some d \<Rightarrow> '' --ext='' @ d | None \<Rightarrow> '' --full'')
                 @ (if members then '' --members-only'' else []))) (\<lambda>cmd.
       bindR (prop_get_str st P_BASE_DIR) (\<lambda>base.
         Inr (Some (cmd @ (case base of Some b \<Rightarrow> '' --base='' @ [dquote] @ b @ [dquote] @ '' -'' | None \<Rightarrow> '' -''))))))))))"

definition make_init :: "out_env \<Rightarrow> string option \<Rightarrow> out_state \<Rightarrow> out_state result" where
  "make_init env exe os =
     bindR (make_oneshell env exe (os_props os)) (\<lambda>st.
     bindR (make_cmd env st) (\<lambda>cmd.
       case cmd of
         None \<Rightarrow> Inr (os\<lparr>os_props := st\<rparr>)
       | Some c \<Rightarrow> if oe_popen env c then Inr (os\<lparr>os_props := st, MakeCmd := Some c, MakeFP := Some []\<rparr>)
                   else Inl (Exit 2)))"

definition make_file ::
  "bool \<Rightarrow> 'h ps_sys \<Rightarrow> cmd_audit_s \<Rightarrow> 'h dcode_cache \<Rightarrow> out_state \<Rightarrow> (cmd_audit_s \<times> 'h dcode_cache \<times> out_state) result" where
  "make_file dcode_all sys ca dc os =
     (case MakeFP os of
        None \<Rightarrow> Inr (ca, dc, os)
      | Some w \<Rightarrow> bindR (ca_toCSVString dcode_all sys dc ca) (\<lambda>(cmdbuf, ca, dc).
          Inr (ca, dc, os\<lparr>MakeFP := Some (w @ cmdbuf @ [newline])\<rparr>)))"

definition make_fini :: "out_env \<Rightarrow> out_state \<Rightarrow> out_state result" where
  "make_fini env os =
     (case (MakeFP os, MakeCmd os) of
        (Some _, Some c) \<Rightarrow> if oe_pclose env c then Inr (os\<lparr>MakeCmd := None\<rparr>) else Inl (Exit 2)
      | _ \<Rightarrow> Inr (os\<lparr>MakeCmd := None\<rparr>))"

section \<open>Delivery into git\<close>

definition git_cmd :: "out_env \<Rightarrow> prop_state \<Rightarrow> string result" where
  "git_cmd env st =
     bindR (perl_cmd st) (\<lambda>perl.
     bindR (add_wflags (CHR ''g'') st (perl @ '' -S ao2git'')) (\<lambda>cmd.
       Inr (cmd @ '' -branch='' @ oe_logname env @ ''_'' @ '' '' @ oe_now_id env @ '' -'')))"

definition git_init :: "out_env \<Rightarrow> out_state \<Rightarrow> out_state result" where
  "git_init env os =
     bindR (git_cmd env (os_props os)) (\<lambda>c.
       if oe_popen env c then Inr (os\<lparr>GitCmd := Some c, GitFP := Some []\<rparr>) else Inl (Exit 2))"

definition git_deliver ::
  "bool \<Rightarrow> 'h ps_sys \<Rightarrow> cmd_audit_s \<Rightarrow> 'h dcode_cache \<Rightarrow> out_state \<Rightarrow> (cmd_audit_s \<times> 'h dcode_cache \<times> out_state) result" where
  "git_deliver dcode_all sys ca dc os =
     (case GitFP os of
        None \<Rightarrow> Inr (ca, dc, os)
      | Some w \<Rightarrow> bindR (ca_toCSVString dcode_all sys dc ca) (\<lambda>(cmdbuf, ca, dc).
          Inr (ca, dc, os\<lparr>GitFP := Some (w @ cmdbuf @ [newline])\<rparr>)))"

definition git_fini :: "out_env \<Rightarrow> out_state \<Rightarrow> out_state result" where
  "git_fini env os =
     (case (GitFP os, GitCmd os) of
        (Some _, Some c) \<Rightarrow> if oe_pclose env c then Inr (os\<lparr>GitCmd := None\<rparr>) else Inl (Exit 2)
      | _ \<Rightarrow> Inr (os\<lparr>GitCmd := None\<rparr>))"

section \<open>Objects of a git repository\<close>

definition git_path_to_blob :: "prop_state \<Rightarrow> string \<Rightarrow> string result" where
  "git_path_to_blob st sha1 =
     bindR (prop_get_str st P_GIT_DIR) (\<lambda>v. case v of
       None \<Rightarrow> Inl (Exit 2)
     | Some git_dir \<Rightarrow>
         if length sha1 < 2 then Inl (Fault ''read behind the hash'')
         else let object = ''/objects/'' @ take 2 sha1 @ ''/'' @ drop 2 sha1
              in if putil_is_absolute git_dir then Inr (git_dir @ object)
                 else bindR (prop_get_str st P_BASE_DIR) (\<lambda>base. case base of
                        None \<Rightarrow> Inl (Fault ''%s of NULL'')
                      | Some b \<Rightarrow> Inr (b @ ''/'' @ git_dir @ object)))"

definition util_map_file :: "string \<Rightarrow> string result" where
  \<comment> \<open>the contents; nothing of length zero can be mapped\<close>
  "util_map_file fdata = (if fdata = [] then Inl (Exit 2) else Inr fdata)"

text \<open>
  What \<open>zlib\<close> returns call by call, with the bytes it has put into the buffer. \<open>ge_deflate\<close> has
  the calls that finish the stream of a header and contents, the first also handing out what the
  header gave; \<open>ge_write\<close> are the outcomes of the calls which write a buffer.
\<close>

definition Z_OK :: int where "Z_OK = 0"
definition Z_STREAM_END :: int where "Z_STREAM_END = 1"

record git_env =
  ge_contents :: "string \<Rightarrow> string option"
  ge_create :: "string \<Rightarrow> bool"
  ge_deflate :: "string \<Rightarrow> string \<Rightarrow> (int \<times> string) list"
  ge_inflate :: "string \<Rightarrow> (int \<times> string) list"
  ge_write :: "string \<Rightarrow> io list"

fun deflate_loop :: "git_env \<Rightarrow> (int \<times> string) list \<Rightarrow> string \<Rightarrow> string result option" where
  "deflate_loop env [] written = None"
| "deflate_loop env ((ret, out) # rs) written =
     (case util_write_all (ge_write env out) out of
        None \<Rightarrow> None
      | Some (n, w) \<Rightarrow> if n < 0 then Some (Inl (Exit 2))
                       else if ret = Z_OK then deflate_loop env rs (written @ w)
                       else Some (Inr (written @ w)))"

definition git_store_blob ::
  "'h shop_env \<Rightarrow> git_env \<Rightarrow> prop_state \<Rightarrow> path_state_s \<Rightarrow> 'h shop_world \<Rightarrow>
     ((string \<times> string) option \<times> 'h shop_world) result option" where
  \<comment> \<open>the object and what was written into it; \<open>None\<close> while it is writing\<close>
  "git_store_blob env ge st ps w =
     (case ps_get_abs ps of Inl e \<Rightarrow> Some (Inl e) | Inr path \<Rightarrow>
      case ge_contents ge path of None \<Rightarrow> Some (Inl (Exit 2)) | Some contents \<Rightarrow>
      case util_map_file contents of Inl e \<Rightarrow> Some (Inl e) | Inr fdata \<Rightarrow>
      case git_path_to_blob st (ps_get_dcode ps) of Inl e \<Rightarrow> Some (Inl e) | Inr blob \<Rightarrow>
        if sw_access env w blob then Some (Inr (None, w))
        else
          case (if sw_access env w (c_dirname blob) then Inr (True, w) else make_dir env (c_dirname blob) w) of
            Inl e \<Rightarrow> Some (Inl e)
          | Inr (ok, w) \<Rightarrow>
              if \<not> ok \<or> \<not> ge_create ge blob then Some (Inl (Exit 2))
              else map_option (\<lambda>r. bindR r (\<lambda>t. Inr (Some (blob, t), w)))
                     (deflate_loop ge (ge_deflate ge (snprintf 64 (''blob '' @ fmt_lu (ps_size ps)) @ [nul])
                        (take (length fdata mod 2 ^ 32) fdata)) []))"

fun inflate_loop :: "git_env \<Rightarrow> (int \<times> string) list \<Rightarrow> nat \<Rightarrow> string \<Rightarrow> string result option" where
  "inflate_loop env [] i written = None"
| "inflate_loop env ((ret, out) # rs) i written =
     (if i = 0 \<and> nul \<notin> set out then Some (Inl (Fault ''read of an unset buffer''))
      else
        let p = (if i = 0 then tl (dropWhile (\<lambda>c. c \<noteq> nul) out) else out)
        in case util_write_all (ge_write env p) p of
             None \<Rightarrow> None
           | Some (n, w) \<Rightarrow> if n < 0 then Some (Inl (Exit 2))
                            else if ret \<noteq> Z_STREAM_END then inflate_loop env rs (Suc i) (written @ w)
                            else Some (Inr (written @ w)))"

definition git_get_blob :: "git_env \<Rightarrow> prop_state \<Rightarrow> string \<Rightarrow> string \<Rightarrow> string result option" where
  \<comment> \<open>what was written to the path; \<open>None\<close> while it is reading\<close>
  "git_get_blob env st sha1 path =
     (case git_path_to_blob st sha1 of Inl e \<Rightarrow> Some (Inl e) | Inr blob \<Rightarrow>
      case ge_contents env blob of None \<Rightarrow> Some (Inl (Exit 2)) | Some contents \<Rightarrow>
      case util_map_file contents of Inl e \<Rightarrow> Some (Inl e) | Inr fdata \<Rightarrow>
        if \<not> ge_create env path then Some (Inl (Exit 2))
        else inflate_loop env (ge_inflate env (take (length fdata mod 2 ^ 32) fdata)) 0 [])"

section \<open>The log\<close>

text \<open>
  \<open>tee_into\<close> copies what it reads to the standard output and to the log, which get the same
  text. A read has the time at which it returns; \<open>start\<close> is set if lines are to be stamped.
\<close>

fun tee_chars :: "string option \<Rightarrow> char \<Rightarrow> string \<Rightarrow> string" where
  "tee_chars tstamp prev_char [] = []"
| "tee_chars tstamp prev_char (c # cs) =
     (case tstamp of Some t \<Rightarrow> if prev_char = newline then t @ '': '' else [] | None \<Rightarrow> []) @ c # tee_chars tstamp c cs"

definition tee_stamp :: "u64 \<Rightarrow> moment_s option \<Rightarrow> u64 \<times> u64 \<Rightarrow> string option" where
  "tee_stamp roundoff start tv =
     map_option (\<lambda>s. moment_format_milli (snd (moment_since roundoff tv s)) MOMENT_BUFMAX) start"

fun tee_loop :: "u64 \<Rightarrow> moment_s option \<Rightarrow> ((u64 \<times> u64) \<times> (string + nat)) list \<Rightarrow> char \<Rightarrow> string \<Rightarrow> string result option" where
  "tee_loop roundoff start [] prev_char out = None"
| "tee_loop roundoff start ((tv, r) # rs) prev_char out =
     (case r of
        Inr e \<Rightarrow> if e = EINTR then tee_loop roundoff start rs prev_char out else Some (Inl (Exit 2))
      | Inl buf \<Rightarrow>
          if buf = [] then Some (Inr out)
          else tee_loop roundoff start rs (last buf) (out @ tee_chars (tee_stamp roundoff start tv) prev_char buf))"

definition tee_into ::
  "u64 \<Rightarrow> u64 \<times> u64 \<Rightarrow> bool \<Rightarrow> ((u64 \<times> u64) \<times> (string + nat)) list \<Rightarrow> prop_state \<Rightarrow> string result option" where
  \<comment> \<open>the second argument is the time of the start, the third whether the log can be opened\<close>
  "tee_into roundoff now opened reads st =
     (case prop_is_true st P_LOG_TIME_STAMP of
        Inl e \<Rightarrow> Some (Inl e)
      | Inr stamp \<Rightarrow>
          if \<not> opened then Some (Inl (Exit 2))
          else tee_loop roundoff (if stamp then Some (moment_get_systime now) else None) reads newline [])"

section \<open>The flags arrive\<close>

lemma strsep_all_lines:
  "list_all (\<lambda>l. newline \<notin> set l) (l # ls) \<Longrightarrow>
   strsep_all [newline] (Some (l @ concat (map (\<lambda>l. newline # l) ls))) = l # ls"
proof (induction ls arbitrary: l)
  case (Cons k ls)
  then show ?case using Cons.IH [of k] by simp
qed simp

definition flag_ok :: "string \<Rightarrow> bool" where
  "flag_ok f = (newline \<notin> set f \<and> 2 \<le> length f)"

lemma wflag_words_filter:
  "list_all flag_ok fs \<Longrightarrow> wflag_words key fs cmd =
     Inr (cmd @ concat (map (\<lambda>f. '' '' @ comma_to_blank (drop 2 f)) (filter (\<lambda>f. first_char f = key) fs)))"
  by (induction fs arbitrary: cmd) (auto simp: flag_ok_def)

lemma prop_ord_WFLAG: "prop_ord P_WFLAG = 71"
  by (simp add: prop_ord_def prop_enum_def)

lemma prop_entry_WFLAG: "pr_dflt (prop_entry_of P_WFLAG) = None" "pr_pad (prop_entry_of P_WFLAG) = 0"
  by (simp_all add: prop_entry_of_def prop_ord_WFLAG proptab_defs)

fun add_all_wflags :: "string list \<Rightarrow> prop_state \<Rightarrow> prop_state result" where
  "add_all_wflags [] st = Inr st"
| "add_all_wflags (f # fs) st = bindR (add_wflag f st) (add_all_wflags fs)"

lemma add_more_wflags:
  "prop_get_str st P_WFLAG = Inr (Some v) \<Longrightarrow> list_all flag_ok fs \<Longrightarrow>
   \<exists>st'. add_all_wflags fs st = Inr st' \<and>
     prop_get_str st' P_WFLAG = Inr (Some (v @ concat (map (\<lambda>f. newline # f) fs)))"
proof (induction fs arbitrary: st v)
  case (Cons f fs)
  have "newline \<in> set (v @ [newline] @ f)" by simp
  moreover have "newline \<notin> set PROP_NULL" by (simp add: PROP_NULL_def newline_def)
  ultimately have "v @ [newline] @ f \<noteq> PROP_NULL" by metis
  then obtain st1 where "add_wflag f st = Inr st1" "prop_get_str st1 P_WFLAG = Inr (Some (v @ [newline] @ f))"
    using prop_override_get [of P_WFLAG "v @ [newline] @ f" st] Cons.prems(1)
    by (auto simp: add_wflag_def prop_entry_WFLAG)
  then show ?case using Cons.IH [of st1 "v @ [newline] @ f"] Cons.prems(2) by auto
qed simp

text \<open>
  Each option \<open>-W\<close> of the command line reaches the program it names, in the order given, and no
  other: its text behind the letter and the comma, with the next comma as a blank.
\<close>

theorem wflags_reach_program:
  assumes "pvals st P_WFLAG = None" and "list_all flag_ok (f # fs)" and "f \<noteq> PROP_NULL"
  shows "\<exists>st'. add_all_wflags (f # fs) st = Inr st' \<and> add_wflags key st' cmd =
    Inr (cmd @ concat (map (\<lambda>f. '' '' @ comma_to_blank (drop 2 f)) (filter (\<lambda>f. first_char f = key) (f # fs))))"
proof -
  have none: "prop_get_str st P_WFLAG = Inr None"
    using assms(1) by (simp add: prop_get_str_def prop_get_str_i_def prop_get_value_simp prop_entry_WFLAG)
  obtain st1 where "prop_put_str st P_WFLAG f = Inr st1" "pvals st1 P_WFLAG = Some f"
    using prop_put_str_unset [of st P_WFLAG f] assms(1,3) by (auto simp: prop_entry_WFLAG)
  then have one: "add_wflag f st = Inr st1" "prop_get_str st1 P_WFLAG = Inr (Some f)"
    using none assms(3) by (simp_all add: add_wflag_def prop_get_str_def prop_get_str_i_def prop_get_value_simp)
  obtain st' where "add_all_wflags fs st1 = Inr st'"
      "prop_get_str st' P_WFLAG = Inr (Some (f @ concat (map (\<lambda>f. newline # f) fs)))"
    using add_more_wflags [OF one(2), of fs] assms(2) by auto
  moreover have "strsep_all [newline] (Some (f @ concat (map (\<lambda>f. newline # f) fs))) = f # fs"
    using assms(2) by (intro strsep_all_lines) (simp add: list_all_iff flag_ok_def)
  ultimately show ?thesis
    using one(1) wflag_words_filter [OF assms(2)] by (simp add: add_wflags_def del: strsep_all.simps wflag_words.simps)
qed

theorem wflags_reach_program_witness:
  "\<exists>st st'. add_all_wflags [''m,-v,vars'', ''g,-n'', ''m,-k''] st = Inr st' \<and>
     add_wflags (CHR ''m'') st' ''ao2make'' = Inr ''ao2make -v vars -k''"
proof -
  have "list_all flag_ok [''m,-v,vars'', ''g,-n'', ''m,-k'']" "''m,-v,vars'' \<noteq> PROP_NULL"
    by (simp_all add: flag_ok_def newline_def PROP_NULL_def)
  moreover have "pvals (prop_start []) P_WFLAG = None" by (simp add: prop_start_def)
  ultimately show ?thesis
    using wflags_reach_program [of "prop_start []" "''m,-v,vars''" "[''g,-n'', ''m,-k'']" "CHR ''m''" "''ao2make''"]
    by (auto simp: first_char_def comma_to_blank_def split_at_def eval_nat_numeral)
qed

section \<open>The log keeps its lines\<close>

definition stamped :: "u64 \<Rightarrow> moment_s \<Rightarrow> (u64 \<times> u64) \<times> (string + nat) \<Rightarrow> (string \<times> char) list" where
  \<comment> \<open>the characters of a read, each with the time at which it was read\<close>
  "stamped roundoff start r = (case snd r of
     Inl buf \<Rightarrow> map (Pair (moment_format_milli (snd (moment_since roundoff (fst r) start)) MOMENT_BUFMAX)) buf
   | Inr e \<Rightarrow> [])"

fun tee_spec :: "char \<Rightarrow> (string \<times> char) list \<Rightarrow> string" where
  "tee_spec prev [] = []"
| "tee_spec prev ((t, c) # cs) = (if prev = newline then t @ '': '' else []) @ c # tee_spec c cs"

lemma tee_spec_append:
  "tee_spec prev (xs @ ys) = tee_spec prev xs @ tee_spec (if xs = [] then prev else snd (last xs)) ys"
  by (induction xs arbitrary: prev) auto

lemma tee_chars_spec: "tee_chars (Some t) prev cs = tee_spec prev (map (Pair t) cs)"
  by (induction cs arbitrary: prev) auto

definition read_ok :: "(u64 \<times> u64) \<times> (string + nat) \<Rightarrow> bool" where
  \<comment> \<open>some characters, or an interruption\<close>
  "read_ok r = (case snd r of Inl buf \<Rightarrow> buf \<noteq> [] | Inr e \<Rightarrow> e = EINTR)"

lemma tee_loop_spec:
  "list_all read_ok rs \<Longrightarrow> tee_loop roundoff (Some start) (rs @ [(tv, Inl [])]) prev out =
     Some (Inr (out @ tee_spec prev (concat (map (stamped roundoff start) rs))))"
proof (induction rs arbitrary: prev out)
  case (Cons r rs)
  obtain tv' x where r: "r = (tv', x)" by (cases r)
  show ?case
  proof (cases x)
    case (Inl buf)
    then show ?thesis
      using Cons r by (auto simp: read_ok_def stamped_def tee_stamp_def tee_chars_spec tee_spec_append last_map)
  qed (use Cons r in \<open>simp add: read_ok_def stamped_def\<close>)
qed simp

definition stamped_line :: "(string \<times> char) list \<Rightarrow> bool" where
  "stamped_line l = (l \<noteq> [] \<and> snd (last l) = newline \<and> newline \<notin> snd ` set (butlast l))"

lemma tee_spec_plain: "prev \<noteq> newline \<Longrightarrow> newline \<notin> snd ` set (butlast l) \<Longrightarrow> tee_spec prev l = map snd l"
  by (induction l arbitrary: prev) (auto split: if_splits)

lemma tee_spec_line: "stamped_line l \<Longrightarrow> tee_spec newline l = fst (hd l) @ '': '' @ map snd l"
proof (cases l)
  case (Cons x xs)
  moreover assume "stamped_line l"
  ultimately show ?thesis
    by (cases x; cases "xs = []") (auto simp: stamped_line_def tee_spec_plain split: if_splits)
qed (simp add: stamped_line_def)

lemma tee_spec_lines:
  "list_all stamped_line ls \<Longrightarrow> tee_spec newline (concat ls) = concat (map (\<lambda>l. fst (hd l) @ '': '' @ map snd l) ls)"
proof (induction ls)
  case (Cons l ls)
  then have "snd (last l) = newline" "l \<noteq> []" by (auto simp: stamped_line_def)
  then show ?case using Cons tee_spec_line [of l] by (simp add: tee_spec_append)
qed simp

text \<open>
  In the log every line begins with the time at which its first character was read, and is
  otherwise as it was, however the reads cut the lines.
\<close>

theorem log_lines_stamped_once:
  assumes "prop_is_true st P_LOG_TIME_STAMP = Inr True" and "list_all read_ok rs"
    and "concat (map (stamped roundoff (moment_get_systime now)) rs) = concat ls" and "list_all stamped_line ls"
  shows "tee_into roundoff now True (rs @ [(tv, Inl [])]) st =
    Some (Inr (concat (map (\<lambda>l. fst (hd l) @ '': '' @ map snd l) ls)))"
  using assms tee_spec_lines [OF assms(4)] by (simp add: tee_into_def tee_loop_spec)


definition stamp_at :: "u64 \<Rightarrow> string" where
  "stamp_at s = moment_format_milli (snd (moment_since 1 (s, 0) (moment_get_systime (0, 0)))) MOMENT_BUFMAX"

theorem log_lines_stamped_once_witness:
  "tee_into 1 (0, 0) True [((0, 0), Inl ''ab''), ((0, 0), Inr EINTR), ((1, 0), Inl [CHR ''c'', newline, CHR ''d'', newline]),
      ((1, 0), Inl [])] ((prop_start [])\<lparr>pvals := [P_LOG_TIME_STAMP \<mapsto> ''yes'']\<rparr>) =
   Some (Inr (stamp_at 0 @ '': abc'' @ [newline] @ stamp_at 1 @ '': d'' @ [newline]))"
proof -
  let ?rs = "[((0, 0), Inl ''ab''), ((0, 0), Inr EINTR), ((1, 0), Inl [CHR ''c'', newline, CHR ''d'', newline])]
    :: ((u64 \<times> u64) \<times> (string + nat)) list"
  let ?ls = "[[(stamp_at 0, CHR ''a''), (stamp_at 0, CHR ''b''), (stamp_at 1, CHR ''c''), (stamp_at 1, newline)],
    [(stamp_at 1, CHR ''d''), (stamp_at 1, newline)]]"
  have "prop_is_true ((prop_start [])\<lparr>pvals := [P_LOG_TIME_STAMP \<mapsto> ''yes'']\<rparr>) P_LOG_TIME_STAMP = Inr True"
    by (simp add: prop_is_true_def prop_get_ulong_def prop_get_str_def prop_get_str_i_def prop_get_value_simp PROP_NULL_def
        true_word_def c_stricmp_eq_0)
  moreover have "list_all read_ok ?rs" by (simp add: read_ok_def)
  moreover have "concat (map (stamped 1 (moment_get_systime (0, 0))) ?rs) = concat ?ls"
    by (simp add: stamped_def stamp_at_def)
  moreover have "list_all stamped_line ?ls" by (simp add: stamped_line_def newline_def)
  ultimately have "tee_into 1 (0, 0) True (?rs @ [((1, 0), Inl [])]) ((prop_start [])\<lparr>pvals := [P_LOG_TIME_STAMP \<mapsto> ''yes'']\<rparr>) =
      Some (Inr (concat (map (\<lambda>l. fst (hd l) @ '': '' @ map snd l) ?ls)))"
    by (rule log_lines_stamped_once)
  then show ?thesis by simp
qed

section \<open>An object is read back\<close>

text \<open>
  What the code relies on of \<open>zlib\<close>: the calls that finish a stream go on until the last returns
  something else, those that read one go on until the last returns \<open>Z_STREAM_END\<close>, they hand out
  what was put in, a stream is not empty, and the header comes out with the first.
\<close>

definition all_but_last :: "(int \<Rightarrow> bool) \<Rightarrow> (int \<times> string) list \<Rightarrow> bool" where
  "all_but_last p rs = (rs \<noteq> [] \<and> \<not> p (fst (last rs)) \<and> list_all (\<lambda>r. p (fst r)) (butlast rs))"

definition outs :: "(int \<times> string) list \<Rightarrow> string" where
  "outs rs = concat (map snd rs)"

definition zlib_laws :: "git_env \<Rightarrow> bool" where
  "zlib_laws env = (\<forall>hdr fdata. let d = ge_deflate env hdr fdata; i = ge_inflate env (outs d)
     in all_but_last (\<lambda>r. r = Z_OK) d \<and> all_but_last (\<lambda>r. r \<noteq> Z_STREAM_END) i \<and> outs i = hdr @ fdata \<and>
        outs d \<noteq> [] \<and> length hdr \<le> length (snd (hd i)))"

definition writes_all :: "git_env \<Rightarrow> bool" where
  "writes_all env = (\<forall>t. list_all transient (ge_write env t) \<and> length t \<le> accepted (ge_write env t))"

lemma write_all: "writes_all env \<Longrightarrow> util_write_all (ge_write env t) t = Some (0, t)"
  by (simp add: writes_all_def util_write_all_def write_loop_returns)

lemma deflate_loop_all:
  "writes_all env \<Longrightarrow> all_but_last (\<lambda>r. r = Z_OK) rs \<Longrightarrow> deflate_loop env rs written = Some (Inr (written @ outs rs))"
proof (induction rs arbitrary: written)
  case (Cons r rs)
  obtain ret out where r: "r = (ret, out)" by (cases r)
  show ?case
    using Cons.IH [of "written @ out"] Cons.prems r write_all [of env out]
    by (cases "rs = []") (simp_all add: all_but_last_def outs_def)
qed (simp add: all_but_last_def)

lemma inflate_loop_all:
  "writes_all env \<Longrightarrow> all_but_last (\<lambda>r. r \<noteq> Z_STREAM_END) rs \<Longrightarrow> inflate_loop env rs (Suc i) written = Some (Inr (written @ outs rs))"
proof (induction rs arbitrary: written i)
  case (Cons r rs)
  obtain ret out where r: "r = (ret, out)" by (cases r)
  show ?case
    using Cons.IH [of "Suc i" "written @ out"] Cons.prems r write_all [of env out]
    by (cases "rs = []") (simp_all add: all_but_last_def outs_def)
qed (simp add: all_but_last_def)

lemma inflate_blob:
  assumes "writes_all env" and "all_but_last (\<lambda>r. r \<noteq> Z_STREAM_END) rs" and "outs rs = hdr @ nul # fdata"
    and "nul \<notin> set hdr" and "length hdr < length (snd (hd rs))"
  shows "inflate_loop env rs 0 [] = Some (Inr fdata)"
proof -
  obtain ret out rs' where rs: "rs = (ret, out) # rs'" using assms(2) by (cases rs) (auto simp: all_but_last_def)
  have eq: "out @ outs rs' = hdr @ nul # fdata" using assms(3) rs by (simp add: outs_def)
  then have "take (length (hdr @ [nul])) out = hdr @ [nul]"
    using assms(5) rs by (metis append_Cons append_Nil append_eq_append_conv_if append.assoc Suc_leI length_append_singleton
        list.sel(1) snd_conv)
  then obtain p where p: "out = hdr @ nul # p" by (metis append.assoc append_Cons append_Nil append_take_drop_id)
  then have tail: "fdata = p @ outs rs'" using eq by simp
  have strip: "tl (dropWhile (\<lambda>c. c \<noteq> nul) out) = p" using p assms(4) by (simp add: dropWhile_append1 dropWhile_append)
  show ?thesis
  proof (cases "rs' = []")
    case True
    then show ?thesis using rs p strip tail write_all [OF assms(1), of p] assms(2) by (simp add: all_but_last_def outs_def)
  next
    case False
    then have "all_but_last (\<lambda>r. r \<noteq> Z_STREAM_END) rs'" "ret \<noteq> Z_STREAM_END"
      using assms(2) rs by (simp_all add: all_but_last_def)
    then show ?thesis
      using rs p strip tail write_all [OF assms(1), of p] inflate_loop_all [OF assms(1), of rs' 0 p] by simp
  qed
qed


lemma blob_header_nul: "nul \<notin> set (snprintf 64 (''blob '' @ fmt_lu n))"
proof -
  have "nul \<notin> set (fmt_lu n)"
    using nat_to_radix_alnum [of 10 nul "unat n"] by (auto simp: fmt_lu_def ctype_defs nul_def)
  then show ?thesis by (auto simp: snprintf_def nul_def dest!: in_set_takeD)
qed

text \<open>
  C23. The contents of a file stored as an object of the repository are what fetching the object
  writes, for files and objects of less than 4 GiB, whatever the sizes of the pieces in which
  \<open>zlib\<close> and the system transfer them.
\<close>

theorem git_blob_roundtrip:
  assumes "git_store_blob env ge st ps w = Some (Inr (Some (blob, t), w'))"
    and "ps_get_abs ps = Inr path" and "ge_contents ge path = Some fdata" and "length fdata < 2 ^ 32"
    and "zlib_laws ge" and "writes_all ge" and "length t < 2 ^ 32" and "ge_create ge target"
  shows "git_get_blob (ge\<lparr>ge_contents := (ge_contents ge)(blob \<mapsto> t)\<rparr>) st (ps_get_dcode ps) target = Some (Inr fdata)"
proof -
  let ?hdr = "snprintf 64 (''blob '' @ fmt_lu (ps_size ps))"
  let ?d = "ge_deflate ge (?hdr @ [nul]) fdata" and ?ge = "ge\<lparr>ge_contents := (ge_contents ge)(blob \<mapsto> t)\<rparr>"
  have d: "all_but_last (\<lambda>r. r = Z_OK) ?d" and i: "all_but_last (\<lambda>r. r \<noteq> Z_STREAM_END) (ge_inflate ge (outs ?d))"
      "outs (ge_inflate ge (outs ?d)) = ?hdr @ nul # fdata" "length ?hdr < length (snd (hd (ge_inflate ge (outs ?d))))"
    using assms(5) [unfolded zlib_laws_def, rule_format, of "?hdr @ [nul]" fdata] by (auto simp: Let_def)
  have "outs ?d \<noteq> []" using assms(5) [unfolded zlib_laws_def, rule_format, of "?hdr @ [nul]" fdata] by (simp add: Let_def)
  have store: "git_path_to_blob st (ps_get_dcode ps) = Inr blob" "t = outs ?d"
    using assms(1-4) deflate_loop_all [OF assms(6) d, of "[]"]
    by (auto simp: bindR_eq_Inr split: sum.splits prod.splits if_splits simp: git_store_blob_def util_map_file_def)
  have w: "writes_all ?ge" using assms(6) by (simp add: writes_all_def)
  have "inflate_loop ?ge (ge_inflate ge t) 0 [] = Some (Inr fdata)"
    using inflate_blob [OF w i(1,2) blob_header_nul i(3)] store(2) by simp
  then show ?thesis
    using store \<open>outs ?d \<noteq> []\<close> assms(7,8) by (simp add: git_get_blob_def util_map_file_def)
qed

text \<open>
  An object which \<open>zlib\<close> cannot read, being damaged or cut short, makes the program go round in
  its loop for ever: only the end of the stream leaves it, and errors are not looked at.
\<close>

theorem git_damaged_object_hangs:
  assumes "writes_all env" and "list_all (\<lambda>r. fst r \<noteq> Z_STREAM_END) rs" and "rs = [] \<or> nul \<in> set (snd (hd rs))"
  shows "inflate_loop env rs 0 [] = None"
proof -
  have tail: "list_all (\<lambda>r. fst r \<noteq> Z_STREAM_END) rs' \<Longrightarrow> inflate_loop env rs' (Suc i) written = None" for rs' i written
  proof (induction rs' arbitrary: i written)
    case (Cons r rs')
    then show ?case using write_all [OF assms(1), of "snd r"] by (cases r) simp
  qed simp
  show ?thesis
  proof (cases rs)
    case (Cons r rs')
    obtain ret out where r: "r = (ret, out)" by (cases r)
    then show ?thesis
      using assms(2,3) Cons tail [of rs' 0] write_all [OF assms(1), of "tl (dropWhile (\<lambda>c. c \<noteq> nul) out)"] by simp
  qed simp
qed

definition git_sample :: git_env where
  \<comment> \<open>a compression which puts one character in front, and calls which write all at once\<close>
  "git_sample = \<lparr>ge_contents = [''/p/a,b.c'' \<mapsto> ''int x;''], ge_create = (\<lambda>_. True),
     ge_deflate = (\<lambda>hdr fdata. [(Z_OK, ''z''), (Z_STREAM_END, hdr @ fdata)]), ge_inflate = (\<lambda>t. [(Z_STREAM_END, tl t)]),
     ge_write = (\<lambda>t. [Done (length t)])\<rparr>"

lemma git_sample_laws: "zlib_laws git_sample" "writes_all git_sample"
  by (simp_all add: git_sample_def zlib_laws_def writes_all_def all_but_last_def outs_def Z_OK_def Z_STREAM_END_def transient_def)

theorem git_damaged_object_hangs_witness:
  "inflate_loop git_sample (replicate 3 (- 5, [nul])) 0 [] = None"
  using git_damaged_object_hangs [OF git_sample_laws(2), of "replicate 3 (- 5, [nul])"]
  by (simp add: Z_STREAM_END_def eval_nat_numeral)


definition git_sample_env :: "unit shop_env" where
  "git_sample_env = \<lparr>se_ca = sample_env, se_ptx = list_dict, se_pcre = (\<lambda>_. None), se_cdb = (\<lambda>_. None), se_cdb_seq = [],
     se_fs = \<lparr>fs_sys = (\<lambda>_. \<lparr>sys_lstat = (\<lambda>p. None), sys_readlink = (\<lambda>_. None), sys_code_from_path = (\<lambda>_. None),
          sys_code_from_buffer = (\<lambda>_ _. None), hash_lookup = (\<lambda>_ _. None), hash_alloc_insert = (\<lambda>h _ _. Inr h)\<rparr>),
        fs_access = (\<lambda>_ p. p \<noteq> ''/g/objects/ab/c''), fs_ok = (\<lambda>_ _. True), fs_enoent = (\<lambda>_ _. True),
        fs_down_load = (\<lambda>_ _. 0), fs_size = (\<lambda>_ _. None)\<rparr>, se_alloc = (\<lambda>n. n)\<rparr>"

definition git_sample_world :: "unit shop_world" where
  "git_sample_world = \<lparr>sw_dcode = \<lparr>Ref_Time = zero_moment, Dcode_Offset = 0, Dcode_Hash_Table = None\<rparr>,
     sw_props = prop_start [], sw_calls = [], sw_allocs = 0, RecycledCount = 0, ShopCDB = True\<rparr>"

theorem git_blob_roundtrip_witness:
  "\<exists>t. git_get_blob (git_sample\<lparr>ge_contents := (ge_contents git_sample)(''/g/objects/ab/c'' \<mapsto> t)\<rparr>)
     ((prop_start [])\<lparr>pvals := [P_GIT_DIR \<mapsto> ''/g'']\<rparr>) (ps_get_dcode sample_ps) ''/p/new'' = Some (Inr ''int x;'')"
proof -
  let ?st = "(prop_start [])\<lparr>pvals := [P_GIT_DIR \<mapsto> ''/g'']\<rparr>" and ?t = "''z'' @ snprintf 64 (''blob '' @ fmt_lu (ps_size sample_ps)) @ [nul] @ ''int x;''"
  have abs: "ps_get_abs sample_ps = Inr ''/p/a,b.c''" "ps_get_dcode sample_ps = ''abc''"
    by (simp_all add: ps_get_abs_def sample_ps_def sample_pn_def pn_get_abs_def ps_get_dcode_def)
  have path: "git_path_to_blob ?st ''abc'' = Inr ''/g/objects/ab/c''"
    by (simp add: git_path_to_blob_def prop_get_str_def prop_get_str_i_def prop_get_value_simp PROP_NULL_def
        putil_is_absolute_def Let_def eval_nat_numeral)
  have "deflate_loop git_sample (ge_deflate git_sample h f) [] = Some (Inr (''z'' @ h @ f))" for h f
    using deflate_loop_all [OF git_sample_laws(2), of "ge_deflate git_sample h f" "[]"]
    by (simp add: git_sample_def all_but_last_def outs_def Z_OK_def Z_STREAM_END_def)
  note deflate = this
  have sys: "sw_access git_sample_env git_sample_world ''/g/objects/ab/c'' = False"
      "sw_access git_sample_env git_sample_world (c_dirname ''/g/objects/ab/c'') = True"
      "ge_contents git_sample ''/p/a,b.c'' = Some ''int x;''" "ge_create git_sample f" for f
    by (simp_all add: sw_access_def git_sample_env_def git_sample_def c_dirname_def)
  have "git_store_blob git_sample_env git_sample ?st sample_ps git_sample_world =
      Some (Inr (Some (''/g/objects/ab/c'', ?t), git_sample_world))"
    by (simp add: git_store_blob_def abs path sys deflate util_map_file_def)
  moreover have "length ?t < 2 ^ 32" by (simp add: snprintf_def)
  ultimately show ?thesis
    using git_blob_roundtrip [of git_sample_env git_sample ?st sample_ps git_sample_world "''/g/objects/ab/c''" ?t git_sample_world
        "''/p/a,b.c''" "''int x;''" "''/p/new''"] abs git_sample_laws
    by (auto simp: git_sample_def)
qed

end
