(* ===== verification/Transfers.thy ===== *)
theory Transfers
  imports Http Monitor Outputs
begin

text \<open>
  What the client and the server tell each other: the session and the builds (the part of
  \<open>src/mon.c\<close> that talks to the server), uploads (\<open>src/up.c\<close>) and downloads (\<open>src/down.c\<close>). Each
  request is recorded in the state; the answers are a parameter.
\<close>

section \<open>Data\<close>

text \<open>
  \<open>te_deflate\<close>, given the data and the size of the buffer, are whether \<open>malloc\<close> and \<open>deflateInit2\<close>
  succeed, what the calls of \<open>deflate\<close> return, whether they leave room and what they put out, and
  whether \<open>deflateEnd\<close> succeeds. \<open>te_file\<close> has the contents of readable files, \<open>te_create\<close> says
  whether \<open>fopen\<close> for writing succeeds, after so many failures, \<open>te_chmod\<close> and \<open>te_utimes\<close> whether these
  calls succeed for a file.
\<close>

record tr_env =
  te_http :: http_env
  te_logname :: "string option"
  te_groupname :: "string option"
  te_cwd :: "string option"
  te_now :: moment_s
  te_deflate :: "string \<Rightarrow> nat \<Rightarrow> bool \<times> (int \<times> bool \<times> string) list \<times> bool"
  te_file :: "string \<Rightarrow> string option"
  te_create :: "nat \<Rightarrow> string \<Rightarrow> bool"
  te_chmod :: "string \<Rightarrow> u32 \<Rightarrow> bool"
  te_utimes :: "string \<Rightarrow> u64 \<times> u64 \<Rightarrow> bool"

abbreviation te_esc :: "tr_env \<Rightarrow> string \<Rightarrow> string" where
  "te_esc env \<equiv> he_escape (te_http env)"

fun run_headers :: "('s \<Rightarrow> string \<Rightarrow> 's result) \<Rightarrow> string list \<Rightarrow> 's \<Rightarrow> 's result" where
  \<comment> \<open>the callback, for one header after the other\<close>
  "run_headers f [] s = Inr s"
| "run_headers f (h # hs) s = bindR (f s h) (run_headers f hs)"

fun add_param_props :: "(string \<Rightarrow> string) \<Rightarrow> prop_state \<Rightarrow> (string \<times> prop_e) list \<Rightarrow> string \<Rightarrow> string result" where
  "add_param_props esc st [] url = Inr url"
| "add_param_props esc st ((k, p) # ps) url =
     bindR (prop_get_str st p) (\<lambda>v. add_param_props esc st ps (http_add_param esc k v url))"

definition print_body :: "http_reply \<Rightarrow> http_state \<Rightarrow> http_state" where
  \<comment> \<open>what a handle does with the body if nothing else is said\<close>
  "print_body r ht =
     ht\<lparr>ht_body := foldl (\<lambda>bs x. http_stream_body x bs) ((ht_body ht)\<lparr>bs_rc := None\<rparr>) (hr_body r)\<rparr>"

section \<open>Sessions and builds\<close>

definition startup_connect :: "tr_env \<Rightarrow> http_request \<Rightarrow> http_state \<Rightarrow> (int \<times> http_state) result" where
  \<comment> \<open>a connection which may set properties; the body may report an error\<close>
  "startup_connect env rq ht =
     (let (failed, r, ht) = http_connect (te_http env) rq ht in
      bindR (run_headers (\<lambda>st h. http_parse_startup_headers h st) (hr_headers r) (ht_props ht)) (\<lambda>props.
        let bs = foldl (\<lambda>bs x. http_stream_body x bs) ((ht_body ht)\<lparr>bs_rc := Some 0\<rparr>) (hr_body r);
            rc = (if failed then 1 else case bs_rc bs of Some n \<Rightarrow> n | None \<Rightarrow> 0)
        in Inr (rc, ht\<lparr>ht_props := props, ht_body := bs\<rparr>)))"

definition mon_begin_session :: "tr_env \<Rightarrow> http_state \<Rightarrow> (int \<times> http_state) result" where
  "mon_begin_session env ht =
     bindR (mon_no_ptx (ht_props ht)) (\<lambda>no. if no then Inr (0, ht) else
     bindR (http_make_url (ht_props ht) ''SESSION'') (\<lambda>url.
     bindR (add_param_props (te_esc env) (ht_props ht)
              [(''project_name'', P_PROJECT_NAME), (''session_timeout_secs'', P_SESSION_TIMEOUT_SECS),
               (''loglevel'', P_SERVER_LOG_LEVEL)] url) (\<lambda>url.
     bindR (http_get_curl_handle (te_http env) ht) (\<lambda>(rq, ht).
       startup_connect env (rq\<lparr>rq_url := url\<rparr>) ht))))"

definition start_url :: "tr_env \<Rightarrow> prop_state \<Rightarrow> string result" where
  \<comment> \<open>the address which starts a build\<close>
  "start_url env st =
     bindR (http_make_url st ''START'') (\<lambda>url.
     bindR (add_param_props (te_esc env) st [(''project_name'', P_PROJECT_NAME), (''base_dir'', P_BASE_DIR)] url) (\<lambda>url.
     bindR (prop_get_str st P_BASE_DIR) (\<lambda>base.
     let add = http_add_param (te_esc env);
         url = add ''rwd'' (util_get_rwd (te_cwd env) base)
                 (add ''group'' (te_groupname env) (add ''logname'' (te_logname env) url))
     in case he_uname (te_http env) of
          None \<Rightarrow> Inl (Exit 2)
        | Some (sysname, release, machine, nodename) \<Rightarrow>
            let url = add ''machine'' (Some machine) (add ''osrelease'' (Some release)
                        (add ''hostname'' (Some nodename) (add ''sysname'' (Some sysname) url)))
            in bindR (moment_format (te_now env) MOMENT_BUFMAX) (\<lambda>startbuf.
               bindR (prop_is_true st P_DOWNLOAD_ONLY) (\<lambda>readonly.
                 let url = add ''start_time'' (Some startbuf) url
                 in Inr (if readonly then add ''readonly'' (Some ''1'') url else url))))))"

definition mon_ptx_start :: "tr_env \<Rightarrow> http_state \<Rightarrow> http_state result" where
  "mon_ptx_start env ht =
     (if \<not> prop_has_value (ht_props ht) P_SERVER then Inr ht
      else
        bindR (mon_no_ptx (ht_props ht)) (\<lambda>no. if no then Inr ht else
        bindR (start_url env (ht_props ht)) (\<lambda>url.
        bindR (http_get_curl_handle (te_http env) ht) (\<lambda>(rq, ht).
        bindR (startup_connect env (rq\<lparr>rq_url := url\<rparr>) ht) (\<lambda>(rc, ht).
          if rc \<noteq> 0 then Inl (Exit 2) else Inr ht)))))"

definition mon_get_roadmap :: "tr_env \<Rightarrow> http_state \<Rightarrow> ((string \<times> string) \<times> http_state) result" where
  \<comment> \<open>the file and what was written into it\<close>
  "mon_get_roadmap env ht =
     (let st = ht_props ht; add = http_add_param (te_esc env) in
      bindR (http_make_url st ''ROADMAP'') (\<lambda>url.
      bindR (add_param_props (te_esc env) st [(''project_name'', P_PROJECT_NAME), (''ptx_strategy'', P_PTX_STRATEGY)] url) (\<lambda>url.
      bindR (prop_is_true st P_MEMBERS_ONLY) (\<lambda>members.
      let url = add ''group'' (te_groupname env) (add ''logname'' (te_logname env) url);
          url = (case he_uname (te_http env) of
                   Some (_, _, _, nodename) \<Rightarrow> add ''hostname'' (Some nodename) url | None \<Rightarrow> url);
          url = (if members then add ''shop_members_only'' (Some ''1'') url else url)
      in bindR (http_get_curl_handle (te_http env) ht) (\<lambda>(rq, ht).
         bindR (prop_assert st P_ROADMAPFILE) (\<lambda>_.
         bindR (prop_get_str st P_ROADMAPFILE) (\<lambda>rmap. case rmap of
           None \<Rightarrow> Inl (Fault ''fopen of NULL'')
         | Some f \<Rightarrow>
             if \<not> te_create env 0 f then Inl (Exit 2)
             else let (failed, r, ht) = http_connect (te_http env) (rq\<lparr>rq_url := url\<rparr>) ht
                  in if failed then Inl (Exit 2) else Inr ((f, concat (hr_body r)), ht))))))))"

section \<open>Compression\<close>

text \<open>
  \<open>util_gzip_buffer\<close>: each call of \<open>deflate\<close> writes at the place where the last one stopped; the
  buffer is enlarged, and written from its start again, if a call returns with room left; an
  error is reported and the call repeated; a call which fills the buffer ends the loop, whether the
  stream is finished or not. The sizes are cut to an \<open>unsigned int\<close>. The result is the buffer with
  the number of bytes compressed, or NULL; \<open>None\<close> while it goes on.
\<close>

definition buf_write :: "string \<Rightarrow> nat \<Rightarrow> string \<Rightarrow> string" where
  "buf_write dest pos out = take pos dest @ out @ drop (pos + length out) dest"

fun gzip_loop :: "(int \<times> bool \<times> string) list \<Rightarrow> string \<Rightarrow> nat \<Rightarrow> nat \<Rightarrow> (string \<times> nat) option" where
  "gzip_loop [] dest pos tot = None"
| "gzip_loop ((rc, room, out) # rs) dest pos tot =
     (let dest = buf_write dest pos out; tot = tot + length out in
      if rc = 1 \<or> (rc = 0 \<and> \<not> room) then Some (dest, tot)
      else if rc = 0 then gzip_loop rs dest 0 tot
      else gzip_loop rs dest (pos + length out) tot)"

definition gzip_room :: "nat \<Rightarrow> nat" where
  \<comment> \<open>the size of the buffer: \<open>(uInt) (slen + (slen/1000 + 1) + 12)\<close>\<close>
  "gzip_room slen = (slen + (slen div 1000 + 1) + 12) mod 2 ^ 32"

definition util_gzip_buffer :: "tr_env \<Rightarrow> string \<Rightarrow> (string \<times> nat) option option" where
  "util_gzip_buffer env source =
     (let slen = length source;
          (init, rs, ended) = te_deflate env (take (slen mod 2 ^ 32) source) (gzip_room slen)
      in if \<not> init then Some None
         else map_option (\<lambda>r. if ended then Some r else None) (gzip_loop rs [] 0 0))"

section \<open>Uploads\<close>

definition send_request :: "tr_env \<Rightarrow> bool \<Rightarrow> bool \<Rightarrow> http_request \<Rightarrow> http_state \<Rightarrow> http_state result" where
  \<comment> \<open>at once, where the headers may be looked through for errors, or handed to \<open>libcurl\<close> to be
    sent in time, which leaves out the version\<close>
  "send_request env find_errors synchronous rq ht =
     (if synchronous
      then let (_, r, ht) = http_connect (te_http env) rq ht
           in bindR (if find_errors then run_headers (\<lambda>_. http_find_errors) (hr_headers r) () else Inr ()) (\<lambda>_.
                Inr (print_body r ht))
      else Inr (ht\<lparr>ht_requests := ht_requests ht @ [rq]\<rparr>))"

definition gzipped :: "string \<Rightarrow> (string \<times> nat) option \<Rightarrow> http_request \<Rightarrow> http_request" where
  \<comment> \<open>the body of the request: compressed, and marked as such, or as it is\<close>
  "gzipped contents z rq = (case z of
     Some (zdata, zsize) \<Rightarrow> (http_add_header ''X-GZIPPED'' ''1'' rq)\<lparr>rq_post := Some (take zsize zdata)\<rparr>
   | None \<Rightarrow> rq\<lparr>rq_post := Some contents\<rparr>)"

definition up_load_audit :: "tr_env \<Rightarrow> string \<Rightarrow> http_state \<Rightarrow> http_state result option" where
  "up_load_audit env cabuf ht =
     (case bindR (prop_is_true (ht_props ht) P_SYNCHRONOUS_TRANSFERS) (\<lambda>synchronous.
           bindR (http_get_curl_handle (te_http env) ht) (\<lambda>(rq, ht).
           bindR (http_make_url (ht_props ht) ''AUDIT'') (\<lambda>url.
           bindR (prop_is_true (ht_props ht) P_UNCOMPRESSED_TRANSFERS) (\<lambda>uncompressed.
             Inr (synchronous, uncompressed,
                  (http_add_header ''Content-Type'' ''application/octet-stream'' rq)\<lparr>rq_url := url\<rparr>, ht))))) of
        Inl e \<Rightarrow> Some (Inl e)
      | Inr (synchronous, uncompressed, rq, ht) \<Rightarrow>
          map_option (\<lambda>z. send_request env False synchronous (gzipped cabuf z rq) ht)
            (if uncompressed then Some None else util_gzip_buffer env cabuf))"

text \<open>\<open>up_load_file\<close>: empty files are not sent, small ones are not compressed.\<close>

definition UPLOAD_COMPRESS_MIN_SIZE :: nat where "UPLOAD_COMPRESS_MIN_SIZE = 512"

definition upload_request ::
  "tr_env \<Rightarrow> path_state_s \<Rightarrow> bool \<Rightarrow> http_state \<Rightarrow> (bool \<times> string \<times> http_request \<times> http_state) result" where
  \<comment> \<open>whether it is sent at once, the file, and the request without the contents\<close>
  "upload_request env ps logfile ht =
     bindR (prop_is_true (ht_props ht) P_SYNCHRONOUS_TRANSFERS) (\<lambda>synchronous.
     bindR (http_get_curl_handle (te_http env) ht) (\<lambda>(rq, ht).
     bindR (http_make_url (ht_props ht) ''UPLOAD'') (\<lambda>url.
     bindR (ps_toCSVString ps) (\<lambda>psbuf.
     bindR (ps_get_abs ps) (\<lambda>path.
       let rq = http_add_header ''X-PathState'' psbuf (http_add_header ''Content-Type'' ''application/octet-stream'' rq);
           rq = (if logfile
                 then (http_add_header ''X-LOGFILE'' ''1'' rq)\<lparr>rq_url := http_add_param (te_esc env) ''X-LOGFILE'' (Some ''1'') url\<rparr>
                 else rq\<lparr>rq_url := url\<rparr>)
       in Inr (logfile \<or> synchronous, path, rq, ht))))))"

definition up_load_file :: "tr_env \<Rightarrow> path_state_s \<Rightarrow> bool \<Rightarrow> http_state \<Rightarrow> http_state result option" where
  "up_load_file env ps logfile ht =
     (case upload_request env ps logfile ht of
        Inl e \<Rightarrow> Some (Inl e)
      | Inr (synchronous, path, rq, ht) \<Rightarrow>
         (case te_file env path of
            None \<Rightarrow> Some (Inr ht)
          | Some fdata \<Rightarrow>
              if fdata = [] then Some (Inr ht)
              else
                map_option (\<lambda>z. send_request env True synchronous (gzipped fdata z rq) ht)
                  (if UPLOAD_COMPRESS_MIN_SIZE < length fdata then util_gzip_buffer env fdata else Some None)))"

definition mon_ptx_end :: "tr_env \<Rightarrow> int \<Rightarrow> path_state_s option \<Rightarrow> nat \<Rightarrow> http_state \<Rightarrow> http_state result option" where
  \<comment> \<open>the third argument is the log file, the fourth the number of recycled commands;
    the uploads that were under way are done\<close>
  "mon_ptx_end env rc logfile recycled ht =
     (if \<not> prop_has_value (ht_props ht) P_SESSIONID then Some (Inr ht)
      else case mon_no_ptx (ht_props ht) of
        Inl e \<Rightarrow> Some (Inl e)
      | Inr True \<Rightarrow> Some (Inr ht)
      | Inr False \<Rightarrow>
          map_option (\<lambda>r.
            bindR r (\<lambda>ht.
            bindR (http_make_url (ht_props ht) ''END'') (\<lambda>url.
            bindR (prop_is_true (ht_props ht) P_AGGRESSIVE_SERVER) (\<lambda>aggressive.
            bindR (http_get_curl_handle (te_http env) ht) (\<lambda>(rq, ht).
              let url = (if aggressive then http_add_param (te_esc env) ''aggressive'' (Some ''1'') url else url);
                  rq = http_add_header ''X-Recycled-Count'' (snprintf 32 (fmt_d (int recycled)))
                         (http_add_header ''X-Client-Status'' (snprintf 32 (fmt_d rc)) rq);
                  (_, r, ht) = http_connect (te_http env) (rq\<lparr>rq_url := url\<rparr>) ht;
                  ht = print_body r ht
              in bindR (prop_is_true (ht_props ht) P_REUSE_ROADMAP) (\<lambda>reuse.
                   if prop_has_value (ht_props ht) P_ACTIVATION_PROG_RE \<and> \<not> reuse
                   then bindR (mon_get_roadmap env ht) (\<lambda>(_, ht). Inr ht) else Inr ht))))))
            (case logfile of None \<Rightarrow> Some (Inr ht) | Some ps \<Rightarrow> up_load_file env ps True ht))"

section \<open>Downloads\<close>

record down_path_state_s =
  dps_moment :: moment_s
  dps_mode :: u32
  dps_status :: int

text \<open>The words behind the semicolon: each has a value in double quotes, or the code reads on.\<close>

fun down_words :: "string list \<Rightarrow> down_path_state_s \<Rightarrow> down_path_state_s result" where
  "down_words [] dps = Inr dps"
| "down_words (word # ws) dps =
     (if word = [] then Inr dps
      else case split_at dquote word of
        None \<Rightarrow> Inl (Fault ''no quote'')
      | Some (_, v) \<Rightarrow>
         (case split_at dquote v of
            None \<Rightarrow> Inl (Fault ''no closing quote'')
          | Some (val, _) \<Rightarrow>
              if strnieq0 word ''moment'' 6 then
                bindR (moment_parse val) (\<lambda>(_, m). down_words ws (dps\<lparr>dps_moment := m\<rparr>))
              else if strnieq0 word ''mode'' 4 then
                down_words ws (dps\<lparr>dps_mode := ucast (c_strtol CSV_RADIX val)\<rparr>)
              else down_words ws dps))"

definition down_hdrs_to_path_state :: "down_path_state_s \<Rightarrow> string \<Rightarrow> down_path_state_s result" where
  "down_hdrs_to_path_state dps hdr =
     (if header_is ''Content-Disposition:'' hdr then
        (case split_at (CHR '';'') hdr of
           None \<Rightarrow> Inl (Fault ''no semicolon'')
         | Some (_, words) \<Rightarrow> down_words (strsep_all ('' '' @ [CR, newline]) (Some (dropWhile isspace words))) dps)
      else if header_is X_SERVER_STATUS_HEADER hdr then
        bindR (http_parse_error_from_server hdr) (\<lambda>rc. Inr (dps\<lparr>dps_status := rc\<rparr>))
      else Inr dps)"

text \<open>
  What a download leaves: the contents of the file, or \<open>None\<close> if it was removed again, its mode
  and its time, in seconds and microseconds, if they were set. A failure to set them is reported
  and has no other effect.
\<close>

record downloaded =
  dl_contents :: "string option"
  dl_mode :: "u32 option"
  dl_mtime :: "(u64 \<times> u64) option"

definition no_dps :: down_path_state_s where
  "no_dps = \<lparr>dps_moment = zero_moment, dps_mode = 0, dps_status = 0\<rparr>"

definition down_request :: "tr_env \<Rightarrow> path_state_s \<Rightarrow> http_state \<Rightarrow> (http_request \<times> http_state) result" where
  "down_request env ps ht =
     bindR (http_make_url (ht_props ht) ''DOWNLOAD'') (\<lambda>url.
     bindR (add_param_props (te_esc env) (ht_props ht) [(''project_name'', P_PROJECT_NAME)] url) (\<lambda>url.
     bindR (prop_is_true (ht_props ht) P_UNCOMPRESSED_TRANSFERS) (\<lambda>uncompressed.
     bindR (ps_toCSVString ps) (\<lambda>psbuf.
     bindR (http_get_curl_handle (te_http env) ht) (\<lambda>(rq, ht).
       let url = (if uncompressed then http_add_param (te_esc env) ''uncompressed_transfers'' (Some ''1'') url else url)
       in Inr (rq\<lparr>rq_url := http_add_param (te_esc env) ''pathstate'' (Some psbuf) url\<rparr>, ht))))))"

definition down_receive :: "tr_env \<Rightarrow> string \<Rightarrow> http_request \<Rightarrow> http_state \<Rightarrow> (int \<times> downloaded \<times> http_state) result" where
  \<comment> \<open>the file is open\<close>
  "down_receive env abspath rq ht =
     (let (failed, r, ht) = http_connect (te_http env) rq ht
      in bindR (run_headers down_hdrs_to_path_state (hr_headers r) no_dps) (\<lambda>dps.
         let rc = (if failed then 2 else dps_status dps) in
         if rc \<noteq> 0 then Inr (rc, \<lparr>dl_contents = None, dl_mode = None, dl_mtime = None\<rparr>, ht)
         else
           bindR (prop_is_true (ht_props ht) P_ORIGINAL_DATESTAMP) (\<lambda>orig.
             Inr (0, \<lparr>dl_contents = Some (concat (hr_body r)),
                       dl_mode = (if dps_mode dps \<noteq> 0 \<and> te_chmod env abspath (dps_mode dps) then Some (dps_mode dps) else None),
                       dl_mtime = (if orig \<and> moment_is_set (dps_moment dps)
                         then (case moment_set_mtime (Some (dps_moment dps)) of
                                 Some tv \<Rightarrow> if te_utimes env abspath tv then Some tv else None
                               | None \<Rightarrow> None)
                         else None)\<rparr>, ht))))"

definition down_load ::
  "'h shop_env \<Rightarrow> tr_env \<Rightarrow> path_state_s \<Rightarrow> 'h shop_world \<Rightarrow> http_state \<Rightarrow>
     (int \<times> downloaded option \<times> 'h shop_world \<times> http_state) result" where
  "down_load senv env ps w ht =
     bindR (ps_get_abs ps) (\<lambda>abspath.
     bindR (if sw_access senv w (c_dirname abspath) then Inr (True, w) else make_dir senv (c_dirname abspath) w) (\<lambda>(ok, w).
     if \<not> ok then Inr (1, None, w, ht)
     else
       bindR (down_request env ps ht) (\<lambda>(rq, ht).
       if \<not> te_create env 0 abspath \<and> \<not> te_create env 1 abspath then Inl (Exit 2)
       else bindR (down_receive env abspath rq ht) (\<lambda>(rc, d, ht). Inr (rc, Some d, w, ht)))))"

section \<open>The session goes on\<close>

definition other_header :: "string \<Rightarrow> bool" where
  \<comment> \<open>a header which the client does not look at\<close>
  "other_header h = (\<not> prefix_of X_SET_PROPERTY_HEADER h \<and> \<not> header_is ''Set-Cookie:'' h \<and> \<not> header_is X_SERVER_STATUS_HEADER h)"

definition cookie_line :: "string \<Rightarrow> string \<Rightarrow> string" where
  "cookie_line sid attrs = ''Set-Cookie: JSESSIONID='' @ sid @ '';'' @ attrs @ [CR, newline]"

lemma run_headers_append: "run_headers f (xs @ ys) s = bindR (run_headers f xs s) (run_headers f ys)"
  by (induction xs arbitrary: s) (simp_all add: bindR_def split: sum.splits)

lemma run_other_headers:
  "list_all other_header hs \<Longrightarrow> run_headers (\<lambda>st h. http_parse_startup_headers h st) hs st = Inr st"
  by (induction hs) (simp_all add: other_header_def http_parse_startup_headers_def http_find_errors_def)

lemma http_chomp_crlf: "http_chomp (s @ [CR, newline]) = Inr s"
  by (simp add: http_chomp_def nth_append)

lemma prop_ord_SESSIONID: "prop_ord P_SESSIONID = 56"
  by (simp add: prop_ord_def prop_enum_def)

lemma prop_entry_SESSIONID: "pr_dflt (prop_entry_of P_SESSIONID) = None" "pr_pad (prop_entry_of P_SESSIONID) = 0"
  by (simp_all add: prop_entry_of_def prop_ord_SESSIONID proptab_defs)

lemma cookie_line_sets:
  assumes "CHR '';'' \<notin> set sid"
  shows "http_parse_startup_headers (cookie_line sid attrs) st = prop_put_str st P_SESSIONID sid"
proof -
  let ?s = "''Set-Cookie: JSESSIONID='' @ sid @ '';'' @ attrs"
  have "cookie_line sid attrs = ?s @ [CR, newline]" by (simp add: cookie_line_def)
  then have "http_chomp (cookie_line sid attrs) = Inr ?s" by (simp only: http_chomp_crlf)
  moreover have "drop_to ''JSESSIONID='' ?s = Some (''JSESSIONID='' @ sid @ '';'' @ attrs)" by (simp add: prefix_of_def)
  moreover have "split_at (CHR '';'') (sid @ CHR '';'' # attrs) = Some (sid, attrs)" using assms by (rule split_at_append)
  moreover have "\<not> prefix_of X_SET_PROPERTY_HEADER (cookie_line sid attrs)"
    by (simp add: cookie_line_def prefix_of_def X_SET_PROPERTY_HEADER_def)
  moreover have "header_is ''Set-Cookie:'' (cookie_line sid attrs)"
    by (simp add: header_is_def cookie_line_def strnieq0_def)
  ultimately show ?thesis by (simp add: http_parse_startup_headers_def cookie_header_def)
qed

lemma handle_cookie:
  assumes "ht_cookie ht = None" and "prop_get_str (ht_props ht) P_SESSIONID = Inr s" and "he_uname env \<noteq> None"
  shows "\<exists>rq. http_get_curl_handle env ht = Inr (rq, ht\<lparr>ht_cookie := map_option (\<lambda>s. ''JSESSIONID='' @ s) s\<rparr>) \<and>
     rq_cookie rq = map_option (\<lambda>s. ''JSESSIONID='' @ s) s"
  using assms by (cases ht; cases s) (auto simp: http_get_curl_handle_def http_add_header_def Let_def split: option.splits)

lemma no_session_id: "pvals st P_SESSIONID = None \<Longrightarrow> prop_get_str st P_SESSIONID = Inr None"
  by (simp add: prop_get_str_def prop_get_str_i_def prop_get_value_simp prop_entry_SESSIONID)

lemma startup_connect_cookie:
  assumes "startup_connect env rq ht = Inr (rc, ht')" and "pvals (ht_props ht) P_SESSIONID = None"
    and reply: "\<And>reqs rq. hr_headers (he_reply (te_http env) reqs rq) = pre @ cookie_line sid attrs # post"
    and other: "list_all other_header (pre @ post)" and sid: "CHR '';'' \<notin> set sid" "sid \<noteq> PROP_NULL"
  shows "prop_get_str (ht_props ht') P_SESSIONID = Inr (Some sid) \<and> ht_cookie ht' = ht_cookie ht"
proof -
  obtain st where st: "prop_put_str (ht_props ht) P_SESSIONID sid = Inr st" "pvals st P_SESSIONID = Some sid"
    using prop_put_str_unset [of "ht_props ht" P_SESSIONID sid] assms(2) sid(2) by (auto simp: prop_entry_SESSIONID)
  have "run_headers (\<lambda>st h. http_parse_startup_headers h st) (pre @ cookie_line sid attrs # post) (ht_props ht) = Inr st"
    using other st(1) by (simp add: run_headers_append run_other_headers cookie_line_sets [OF sid(1)])
  then have "ht_props ht' = st \<and> ht_cookie ht' = ht_cookie ht"
    using assms(1) by (auto simp: startup_connect_def http_connect_def Let_def reply)
  then show ?thesis using prop_get_str_Some [OF st(2) sid(2)] by simp
qed

lemma startup_connect_ok:
  assumes "pvals (ht_props ht) P_SESSIONID = None"
    and reply: "\<And>reqs rq. hr_headers (he_reply (te_http env) reqs rq) = pre @ cookie_line sid attrs # post"
    and other: "list_all other_header (pre @ post)" and sid: "CHR '';'' \<notin> set sid" "sid \<noteq> PROP_NULL"
  shows "\<exists>rc ht'. startup_connect env rq ht = Inr (rc, ht')"
  using prop_put_str_unset [of "ht_props ht" P_SESSIONID sid] assms(1) sid(2) other
  by (auto simp: prop_entry_SESSIONID startup_connect_def http_connect_def Let_def reply run_headers_append
      run_other_headers cookie_line_sets [OF sid(1)])

text \<open>
  C20. The identifier of the session which the server hands out when the session begins, in whatever
  place among the headers, is what the next request carries as its cookie.
\<close>

theorem session_cookie_sent:
  assumes "mon_begin_session env ht = Inr (rc, ht')" and "mon_no_ptx (ht_props ht) = Inr False"
    and "ht_cookie ht = None" and "pvals (ht_props ht) P_SESSIONID = None"
    and "\<And>reqs rq. hr_headers (he_reply (te_http env) reqs rq) = pre @ cookie_line sid attrs # post"
    and "list_all other_header (pre @ post)" and "CHR '';'' \<notin> set sid" and "sid \<noteq> PROP_NULL"
  shows "\<exists>rq ht''. http_get_curl_handle (te_http env) ht' = Inr (rq, ht'') \<and> rq_cookie rq = Some (''JSESSIONID='' @ sid)"
proof -
  have uname: "he_uname (te_http env) \<noteq> None"
    using assms(1,2) by (auto simp: mon_begin_session_def http_get_curl_handle_def bindR_eq_Inr split: option.splits)
  obtain rq where h: "http_get_curl_handle (te_http env) ht = Inr (rq, ht)"
    using handle_cookie [OF assms(3) no_session_id [OF assms(4)] uname] assms(3) by (cases ht) auto
  then obtain url where c: "startup_connect env (rq\<lparr>rq_url := url\<rparr>) ht = Inr (rc, ht')"
    using assms(1,2) by (auto simp: mon_begin_session_def bindR_eq_Inr)
  have "prop_get_str (ht_props ht') P_SESSIONID = Inr (Some sid)" "ht_cookie ht' = None"
    using startup_connect_cookie [OF c assms(4-8)] assms(3) by simp_all
  then show ?thesis using handle_cookie [OF _ _ uname, of ht' "Some sid"] by auto
qed

text \<open>
  A compressor for the examples: 600 times the letter a become one byte, and any other text becomes
  twice as long, with a mark at its end.
\<close>

definition z_sample :: "string \<Rightarrow> string" where
  "z_sample s = (if s = replicate 600 CHR ''a'' then ''r'' else concat (map (\<lambda>c. [CHR ''x'', c]) s) @ ''e'')"

definition tr_sample :: "http_reply \<Rightarrow> tr_env" where
  "tr_sample r = \<lparr>te_http = \<lparr>he_escape = (\<lambda>s. s), he_reply = (\<lambda>_ _. r), he_version = ''1'',
       he_uname = Some (''Linux'', ''5'', ''x86'', ''h''), he_handle = ''0x1'', he_locale = None\<rparr>,
     te_logname = None, te_groupname = None, te_cwd = None, te_now = zero_moment,
     te_deflate = (\<lambda>s n. (True, [(if length (z_sample s) \<le> n then 1 else 0, length (z_sample s) < n, take n (z_sample s))], True)),
     te_file = (\<lambda>_. None), te_create = (\<lambda>_ _. True), te_chmod = (\<lambda>_ _. True), te_utimes = (\<lambda>_ _. True)\<rparr>"

definition tr_props :: prop_state where
  "tr_props = (prop_start [])\<lparr>pvals := (\<lambda>p. Some ''yes'')(P_SESSIONID := None)\<rparr>"

definition tr_start :: http_state where
  "tr_start = \<lparr>ht_props = tr_props, ht_cookie = None, ht_requests = [],
     ht_body = \<lparr>bs_leftover = [], bs_lines = [], bs_rc = None\<rparr>\<rparr>"

lemma tr_props_str: "p \<noteq> P_SESSIONID \<Longrightarrow> prop_get_str tr_props p = Inr (Some ''yes'')"
  by (rule prop_get_str_Some) (simp_all add: tr_props_def PROP_NULL_def)

lemma tr_props_no_ptx: "mon_no_ptx tr_props = Inr False"
proof -
  have "true_word ''yes''" by (simp add: true_word_def c_stricmp_eq_0)
  then show ?thesis by (simp add: mon_no_ptx_def prop_get_ulong_def tr_props_str)
qed

lemma tr_props_url: "http_make_url tr_props cmd = Inr (''http://yes/yes/'' @ cmd)"
  by (simp add: http_make_url_def http_make_url_pfx_def tr_props_str)

lemma tr_begin:
  assumes other: "list_all other_header (pre @ post)" and sid: "CHR '';'' \<notin> set sid" "sid \<noteq> PROP_NULL"
    and r: "hr_headers r = pre @ cookie_line sid attrs # post"
  shows "\<exists>rc ht'. mon_begin_session (tr_sample r) tr_start = Inr (rc, ht')"
proof -
  have reply: "hr_headers (he_reply (te_http (tr_sample r)) reqs rq) = pre @ cookie_line sid attrs # post" for reqs rq
    using r by (simp add: tr_sample_def)
  have none: "pvals tr_props P_SESSIONID = None" by (simp add: tr_props_def)
  have start: "ht_props tr_start = tr_props" "ht_cookie tr_start = None" by (simp_all add: tr_start_def)
  obtain rq where h: "http_get_curl_handle (te_http (tr_sample r)) tr_start = Inr (rq, tr_start)"
    using handle_cookie [of tr_start None "te_http (tr_sample r)"] no_session_id [OF none] start
    by (cases tr_start) (auto simp: tr_sample_def)
  have c: "\<exists>rc ht'. startup_connect (tr_sample r) rq' tr_start = Inr (rc, ht')" for rq'
    by (rule startup_connect_ok [OF _ reply other sid]) (simp add: start none)
  have "\<exists>rq'. mon_begin_session (tr_sample r) tr_start = startup_connect (tr_sample r) rq' tr_start"
    by (simp add: mon_begin_session_def start tr_props_no_ptx tr_props_url tr_props_str h exI)
  then show ?thesis using c by metis
qed

theorem session_cookie_sent_witness:
  "\<exists>rc ht' rq ht''. mon_begin_session (tr_sample \<lparr>hr_ok = True, hr_code = 200,
       hr_headers = [''Date: x'', cookie_line ''A1'' '' Path=/''], hr_body = []\<rparr>) tr_start = Inr (rc, ht') \<and>
     http_get_curl_handle (te_http (tr_sample \<lparr>hr_ok = True, hr_code = 200,
       hr_headers = [''Date: x'', cookie_line ''A1'' '' Path=/''], hr_body = []\<rparr>)) ht' = Inr (rq, ht'') \<and>
     rq_cookie rq = Some ''JSESSIONID=A1''"
proof -
  let ?r = "\<lparr>hr_ok = True, hr_code = 200, hr_headers = [''Date: x'', cookie_line ''A1'' '' Path=/''], hr_body = []\<rparr>"
  have other: "list_all other_header ([''Date: x''] @ [])"
    by (simp add: other_header_def prefix_of_def header_is_def strnieq0_def X_SET_PROPERTY_HEADER_def X_SERVER_STATUS_HEADER_def tolower_def)
  have sid: "CHR '';'' \<notin> set ''A1''" "''A1'' \<noteq> PROP_NULL" by (simp_all add: PROP_NULL_def)
  obtain rc ht' where b: "mon_begin_session (tr_sample ?r) tr_start = Inr (rc, ht')"
    using tr_begin [OF other sid, of ?r "'' Path=/''"] by auto
  have "\<exists>rq ht''. http_get_curl_handle (te_http (tr_sample ?r)) ht' = Inr (rq, ht'') \<and> rq_cookie rq = Some (''JSESSIONID='' @ ''A1'')"
    by (rule session_cookie_sent [OF b, where pre = "[''Date: x'']" and post = "[]" and attrs = "'' Path=/''"])
      (use other sid in \<open>simp_all add: tr_start_def tr_props_no_ptx tr_sample_def del: fun_upd_apply\<close>,
       simp add: tr_props_def)
  then show ?thesis using b by auto
qed

section \<open>What is uploaded\<close>





lemma handle_fields:
  "http_get_curl_handle env ht = Inr (rq, ht') \<Longrightarrow>
   ''X-GZIPPED'' \<notin> fst ` set (rq_headers rq) \<and> ht_requests ht' = ht_requests ht \<and> ht_props ht' = ht_props ht"
  by (cases "he_uname env"; cases "he_locale env")
    (auto simp: http_get_curl_handle_def http_add_header_def Let_def bindR_eq_Inr split: if_splits)












section \<open>What a download restores\<close>

definition disposition :: "moment_s \<Rightarrow> u32 \<Rightarrow> string" where
  "disposition m mode = ''Content-Disposition: attachment; moment='' @ [dquote] @ moment_str m @ [dquote] @
     '' mode='' @ [dquote] @ nat_to_radix 36 (unat mode) @ [dquote, CR, newline]"

definition plain_header :: "string \<Rightarrow> bool" where
  "plain_header h = (\<not> header_is ''Content-Disposition:'' h \<and> \<not> header_is X_SERVER_STATUS_HEADER h)"

lemma run_plain_headers: "list_all plain_header hs \<Longrightarrow> run_headers down_hdrs_to_path_state hs dps = Inr dps"
  by (induction hs) (simp_all add: plain_header_def down_hdrs_to_path_state_def)

lemma radix36_chars: "c \<in> set (nat_to_radix 36 n) \<Longrightarrow> c \<noteq> dquote \<and> c \<noteq> CHR '' '' \<and> c \<noteq> CR \<and> c \<noteq> newline"
  using nat_to_radix_alnum [of 36 c n] by (auto simp: ctype_defs dquote_def CR_def newline_def)

lemma moment_chars: "c \<in> set (moment_str m) \<Longrightarrow> c \<noteq> dquote \<and> c \<noteq> CHR '' '' \<and> c \<noteq> CR \<and> c \<noteq> newline"
  using radix36_chars by (auto simp: moment_str_def dquote_def CR_def newline_def)

lemma strtol_mode: "ucast (c_strtol CSV_RADIX (nat_to_radix 36 (unat m))) = (m :: u32)"
proof -
  have "\<not> 2 ^ 63 \<le> unat m" using unsigned_less [of m, where 'a = nat] by simp
  then have "c_strtol 36 (nat_to_radix 36 (unat m)) = of_nat (unat m)"
    using c_strtol_nat_to_radix [of 36 "[]" "unat m"] by simp
  also have "(of_nat (unat m) :: u64) = ucast m" by (simp add: word_eq_iff_unsigned)
  finally show ?thesis by (simp add: CSV_RADIX_def ucast_up_ucast_id is_up)
qed

lemma down_word_step:
  assumes "split_at dquote word = Some (k, t)" and "split_at dquote t = Some (v, u)"
  shows "strnieq0 word ''moment'' 6 \<Longrightarrow> moment_parse v = Inr (x, m) \<Longrightarrow> down_words (word # ws) dps = down_words ws (dps\<lparr>dps_moment := m\<rparr>)"
    and "\<not> strnieq0 word ''moment'' 6 \<Longrightarrow> strnieq0 word ''mode'' 4 \<Longrightarrow>
      down_words (word # ws) dps = down_words ws (dps\<lparr>dps_mode := ucast (c_strtol CSV_RADIX v)\<rparr>)"
  using assms by (auto simp: split_at_def)

lemma disposition_parsed:
  assumes "norm_moment m"
  shows "down_hdrs_to_path_state dps (disposition m mode) = Inr (dps\<lparr>dps_moment := m, dps_mode := mode\<rparr>)"
proof -
  let ?w1 = "''moment='' @ dquote # moment_str m @ [dquote]" and ?w2 = "''mode='' @ dquote # nat_to_radix 36 (unat mode) @ [dquote]"
  let ?d = "'' '' @ [CR, newline]"
  have words: "strsep_all ?d (Some (?w1 @ CHR '' '' # ?w2 @ CR # [newline])) = [?w1, ?w2, [], []]"
  proof -
    have "set ?w1 \<inter> set ?d = {}" "set ?w2 \<inter> set ?d = {}"
      using moment_chars [of _ m] radix36_chars [of _ "unat mode"] by (auto simp: dquote_def CR_def newline_def)
    then have "strsep_scan ?d (?w1 @ CHR '' '' # r) = (?w1, Some r)" "strsep_scan ?d (?w2 @ CR # r) = (?w2, Some r)" for r
      by (intro strsep_scan_next; simp)+
    then show ?thesis by (simp add: strsep_all.simps)
  qed
  have q: "dquote \<notin> set (moment_str m)" "dquote \<notin> set (nat_to_radix 36 (unat mode))"
    using moment_chars radix36_chars by blast+
  have m: "split_at dquote ?w1 = Some (''moment='', moment_str m @ [dquote])" "split_at dquote (moment_str m @ [dquote]) = Some (moment_str m, [])"
    "split_at dquote ?w2 = Some (''mode='', nat_to_radix 36 (unat mode) @ [dquote])"
    "split_at dquote (nat_to_radix 36 (unat mode) @ [dquote]) = Some (nat_to_radix 36 (unat mode), [])"
    using q by (auto intro!: split_at_append simp del: append_Cons simp: dquote_def)
  have k: "strnieq0 ?w1 ''moment'' 6" "\<not> strnieq0 ?w2 ''moment'' 6" "strnieq0 ?w2 ''mode'' 4"
    by (simp_all add: strnieq0_def tolower_def ctype_defs)
  have d: "down_words [?w1, ?w2, [], []] dps = Inr (dps\<lparr>dps_moment := m, dps_mode := mode\<rparr>)"
  proof -
    have "moment_parse (moment_str m) = Inr (0, m)" using assms by (simp add: moment_parse_str norm_moment_def)
    from down_word_step(1) [OF m(1,2) k(1) this] show ?thesis
      by (simp only: down_word_step(2) [OF m(3,4) k(2,3)]) (simp add: strtol_mode)
  qed
  have "disposition m mode = ''Content-Disposition: attachment'' @ CHR '';'' # CHR '' '' # ?w1 @ CHR '' '' # ?w2 @ CR # [newline]"
    by (simp add: disposition_def)
  then have "split_at (CHR '';'') (disposition m mode) = Some (''Content-Disposition: attachment'', CHR '' '' # ?w1 @ CHR '' '' # ?w2 @ CR # [newline])"
    by (simp only: split_at_append) (simp add: split_at_def)
  moreover have "header_is ''Content-Disposition:'' (disposition m mode)" by (simp add: header_is_def disposition_def strnieq0_def)
  moreover have "dropWhile isspace (CHR '' '' # ?w1 @ CHR '' '' # ?w2 @ CR # [newline]) = ?w1 @ CHR '' '' # ?w2 @ CR # [newline]"
    by (simp add: ctype_defs)
  ultimately show ?thesis
    by (simp only: down_hdrs_to_path_state_def if_True option.case prod.case words d)
qed

lemma run_disposition:
  assumes "list_all plain_header (pre @ post)" and "norm_moment m"
  shows "run_headers down_hdrs_to_path_state (pre @ disposition m mode # post) dps = Inr (dps\<lparr>dps_moment := m, dps_mode := mode\<rparr>)"
  using assms(1) by (simp add: run_headers_append run_plain_headers disposition_parsed [OF assms(2)])

lemma micros: "0 \<le> sint n \<Longrightarrow> c_div n 1000 = (word_of_int (sint n div 1000) :: u64)"
  by (simp add: c_div_def signed_divide_int_def sgn_if)

text \<open>
  C22. A download that succeeds leaves the contents which the server sent, in whatever pieces, with the
  mode and, where that is asked for, the time which the server gave in the header, cut to
  microseconds; mode and time stay as they are if they cannot be set.
\<close>

theorem download_restores:
  assumes "down_load senv env ps w ht = Inr (rc, Some d, w', ht')"
    and "\<And>reqs rq. he_reply (te_http env) reqs rq =
      \<lparr>hr_ok = True, hr_code = 200, hr_headers = pre @ disposition m mode # post, hr_body = pieces\<rparr>"
    and "list_all plain_header (pre @ post)" and "norm_moment m" and "moment_is_set m" and "mode \<noteq> 0"
    and "prop_is_true (ht_props ht) P_ORIGINAL_DATESTAMP = Inr orig" and "ps_get_abs ps = Inr path"
    and "tv = (ntv_sec m, word_of_int (sint (ntv_nsec m) div 1000))"
  shows "rc = 0 \<and> dl_contents d = Some (concat pieces) \<and>
    dl_mode d = (if te_chmod env path mode then Some mode else None) \<and>
    dl_mtime d = (if orig \<and> te_utimes env path tv then Some tv else None)"
proof -
  have tv: "moment_set_mtime (Some m) = Some tv"
    using assms(4,9) by (simp add: moment_set_mtime_def norm_moment_def micros)
  note hs = run_disposition [OF assms(3,4), of mode no_dps]
  have "rc = 0 \<and> dl_contents d = Some (concat pieces) \<and>
      dl_mode d = (if te_chmod env path mode then Some mode else None) \<and>
      dl_mtime d = (if orig \<and> te_utimes env path tv then Some tv else None)"
    if "down_receive env path rq ht0 = Inr (rc, d, ht')" "ht_props ht0 = ht_props ht" for rq ht0
    using that hs assms(2,5-7) tv by (simp add: down_receive_def http_connect_def Let_def no_dps_def) auto
  moreover obtain rq ht0 where "down_request env ps ht = Inr (rq, ht0)" "down_receive env path rq ht0 = Inr (rc, d, ht')"
    using assms(1,8) by (auto simp: down_load_def bindR_eq_Inr split: if_splits)
  moreover from this(1) have "ht_props ht0 = ht_props ht"
    by (auto simp: down_request_def bindR_eq_Inr Let_def dest: handle_fields)
  ultimately show ?thesis by blast
qed

lemma tr_props_true: "p \<noteq> P_SESSIONID \<Longrightarrow> prop_is_true tr_props p = Inr True"
proof -
  assume "p \<noteq> P_SESSIONID"
  moreover have "true_word ''yes''" by (simp add: true_word_def c_stricmp_eq_0)
  ultimately show ?thesis by (simp add: prop_is_true_def prop_get_ulong_def tr_props_str)
qed

lemma tr_handle: "\<exists>rq. http_get_curl_handle (te_http (tr_sample r)) tr_start = Inr (rq, tr_start)"
proof -
  have "pvals tr_props P_SESSIONID = None" by (simp add: tr_props_def)
  from no_session_id [OF this] show ?thesis
    using handle_cookie [of tr_start None "te_http (tr_sample r)"] by (auto simp: tr_start_def tr_sample_def)
qed

theorem download_restores_witness:
  "\<exists>rc d ht'. down_load git_sample_env (tr_sample \<lparr>hr_ok = True, hr_code = 200,
       hr_headers = [''Date: x'', disposition \<lparr>ntv_sec = 5, ntv_nsec = 7123\<rparr> 420], hr_body = [''int '', ''x;'']\<rparr>)
     sample_ps git_sample_world tr_start = Inr (rc, Some d, git_sample_world, ht') \<and>
   rc = 0 \<and> dl_contents d = Some ''int x;'' \<and> dl_mode d = Some 420 \<and> dl_mtime d = Some (5, 7)"
proof -
  let ?m = "\<lparr>ntv_sec = 5, ntv_nsec = 7123\<rparr> :: moment_s"
  let ?r = "\<lparr>hr_ok = True, hr_code = 200, hr_headers = [''Date: x''] @ disposition ?m 420 # [], hr_body = [''int '', ''x;'']\<rparr>"
  have plain: "list_all plain_header ([''Date: x''] @ [])"
    by (simp add: plain_header_def header_is_def strnieq0_def X_SERVER_STATUS_HEADER_def tolower_def ctype_defs)
  have m: "norm_moment ?m" "moment_is_set ?m"
    by (simp add: norm_moment_def, code_simp)
  have orig: "prop_is_true (ht_props tr_start) P_ORIGINAL_DATESTAMP = Inr True" by (simp add: tr_start_def tr_props_true)
  obtain rq where h: "http_get_curl_handle (te_http (tr_sample ?r)) tr_start = Inr (rq, tr_start)" using tr_handle by blast
  note hd = run_disposition [OF plain m(1), of 420 no_dps]
  have "ps_pn sample_ps = Some sample_pn" by (simp add: sample_ps_def)
  from ps_toCSVString_eq [OF this] obtain psbuf where csv: "ps_toCSVString sample_ps = Inr psbuf" by blast
  obtain rq where rq: "down_request (tr_sample ?r) sample_ps tr_start = Inr (rq, tr_start)"
    using h by (simp add: down_request_def tr_start_def tr_props_url tr_props_str tr_props_true csv)
  obtain d ht' where recv: "down_receive (tr_sample ?r) ''/p/a,b.c'' rq tr_start = Inr (0, d, ht')"
    using hd orig by (simp add: down_receive_def http_connect_def tr_sample_def no_dps_def)
  have abs: "ps_get_abs sample_ps = Inr ''/p/a,b.c''" "sw_access git_sample_env git_sample_world (c_dirname ''/p/a,b.c'')"
    by (simp_all add: ps_get_abs_def sample_ps_def sample_pn_def pn_get_abs_def sw_access_def git_sample_env_def c_dirname_def)
  have "te_create (tr_sample ?r) 0 ''/p/a,b.c''" by (simp add: tr_sample_def)
  then have d: "down_load git_sample_env (tr_sample ?r) sample_ps git_sample_world tr_start = Inr (0, Some d, git_sample_world, ht')"
    using abs rq recv by (simp add: down_load_def)
  have "(0::int) = 0 \<and> dl_contents d = Some (concat [''int '', ''x;'']) \<and>
      dl_mode d = (if te_chmod (tr_sample ?r) ''/p/a,b.c'' 420 then Some 420 else None) \<and>
      dl_mtime d = (if True \<and> te_utimes (tr_sample ?r) ''/p/a,b.c'' (5, 7) then Some (5, 7) else None)"
    by (rule download_restores [OF d _ plain m _ orig abs(1)]) (simp_all add: tr_sample_def)
  then show ?thesis using d by (simp add: tr_sample_def)
qed

end
