(* ===== verification/Getopt.thy ===== *)
theory Getopt
  imports Util
begin

text \<open>
  The reading of the command line (\<open>src/bsd_getopt.c\<close>). All option strings of this program begin
  with \<open>+\<close>, so that reading stops at the first word that is no option and arguments are not
  permuted; none has \<open>W;\<close>, and no long option has a flag to be set.
\<close>

section \<open>Data\<close>

datatype arg_kind = no_argument | required_argument | optional_argument

record long_option =
  lo_name :: string
  lo_has_arg :: arg_kind
  lo_val :: int

text \<open>The static variables: \<open>go_place\<close> is the rest of a word of option letters.\<close>

record getopt_state =
  go_optind :: nat
  go_place :: string
  go_optarg :: "string option"
  go_optopt :: int
  go_optreset :: bool

definition BADCH :: int where "BADCH = 63"

abbreviation code_of :: "char \<Rightarrow> int" where
  "code_of c \<equiv> int (ascii c)"

section \<open>Operations\<close>

definition bsd_getopt_reset :: "getopt_state \<Rightarrow> getopt_state" where
  "bsd_getopt_reset st = st\<lparr>go_optreset := True, go_optind := 1\<rparr>"

definition short_kind :: "string \<Rightarrow> char \<Rightarrow> arg_kind option" where
  \<comment> \<open>behind the plus sign\<close>
  "short_kind options c =
     (if c = CHR '':'' then None
      else case dropWhile (\<lambda>x. x \<noteq> c) (tl options) of
             [] \<Rightarrow> None
           | _ # r \<Rightarrow> Some (if first_char r \<noteq> CHR '':'' then no_argument
                            else if first_char (tl r) \<noteq> CHR '':'' then required_argument
                            else optional_argument))"

definition getopt_letter :: "string \<Rightarrow> string list \<Rightarrow> getopt_state \<Rightarrow> int \<times> getopt_state" where
  \<comment> \<open>the next letter of the word\<close>
  "getopt_letter options argv st =
     (let c = first_char (go_place st); p = tl (go_place st); i = go_optind st
      in case short_kind options c of
           None \<Rightarrow> (BADCH, st\<lparr>go_place := p, go_optind := (if p = [] then Suc i else i), go_optopt := code_of c\<rparr>)
         | Some no_argument \<Rightarrow> (code_of c, st\<lparr>go_place := p, go_optind := (if p = [] then Suc i else i)\<rparr>)
         | Some k \<Rightarrow>
             if p \<noteq> [] then (code_of c, st\<lparr>go_optarg := Some p, go_place := [], go_optind := Suc i\<rparr>)
             else if k = optional_argument then (code_of c, st\<lparr>go_optarg := None, go_place := [], go_optind := Suc i\<rparr>)
             else if length argv \<le> Suc i
             then (BADCH, st\<lparr>go_optarg := None, go_place := [], go_optind := Suc i, go_optopt := code_of c\<rparr>)
             else (code_of c, st\<lparr>go_optarg := Some (argv ! Suc i), go_place := [], go_optind := Suc (Suc i)\<rparr>))"

definition getopt_internal :: "string \<Rightarrow> string list \<Rightarrow> getopt_state \<Rightarrow> int \<times> getopt_state" where
  "getopt_internal options argv st =
     (let st = st\<lparr>go_optarg := None, go_optind := (if go_optind st = 0 then 1 else go_optind st)\<rparr>
      in if go_optreset st \<or> go_place st = [] then
           let st = st\<lparr>go_optreset := False\<rparr>
           in if length argv \<le> go_optind st then (- 1, st\<lparr>go_place := []\<rparr>)
              else let a = argv ! go_optind st
                   in if first_char a \<noteq> CHR ''-'' \<or> tl a = [] then (- 1, st\<lparr>go_place := []\<rparr>)
                      else if first_char (tl a) = CHR ''-'' then (- 2, st\<lparr>go_place := tl (tl a)\<rparr>)
                      else getopt_letter options argv (st\<lparr>go_place := tl a\<rparr>)
         else getopt_letter options argv st)"

text \<open>The table of long options: the first whose name it is, or the only one it abbreviates.\<close>

datatype long_match = Unknown | Ambiguous | Found long_option

fun long_scan :: "string \<Rightarrow> long_option list \<Rightarrow> long_option option \<Rightarrow> long_match" where
  "long_scan w [] m = (case m of None \<Rightarrow> Unknown | Some o1 \<Rightarrow> Found o1)"
| "long_scan w (o1 # os) m =
     (if \<not> prefix_of w (lo_name o1) then long_scan w os m
      else if length (lo_name o1) = length w then Found o1
      else case m of None \<Rightarrow> long_scan w os (Some o1) | Some _ \<Rightarrow> Ambiguous)"

definition getopt_long :: "long_option list \<Rightarrow> string list \<Rightarrow> getopt_state \<Rightarrow> int \<times> getopt_state" where
  \<comment> \<open>the word behind two dashes\<close>
  "getopt_long longs argv st =
     (let current_argv = go_place st; st = st\<lparr>go_optind := Suc (go_optind st), go_place := []\<rparr>
      in if current_argv = [] then (- 1, st)
         else
           let (w, has_equal) = (case split_at (CHR ''='') current_argv of
                                   Some (a, b) \<Rightarrow> (a, Some b) | None \<Rightarrow> (current_argv, None))
           in case long_scan w longs None of
                Unknown \<Rightarrow> (BADCH, st\<lparr>go_optopt := 0\<rparr>)
              | Ambiguous \<Rightarrow> (BADCH, st\<lparr>go_optopt := 0\<rparr>)
              | Found o1 \<Rightarrow>
                 (case lo_has_arg o1 of
                    no_argument \<Rightarrow> if has_equal \<noteq> None then (BADCH, st\<lparr>go_optopt := lo_val o1\<rparr>) else (lo_val o1, st)
                  | optional_argument \<Rightarrow> (lo_val o1, if has_equal \<noteq> None then st\<lparr>go_optarg := has_equal\<rparr> else st)
                  | required_argument \<Rightarrow>
                      if has_equal \<noteq> None then (lo_val o1, st\<lparr>go_optarg := has_equal\<rparr>)
                      else if go_optind st < length argv
                      then (lo_val o1, st\<lparr>go_optarg := Some (argv ! go_optind st), go_optind := Suc (go_optind st)\<rparr>)
                      else (BADCH, st\<lparr>go_optarg := None, go_optopt := lo_val o1\<rparr>)))"

definition bsd_getopt :: "string \<Rightarrow> long_option list \<Rightarrow> string list \<Rightarrow> getopt_state \<Rightarrow> int \<times> getopt_state" where
  "bsd_getopt options longs argv st =
     (case getopt_internal options argv st of (r, st) \<Rightarrow> if r = - 2 then getopt_long longs argv st else (r, st))"

section \<open>The loop\<close>

text \<open>
  The words which are left, with the rest of the one that is being read: every call but the last
  takes something off them.
\<close>

definition words_size :: "string list \<Rightarrow> nat" where
  "words_size ws = sum_list (map (\<lambda>w. Suc (length w)) ws)"

definition left_size :: "string list \<Rightarrow> getopt_state \<Rightarrow> nat" where
  "left_size argv st =
     (if go_optreset st \<or> go_place st = [] then words_size (drop (go_optind st) argv)
      else length (go_place st) + words_size (drop (Suc (go_optind st)) argv))"

lemma words_size_drop: "i \<le> j \<Longrightarrow> words_size (drop j argv) \<le> words_size (drop i argv)"
proof (induction j)
  case (Suc j)
  have "words_size (drop (Suc j) argv) \<le> words_size (drop j argv)"
    by (cases "drop j argv") (simp_all add: words_size_def drop_Suc flip: tl_drop)
  then show ?case using Suc by (cases "i = Suc j") auto
qed simp

lemma words_size_Cons: "i < length argv \<Longrightarrow> words_size (drop i argv) = Suc (length (argv ! i)) + words_size (drop (Suc i) argv)"
  by (simp add: words_size_def Cons_nth_drop_Suc [symmetric])

lemma letter_shrinks:
  assumes "getopt_letter options argv st = (r, st')" and "go_place st \<noteq> []" and "\<not> go_optreset st"
  shows "left_size argv st' < left_size argv st"
proof -
  have "words_size (drop (Suc (Suc (go_optind st))) argv) \<le> words_size (drop (Suc (go_optind st)) argv)"
    by (rule words_size_drop) simp
  then show ?thesis
    using assms by (cases "go_place st") (auto simp: getopt_letter_def Let_def left_size_def split: option.splits arg_kind.splits if_splits)
qed

lemma long_shrinks:
  assumes "getopt_long longs argv st = (r, st')" and "\<not> go_optreset st" and "go_optind st < length argv"
  shows "left_size argv st' < words_size (drop (go_optind st) argv)"
proof -
  let ?i = "go_optind st"
  have "words_size (drop (Suc (Suc ?i)) argv) \<le> words_size (drop (Suc ?i) argv)"
    by (rule words_size_drop) simp
  then show ?thesis
    using assms words_size_Cons [OF assms(3)]
    by (auto simp: getopt_long_def Let_def left_size_def split: option.splits prod.splits long_match.splits arg_kind.splits if_splits)
qed

lemma getopt_shrinks:
  assumes "bsd_getopt options longs argv st = (c, st')" and "c \<noteq> - 1"
  shows "left_size argv st' < left_size argv st"
proof -
  define st1 where "st1 = st\<lparr>go_optarg := None, go_optind := (if go_optind st = 0 then 1 else go_optind st)\<rparr>"
  let ?i = "go_optind st1" and ?a = "argv ! go_optind st1"
  have i: "words_size (drop ?i argv) \<le> words_size (drop (go_optind st) argv)"
    by (rule words_size_drop) (simp add: st1_def)
  have i2: "words_size (drop (Suc ?i) argv) \<le> words_size (drop (Suc (go_optind st)) argv)"
    by (rule words_size_drop) (simp add: st1_def)
  have less: "left_size argv st1 \<le> left_size argv st"
    using i i2 by (auto simp: left_size_def st1_def)
  show ?thesis
  proof (cases "go_optreset st \<or> go_place st = []")
    case False
    then have "getopt_internal options argv st = getopt_letter options argv st1" "go_place st1 \<noteq> []" "\<not> go_optreset st1"
      by (simp_all add: getopt_internal_def st1_def Let_def)
    moreover obtain r s where rs: "getopt_letter options argv st1 = (r, s)" by fastforce
    moreover have "r \<noteq> - 2" using rs
      by (auto simp: getopt_letter_def Let_def BADCH_def split: option.splits arg_kind.splits if_splits)
    ultimately have "left_size argv st' < left_size argv st1"
      using assms letter_shrinks by (auto simp: bsd_getopt_def)
    then show ?thesis using less by simp
  next
    case True
    define st2 where "st2 = st1\<lparr>go_optreset := False\<rparr>"
    have st: "left_size argv st = words_size (drop (go_optind st) argv)" using True by (simp add: left_size_def)
    have "?i < length argv \<and> first_char ?a = CHR ''-'' \<and> tl ?a \<noteq> []"
      using assms True by (auto simp: bsd_getopt_def getopt_internal_def st1_def Let_def split: if_splits)
    then have a: "?i < length argv" "first_char ?a = CHR ''-''" "tl ?a \<noteq> []" by simp_all
    note cons = words_size_Cons [OF a(1)]
    show ?thesis
    proof (cases "first_char (tl ?a) = CHR ''-''")
      case True2: True
      have "getopt_internal options argv st = (- 2, st2\<lparr>go_place := tl (tl ?a)\<rparr>)"
        using a True True2 by (simp add: getopt_internal_def st1_def st2_def Let_def)
      then have "getopt_long longs argv (st2\<lparr>go_place := tl (tl ?a)\<rparr>) = (c, st')" using assms(1) by (simp add: bsd_getopt_def)
      from long_shrinks [OF this] show ?thesis using a i st by (simp add: st2_def)
    next
      case False
      have "getopt_internal options argv st = getopt_letter options argv (st2\<lparr>go_place := tl ?a\<rparr>)"
        using a True False by (simp add: getopt_internal_def st1_def st2_def Let_def)
      moreover obtain r s where rs: "getopt_letter options argv (st2\<lparr>go_place := tl ?a\<rparr>) = (r, s)" by fastforce
      moreover have "r \<noteq> - 2" using rs
        by (auto simp: getopt_letter_def Let_def BADCH_def split: option.splits arg_kind.splits if_splits)
      ultimately have "getopt_letter options argv (st2\<lparr>go_place := tl ?a\<rparr>) = (c, st')"
        using assms(1) by (simp add: bsd_getopt_def)
      from letter_shrinks [OF this] have "left_size argv st' < length (tl ?a) + words_size (drop (Suc ?i) argv)"
        using a by (simp add: st2_def left_size_def)
      then show ?thesis using cons i st by simp
    qed
  qed
qed

text \<open>
  The loop around \<open>bsd_getopt\<close>, which ends at the end of the options or at an error: what was
  read, with the arguments.
\<close>

function getopt_all ::
  "string \<Rightarrow> long_option list \<Rightarrow> string list \<Rightarrow> getopt_state \<Rightarrow> (int \<times> string option) list \<times> getopt_state" where
  "getopt_all options longs argv st =
     (case bsd_getopt options longs argv st of (c, st) \<Rightarrow>
        if c = - 1 then ([], st)
        else if c = BADCH then ([(c, go_optarg st)], st)
        else (let (os, s) = getopt_all options longs argv st in ((c, go_optarg st) # os, s)))"
  by pat_completeness auto

termination
  by (relation "measure (\<lambda>(options, longs, argv, st). left_size argv st)") (auto dest: getopt_shrinks [OF sym])

declare getopt_all.simps [simp del]

text \<open>The same loop where the caller goes on after an error.\<close>

function getopt_through ::
  "string \<Rightarrow> long_option list \<Rightarrow> string list \<Rightarrow> getopt_state \<Rightarrow> (int \<times> string option) list \<times> getopt_state" where
  "getopt_through options longs argv st =
     (case bsd_getopt options longs argv st of (c, st) \<Rightarrow>
        if c = - 1 then ([], st)
        else (let (os, s) = getopt_through options longs argv st in ((c, go_optarg st) # os, s)))"
  by pat_completeness auto

termination
  by (relation "measure (\<lambda>(options, longs, argv, st). left_size argv st)") (auto dest: getopt_shrinks [OF sym])

declare getopt_through.simps [simp del]

end
