(* ===== verification/CommandLine.thy ===== *)
theory CommandLine
  imports Getopt Transfers
begin

text \<open>
  The main program (\<open>src/aotool.c\<close>): the options of its command line, what is worked out from
  them, and what is done before a build is run.
\<close>

section \<open>The tables of options\<close>

definition LF :: "char \<Rightarrow> char \<Rightarrow> int" where
  "LF first second = code_of first * 256 + code_of second"

definition main_short_opts :: string where
  "main_short_opts = ''+1acdhl:mo:p:qrs:tuv::wxAC:DEF:GH::I:LM:O:PQRSTUV:W:XY''"

definition main_long_opts :: "long_option list" where
  "main_long_opts = map (\<lambda>(n, k, v). \<lparr>lo_name = n, lo_has_arg = k, lo_val = v\<rparr>)
    [(''oneshell'', no_argument, code_of (CHR ''1'')),
     (''absolute-paths'', no_argument, code_of (CHR ''a'')),
     (''agg-level'', required_argument, LF (CHR ''A'') (CHR ''G'')),
     (''audit-only'', no_argument, code_of (CHR ''A'')),
     (''make-clean'', no_argument, code_of (CHR ''c'')),
     (''directory'', required_argument, code_of (CHR ''C'')),
     (''download-only'', no_argument, code_of (CHR ''d'')),
     (''download-silent'', no_argument, code_of (CHR ''D'')),
     (''dtrace'', required_argument, LF (CHR ''D'') (CHR ''T'')),
     (''client-platform'', required_argument, LF (CHR ''C'') (CHR ''P'')),
     (''error-strict'', no_argument, code_of (CHR ''E'')),
     (''make-file'', required_argument, code_of (CHR ''F'')),
     (''git'', no_argument, code_of (CHR ''G'')),
     (''help'', no_argument, code_of (CHR ''h'')),
     (''Help'', optional_argument, code_of (CHR ''H'')),
     (''properties'', optional_argument, LF (CHR ''P'') (CHR ''*'')),
     (''identity-hash'', required_argument, code_of (CHR ''I'')),
     (''log-file'', required_argument, code_of (CHR ''l'')),
     (''log-file-temp'', no_argument, code_of (CHR ''L'')),
     (''log-tee'', no_argument, LF (CHR ''L'') (CHR ''T'')),
     (''log-time-stamp'', no_argument, LF (CHR ''L'') (CHR ''S'')),
     (''make-depends'', optional_argument, code_of (CHR ''M'')),
     (''mem-debug'', optional_argument, LF (CHR ''D'') (CHR ''M'')),
     (''members-only'', no_argument, code_of (CHR ''m'')),
     (''output-file'', required_argument, code_of (CHR ''o'')),
     (''Output-file'', required_argument, code_of (CHR ''O'')),
     (''project-name'', required_argument, code_of (CHR ''p'')),
     (''pager'', no_argument, code_of (CHR ''P'')),
     (''profile'', no_argument, LF (CHR ''P'') (CHR ''%'')),
     (''quiet'', no_argument, code_of (CHR ''q'')),
     (''extra-quiet'', no_argument, code_of (CHR ''Q'')),
     (''leave-roadmap'', no_argument, code_of (CHR ''r'')),
     (''reuse-roadmap'', no_argument, code_of (CHR ''R'')),
     (''restart'', no_argument, LF (CHR ''R'') (CHR ''L'')),
     (''server'', required_argument, code_of (CHR ''s'')),
     (''strict'', no_argument, code_of (CHR ''S'')),
     (''script'', required_argument, LF (CHR ''s'') (CHR ''c'')),
     (''print-elapsed'', no_argument, code_of (CHR ''t'')),
     (''upload-only'', no_argument, code_of (CHR ''u'')),
     (''uncompressed-transfers'', no_argument, code_of (CHR ''U'')),
     (''verbosity'', optional_argument, code_of (CHR ''v'')),
     (''local-verbosity'', required_argument, code_of (CHR ''V'')),
     (''version'', optional_argument, LF (CHR ''v'') (CHR ''n'')),
     (''why'', no_argument, code_of (CHR ''w'')),
     (''WFlag'', required_argument, code_of (CHR ''W'')),
     (''exec-verbosity'', required_argument, code_of (CHR ''x'')),
     (''execute-only'', no_argument, code_of (CHR ''X'')),
     (''synchronous-transfers'', no_argument, code_of (CHR ''Y''))]"

section \<open>State\<close>

text \<open>
  The variables of \<open>main\<close>, and the properties with the mask of verbosity; \<open>cl_chdirs\<close> are the
  directories changed to. \<open>cl_realpath\<close> is \<open>putil_realpath\<close>, \<open>cl_tempnam\<close> the name for a roadmap.
\<close>

record cl_state =
  cl_props :: prop_state
  cl_mask :: u64
  cl_http :: http_state
  QuietMode :: bool
  cl_pager :: "string option"
  cl_dscript :: "string option"
  cl_redo_script :: "string option"
  cl_proplevel :: int
  cl_no_server :: bool
  cl_make_clean :: bool
  cl_teeflag :: bool
  cl_chdirs :: "string list"

record cl_env =
  cl_subst :: "prop_state \<Rightarrow> subst_env"
  cl_pid :: u64
  cl_chdir :: "string \<Rightarrow> bool"
  cl_realpath :: "string \<Rightarrow> string option"
  cl_cwd :: "string option"
  cl_tempnam :: string
  cl_tr :: tr_env
  cl_out :: out_env

definition with_props :: "(prop_state \<Rightarrow> prop_state result) \<Rightarrow> cl_state \<Rightarrow> cl_state result" where
  "with_props f s = bindR (f (cl_props s)) (\<lambda>st. Inr (s\<lparr>cl_props := st\<rparr>))"

definition with_vb :: "(vb_state \<Rightarrow> vb_state result) \<Rightarrow> cl_state \<Rightarrow> cl_state result" where
  "with_vb f s =
     bindR (f \<lparr>VerbosityMask = cl_mask s, vb_props = cl_props s\<rparr>) (\<lambda>v.
       Inr (s\<lparr>cl_mask := VerbosityMask v, cl_props := vb_props v\<rparr>))"

definition with_http :: "(http_state \<Rightarrow> ('a \<times> http_state) result) \<Rightarrow> cl_state \<Rightarrow> ('a \<times> cl_state) result" where
  "with_http f s =
     bindR (f ((cl_http s)\<lparr>ht_props := cl_props s\<rparr>)) (\<lambda>(a, ht).
       Inr (a, s\<lparr>cl_http := ht, cl_props := ht_props ht\<rparr>))"

definition andthen :: "('a \<Rightarrow> 'b result) \<Rightarrow> ('b \<Rightarrow> 'c result) \<Rightarrow> 'a \<Rightarrow> 'c result" where
  "andthen f g s = bindR (f s) g"

section \<open>The options\<close>

definition ROADMAP_DEFAULT_NAME :: string where "ROADMAP_DEFAULT_NAME = ''roadmap.cdb''"
definition DEVNULL :: string where "DEVNULL = ''/dev/null''"

definition cd_option :: "cl_env \<Rightarrow> string \<Rightarrow> cl_state \<Rightarrow> cl_state result" where
  "cd_option env arg s =
     bindR (util_substitute_params (cl_subst env (cl_props s)) arg) (\<lambda>(cd_to, _).
       if cl_chdir env cd_to then Inr (s\<lparr>cl_chdirs := cl_chdirs s @ [cd_to]\<rparr>) else Inl (Exit 2))"

definition log_temp_option :: "cl_env \<Rightarrow> prop_state \<Rightarrow> prop_state result" where
  "log_temp_option env st =
     bindR (prop_get_str st P_APP) (\<lambda>app. case app of
       None \<Rightarrow> Inl (Fault ''%s of NULL'')
     | Some a \<Rightarrow> bindR (prop_override_str st P_LOG_FILE (snprintf 1024 (a @ ''.'' @ fmt_lu (cl_pid env) @ ''.log''))) (\<lambda>st.
                   prop_override_ulong st P_LOG_FILE_TEMP 1))"

definition log_option :: "cl_env \<Rightarrow> string \<Rightarrow> prop_state \<Rightarrow> prop_state result" where
  "log_option env arg st =
     bindR (if first_char arg = CHR '':'' then prop_override_ulong st P_LOG_TIME_STAMP 1 else Inr st) (\<lambda>st.
       let arg = (if first_char arg = CHR '':'' then tl arg else arg)
       in prop_override_str st P_LOG_FILE
            (if putil_is_absolute arg then arg else case cl_realpath env arg of Some p \<Rightarrow> p | None \<Rightarrow> arg))"

definition output_option :: "string \<Rightarrow> prop_state \<Rightarrow> prop_state result" where
  "output_option arg st = prop_override_str st P_OUTPUT_FILE (if arg = ''@'' then DEVNULL else arg)"

definition quiet_option :: "cl_state \<Rightarrow> cl_state result" where
  "quiet_option s = with_vb (vb_addstr (Some ''-'')) (s\<lparr>QuietMode := True\<rparr>)"

definition download_silent :: "prop_state \<Rightarrow> prop_state result" where
  "download_silent st = prop_put_ulong (prop_unset st P_DOWNLOAD_ONLY False) P_DOWNLOAD_ONLY 2"

definition roadmap_option :: "prop_state \<Rightarrow> prop_state result" where
  "roadmap_option st = bindR (prop_override_str st P_ROADMAPFILE ROADMAP_DEFAULT_NAME) (\<lambda>st. prop_override_true st P_LEAVE_ROADMAP)"

definition restart_option :: "cl_env \<Rightarrow> cl_state \<Rightarrow> cl_state result" where
  "restart_option env s =
     bindR (with_http (http_restart (te_http (cl_tr env))) s) (\<lambda>(rc, s). if rc \<noteq> 0 then Inl (Exit (exit_status rc)) else Inr s)"

text \<open>
  The cases of the switch. \<open>optarg\<close> is the argument, which is there unless it is optional or the
  option takes none; \<open>arg\<close> is its text. A case without \<open>break\<close> goes on with the next one.
\<close>

definition main_switch1 :: "cl_env \<Rightarrow> string option \<Rightarrow> (int \<times> (cl_state \<Rightarrow> cl_state result)) list" where
  "main_switch1 env optarg =
     (let arg = (case optarg of Some a \<Rightarrow> a | None \<Rightarrow> []) in
      [(code_of (CHR ''1''), with_props (\<lambda>st. Inr (prop_unset st P_MAKE_ONESHELL False))),
       (code_of (CHR ''a''), with_props (\<lambda>st. prop_override_true st P_ABSOLUTE_PATHS)),
       (LF (CHR ''A'') (CHR ''G''), with_props (\<lambda>st. prop_override_str st P_AGGREGATION_STYLE arg)),
       (code_of (CHR ''A''), with_props (\<lambda>st. prop_override_true st P_AUDIT_ONLY)),
       (code_of (CHR ''c''), (\<lambda>s. Inr (s\<lparr>cl_make_clean := True\<rparr>))),
       (code_of (CHR ''C''), cd_option env arg),
       (LF (CHR ''C'') (CHR ''P''), with_props (\<lambda>st. prop_override_str st P_MONITOR_PLATFORM arg)),
       (code_of (CHR ''D''), with_props download_silent),
       (code_of (CHR ''d''), with_props (\<lambda>st. prop_override_true st P_DOWNLOAD_ONLY)),
       (LF (CHR ''D'') (CHR ''T''), (\<lambda>s. Inr (s\<lparr>cl_dscript := optarg\<rparr>))),
       (code_of (CHR ''E''), with_props (\<lambda>st. prop_put_long st P_STRICT_ERROR 1)),
       (code_of (CHR ''I''), with_props (\<lambda>st. prop_override_str st P_IDENTITY_HASH arg)),
       (code_of (CHR ''L''), with_props (log_temp_option env)),
       (LF (CHR ''L'') (CHR ''T''), (\<lambda>s. Inr (s\<lparr>cl_teeflag := True\<rparr>))),
       (LF (CHR ''L'') (CHR ''S''), with_props (\<lambda>st. prop_override_ulong st P_LOG_TIME_STAMP 1)),
       (code_of (CHR ''l''), with_props (log_option env arg)),
       (code_of (CHR ''F''), with_props (\<lambda>st. prop_override_str st P_MAKE_FILE arg)),
       (code_of (CHR ''G''), (\<lambda>s. with_props (\<lambda>st. prop_override_true st P_GIT) (s\<lparr>cl_no_server := True\<rparr>))),
       (code_of (CHR ''M''), with_props (\<lambda>st. prop_override_str st P_MAKE_DEPENDS (if optarg = None \<or> arg = ''D'' then ''d'' else arg))),
       (code_of (CHR ''m''), with_props (\<lambda>st. prop_override_true st P_MEMBERS_ONLY)),
       (code_of (CHR ''o''), (\<lambda>s. with_props (output_option arg) (s\<lparr>cl_no_server := True\<rparr>))),
       (code_of (CHR ''O''), with_props (output_option arg)),
       (code_of (CHR ''p''), with_props (\<lambda>st. prop_override_str st P_PROJECT_NAME arg)),
       (code_of (CHR ''P''), (\<lambda>s. Inr (s\<lparr>cl_pager := Some (case getenv ''PAGER'' (environ (cl_props s)) of Some p \<Rightarrow> p | None \<Rightarrow> ''less'')\<rparr>))),
       (LF (CHR ''P'') (CHR ''%''), with_props (\<lambda>st. Inr (st\<lparr>environ := putenv ''LD_PROFILE'' ''libAO.so'' (environ st)\<rparr>)))])"

definition main_switch2 :: "cl_env \<Rightarrow> string option \<Rightarrow> (int \<times> (cl_state \<Rightarrow> cl_state result)) list" where
  "main_switch2 env optarg =
     (let arg = (case optarg of Some a \<Rightarrow> a | None \<Rightarrow> []) in
      [(code_of (CHR ''Q''), andthen (with_props (\<lambda>st. prop_override_str st P_SERVER_LOG_LEVEL ''WARN'')) quiet_option),
       (code_of (CHR ''q''), quiet_option),
       (code_of (CHR ''R''), with_props (\<lambda>st. bindR (prop_override_true st P_REUSE_ROADMAP) (andthen download_silent roadmap_option))),
       (code_of (CHR ''r''), with_props roadmap_option),
       (LF (CHR ''R'') (CHR ''L''), restart_option env),
       (code_of (CHR ''s''), with_props (\<lambda>st. prop_override_str st P_SERVER arg)),
       (code_of (CHR ''S''), with_props (\<lambda>st. bindR (prop_put_ulong st P_STRICT 1) (\<lambda>st.
          bindR (prop_put_ulong st P_STRICT_DOWNLOAD 1) (\<lambda>st. prop_put_ulong st P_STRICT_UPLOAD 1)))),
       (LF (CHR ''s'') (CHR ''c''), (\<lambda>s. Inr (s\<lparr>cl_redo_script := optarg\<rparr>))),
       (code_of (CHR ''t''), with_props (\<lambda>st. prop_put_str (prop_unset st P_PRINT_ELAPSED True) P_PRINT_ELAPSED ''-1'')),
       (code_of (CHR ''u''), with_props (\<lambda>st. prop_override_ulong st P_UPLOAD_ONLY 1)),
       (code_of (CHR ''U''), with_props (\<lambda>st. prop_override_ulong st P_UNCOMPRESSED_TRANSFERS 1)),
       (code_of (CHR ''V''), andthen (with_props (\<lambda>st. Inr (prop_unexport st P_VERBOSITY True))) (with_vb (vb_addstr optarg))),
       (code_of (CHR ''v''), with_vb (vb_addstr optarg)),
       (LF (CHR ''D'') (CHR ''M''), (\<lambda>s. Inl (Exit 2))),
       (LF (CHR ''v'') (CHR ''n''), (\<lambda>s. Inl (Exit 0))),
       (code_of (CHR ''w''), with_vb (vb_addbit VB_WHY)),
       (code_of (CHR ''W''), with_props (add_wflag arg)),
       (code_of (CHR ''x''), with_vb (vb_addbit VB_EXEC)),
       (code_of (CHR ''X''), with_props (\<lambda>st. bindR (prop_override_true st P_EXECUTE_ONLY) (\<lambda>st.
          bindR (prop_put_ulong st P_PRINT_ELAPSED 1) (\<lambda>st. Inr (prop_unset st P_SERVER True))))),
       (code_of (CHR ''Y''), with_props (\<lambda>st. prop_override_true st P_SYNCHRONOUS_TRANSFERS)),
       (code_of (CHR ''h''), (\<lambda>s. Inl (Exit 0))),
       (LF (CHR ''P'') (CHR ''*''), (\<lambda>s. Inr (s\<lparr>cl_proplevel := (if first_char arg = CHR ''+'' then 1 else 0)\<rparr>))),
       (code_of (CHR ''H''), (\<lambda>s. Inr (s\<lparr>cl_proplevel := (if first_char arg = CHR ''+'' then 1 else 0)\<rparr>)))])"

definition main_switch :: "cl_env \<Rightarrow> string option \<Rightarrow> (int \<times> (cl_state \<Rightarrow> cl_state result)) list" where
  "main_switch env optarg = main_switch1 env optarg @ main_switch2 env optarg"

definition main_option :: "cl_env \<Rightarrow> int \<times> string option \<Rightarrow> cl_state \<Rightarrow> cl_state result" where
  "main_option env c_arg s =
     (case map_of (main_switch env (snd c_arg)) (fst c_arg) of Some f \<Rightarrow> f s | None \<Rightarrow> Inl (Exit 1))"

fun main_options :: "cl_env \<Rightarrow> (int \<times> string option) list \<Rightarrow> cl_state \<Rightarrow> cl_state result" where
  "main_options env [] s = Inr s"
| "main_options env (o1 # os) s = bindR (main_option env o1 s) (main_options env os)"

definition parse_command_line :: "cl_env \<Rightarrow> string list \<Rightarrow> cl_state \<Rightarrow> (string list \<times> cl_state) result" where
  \<comment> \<open>the words behind the options\<close>
  "parse_command_line env argv s =
     (let (os, go) = getopt_all main_short_opts main_long_opts argv
            (bsd_getopt_reset \<lparr>go_optind = 1, go_place = [], go_optarg = None, go_optopt = 0, go_optreset = False\<rparr>)
      in bindR (main_options env os s) (\<lambda>s. Inr (drop (go_optind go) argv, s)))"

section \<open>What follows from the options\<close>

definition make_clean_cmd :: "(string \<Rightarrow> bool) \<Rightarrow> bool \<Rightarrow> string list \<Rightarrow> string" where
  \<comment> \<open>\<open>_make_clean\<close>; the first argument is \<open>access(file, R_OK) == 0\<close>\<close>
  "make_clean_cmd readable quiet argv =
     (let clean = (case map_of (zip (butlast argv) (tl argv)) ''-f'' of
                     Some f \<Rightarrow> snprintf 1023 (''make -s -f '' @ f @ '' clean'')
                   | None \<Rightarrow> if \<not> readable ''Makefile'' \<and> \<not> readable ''makefile'' \<and> \<not> readable ''GNUmakefile'' \<and> readable ''build.xml''
                             then ''ant -q clean'' else ''make -s clean'')
      in clean @ '' >'' @ DEVNULL @ (if quiet then '' 2>&1'' else []))"

definition choose_action :: "string list \<Rightarrow> string \<times> string list" where
  "choose_action argv =
     (case argv of
        [] \<Rightarrow> (''help'', [])
      | action # rest \<Rightarrow>
          if list_ex (\<lambda>c. c \<in> set (''/'' @ [backslash] @ ''=+-'')) action \<or> has_substring ''make'' action
             \<or> util_pathcmp action ''sh'' = 0 \<or> util_pathcmp action ''vcbuild'' = 0
             \<or> util_pathcmp action ''msbuild'' = 0 \<or> util_pathcmp action ''ant'' = 0
          then (''run'', argv) else (action, rest))"

definition strip_version :: "string \<Rightarrow> string" where
  "strip_version name =
     (case split_at (CHR ''-'') name of Some (a, b) \<Rightarrow> if isdigit (first_char b) then a else name | None \<Rightarrow> name)"

definition default_project :: "prop_state \<Rightarrow> prop_state result" where
  "default_project st =
     (if prop_has_value st P_PROJECT_NAME then Inr st
      else bindR (prop_get_str st P_BASE_DIR) (\<lambda>pbase. case pbase of
             None \<Rightarrow> Inr st
           | Some b \<Rightarrow> let pjname = c_basename b
                       in if pjname = [] then Inr st else prop_put_str st P_PROJECT_NAME (strip_version pjname)))"

definition complete_server :: "string \<Rightarrow> string" where
  "complete_server svr =
     (if CHR '':'' \<in> set svr then svr
      else if isdigit (first_char svr) then snprintf 255 (''localhost:'' @ svr)
      else snprintf 255 (svr @ '':8080''))"

definition default_server :: "prop_state \<Rightarrow> prop_state result" where
  "default_server st =
     (if \<not> prop_has_value st P_SERVER then Inr st
      else bindR (prop_get_str st P_SERVER) (\<lambda>svr. case svr of
             None \<Rightarrow> Inl (Fault ''strchr of NULL'')
           | Some v \<Rightarrow> if CHR '':'' \<in> set v then Inr st else prop_override_str st P_SERVER (complete_server v)))"

definition main_settle :: "cl_state \<Rightarrow> cl_state result" where
  "main_settle s =
     with_props (\<lambda>st.
       bindR (default_project st) (\<lambda>st.
       let st = (if cl_no_server s then prop_unset st P_SERVER True else st)
       in bindR (if prop_has_value st P_MAKE_FILE \<and> \<not> prop_has_value st P_MAKE_DEPENDS
                 then prop_override_ulong st P_UPLOAD_ONLY 1 else Inr st) (\<lambda>st.
          default_server st))) s"

section \<open>A build\<close>

definition bad_cwd :: "string \<Rightarrow> bool" where
  "bad_cwd cwd = (4 \<le> length cwd \<and> util_pathcmp (drop (length cwd - 4) cwd) ''/tmp'' = 0)"

definition reserve_env :: "cl_env \<Rightarrow> prop_state \<Rightarrow> prop_state result" where
  \<comment> \<open>room in the environment for what the auditor will change\<close>
  "reserve_env env st =
     bindR (prop_put_ulong st P_DEPTH 0) (\<lambda>st.
     bindR (prop_put_ulong st P_PCMDID (cl_pid env)) (\<lambda>st.
     bindR (prop_put_str st P_PCCODE ''-'') (\<lambda>st. prop_put_ulong st P_AGGREGATED_SUBCMD 0)))"

fun env_words :: "string list \<Rightarrow> string list \<Rightarrow> (string list \<times> string list) result" where
  \<comment> \<open>settings in front of the command; the vector ends in NULL\<close>
  "env_words [] e = Inl (Fault ''strchr of NULL'')"
| "env_words (w # ws) e =
     (case split_at (CHR ''='') w of Some (k, v) \<Rightarrow> env_words ws (putenv k v e) | None \<Rightarrow> Inr (w # ws, e))"

definition run_logfile :: "cl_env \<Rightarrow> prop_state \<Rightarrow> string option result" where
  "run_logfile env st =
     bindR (prop_get_str st P_LOG_FILE) (\<lambda>l. case l of
       None \<Rightarrow> Inr None
     | Some f \<Rightarrow> bindR (util_substitute_params (cl_subst env st) f) (\<lambda>(t, _). Inr (Some t)))"

definition run_roadmap :: "cl_env \<Rightarrow> prop_state \<Rightarrow> prop_state result" where
  "run_roadmap env st =
     bindR (prop_get_str st P_ROADMAPFILE) (\<lambda>rmap. case rmap of
       Some r \<Rightarrow>
         if putil_is_absolute r then Inr st
         else (case cl_realpath env r of None \<Rightarrow> Inl (Exit 2) | Some p \<Rightarrow> prop_override_str st P_ROADMAPFILE p)
     | None \<Rightarrow> if prop_has_value st P_SERVER then prop_put_str st P_ROADMAPFILE (cl_tempnam env) else Inr st)"

definition run_session :: "cl_env \<Rightarrow> cl_state \<Rightarrow> cl_state result" where
  "run_session env s =
     (if \<not> prop_has_value (cl_props s) P_SERVER then Inr s
      else
        bindR (prop_is_true (cl_props s) P_REUSE_ROADMAP) (\<lambda>reuse.
        bindR (if reuse then Inr True else prop_is_true (cl_props s) P_UPLOAD_ONLY) (\<lambda>no_roadmap.
        bindR (if no_roadmap then Inr s else bindR (with_http (mon_get_roadmap (cl_tr env)) s) (\<lambda>(_, s). Inr s)) (\<lambda>s.
        bindR (with_http (mon_begin_session (cl_tr env)) s) (\<lambda>(rc, s).
          if rc \<noteq> 0 then Inl (Exit 2) else Inr s)))))"

definition redo_line :: "string \<Rightarrow> string result" where
  "redo_line e =
     (if first_char e = CHR ''_'' then Inr []
      else case split_at (CHR ''='') e of
             None \<Rightarrow> Inl (Fault ''read behind the setting'')
           | Some (k, v) \<Rightarrow> Inr ('': export '' @ k @ ''='' @ [CHR 0x27] @ v @ [CHR 0x27, newline]))"

fun redo_lines :: "string list \<Rightarrow> string result" where
  "redo_lines [] = Inr []"
| "redo_lines (e # es) = bindR (redo_line e) (\<lambda>t. bindR (redo_lines es) (\<lambda>ts. Inr (t @ ts)))"

definition redo_script :: "string option \<Rightarrow> string \<Rightarrow> string list \<Rightarrow> prop_state \<Rightarrow> string result" where
  \<comment> \<open>the first argument are the fields of \<open>putil_uname\<close>, joined by blanks\<close>
  "redo_script host cwd argv st =
     bindR (redo_lines (prop_custom_envA st (environ st))) (\<lambda>sets.
     bindR (util_requote_argv argv) (\<lambda>cmd.
       Inr (''#!/bin/sh'' @ [newline, newline]
            @ (case host of Some h \<Rightarrow> ''# Original host: '' @ h @ [newline, newline] | None \<Rightarrow> [])
            @ ''# Original environment settings:'' @ [newline] @ sets
            @ ''cd '' @ [CHR 0x27] @ cwd @ [CHR 0x27] @ '' || exit 2'' @ [newline]
            @ ''exec '' @ cmd @ [newline])))"

definition dtrace_argv :: "string option \<Rightarrow> string list \<Rightarrow> string list result" where
  "dtrace_argv dscript argv =
     (case dscript of
        None \<Rightarrow> Inr argv
      | Some d \<Rightarrow> bindR (util_requote_argv argv) (\<lambda>line. Inr [''dtrace'', ''-s'', d, ''-c'', line]))"

definition run_setup ::
  "cl_env \<Rightarrow> string option \<Rightarrow> string list \<Rightarrow> cl_state \<Rightarrow> out_state \<Rightarrow>
     (string list \<times> string option \<times> cl_state \<times> out_state) result" where
  \<comment> \<open>the command to run, the log file, and the state, up to the call of \<open>run_cmd\<close>\<close>
  "run_setup env exe argv s os =
     (if argv = [] then Inl (Exit 1)
      else case cl_cwd env of
        None \<Rightarrow> Inl (Exit 2)
      | Some cwd \<Rightarrow>
          bindR (if bad_cwd cwd then prop_is_true (cl_props s) P_EXECUTE_ONLY else Inr True) (\<lambda>ok.
          if \<not> ok then Inl (Exit 2)
          else
            bindR (with_props (reserve_env env) s) (\<lambda>s.
            bindR (env_words argv (environ (cl_props s))) (\<lambda>(argv, e).
            let s = s\<lparr>cl_props := (cl_props s)\<lparr>environ := e\<rparr>\<rparr> in
            bindR (run_logfile env (cl_props s)) (\<lambda>logfile.
            bindR (with_props (run_roadmap env) s) (\<lambda>s.
            bindR (run_session env s) (\<lambda>s.
            bindR (dtrace_argv (cl_dscript s) argv) (\<lambda>argv.
            bindR (make_init (cl_out env) exe (os\<lparr>os_props := cl_props s\<rparr>)) (\<lambda>os.
            bindR (prop_is_true (os_props os) P_GIT) (\<lambda>git.
            bindR (if git then git_init (cl_out env) os else Inr os) (\<lambda>os.
              Inr (argv, logfile, s\<lparr>cl_props := os_props os\<rparr>, os))))))))))))"

section \<open>Other actions\<close>

text \<open>The printing of properties: with the names, if messages are wanted.\<close>

fun property_action :: "string list \<Rightarrow> vb_state \<Rightarrow> (string \<times> vb_state) result" where
  "property_action [] v = Inr ([], v)"
| "property_action (a # as) v =
     bindR (vb_bitmatch (int VB_STD) v) (\<lambda>(std, v).
     bindR (prop_value_from_name (vb_props v) a) (\<lambda>str.
     bindR (property_action as v) (\<lambda>(t, v).
       Inr ((if std then a @ ''='' else []) @ (case str of Some x \<Rightarrow> x | None \<Rightarrow> []) @ [newline] @ t, v))))"

fun substitute_action :: "subst_env \<Rightarrow> string list \<Rightarrow> string result" where
  "substitute_action env [] = Inr []"
| "substitute_action env (a # as) =
     bindR (util_substitute_params env a) (\<lambda>(t, _). bindR (substitute_action env as) (\<lambda>ts. Inr (t @ [newline] @ ts)))"

definition label_opts :: "string \<times> long_option list" where
  "label_opts = (''+sli:p:'', map (\<lambda>(n, k, c). \<lparr>lo_name = n, lo_has_arg = k, lo_val = code_of c\<rparr>)
     [(''long'', no_argument, CHR ''l''), (''short'', no_argument, CHR ''s''),
      (''id'', required_argument, CHR ''i''), (''project-name'', required_argument, CHR ''p'')])"

definition label_action :: "string list \<Rightarrow> getopt_state \<Rightarrow> string result" where
  \<comment> \<open>the label; the words are those behind the action, which stands for the name of a program\<close>
  "label_action argv st =
     (let (os, st) = (if argv = [] then ([], bsd_getopt_reset st)
                      else getopt_all (fst label_opts) (snd label_opts) (''label'' # argv) (bsd_getopt_reset st))
      in case drop (go_optind st - 1) argv of
           [l] \<Rightarrow> Inr l
         | _ \<Rightarrow> Inl (Exit 2))"

fun skip_flags :: "string list \<Rightarrow> string list result" where
  \<comment> \<open>to the name and the files of \<open>namestate\<close>\<close>
  "skip_flags [] = Inl (Fault ''flag of NULL'')"
| "skip_flags [w] = Inr [w]"
| "skip_flags (w # x # ws) =
     (if first_char w \<noteq> CHR ''-'' then Inr (w # x # ws)
      else if w = ''-p'' \<or> w = ''-i'' then skip_flags ws
      else skip_flags (x # ws))"

definition namestate_targets :: "string list \<Rightarrow> (string \<times> string list) result" where
  "namestate_targets argv =
     bindR (skip_flags argv) (\<lambda>ws. case ws of
       name # f # fs \<Rightarrow> Inr (name, f # fs)
     | _ \<Rightarrow> Inl (Exit 2))"

end
