(* ===== verification/Putil.thy ===== *)
theory Putil
  imports Http Shop
begin

text \<open>
  The portability layer (\<open>src/Putil/putil.h\<close>): absolute paths, links, the search for programs; and
  the name of a file system (\<open>util_find_fsname\<close> in \<open>src/util.c\<close>). The branches are those for Linux.
\<close>

section \<open>What the system answers\<close>

text \<open>
  \<open>fv_realpath\<close> is \<open>realpath\<close>: the path, or the error with what it leaves in the buffer;
  \<open>fv_link\<close> is the target of a symbolic link. \<open>fv_behind_env\<close> is the text behind the environment
  block. \<open>fv_statfs\<close> is the number of the type of a file system, \<open>fv_mounts\<close> are the second and
  third word of the lines of \<open>/proc/mounts\<close>.
\<close>

record fs_view =
  fv_realpath :: "string \<Rightarrow> string + nat \<times> string"
  fv_getcwd :: "string option"
  fv_exists :: "string \<Rightarrow> bool"
  fv_executable :: "string \<Rightarrow> bool"
  fv_link :: "string \<Rightarrow> string option"
  fv_behind_env :: string
  fv_statfs :: "string \<Rightarrow> int option"
  fv_mounts :: "(string \<times> string) list"

definition ENOENT :: nat where "ENOENT = 2"

definition PATH_MAX :: nat where "PATH_MAX = 4096"

definition putil_path_max :: nat where "putil_path_max = PATH_MAX"

section \<open>Absolute paths\<close>

text \<open>
  The guess for a path that does not exist. \<open>charlen\<close> of a pointer is 8, the size of the pointer; so
  the room for the text is what is missing to 8 in what \<open>realpath\<close> left, as an unsigned number.
\<close>

definition guess_room :: "string \<Rightarrow> nat" where
  "guess_room left = unat (8 - of_nat (length left) :: u64)"

definition guess_text :: "string \<Rightarrow> string \<Rightarrow> string result" where
  "guess_text left text =
     (if guess_room left = 0 then Inr left
      else let t = snprintf (guess_room left) text
           in if putil_path_max + 1 \<le> length t then Inl (Fault ''write behind the buffer'') else Inr t)"

definition getcwd_into :: "fs_view \<Rightarrow> nat \<Rightarrow> string option" where
  "getcwd_into env room = (case fv_getcwd env of Some d \<Rightarrow> if length d < room then Some d else None | None \<Rightarrow> None)"

fun putil_realpath :: "nat \<Rightarrow> fs_view \<Rightarrow> bool \<Rightarrow> string \<Rightarrow> string option result" where
  "putil_realpath 0 env guess path = Inl (Fault ''stack'')"
| "putil_realpath (Suc n) env guess path =
     (case fv_realpath env path of
        Inl resolved \<Rightarrow>
          if putil_path_max + 1 \<le> length resolved then Inl (Abort ''realpath'')
          else Inr (if \<not> guess \<and> \<not> fv_exists env resolved then None else Some resolved)
      | Inr (errno, left) \<Rightarrow>
          if \<not> guess \<or> errno \<noteq> ENOENT then Inr None
          else if putil_is_absolute path then
            bindR (putil_realpath n env guess (c_dirname path)) (\<lambda>rbuf. case rbuf of
              None \<Rightarrow> Inr None
            | Some r \<Rightarrow> bindR (guess_text left (r @ ''/'' @ c_basename path)) (\<lambda>t. Inr (Some t)))
          else
            (case getcwd_into env (putil_path_max + 1 - 8 - 1) of
               None \<Rightarrow> Inr None
             | Some d \<Rightarrow> let t = d @ ''/'' @ path
                         in if putil_path_max + 1 \<le> length t then Inl (Fault ''write behind the buffer'') else Inr (Some t)))"

section \<open>Links\<close>

function readlink_loop :: "string \<Rightarrow> nat \<Rightarrow> string" where
  \<comment> \<open>the buffer is doubled while it is full\<close>
  "readlink_loop target len =
     (if 0 < len \<and> min len (length target) = len then readlink_loop target (len * 2) else take len target)"
  by pat_completeness auto

termination
  by (relation "measure (\<lambda>(target, len). length target + 1 - len)") auto

declare readlink_loop.simps [simp del]

definition putil_readlink :: "fs_view \<Rightarrow> string \<Rightarrow> string option" where
  "putil_readlink env path = map_option (\<lambda>t. readlink_loop t (length path + 1)) (fv_link env path)"

section \<open>Programs\<close>

text \<open>
  The directories of the search path in turn. Behind the last one \<open>continue\<close> goes on at the
  address 1. Names which begin with a dot stand for the current directory.
\<close>

fun search_dirs :: "fs_view \<Rightarrow> string \<Rightarrow> nat \<Rightarrow> string list \<Rightarrow> (nat \<times> string) result" where
  "search_dirs env prog buflen [] = Inl (Fault ''strchr of 1'')"
| "search_dirs env prog buflen (p # ps) =
     (let dir = (if first_char p = CHR ''/'' then Some p
                 else if first_char p = CHR ''.'' \<or> p = [] then getcwd_into env PATH_MAX
                 else None)
      in case dir of
           None \<Rightarrow> search_dirs env prog buflen ps
         | Some d \<Rightarrow>
             if buflen \<le> length d then Inl (Fault ''write behind the buffer'')
             else if buflen < length d + (length prog + 1) then Inr (length d + (length prog + 1), [])
             else if buflen = length d + (length prog + 1) then Inl (Fault ''write behind the buffer'')
             else if fv_executable env (d @ ''/'' @ prog) then Inr (length (d @ ''/'' @ prog), d @ ''/'' @ prog)
             else if ps = [] then Inr (0, []) else search_dirs env prog buflen ps)"

primrec colon_words :: "string \<Rightarrow> string list" where
  "colon_words [] = [[]]"
| "colon_words (c # s) = (if c = CHR '':'' then [] # colon_words s else (c # hd (colon_words s)) # tl (colon_words s))"

definition putil_searchpath ::
  "fs_view \<Rightarrow> string list \<Rightarrow> string option \<Rightarrow> string \<Rightarrow> nat \<Rightarrow> (nat \<times> string) result" where
  \<comment> \<open>the length, and the buffer; the second argument is the environment\<close>
  "putil_searchpath env vars srchpath prog buflen =
     (if CHR ''/'' \<in> set prog then
        bindR (putil_realpath (length prog + 2) env False prog) (\<lambda>rbuf. case rbuf of
          Some r \<Rightarrow> Inr (length (snprintf buflen r), snprintf buflen r)
        | None \<Rightarrow> Inr (0, []))
      else case (case srchpath of Some p \<Rightarrow> Some p | None \<Rightarrow> getenv ''PATH'' vars) of
             None \<Rightarrow> Inr (0, [])
           | Some p \<Rightarrow> search_dirs env prog buflen (colon_words p))"

definition exec_link :: "fs_view \<Rightarrow> string option" where
  \<comment> \<open>the link in \<open>/proc\<close>, or what the kernel keeps behind the environment\<close>
  "exec_link env =
     (case fv_link env ''/proc/self/exe'' of
        Some l \<Rightarrow> Some (take PATH_MAX l)
      | None \<Rightarrow> if first_char (fv_behind_env env) = CHR ''/'' then Some (fv_behind_env env) else None)"

definition putil_getexecpath :: "fs_view \<Rightarrow> string list \<Rightarrow> string option result" where
  "putil_getexecpath env vars =
     (case exec_link env of
        None \<Rightarrow> Inr None
      | Some buf \<Rightarrow>
          if putil_is_absolute buf then
            (if PATH_MAX \<le> length buf then Inl (Fault ''write behind the buffer'') else Inr (Some buf))
          else
            bindR (putil_searchpath env vars None buf PATH_MAX) (\<lambda>(len, pbuf).
              if len \<noteq> 0 then Inr (Some pbuf)
              else if fv_executable env buf then
                (case getcwd_into env PATH_MAX of
                   None \<Rightarrow> Inl (Exit 1)
                 | Some d \<Rightarrow> if PATH_MAX \<le> length (d @ ''/'' @ buf) then Inl (Fault ''write behind the buffer'')
                             else Inr (Some (d @ ''/'' @ buf)))
              else Inr None))"

definition putil_prog :: "fs_view \<Rightarrow> string list \<Rightarrow> string result" where
  \<comment> \<open>what is behind the last slash of either kind\<close>
  "putil_prog env vars =
     bindR (putil_getexecpath env vars) (\<lambda>me. case me of
       None \<Rightarrow> Inr ''????''
     | Some m \<Rightarrow> Inr (rev (takeWhile (\<lambda>c. c \<noteq> CHR ''/'' \<and> c \<noteq> backslash) (rev m))))"

definition putil_canon_path :: "string \<Rightarrow> nat option \<Rightarrow> string" where
  \<comment> \<open>in place, or with the length of another buffer\<close>
  "putil_canon_path path len = (case len of None \<Rightarrow> path | Some n \<Rightarrow> take n path)"

definition putil_path_strstr :: "string \<Rightarrow> string \<Rightarrow> string option" where
  "putil_path_strstr s1 s2 = drop_to s2 s1"

definition putil_prepend2argv :: "string list \<Rightarrow> string list \<Rightarrow> string list" where
  "putil_prepend2argv argv extras = extras @ argv"

definition putil_tmpdir :: "string list \<Rightarrow> nat \<Rightarrow> string" where
  "putil_tmpdir vars tlen =
     snprintf tlen ((case getenv ''TMPDIR'' vars of Some t \<Rightarrow> t | None \<Rightarrow> ''/tmp'') @ ''/'')"

section \<open>The name of a file system\<close>

text \<open>
  The static table has the types of the mounted file systems, as far as they were seen, with
  their names.
\<close>

type_synonym fs_map = "(int \<times> string) list"

definition lsearch :: "int \<times> string \<Rightarrow> fs_map \<Rightarrow> fs_map result" where
  "lsearch node m =
     (if map_of m (fst node) \<noteq> None then Inr m
      else if 128 \<le> length m then Inl (Fault ''write behind the table'') else Inr (m @ [node]))"

fun read_mounts :: "fs_view \<Rightarrow> (string \<times> string) list \<Rightarrow> fs_map \<Rightarrow> fs_map result" where
  "read_mounts env [] m = Inr m"
| "read_mounts env ((dir, ty) # ms) m =
     (if ty = ''rootfs'' then read_mounts env ms m
      else case fv_statfs env dir of
             None \<Rightarrow> read_mounts env ms m
           | Some t \<Rightarrow> if 32 \<le> length ty then Inl (Fault ''write behind the name'')
                       else bindR (lsearch (t, ty) m) (read_mounts env ms))"

fun util_find_fsname :: "nat \<Rightarrow> fs_view \<Rightarrow> string \<Rightarrow> fs_map \<Rightarrow> (string \<times> fs_map) result" where
  "util_find_fsname 0 env path m = Inl (Fault ''stack'')"
| "util_find_fsname (Suc n) env path m =
     (if \<not> fv_exists env path then util_find_fsname n env (c_dirname path) m
      else case fv_statfs env path of
             None \<Rightarrow> Inr (''??fs'', m)
           | Some t \<Rightarrow>
               (case map_of m t of
                  Some name \<Rightarrow> Inr (name, m)
                | None \<Rightarrow> bindR (read_mounts env (fv_mounts env) m) (\<lambda>m.
                            Inr (case map_of m t of Some name \<Rightarrow> name | None \<Rightarrow> ''??fs'', m))))"

end
