(* ===== verification/Actions.thy ===== *)
theory Actions
  imports CommandLine Putil
begin

text \<open>
  The actions of the main program (\<open>do_action\<close> and the end of \<open>main\<close> in \<open>src/aotool.c\<close>), with those
  that the server does (\<open>http_action\<close>, \<open>http_label\<close>, \<open>http_namestate\<close> in \<open>src/http.c\<close>) and the
  output file (\<open>src/util.c\<close>).
\<close>

section \<open>State\<close>

text \<open>
  Where the output goes: \<open>Out_file\<close> has the name of the file and that of the temporary file which
  takes its place until the end. \<open>as_text\<close> is what was printed. The properties are those of
  \<open>as_cl\<close>; \<open>ae_stat\<close> is the mode told by \<open>stat64\<close>, \<open>ae_open\<close> says whether a file can be opened.
\<close>

datatype out_stream = Out_stdout | Out_stderr | Out_null | Out_file string string

record 'h act_state =
  as_cl :: cl_state
  as_world :: "'h shop_world"
  as_out :: "out_stream option"
  as_text :: string

record 'h act_env =
  ae_cl :: cl_env
  ae_shop :: "'h shop_env"
  ae_git :: git_env
  ae_stat :: "string \<Rightarrow> u32 option"
  ae_open :: "string \<Rightarrow> bool"

abbreviation ae_http :: "'h act_env \<Rightarrow> http_env" where
  "ae_http env \<equiv> te_http (cl_tr (ae_cl env))"

abbreviation ae_pn :: "'h act_env \<Rightarrow> pn_env" where
  "ae_pn env \<equiv> ce_pn (se_ca (ae_shop env))"

abbreviation as_props :: "'h act_state \<Rightarrow> prop_state" where
  "as_props s \<equiv> cl_props (as_cl s)"

definition act_props :: "prop_state \<Rightarrow> 'h act_state \<Rightarrow> 'h act_state" where
  "act_props st s = s\<lparr>as_cl := (as_cl s)\<lparr>cl_props := st\<rparr>\<rparr>"

definition act_print :: "string \<Rightarrow> 'h act_state \<Rightarrow> 'h act_state" where
  "act_print t s = s\<lparr>as_text := as_text s @ t\<rparr>"

definition act_ps_stat :: "'h act_env \<Rightarrow> path_state_s \<Rightarrow> 'h act_state \<Rightarrow> (int \<times> path_state_s \<times> 'h act_state) result" where
  "act_ps_stat env ps s =
     bindR (ps_stat (sw_sys (ae_shop env) (as_world s)) (sw_dcode (as_world s)) ps True) (\<lambda>(rc, ps, dc).
       Inr (rc, ps, s\<lparr>as_world := (as_world s)\<lparr>sw_dcode := dc\<rparr>\<rparr>))"

section \<open>The output file\<close>

definition tmp_name :: "cl_env \<Rightarrow> string \<Rightarrow> string" where
  "tmp_name env f = f @ ''.'' @ fmt_lu (cl_pid env) @ ''.tmp''"

definition util_open_output_file ::
  "cl_env \<Rightarrow> (string \<Rightarrow> bool) \<Rightarrow> string \<Rightarrow> out_stream option \<Rightarrow> prop_state \<Rightarrow> (out_stream \<times> prop_state) result" where
  "util_open_output_file env opens ofile stream st =
     (case stream of
        Some o1 \<Rightarrow> Inr (o1, st)
      | None \<Rightarrow>
          if ofile = ''-'' then Inr (Out_stdout, st)
          else if ofile = ''='' then Inr (Out_stderr, st)
          else if ofile = DEVNULL then (if opens ofile then Inr (Out_null, st) else Inl (Exit 2))
          else
            bindR (util_substitute_params (cl_subst env st) ofile) (\<lambda>(obuf, _).
            case cl_realpath env obuf of
              None \<Rightarrow> Inl (Exit 2)
            | Some abuf \<Rightarrow>
                bindR (prop_override_str st P_OUTPUT_FILE abuf) (\<lambda>st.
                  if opens (tmp_name env abuf) then Inr (Out_file (snprintf PATH_MAX abuf) (tmp_name env abuf), st)
                  else Inl (Exit 2))))"

definition util_finalize_output_file :: "cl_env \<Rightarrow> out_stream \<Rightarrow> (string \<rightharpoonup> string) \<Rightarrow> (string \<rightharpoonup> string)" where
  \<comment> \<open>what becomes of the files at the end: the unlink, and the rename, which may fail\<close>
  "util_finalize_output_file env stream files =
     (case stream of
        Out_file f _ \<Rightarrow>
          if f = [] then files
          else (let files = files(f := None)
                in case files (tmp_name env f) of
                     None \<Rightarrow> files
                   | Some t \<Rightarrow> files(tmp_name env f := None, f \<mapsto> t))
      | _ \<Rightarrow> files)"

section \<open>Actions of the server\<close>

definition arg_param :: "'h act_env \<Rightarrow> string \<Rightarrow> string \<Rightarrow> string" where
  "arg_param env w url = http_add_param (he_escape (ae_http env)) ''ARGS'' (Some w) url"

definition action_flags :: "'h act_env \<Rightarrow> prop_state \<Rightarrow> string \<Rightarrow> string result" where
  "action_flags env st url =
     bindR (prop_is_true st P_ABSOLUTE_PATHS) (\<lambda>a.
     bindR (prop_is_true st P_MEMBERS_ONLY) (\<lambda>m.
       let url = (if a then arg_param env ''-a'' url else url)
       in Inr (if m then arg_param env ''-m'' url else url)))"

definition getopt_start :: getopt_state where
  \<comment> \<open>the static variables; what else they hold makes no difference\<close>
  "getopt_start = bsd_getopt_reset \<lparr>go_optind = 1, go_place = [], go_optarg = None, go_optopt = 0, go_optreset = False\<rparr>"

definition action_project :: "string list \<Rightarrow> string option" where
  \<comment> \<open>the word in front, the action, is not looked at\<close>
  "action_project argv =
     (let (os, _) = getopt_through ''+p:'' [\<lparr>lo_name = ''project-name'', lo_has_arg = required_argument, lo_val = code_of (CHR ''p'')\<rparr>]
                      ([] # argv) getopt_start
      in case filter (\<lambda>o1. fst o1 = code_of (CHR ''p'')) os of [] \<Rightarrow> None | ps \<Rightarrow> snd (last ps))"

fun action_words ::
  "'h act_env \<Rightarrow> bool \<Rightarrow> string list \<Rightarrow> string \<times> http_request \<times> int \<times> 'h act_state \<Rightarrow>
     (string \<times> http_request \<times> int \<times> 'h act_state) result" where
  "action_words env statfiles [] acc = Inr acc"
| "action_words env statfiles (w # ws) (url, rq, rc, s) =
     (let url = arg_param env w url
      in if \<not> statfiles then action_words env statfiles ws (url, rq, rc, s)
         else
           bindR (act_ps_stat env (ps_newFromPath (ae_pn env) w) s) (\<lambda>(r, ps, s).
             if r \<noteq> 0 then action_words env statfiles ws (url, rq, 1, s)
             else bindR (ps_toCSVString ps) (\<lambda>psbuf.
                    action_words env statfiles ws (url, http_add_header ''X-PathState'' psbuf rq, rc, s))))"

definition action_params :: "'h act_env \<Rightarrow> prop_state \<Rightarrow> string option \<Rightarrow> string \<Rightarrow> string result" where
  "action_params env st projname url =
     (let add = http_add_param (he_escape (ae_http env)) in
      bindR (prop_get_str st P_MONITOR_PLATFORM) (\<lambda>platform.
      bindR (case projname of Some p \<Rightarrow> Inr (Some p) | None \<Rightarrow> prop_get_str st P_PROJECT_NAME) (\<lambda>proj.
      bindR (prop_get_str st P_BASE_DIR) (\<lambda>base.
        Inr (add ''rwd'' (util_get_rwd (cl_cwd (ae_cl env)) base)
              (add ''project_name'' proj (add ''client_platform'' platform url)))))))"

definition action_output :: "'h act_env \<Rightarrow> 'h act_state \<Rightarrow> 'h act_state result" where
  "action_output env s =
     bindR (prop_get_str (as_props s) P_OUTPUT_FILE) (\<lambda>ofile. case ofile of
       None \<Rightarrow> Inr s
     | Some f \<Rightarrow>
         bindR (util_open_output_file (ae_cl env) (ae_open env) f (as_out s) (as_props s)) (\<lambda>(o1, st).
           Inr (act_props st (s\<lparr>as_out := Some o1\<rparr>))))"

definition action_exchange :: "'h act_env \<Rightarrow> http_request \<Rightarrow> int \<Rightarrow> http_state \<Rightarrow> int \<times> http_state" where
  \<comment> \<open>the body is handled while it arrives, and an error in it changes the return code\<close>
  "action_exchange env rq rc ht =
     (let (failed, r, ht) = http_connect (ae_http env) rq ht;
          bs = foldl (\<lambda>bs x. http_stream_body x bs) ((ht_body ht)\<lparr>bs_rc := Some rc\<rparr>) (hr_body r);
          rc = the (bs_rc bs)
      in (if failed \<and> rc = 0 then 2 else rc, ht\<lparr>ht_body := bs\<rparr>))"

definition http_action_connect ::
  "'h act_env \<Rightarrow> string list \<Rightarrow> bool \<Rightarrow> string \<Rightarrow> 'h act_state \<Rightarrow> (int \<times> 'h act_state) result" where
  "http_action_connect env argv statfiles url s =
     bindR (action_flags env (as_props s) url) (\<lambda>url.
     bindR (with_http (http_get_curl_handle (ae_http env)) (as_cl s)) (\<lambda>(rq, cl).
     bindR (if argv = [] then Inr (arg_param env [] url, rq, 0, s\<lparr>as_cl := cl\<rparr>)
            else action_words env statfiles argv (url, rq, 0, s\<lparr>as_cl := cl\<rparr>)) (\<lambda>(url, rq, rc, s).
     bindR (action_params env (as_props s) (if argv = [] then None else action_project argv) url) (\<lambda>url.
     bindR (action_output env s) (\<lambda>s.
     bindR (with_http (\<lambda>ht. Inr (action_exchange env (rq\<lparr>rq_url := url\<rparr>) rc ht)) (as_cl s)) (\<lambda>(rc, cl).
       Inr (rc, s\<lparr>as_cl := cl\<rparr>)))))))"

definition http_label :: "'h act_env \<Rightarrow> string \<Rightarrow> string list \<Rightarrow> 'h act_state \<Rightarrow> (int \<times> 'h act_state) result" where
  "http_label env label argv s =
     bindR (http_make_url_pfx (as_props s) (Some ''action'') ''label'') (\<lambda>url.
       http_action_connect env argv False (http_add_param (he_escape (ae_http env)) ''label'' (Some label) url) s)"

definition http_namestate :: "'h act_env \<Rightarrow> string \<Rightarrow> string \<Rightarrow> string list \<Rightarrow> 'h act_state \<Rightarrow> (int \<times> 'h act_state) result" where
  "http_namestate env name pathstate argv s =
     (let add = http_add_param (he_escape (ae_http env)) in
      bindR (http_make_url_pfx (as_props s) (Some ''action'') ''namestate'') (\<lambda>url.
        http_action_connect env argv False (add ''pathstate'' (Some pathstate) (add ''name'' (Some name) url)) s))"

definition http_action :: "'h act_env \<Rightarrow> string \<Rightarrow> string list \<Rightarrow> bool \<Rightarrow> 'h act_state \<Rightarrow> (int \<times> 'h act_state) result" where
  "http_action env action argv statfiles s =
     bindR (http_make_url_pfx (as_props s) (Some ''action'') action) (\<lambda>url.
       http_action_connect env argv statfiles url s)"

section \<open>Actions on files\<close>

text \<open>\<open>_name_pathstate\<close>: the file as it is named, or below the base directory of the project.\<close>

definition name_target :: "'h act_env \<Rightarrow> string \<Rightarrow> 'h act_state \<Rightarrow> (string \<times> u32) option result" where
  "name_target env path s =
     (case ae_stat env path of
        Some mode \<Rightarrow> Inr (Some (path, mode))
      | None \<Rightarrow>
          if putil_is_absolute path then Inr None
          else
            bindR (prop_get_str (as_props s) P_BASE_DIR) (\<lambda>base. case base of
              None \<Rightarrow> Inl (Fault ''%s of NULL'')
            | Some b \<Rightarrow> let abspath = b @ ''/'' @ path
                        in Inr (map_option (\<lambda>mode. (abspath, mode)) (ae_stat env abspath))))"

definition name_pathstate ::
  "'h act_env \<Rightarrow> string \<Rightarrow> string list \<Rightarrow> string \<Rightarrow> 'h act_state \<Rightarrow> (int \<times> 'h act_state) result" where
  "name_pathstate env name argv path s =
     bindR (name_target env path s) (\<lambda>target. case target of
       None \<Rightarrow> Inr (2, s)
     | Some (file, mode) \<Rightarrow>
         if S_IFMT mode \<noteq> 0x8000 then Inr (2, s)
         else
           bindR (act_ps_stat env (ps_newFromPath (ae_pn env) file) s) (\<lambda>(r, ps, s).
             if r \<noteq> 0 then Inr (2, s)
             else bindR (ps_toCSVString ps) (\<lambda>psbuf. http_namestate env name psbuf argv s)))"

fun name_all ::
  "'h act_env \<Rightarrow> string \<Rightarrow> string list \<Rightarrow> string list \<Rightarrow> int \<Rightarrow> 'h act_state \<Rightarrow> (int \<times> 'h act_state) result" where
  "name_all env name argv [] rc s = Inr (rc, s)"
| "name_all env name argv (p # ps) rc s =
     bindR (name_pathstate env name argv p s) (\<lambda>(r, s). name_all env name argv ps (if r \<noteq> 0 then 2 else rc) s)"

definition namestate_action :: "'h act_env \<Rightarrow> string list \<Rightarrow> 'h act_state \<Rightarrow> (int \<times> 'h act_state) result" where
  "namestate_action env argv s =
     bindR (namestate_targets argv) (\<lambda>(name, targets). name_all env name argv targets 0 s)"

text \<open>
  The options of an action, whose loop ends at an error, and the words behind them; an empty
  vector is not looked at.
\<close>

definition action_options ::
  "string \<Rightarrow> (string \<times> arg_kind \<times> char) list \<Rightarrow> string list \<Rightarrow> (int \<times> string option) list \<times> string list" where
  "action_options short_opts longs argv =
     (if argv = [] then ([], [])
      else
        let (os, go) = getopt_all short_opts
              (map (\<lambda>(n, k, c). \<lparr>lo_name = n, lo_has_arg = k, lo_val = code_of c\<rparr>) longs) ([] # argv) getopt_start
        in (os, drop (go_optind go - 1) argv))"

definition stat_one ::
  "'h act_env \<Rightarrow> bool \<Rightarrow> bool \<Rightarrow> bool \<Rightarrow> string \<Rightarrow> int \<times> 'h act_state \<Rightarrow> (int \<times> 'h act_state) result" where
  \<comment> \<open>the flags for the long form, the short form, and for what a link refers to\<close>
  "stat_one env lflag sflag deref w = (\<lambda>(rc, s).
     let ps = ps_newFromPath (ae_pn env) w in
     bindR (ps_get_abs ps) (\<lambda>path.
     case (if deref then ae_stat env path
           else map_option st_mode (sys_lstat (sw_sys (ae_shop env) (as_world s)) path)) of
       None \<Rightarrow> Inr (rc, s)
     | Some mode \<Rightarrow>
         if S_IFMT mode \<noteq> 0x8000 \<and> S_IFMT mode \<noteq> 0xA000 then Inr (rc, s)
         else
           bindR (act_ps_stat env ps s) (\<lambda>(r, ps, s).
             if r \<noteq> 0 then Inr (1, s)
             else
               bindR (prop_is_true (as_props s) P_ABSOLUTE_PATHS) (\<lambda>absolute.
               bindR (ps_format_user absolute ps lflag sflag (putil_path_max + 256 + 1)) (\<lambda>(buf, _).
                 Inr (rc, act_print buf s))))))"

fun stat_all ::
  "'h act_env \<Rightarrow> bool \<Rightarrow> bool \<Rightarrow> bool \<Rightarrow> string list \<Rightarrow> int \<times> 'h act_state \<Rightarrow> (int \<times> 'h act_state) result" where
  "stat_all env lflag sflag deref [] acc = Inr acc"
| "stat_all env lflag sflag deref (w # ws) acc =
     bindR (stat_one env lflag sflag deref w acc) (stat_all env lflag sflag deref ws)"

definition opt_given :: "char \<Rightarrow> (int \<times> string option) list \<Rightarrow> bool" where
  "opt_given c os = list_ex (\<lambda>o1. fst o1 = code_of c) os"

definition stat_action :: "'h act_env \<Rightarrow> string list \<Rightarrow> 'h act_state \<Rightarrow> (int \<times> 'h act_state) result" where
  "stat_action env argv s =
     (let (os, ws) = action_options ''+alsL'' [(''absolute-paths'', no_argument, CHR ''a''), (''long'', no_argument, CHR ''l''),
            (''short'', no_argument, CHR ''s''), (''dereference'', no_argument, CHR ''L'')] argv
      in bindR (if opt_given (CHR ''a'') os then prop_override_true (as_props s) P_ABSOLUTE_PATHS else Inr (as_props s)) (\<lambda>st.
           stat_all env (opt_given (CHR ''l'') os) (opt_given (CHR ''s'') os) (opt_given (CHR ''L'') os) ws (0, act_props st s)))"

text \<open>
  \<open>hash-object\<close> prints the hash of a file, or stores the file in the repository; the result is
  \<open>None\<close> while that is being written.
\<close>

definition hash_object_ps ::
  "'h act_env \<Rightarrow> string list \<Rightarrow> 'h act_state \<Rightarrow> (bool \<times> path_state_s \<times> 'h act_state) result" where
  \<comment> \<open>whether it is to be stored\<close>
  "hash_object_ps env argv s =
     (let (os, ws) = action_options ''+s:w'' [(''sha1'', required_argument, CHR ''s''), (''write'', no_argument, CHR ''w'')] argv
      in case ws of
           [] \<Rightarrow> Inl (Abort ''path'')
         | w # _ \<Rightarrow>
             let ps = ps_newFromPath (ae_pn env) w; write_flag = opt_given (CHR ''w'') os
             in case filter (\<lambda>o1. fst o1 = code_of (CHR ''s'')) os of
                  [] \<Rightarrow> bindR (act_ps_stat env ps s) (\<lambda>(r, ps, s).
                          if r \<noteq> 0 then Inl (Exit 2) else Inr (write_flag, ps, s))
                | ds \<Rightarrow> Inr (write_flag, ps\<lparr>ps_dcode := set_str (snd (last ds))\<rparr>, s))"

definition hash_object_action :: "'h act_env \<Rightarrow> string list \<Rightarrow> 'h act_state \<Rightarrow> (int \<times> 'h act_state) result option" where
  "hash_object_action env argv s =
     (case hash_object_ps env argv s of
        Inl e \<Rightarrow> Some (Inl e)
      | Inr (write_flag, ps, s) \<Rightarrow>
          if write_flag then
            map_option (\<lambda>r. bindR r (\<lambda>(_, w). Inr (0, s\<lparr>as_world := w\<rparr>)))
              (git_store_blob (ae_shop env) (ae_git env) (as_props s) ps (as_world s))
          else Some (Inr (0, act_print (ps_get_dcode ps @ [newline]) s)))"

section \<open>Shopping by hand, and the roadmap\<close>

fun shop_flags :: "string list \<Rightarrow> bool \<times> bool \<times> string list" where
  "shop_flags [] = (False, False, [])"
| "shop_flags (w # ws) =
     (if first_char w \<noteq> CHR ''-'' then (False, False, w # ws)
      else let (c, g, r) = shop_flags ws in (w = ''-C'' \<or> c, w = ''-G'' \<or> g, r))"

definition shop_ca :: "'h act_env \<Rightarrow> prop_state \<Rightarrow> cmd_audit_s result" where
  "shop_ca env st =
     bindR (prop_get_str st P_PROGNAME) (\<lambda>prog.
     bindR (prop_get_ulong st P_PCMDID) (\<lambda>pcmdid.
     bindR (prop_get_str st P_BASE_DIR) (\<lambda>base.
       Inr (ca_new\<lparr>ca_pccode := set_str (Some ''-''), ca_prog := set_str prog, ca_host := set_str (Some ''localhost''),
                   ca_cmdid := cl_pid (ae_cl env), ca_pcmdid := pcmdid,
                   ca_rwd := set_str (util_get_rwd (cl_cwd (ae_cl env)) base), ca_started := True\<rparr>))))"

definition shop_code :: "shop_e \<Rightarrow> int" where
  "shop_code rc = (case rc of SHOP_ERR \<Rightarrow> 0 | SHOP_OFF \<Rightarrow> 1 | SHOP_NOMATCH \<Rightarrow> 2 | SHOP_NOMATCH_AGG \<Rightarrow> 3
     | SHOP_MUSTRUN \<Rightarrow> 4 | SHOP_MUSTRUN_AGG \<Rightarrow> 5 | SHOP_RECYCLED \<Rightarrow> 6)"

definition shop_action :: "'h act_env \<Rightarrow> string list \<Rightarrow> 'h act_state \<Rightarrow> (int \<times> 'h act_state) result" where
  "shop_action env argv s =
     (let (cflag, gflag, ws) = shop_flags argv; se = ae_shop env
      in if ws = [] then Inl (Exit 2)
         else
           bindR (roadmap_option (as_props s)) (\<lambda>st.
           bindR (shop_ca env st) (\<lambda>ca.
           bindR (with_vb (vb_addbit VB_SHOP) ((as_cl s)\<lparr>cl_props := st\<rparr>)) (\<lambda>cl.
           bindR (with_vb (vb_addbit VB_WHY) cl) (\<lambda>cl.
           bindR (shop_init se ((as_world s)\<lparr>sw_props := cl_props cl\<rparr>)) (\<lambda>w.
           bindR (if cflag then shop se ca (Some (hd ws)) gflag w
                  else bindR (util_requote_argv ws) (\<lambda>line. shop se (ca_set_line (se_ca se) ca (Some line)) None gflag w)) (\<lambda>(rc, _, w).
           bindR (shop_fini se w) (\<lambda>w.
             Inr (shop_code rc, s\<lparr>as_cl := cl\<lparr>cl_props := sw_props w\<rparr>, as_world := w\<rparr>)))))))))"

definition roadmap_action :: "'h act_env \<Rightarrow> 'h act_state \<Rightarrow> (int \<times> 'h act_state) result" where
  \<comment> \<open>the file of the roadmap is left out\<close>
  "roadmap_action env s =
     bindR (with_props roadmap_option (as_cl s)) (\<lambda>cl.
     bindR (with_http (mon_get_roadmap (cl_tr (ae_cl env))) cl) (\<lambda>(_, cl). Inr (0, s\<lparr>as_cl := cl\<rparr>)))"

section \<open>The choice of the action\<close>

datatype action_kind = Act_property | Act_substitute | Act_hash_object | Act_stat | Act_about | Act_help
  | Act_label | Act_namestate | Act_restart | Act_server bool

definition action_kind :: "string \<Rightarrow> string list \<Rightarrow> action_kind" where
  "action_kind action argv =
     (if action = ''Property'' \<or> action = ''property'' then Act_property
      else if action = ''Substitute'' \<or> action = ''substitute'' then Act_substitute
      else if action = ''hash-object'' then Act_hash_object
      else if action = ''Stat'' \<or> action = ''stat'' then Act_stat
      else if action = ''about'' then Act_about
      else if argv \<noteq> [] \<and> (hd argv = ''-h'' \<or> hd argv = ''--help'') then Act_help
      else if action = ''label'' then Act_label
      else if strneq0 action ''namestate'' 4 then Act_namestate
      else if action = ''Admin'' then (if argv \<noteq> [] \<and> hd argv = ''restart'' then Act_restart else Act_server False)
      else Act_server (strneq0 action ''lsb'' 3))"

definition about_action :: "'h act_env \<Rightarrow> string list \<Rightarrow> 'h act_state \<Rightarrow> (int \<times> 'h act_state) result" where
  \<comment> \<open>without the texts it prints itself\<close>
  "about_action env argv s =
     (if opt_given (CHR ''s'') (fst (action_options ''+s'' [(''short'', no_argument, CHR ''s'')] argv)) then Inr (0, s)
      else
        bindR (with_http (http_ping (ae_http env)) (as_cl s)) (\<lambda>(rc, cl).
          let s = s\<lparr>as_cl := cl\<rparr>
          in if rc \<noteq> 0 then Inr (rc, s) else http_action env ''about'' argv False s))"

definition do_action :: "'h act_env \<Rightarrow> string \<Rightarrow> string list \<Rightarrow> 'h act_state \<Rightarrow> (int \<times> 'h act_state) result option" where
  "do_action env action argv s =
     (case action_kind action argv of
        Act_property \<Rightarrow>
          Some (bindR (property_action argv \<lparr>VerbosityMask = cl_mask (as_cl s), vb_props = as_props s\<rparr>) (\<lambda>(t, v).
            Inr (0, act_print t (s\<lparr>as_cl := (as_cl s)\<lparr>cl_mask := VerbosityMask v, cl_props := vb_props v\<rparr>\<rparr>))))
      | Act_substitute \<Rightarrow>
          Some (bindR (substitute_action (cl_subst (ae_cl env) (as_props s)) argv) (\<lambda>t. Inr (0, act_print t s)))
      | Act_hash_object \<Rightarrow> hash_object_action env argv s
      | Act_stat \<Rightarrow> Some (stat_action env argv s)
      | Act_about \<Rightarrow> Some (about_action env argv s)
      | Act_help \<Rightarrow> Some (http_action env action argv False s)
      | Act_label \<Rightarrow>
          Some (bindR (label_action argv getopt_start) (\<lambda>l.
                bindR (http_label env l argv s) (\<lambda>(rc, s). Inr (if rc \<noteq> 0 then 2 else 0, s))))
      | Act_namestate \<Rightarrow> Some (namestate_action env argv s)
      | Act_restart \<Rightarrow> Some (bindR (with_http (http_restart (ae_http env)) (as_cl s)) (\<lambda>(rc, cl). Inr (rc, s\<lparr>as_cl := cl\<rparr>)))
      | Act_server statfiles \<Rightarrow> Some (http_action env action argv statfiles s))"

end
