(* ===== verification/GetoptProofs.thy ===== *)
theory GetoptProofs
  imports Getopt
begin

text \<open>
  What the reading of a command line recognises: options written in any of the ways there are
  for them come out as they were meant, and what follows them is left.
\<close>

section \<open>Ways to write options\<close>

text \<open>
  Letters in one word; letters the last of which has an argument, left out, in the same or in the
  next word; long options without an argument, or with one in the same or in the next word.
\<close>

datatype opt_word =
    Letters string
  | LettersOpt string char
  | LettersArg string char string
  | LettersSep string char string
  | Long string
  | LongArg string string
  | LongSep string string

fun word_text :: "opt_word \<Rightarrow> string list" where
  "word_text (Letters cs) = [CHR ''-'' # cs]"
| "word_text (LettersOpt cs c) = [CHR ''-'' # cs @ [c]]"
| "word_text (LettersArg cs c v) = [CHR ''-'' # cs @ c # v]"
| "word_text (LettersSep cs c v) = [CHR ''-'' # cs @ [c], v]"
| "word_text (Long w) = [''--'' @ w]"
| "word_text (LongArg w v) = [''--'' @ w @ ''='' @ v]"
| "word_text (LongSep w v) = [''--'' @ w, v]"

definition long_val :: "long_option list \<Rightarrow> string \<Rightarrow> int" where
  "long_val longs w = (case long_scan w longs None of Found o1 \<Rightarrow> lo_val o1 | _ \<Rightarrow> BADCH)"

definition letters_meaning :: "string \<Rightarrow> (int \<times> string option) list" where
  "letters_meaning cs = map (\<lambda>c. (code_of c, None)) cs"

fun word_meaning :: "long_option list \<Rightarrow> opt_word \<Rightarrow> (int \<times> string option) list" where
  "word_meaning longs (Letters cs) = letters_meaning cs"
| "word_meaning longs (LettersOpt cs c) = letters_meaning cs @ [(code_of c, None)]"
| "word_meaning longs (LettersArg cs c v) = letters_meaning cs @ [(code_of c, Some v)]"
| "word_meaning longs (LettersSep cs c v) = letters_meaning cs @ [(code_of c, Some v)]"
| "word_meaning longs (Long w) = [(long_val longs w, None)]"
| "word_meaning longs (LongArg w v) = [(long_val longs w, Some v)]"
| "word_meaning longs (LongSep w v) = [(long_val longs w, Some v)]"

definition letters_ok :: "string \<Rightarrow> string \<Rightarrow> bool" where
  "letters_ok options cs = list_all (\<lambda>c. short_kind options c = Some no_argument) cs"

definition long_ok :: "long_option list \<Rightarrow> (arg_kind \<Rightarrow> bool) \<Rightarrow> string \<Rightarrow> bool" where
  "long_ok longs kinds w = (w \<noteq> [] \<and> CHR ''='' \<notin> set w \<and>
     (case long_scan w longs None of Found o1 \<Rightarrow> kinds (lo_has_arg o1) \<and> lo_val o1 \<notin> {- 1, BADCH} | _ \<Rightarrow> False))"

fun word_ok :: "string \<Rightarrow> long_option list \<Rightarrow> opt_word \<Rightarrow> bool" where
  "word_ok options longs (Letters cs) = (cs \<noteq> [] \<and> letters_ok options cs)"
| "word_ok options longs (LettersOpt cs c) = (letters_ok options cs \<and> short_kind options c = Some optional_argument)"
| "word_ok options longs (LettersArg cs c v) =
     (letters_ok options cs \<and> short_kind options c \<in> {Some required_argument, Some optional_argument} \<and> v \<noteq> [])"
| "word_ok options longs (LettersSep cs c v) = (letters_ok options cs \<and> short_kind options c = Some required_argument)"
| "word_ok options longs (Long w) = long_ok longs (\<lambda>k. k \<noteq> required_argument) w"
| "word_ok options longs (LongArg w v) = long_ok longs (\<lambda>k. k \<noteq> no_argument) w"
| "word_ok options longs (LongSep w v) = long_ok longs (\<lambda>k. k = required_argument) w"

definition options_ok :: "string \<Rightarrow> bool" where
  "options_ok options = (CHR ''-'' \<notin> set (tl options) \<and> CHR ''?'' \<notin> set (tl options))"

definition no_option :: "string list \<Rightarrow> bool" where
  \<comment> \<open>nothing, or a word that is no option\<close>
  "no_option ws = (case ws of [] \<Rightarrow> True | w # _ \<Rightarrow> first_char w \<noteq> CHR ''-'' \<or> tl w = [])"

section \<open>Single steps\<close>

lemma short_kind_member: "short_kind options c = Some k \<Longrightarrow> c \<in> set (tl options)"
proof (rule ccontr)
  assume "short_kind options c = Some k" and "c \<notin> set (tl options)"
  moreover from this(2) have "dropWhile (\<lambda>x. x \<noteq> c) (tl options) = []" by auto
  ultimately show False by (simp add: short_kind_def del: dropWhile_eq_Nil_conv split: if_splits)
qed

lemma short_kind_code:
  assumes "options_ok options" and "short_kind options c = Some k"
  shows "c \<noteq> CHR ''-'' \<and> code_of c \<noteq> BADCH \<and> code_of c \<noteq> - 1"
proof -
  have "c \<noteq> CHR ''-''" "c \<noteq> CHR ''?''"
    using assms short_kind_member [OF assms(2)] by (auto simp: options_ok_def)
  moreover have "code_of c = 63 \<Longrightarrow> c = CHR ''?''"
  proof -
    assume "code_of c = 63"
    then have "ascii c = ascii (CHR ''?'')" by simp
    then show ?thesis by (simp only: of_char_eq_iff)
  qed
  ultimately show ?thesis by (auto simp: BADCH_def)
qed

abbreviation reading :: "nat \<Rightarrow> string \<Rightarrow> int \<Rightarrow> getopt_state" where
  \<comment> \<open>in the middle of the loop\<close>
  "reading i p q \<equiv> \<lparr>go_optind = i, go_place = p, go_optarg = None, go_optopt = q, go_optreset = False\<rparr>"

abbreviation before :: "'a list \<Rightarrow> 'a list \<times> 'b \<Rightarrow> 'a list \<times> 'b" where
  "before os r \<equiv> (os @ fst r, snd r)"

lemma same_call:
  assumes "bsd_getopt options longs argv s = bsd_getopt options longs argv t"
  shows "getopt_all options longs argv s = getopt_all options longs argv t"
  by (subst getopt_all.simps, rule trans [OF _ getopt_all.simps [symmetric]]) (simp only: assms)

lemma optarg_irrelevant:
  "getopt_all options longs argv \<lparr>go_optind = i, go_place = p, go_optarg = x, go_optopt = q, go_optreset = False\<rparr> =
   getopt_all options longs argv (reading i p q)"
  by (rule same_call) (simp only: bsd_getopt_def getopt_internal_def getopt_state.simps)

lemma step_all:
  assumes "bsd_getopt options longs argv st = (c, \<lparr>go_optind = i, go_place = p, go_optarg = x, go_optopt = q, go_optreset = False\<rparr>)"
    and "c \<noteq> - 1" and "c \<noteq> BADCH"
  shows "getopt_all options longs argv st = before [(c, x)] (getopt_all options longs argv (reading i p q))"
  using assms by (subst getopt_all.simps) (simp add: optarg_irrelevant [where x = x] split: prod.split)

lemma letter_step:
  assumes "options_ok options" and "short_kind options c = Some k" and "0 < i"
    and "getopt_letter options argv (reading i (c # v) q) =
      (code_of c, \<lparr>go_optind = j, go_place = p, go_optarg = x, go_optopt = q, go_optreset = False\<rparr>)"
  shows "getopt_all options longs argv (reading i (c # v) q) = before [(code_of c, x)] (getopt_all options longs argv (reading j p q))"
  using assms short_kind_code [OF assms(1,2)]
  by (intro step_all) (simp_all add: bsd_getopt_def getopt_internal_def Let_def)

lemma enter_word:
  assumes "drop i argv = (CHR ''-'' # w) # ws0" and "0 < i" and "w \<noteq> []" and "first_char w \<noteq> CHR ''-''"
  shows "getopt_all options longs argv (reading i [] q) = getopt_all options longs argv (reading i w q)"
proof -
  have "i < length argv" using assms(1) by (metis drop_all leI list.distinct(1))
  moreover have "argv ! i = CHR ''-'' # w" using assms(1) calculation by (metis Cons_nth_drop_Suc list.inject)
  ultimately have "bsd_getopt options longs argv (reading i [] q) = bsd_getopt options longs argv (reading i w q)"
    using assms(2-4) by (simp add: bsd_getopt_def getopt_internal_def Let_def first_char_def)
  then show ?thesis by (rule same_call)
qed

section \<open>Words\<close>

lemma letters_read:
  assumes "options_ok options" and "letters_ok options cs" and "0 < i" and "v \<noteq> []"
  shows "getopt_all options longs argv (reading i (cs @ v) q) =
    before (letters_meaning cs) (getopt_all options longs argv (reading i v q))"
  using assms(2)
proof (induction cs)
  case (Cons c cs)
  then have k: "short_kind options c = Some no_argument" by (simp add: letters_ok_def)
  have "getopt_letter options argv (reading i (c # cs @ v) q) =
      (code_of c, \<lparr>go_optind = i, go_place = cs @ v, go_optarg = None, go_optopt = q, go_optreset = False\<rparr>)"
    using k assms(4) by (simp add: getopt_letter_def first_char_def)
  from letter_step [OF assms(1) k assms(3) this, of longs] show ?case
    using Cons by (simp add: letters_meaning_def letters_ok_def)
qed (simp add: letters_meaning_def)

lemma last_letter:
  assumes "options_ok options" and "short_kind options c = Some k" and "0 < i"
  shows "k \<noteq> required_argument \<Longrightarrow> getopt_all options longs argv (reading i [c] q) =
      before [(code_of c, None)] (getopt_all options longs argv (reading (Suc i) [] q))"
    and "k \<noteq> no_argument \<Longrightarrow> v \<noteq> [] \<Longrightarrow> getopt_all options longs argv (reading i (c # v) q) =
      before [(code_of c, Some v)] (getopt_all options longs argv (reading (Suc i) [] q))"
    and "k = required_argument \<Longrightarrow> Suc i < length argv \<Longrightarrow> getopt_all options longs argv (reading i [c] q) =
      before [(code_of c, Some (argv ! Suc i))] (getopt_all options longs argv (reading (Suc (Suc i)) [] q))"
  by (rule letter_step [OF assms], cases k; simp add: getopt_letter_def first_char_def assms(2))+

lemma at_word:
  assumes "drop i argv = w # ws0"
  shows "i < length argv \<and> argv ! i = w \<and> drop (Suc i) argv = ws0"
proof -
  have "i < length argv" using assms by (metis drop_all leI list.distinct(1))
  then show ?thesis using assms by (metis Cons_nth_drop_Suc list.inject)
qed

lemma letters_entry:
  assumes "options_ok options" and "letters_ok options cs" and "drop i argv = (CHR ''-'' # cs @ c # v) # ws0" and "0 < i"
    and "short_kind options c = Some k"
  shows "getopt_all options longs argv (reading i [] q) =
    before (letters_meaning cs) (getopt_all options longs argv (reading i (c # v) q))"
proof -
  have "first_char (cs @ c # v) \<noteq> CHR ''-''"
    using short_kind_code [OF assms(1)] assms(2,5) by (cases cs) (auto simp: first_char_def letters_ok_def)
  then have "getopt_all options longs argv (reading i [] q) = getopt_all options longs argv (reading i (cs @ c # v) q)"
    by (intro enter_word [OF assms(3,4)]) simp_all
  then show ?thesis using letters_read [OF assms(1,2,4), of "c # v"] by simp
qed

lemma long_entry:
  assumes "drop i argv = (''--'' @ w) # ws0" and "0 < i"
  shows "bsd_getopt options longs argv (reading i [] q) = getopt_long longs argv (reading i w q)"
  using at_word [OF assms(1)] assms(2) by (simp add: bsd_getopt_def getopt_internal_def first_char_def)

lemma long_step:
  assumes "drop i argv = (''--'' @ t) # ws0" and "0 < i" and "long_ok longs kinds w"
    and "getopt_long longs argv (reading i t q) =
      (long_val longs w, \<lparr>go_optind = j, go_place = [], go_optarg = x, go_optopt = q, go_optreset = False\<rparr>)"
  shows "getopt_all options longs argv (reading i [] q) = before [(long_val longs w, x)] (getopt_all options longs argv (reading j [] q))"
  using assms(3,4) by (intro step_all) (simp_all add: long_entry [OF assms(1,2)] long_ok_def long_val_def split: long_match.splits)

lemma long_no_equals: "long_ok longs kinds w \<Longrightarrow> split_at (CHR ''='') w = None"
  by (simp add: long_ok_def)

lemma word_read:
  assumes "options_ok options" and "word_ok options longs w" and "drop i argv = word_text w @ ws0" and "0 < i"
  shows "getopt_all options longs argv (reading i [] q) =
    before (word_meaning longs w) (getopt_all options longs argv (reading (i + length (word_text w)) [] q))"
proof (cases w)
  case (Letters cs)
  then obtain bs c where cs: "cs = bs @ [c]" using assms(2) by (cases cs rule: rev_cases) auto
  then have d: "drop i argv = (CHR ''-'' # bs @ c # []) # ws0" and ok: "letters_ok options bs" "short_kind options c = Some no_argument"
    using assms(2,3) Letters by (simp_all add: letters_ok_def)
  show ?thesis
    using letters_entry [OF assms(1) ok(1) d assms(4) ok(2), of longs q] last_letter(1) [OF assms(1) ok(2) assms(4), of longs argv q]
      Letters cs by (simp add: letters_meaning_def)
next
  case (LettersOpt cs c)
  then have d: "drop i argv = (CHR ''-'' # cs @ c # []) # ws0" and ok: "letters_ok options cs" "short_kind options c = Some optional_argument"
    using assms(2,3) by simp_all
  show ?thesis
    using letters_entry [OF assms(1) ok(1) d assms(4) ok(2), of longs q] last_letter(1) [OF assms(1) ok(2) assms(4), of longs argv q]
      LettersOpt by simp
next
  case (LettersArg cs c v)
  then obtain k where d: "drop i argv = (CHR ''-'' # cs @ c # v) # ws0" and ok: "letters_ok options cs" "short_kind options c = Some k"
      "k \<noteq> no_argument" "v \<noteq> []"
    using assms(2,3) by auto
  show ?thesis
    using letters_entry [OF assms(1) ok(1) d assms(4) ok(2), of longs q] last_letter(2) [OF assms(1) ok(2) assms(4) ok(3,4), of longs argv q]
      LettersArg by simp
next
  case (LettersSep cs c v)
  then have d: "drop i argv = (CHR ''-'' # cs @ c # []) # v # ws0" and ok: "letters_ok options cs" "short_kind options c = Some required_argument"
    using assms(2,3) by simp_all
  have v: "Suc i < length argv" "argv ! Suc i = v" using at_word [OF d] at_word [of "Suc i" argv v ws0] by simp_all
  show ?thesis
    using letters_entry [OF assms(1) ok(1) d assms(4) ok(2), of longs q] last_letter(3) [OF assms(1) ok(2) assms(4) refl v(1), of longs q]
      LettersSep v by simp
next
  case (Long t)
  then have d: "drop i argv = (''--'' @ t) # ws0" and ok: "long_ok longs (\<lambda>k. k \<noteq> required_argument) t" using assms(2,3) by simp_all
  have "getopt_long longs argv (reading i t q) =
      (long_val longs t, \<lparr>go_optind = Suc i, go_place = [], go_optarg = None, go_optopt = q, go_optreset = False\<rparr>)"
    using ok long_no_equals [OF ok]
    by (auto simp: getopt_long_def long_ok_def long_val_def Let_def simp del: split_at_None split: long_match.splits arg_kind.splits)
  from long_step [OF d assms(4) ok this] show ?thesis using Long by simp
next
  case (LongArg t v)
  then have d: "drop i argv = (''--'' @ t @ ''='' @ v) # ws0" and ok: "long_ok longs (\<lambda>k. k \<noteq> no_argument) t" using assms(2,3) by simp_all
  have "split_at (CHR ''='') (t @ ''='' @ v) = Some (t, v)" using ok by (simp add: long_ok_def split_at_append)
  then have "getopt_long longs argv (reading i (t @ ''='' @ v) q) =
      (long_val longs t, \<lparr>go_optind = Suc i, go_place = [], go_optarg = Some v, go_optopt = q, go_optreset = False\<rparr>)"
    using ok by (auto simp: getopt_long_def long_ok_def long_val_def Let_def split: long_match.splits arg_kind.splits)
  from long_step [OF d assms(4) ok this] show ?thesis using LongArg by simp
next
  case (LongSep t v)
  then have d: "drop i argv = (''--'' @ t) # v # ws0" and ok: "long_ok longs (\<lambda>k. k = required_argument) t" using assms(2,3) by simp_all
  have v: "Suc i < length argv" "argv ! Suc i = v" using at_word [OF d] at_word [of "Suc i" argv v ws0] by simp_all
  have "getopt_long longs argv (reading i t q) =
      (long_val longs t, \<lparr>go_optind = Suc (Suc i), go_place = [], go_optarg = Some v, go_optopt = q, go_optreset = False\<rparr>)"
    using ok v long_no_equals [OF ok]
    by (auto simp: getopt_long_def long_ok_def long_val_def Let_def simp del: split_at_None split: long_match.splits arg_kind.splits)
  from long_step [OF d assms(4) ok this] show ?thesis using LongSep by simp
qed

section \<open>Command lines\<close>

lemma words_read:
  assumes "options_ok options" and "list_all (word_ok options longs) ws" and "drop i argv = concat (map word_text ws) @ rest" and "0 < i"
  shows "\<exists>j. getopt_all options longs argv (reading i [] q) =
      before (concat (map (word_meaning longs) ws)) (getopt_all options longs argv (reading j [] q)) \<and> drop j argv = rest \<and> 0 < j"
  using assms(2-4)
proof (induction ws arbitrary: i)
  case Nil
  then show ?case by auto
next
  case (Cons w ws)
  have d: "drop i argv = word_text w @ (concat (map word_text ws) @ rest)" using Cons.prems(2) by simp
  have "drop (i + length (word_text w)) argv = drop (length (word_text w)) (drop i argv)" by (simp add: add.commute)
  also have "\<dots> = concat (map word_text ws) @ rest" using d by simp
  finally obtain j where j: "getopt_all options longs argv (reading (i + length (word_text w)) [] q) =
      before (concat (map (word_meaning longs) ws)) (getopt_all options longs argv (reading j [] q))" "drop j argv = rest" "0 < j"
    using Cons.IH [of "i + length (word_text w)"] Cons.prems(1,3) by auto
  have "getopt_all options longs argv (reading i [] q) =
      before (word_meaning longs w) (getopt_all options longs argv (reading (i + length (word_text w)) [] q))"
    using Cons.prems(1,3) d by (intro word_read [OF assms(1)]) simp_all
  then show ?case using j by auto
qed

lemma stops_at:
  assumes "drop j argv = ws0" and "0 < j" and "no_option ws0"
  shows "getopt_all options longs argv (reading j [] q) = ([], reading j [] q)"
proof -
  have "bsd_getopt options longs argv (reading j [] q) = (- 1, reading j [] q)"
    using assms at_word [of j argv] by (cases ws0) (auto simp: bsd_getopt_def getopt_internal_def no_option_def)
  then show ?thesis by (subst getopt_all.simps) simp
qed

lemma stops_behind:
  assumes "drop j argv = ''--'' # ws0" and "0 < j"
  shows "getopt_all options longs argv (reading j [] q) = ([], reading (Suc j) [] q)"
proof -
  have "bsd_getopt options longs argv (reading j [] q) = (- 1, reading (Suc j) [] q)"
    using long_entry [of j argv "[]" ws0 options longs q] assms by (simp add: getopt_long_def)
  then show ?thesis by (subst getopt_all.simps) simp
qed

lemma getopt_words:
  assumes "options_ok options" and "list_all (word_ok options longs) ws"
    and "finish = [''--''] \<or> finish = [] \<and> no_option rest"
    and "argv = prog # concat (map word_text ws) @ finish @ rest"
  shows "\<exists>st'. getopt_all options longs argv (bsd_getopt_reset st) = (concat (map (word_meaning longs) ws), st') \<and>
    drop (go_optind st') argv = rest"
proof -
  have "bsd_getopt options longs argv (bsd_getopt_reset st) = bsd_getopt options longs argv (reading 1 [] (go_optopt st))"
    by (cases st) (simp add: bsd_getopt_reset_def bsd_getopt_def getopt_internal_def Let_def)
  from same_call [OF this] have start: "getopt_all options longs argv (bsd_getopt_reset st) =
      getopt_all options longs argv (reading 1 [] (go_optopt st))" .
  have "drop 1 argv = concat (map word_text ws) @ (finish @ rest)" using assms(4) by simp
  from words_read [OF assms(1,2) this, of "go_optopt st"] obtain j where
    j: "getopt_all options longs argv (reading 1 [] (go_optopt st)) =
      before (concat (map (word_meaning longs) ws)) (getopt_all options longs argv (reading j [] (go_optopt st)))"
      "drop j argv = finish @ rest" "0 < j" by auto
  have "drop (Suc j) argv = rest" if "finish = [''--'']" using that j(2) at_word [of j argv "''--''" rest] by simp
  then show ?thesis
    using assms(3) start j stops_behind [of j argv rest options longs "go_optopt st"] stops_at [of j argv rest options longs "go_optopt st"]
    by auto
qed

text \<open>
  C24. Options of the given tables, in any of the ways to write them and in any number, are read in
  order, with their arguments; and the words behind them, from the first which is no option or
  behind two dashes, are left, whatever had been read before.
\<close>

theorem getopt_reads_words:
  assumes "options_ok options" and "list_all (word_ok options longs) ws"
    and "finish = [''--''] \<or> finish = [] \<and> no_option rest"
    and "argv = prog # concat (map word_text ws) @ finish @ rest"
  shows "\<exists>st'. getopt_all options longs argv (bsd_getopt_reset st) = (concat (map (word_meaning longs) ws), st') \<and>
    drop (go_optind st') argv = rest"
  using assms by (rule getopt_words)

theorem getopt_reads_words_witness:
  "\<exists>st'. getopt_all ''+ab:c::'' [\<lparr>lo_name = ''file'', lo_has_arg = required_argument, lo_val = 98\<rparr>]
      [''ao'', ''-ab'', ''x'', ''-cy'', ''--file=z'', ''make'', ''-a''] (bsd_getopt_reset (reading 7 [] 0)) =
      ([(97, None), (98, Some ''x''), (99, Some ''y''), (98, Some ''z'')], st') \<and>
    drop (go_optind st') [''ao'', ''-ab'', ''x'', ''-cy'', ''--file=z'', ''make'', ''-a''] = [''make'', ''-a'']"
proof -
  let ?longs = "[\<lparr>lo_name = ''file'', lo_has_arg = required_argument, lo_val = 98\<rparr>]"
  let ?ws = "[LettersSep ''a'' (CHR ''b'') ''x'', LettersArg [] (CHR ''c'') ''y'', LongArg ''file'' ''z'']"
  have "options_ok ''+ab:c::''" by (simp add: options_ok_def)
  moreover have "list_all (word_ok ''+ab:c::'' ?longs) ?ws"
    by (simp add: letters_ok_def short_kind_def first_char_def nul_def long_ok_def prefix_of_def BADCH_def)
  moreover have "no_option [''make'', ''-a'']" by (simp add: no_option_def first_char_def)
  moreover have "concat (map (word_meaning ?longs) ?ws) = [(97, None), (98, Some ''x''), (99, Some ''y''), (98, Some ''z'')]"
    by (simp add: letters_meaning_def long_val_def prefix_of_def)
  moreover have "[''ao'', ''-ab'', ''x'', ''-cy'', ''--file=z'', ''make'', ''-a''] =
      ''ao'' # concat (map word_text ?ws) @ [] @ [''make'', ''-a'']" by simp
  ultimately show ?thesis
    using getopt_reads_words [of "''+ab:c::''" ?longs ?ws "[]" "[''make'', ''-a'']" _ "''ao''" "reading 7 [] 0"] by metis
qed

end
