(* ===== verification/CommandLineProofs.thy ===== *)
theory CommandLineProofs
  imports CommandLine GetoptProofs
begin

text \<open>
  The command line as a whole: the tables of options agree with each other and with the cases of
  the switch, options have their effects, and what is worked out from them is right, with the
  exceptions the theorems name.
\<close>

section \<open>The tables\<close>

text \<open>
  Every long option is found under its name, although names are prefixes of others; a long option
  takes an argument like the letter it stands for, but for \<open>--make-depends\<close> and \<open>--exec-verbosity\<close>;
  every option but \<open>-T\<close> has a case in the switch.
\<close>

definition same_kind :: "long_option \<Rightarrow> bool" where
  \<comment> \<open>a long option and the letter with the same code, if there is one\<close>
  "same_kind o1 =
     (256 \<le> lo_val o1 \<or> short_kind main_short_opts (char_of (nat (lo_val o1))) = Some (lo_has_arg o1))"

lemma table_facts:
  "list_all (\<lambda>o1. long_scan (lo_name o1) main_long_opts None = Found o1) main_long_opts"
  "list_all (\<lambda>o1. same_kind o1 \<or> lo_name o1 \<in> {''make-depends'', ''exec-verbosity''}) main_long_opts"
  "options_ok main_short_opts"
  by code_simp+

lemma switch_facts:
  "list_all (\<lambda>o1. lo_val o1 \<in> set (map fst (main_switch env optarg))) main_long_opts"
  "list_all (\<lambda>c. c \<in> set ''+:T'' \<or> code_of c \<in> set (map fst (main_switch env optarg))) main_short_opts"
  "distinct (map fst (main_switch env optarg))"
  by (simp_all add: main_switch_def main_switch1_def main_switch2_def Let_def LF_def main_long_opts_def main_short_opts_def)

section \<open>Options and their effects\<close>

text \<open>The words of a command line, and what their options do.\<close>

lemma parse_words:
  assumes "list_all (word_ok main_short_opts main_long_opts) ws" and "finish = [''--''] \<or> finish = [] \<and> no_option rest"
  shows "parse_command_line env (prog # concat (map word_text ws) @ finish @ rest) s =
    bindR (main_options env (concat (map (word_meaning main_long_opts) ws)) s) (\<lambda>s. Inr (rest, s))"
  using getopt_words [OF table_facts(3) assms refl, of prog "reading 1 [] 0"]
  by (auto simp: parse_command_line_def)

lemma prop_ord_cl: "prop_ord P_SERVER = 53" "prop_ord P_OUTPUT_FILE = 42" "prop_ord P_STRICT = 60"
  by (simp_all add: prop_ord_def prop_enum_def)

lemma prop_pad_cl: "pr_pad (prop_entry_of P_SERVER) = 0" "pr_pad (prop_entry_of P_OUTPUT_FILE) = 0" "pr_pad (prop_entry_of P_STRICT) = 0"
  "pr_dflt (prop_entry_of P_SERVER) = None"
  by (simp_all add: prop_entry_of_def prop_ord_cl proptab_defs)

lemma snprintf_all: "length s < n \<Longrightarrow> snprintf n s = s"
  by (simp add: snprintf_def)

lemma complete_server_text:
  assumes "length host \<le> 240"
  shows "complete_server host = (if CHR '':'' \<in> set host then host
     else if isdigit (first_char host) then ''localhost:'' @ host else host @ '':8080'')"
  using assms by (simp add: complete_server_def snprintf_all)

lemma default_server_gets:
  assumes "pvals st P_SERVER = Some host" and "host \<noteq> []" and "host \<noteq> PROP_NULL" and "length host \<le> 240"
  shows "\<exists>st'. default_server st = Inr st' \<and> prop_get_str st' P_SERVER = Inr (Some (complete_server host))"
proof -
  have get: "prop_get_str st P_SERVER = Inr (Some host)" using assms(1,3) by (rule prop_get_str_Some)
  have "complete_server host \<noteq> PROP_NULL" using assms(3,4) by (auto simp: complete_server_text PROP_NULL_def)
  then show ?thesis
    using get assms prop_override_get [of P_SERVER "complete_server host" st]
    by (auto simp: default_server_def prop_has_value_def prop_pad_cl complete_server_def [of host])
qed

lemma switch_s: "main_option env (115, Some host) = with_props (\<lambda>st. prop_override_str st P_SERVER host)"
  by (rule ext) (simp add: main_option_def main_switch_def main_switch1_def main_switch2_def Let_def LF_def)

lemma switch_o: "main_option env (111, Some f) = (\<lambda>s. with_props (output_option f) (s\<lparr>cl_no_server := True\<rparr>))"
  by (rule ext) (simp add: main_option_def main_switch_def main_switch1_def main_switch2_def Let_def LF_def)

lemma switch_S: "main_option env (83, None) = with_props (\<lambda>st. bindR (prop_put_ulong st P_STRICT 1) (\<lambda>st.
     bindR (prop_put_ulong st P_STRICT_DOWNLOAD 1) (\<lambda>st. prop_put_ulong st P_STRICT_UPLOAD 1)))"
  by (rule ext) (simp add: main_option_def main_switch_def main_switch1_def main_switch2_def Let_def LF_def)

lemma letter_kinds: "short_kind main_short_opts (CHR ''s'') = Some required_argument"
  "short_kind main_short_opts (CHR ''o'') = Some required_argument"
  by code_simp+

text \<open>
  The server given on the command line is completed: a number is a port of this host, a name
  without a port gets port 8080, what has a port is taken as it is. What stands behind the options
  is left.
\<close>

theorem server_option_completed:
  assumes "host \<noteq> []" and "host \<noteq> PROP_NULL" and "length host \<le> 240" and "no_option rest"
    and "prop_has_value (cl_props s) P_PROJECT_NAME" and "\<not> prop_has_value (cl_props s) P_MAKE_FILE" and "\<not> cl_no_server s"
  shows "\<exists>s' s''. parse_command_line env (prog # ''-s'' # host # rest) s = Inr (rest, s') \<and> main_settle s' = Inr s'' \<and>
    prop_get_str (cl_props s'') P_SERVER = Inr (Some (
      if CHR '':'' \<in> set host then host else if isdigit (first_char host) then ''localhost:'' @ host else host @ '':8080''))"
proof -
  obtain st :: prop_state where st: "prop_override_str (cl_props s) P_SERVER host = Inr st" "pvals st = (pvals (cl_props s))(P_SERVER := Some host)"
    using prop_override_get [of P_SERVER host "cl_props s"] assms(2) by (auto simp: prop_pad_cl)
  have parse: "parse_command_line env (prog # ''-s'' # host # rest) s = Inr (rest, s\<lparr>cl_props := st\<rparr>)"
    using parse_words [of "[LettersSep [] (CHR ''s'') host]" "[]" rest env prog s] assms(4) st(1)
    by (simp add: letter_kinds letters_ok_def letters_meaning_def switch_s with_props_def)
  obtain st' where st': "default_server st = Inr st'" "prop_get_str st' P_SERVER = Inr (Some (complete_server host))"
    using default_server_gets [of st host] assms(1-3) st(2) by auto
  have "default_project st = Inr st" "\<not> prop_has_value st P_MAKE_FILE"
    using assms(5,6) st(2) by (simp_all add: default_project_def prop_has_value_def)
  then have "main_settle (s\<lparr>cl_props := st\<rparr>) = Inr (s\<lparr>cl_props := st\<rparr>\<lparr>cl_props := st'\<rparr>)"
    using assms(7) st'(1) by (simp add: main_settle_def with_props_def Let_def)
  then show ?thesis using parse st'(2) complete_server_text [OF assms(3)] by auto
qed

definition cl_start :: "prop_state \<Rightarrow> cl_state" where
  "cl_start st = \<lparr>cl_props = st, cl_mask = VBMASK_UNSET, cl_http = tr_start, QuietMode = False, cl_pager = None, cl_dscript = None,
     cl_redo_script = None, cl_proplevel = - 1, cl_no_server = False, cl_make_clean = False, cl_teeflag = False, cl_chdirs = []\<rparr>"

abbreviation cl_sample :: cl_state where
  "cl_sample \<equiv> cl_start ((prop_start [])\<lparr>pvals := [P_PROJECT_NAME \<mapsto> ''p'', P_SERVER \<mapsto> ''h:1'', P_STRICT \<mapsto> ''0'']\<rparr>)"

theorem server_option_completed_witness:
  "\<forall>env. \<exists>s' s''. parse_command_line env (''ao'' # ''-s'' # ''3000'' # [''make'']) cl_sample = Inr ([''make''], s') \<and> main_settle s' = Inr s'' \<and>
    prop_get_str (cl_props s'') P_SERVER = Inr (Some ''localhost:3000'')"
proof -
  have "prop_has_value (cl_props cl_sample) P_PROJECT_NAME" "\<not> prop_has_value (cl_props cl_sample) P_MAKE_FILE"
      "\<not> cl_no_server cl_sample"
    by (simp_all add: cl_start_def prop_has_value_def)
  then show ?thesis
    using server_option_completed [of "''3000''" "[''make'']" cl_sample _ "''ao''"]
    by (simp add: PROP_NULL_def no_option_def first_char_def isdigit_def)
qed

text \<open>
  With an output file the server is not talked to, wherever it was given; \<open>@\<close> stands for no file.
\<close>

theorem output_option_drops_server:
  assumes "f \<noteq> PROP_NULL" and "no_option rest"
    and "prop_has_value (cl_props s) P_PROJECT_NAME" and "\<not> prop_has_value (cl_props s) P_MAKE_FILE"
  shows "\<exists>s' s''. parse_command_line env (prog # ''-o'' # f # rest) s = Inr (rest, s') \<and> main_settle s' = Inr s'' \<and>
    \<not> prop_has_value (cl_props s'') P_SERVER \<and>
    prop_get_str (cl_props s'') P_OUTPUT_FILE = Inr (Some (if f = ''@'' then ''/dev/null'' else f))"
proof -
  let ?f = "if f = ''@'' then ''/dev/null'' else f"
  have f: "?f \<noteq> PROP_NULL" using assms(1) by (simp add: PROP_NULL_def)
  obtain st :: prop_state where st: "prop_override_str (cl_props s) P_OUTPUT_FILE ?f = Inr st" "pvals st = (pvals (cl_props s))(P_OUTPUT_FILE := Some ?f)"
    using prop_override_get [of P_OUTPUT_FILE ?f "cl_props s"] f by (auto simp: prop_pad_cl)
  let ?s = "s\<lparr>cl_no_server := True, cl_props := st\<rparr>" and ?st = "prop_unset st P_SERVER True"
  have out: "output_option f (cl_props s) = Inr st"
    using st(1) by (cases "f = ''@''") (simp_all add: output_option_def DEVNULL_def)
  have parse: "parse_command_line env (prog # ''-o'' # f # rest) s = Inr (rest, ?s)"
    using parse_words [of "[LettersSep [] (CHR ''o'') f]" "[]" rest env prog s] assms(2) out
    by (simp add: letter_kinds letters_ok_def letters_meaning_def switch_o with_props_def)
  have pv: "pvals ?st = (pvals st)(P_SERVER := None)" by (auto simp: prop_unset_def prop_unexport_def Let_def)
  then have "default_project st = Inr st" "\<not> prop_has_value ?st P_MAKE_FILE" "\<not> prop_has_value ?st P_SERVER"
    using assms(3,4) st(2) by (simp_all add: default_project_def prop_has_value_def)
  then have "main_settle ?s = Inr (?s\<lparr>cl_props := ?st\<rparr>)"
    by (simp add: main_settle_def with_props_def Let_def default_server_def)
  moreover have "prop_get_str ?st P_OUTPUT_FILE = Inr (Some ?f)"
    using pv st(2) f by (intro prop_get_str_Some) simp_all
  ultimately show ?thesis using parse \<open>\<not> prop_has_value ?st P_SERVER\<close> by auto
qed

theorem output_option_drops_server_witness:
  "\<forall>env. \<exists>s' s''. parse_command_line env (''ao'' # ''-o'' # ''@'' # [''make'']) cl_sample = Inr ([''make''], s') \<and> main_settle s' = Inr s'' \<and>
    \<not> prop_has_value (cl_props s'') P_SERVER \<and> prop_get_str (cl_props s'') P_OUTPUT_FILE = Inr (Some ''/dev/null'')"
proof -
  have "prop_has_value (cl_props cl_sample) P_PROJECT_NAME" "\<not> prop_has_value (cl_props cl_sample) P_MAKE_FILE"
    by (simp_all add: cl_start_def prop_has_value_def)
  then show ?thesis
    using output_option_drops_server [of "''@''" "[''make'']" cl_sample _ "''ao''"]
    by (simp add: PROP_NULL_def no_option_def first_char_def)
qed

text \<open>
  The option \<open>-S\<close> does not put: a value which a properties file gave, also \<open>0\<close>, stays.
\<close>

lemma prop_put_str_other:
  assumes "prop_put_str st p v = Inr st'" and "q \<noteq> p"
  shows "pvals st' q = pvals st q"
proof -
  have "pvals s q = pvals st q" if "prop_put_str_i st p w = Inr s" for w s
    using that assms(2) prop_export_value [of "st\<lparr>pvals := (pvals st)(p := Some w)\<rparr>" p w]
    by (cases "pvals st p") (auto simp: prop_put_str_i_def Let_def split: if_splits)
  then show ?thesis using assms(1) by (auto simp: prop_put_str_def Let_def split: if_splits)
qed

theorem strict_option_ignored:
  assumes "pvals (cl_props s) P_STRICT = Some v" and "main_option env (83, None) s = Inr s'"
  shows "pvals (cl_props s') P_STRICT = Some v"
proof -
  have "prop_put_ulong (cl_props s) P_STRICT 1 = Inr (cl_props s)"
    using assms(1) by (simp add: prop_put_ulong_def prop_put_str_def prop_pad_cl prop_put_str_i_def)
  then show ?thesis
    using assms by (auto simp: switch_S with_props_def bindR_eq_Inr prop_put_ulong_def dest!: prop_put_str_other [where q = P_STRICT])
qed

section \<open>Settings in front of the command\<close>






end
