(* ===== verification/ActionsProofs.thy ===== *)
theory ActionsProofs
  imports Actions HttpProofs CommandLineProofs
begin

text \<open>
  What actions send to the server, the option which they look for, and the output file.
\<close>

section \<open>The address of an action\<close>

abbreviation ae_esc :: "'h act_env \<Rightarrow> string \<Rightarrow> string" where
  "ae_esc env \<equiv> he_escape (ae_http env)"

definition word_params :: "string list \<Rightarrow> (string \<times> string option) list" where
  "word_params ws = map (\<lambda>w. (''ARGS'', Some w)) ws"

lemma add_params_append: "add_params esc (ps @ qs) url = add_params esc qs (add_params esc ps url)"
  by (simp add: add_params_def)

lemma add_param_as_params: "http_add_param esc k v url = add_params esc [(k, v)] url"
  by (simp add: add_params_def)

lemma arg_as_params: "arg_param env w url = add_params (ae_esc env) (word_params [w]) url"
  by (simp add: arg_param_def word_params_def add_params_def)

lemma flags_params:
  assumes "action_flags env st url = Inr url'"
  shows "\<exists>a m. prop_is_true st P_ABSOLUTE_PATHS = Inr a \<and> prop_is_true st P_MEMBERS_ONLY = Inr m \<and>
    url' = add_params (ae_esc env) (word_params ((if a then [''-a''] else []) @ (if m then [''-m''] else []))) url"
proof -
  obtain a m where am: "prop_is_true st P_ABSOLUTE_PATHS = Inr a" "prop_is_true st P_MEMBERS_ONLY = Inr m"
    using assms by (auto simp: action_flags_def bindR_eq_Inr)
  have "url' = add_params (ae_esc env) (word_params ((if a then [''-a''] else []) @ (if m then [''-m''] else []))) url"
    using assms am by (cases a; cases m) (simp_all add: action_flags_def Let_def arg_as_params word_params_def add_params_def)
  then show ?thesis using am by blast
qed

lemma word_params_Cons: "add_params (ae_esc env) (word_params (w # ws)) url = add_params (ae_esc env) (word_params ws) (arg_param env w url)"
  by (simp add: arg_as_params word_params_def add_params_def)

lemma words_params:
  assumes "action_words env statfiles ws (url, rq, rc, s) = Inr (url', rq', rc', s')"
  shows "url' = add_params (ae_esc env) (word_params ws) url \<and> as_cl s' = as_cl s \<and> as_out s' = as_out s"
  using assms
proof (induction ws arbitrary: url rq rc s)
  case Nil
  then show ?case by (simp add: word_params_def add_params_def)
next
  case (Cons w ws)
  show ?case
  proof (cases statfiles)
    case False
    then show ?thesis using Cons.prems Cons.IH [of "arg_param env w url" rq rc s] by (simp add: word_params_Cons Let_def)
  next
    case True
    obtain r ps s1 where st: "act_ps_stat env (ps_newFromPath (ae_pn env) w) s = Inr (r, ps, s1)"
        "as_cl s1 = as_cl s" "as_out s1 = as_out s"
      using Cons.prems True by (auto simp: act_ps_stat_def bindR_eq_Inr Let_def)
    then obtain rq1 rc1 where "action_words env statfiles ws (arg_param env w url, rq1, rc1, s1) = Inr (url', rq', rc', s')"
      using Cons.prems True by (auto simp: bindR_eq_Inr Let_def split: if_splits)
    from Cons.IH [OF this] show ?thesis using st by (simp add: word_params_Cons)
  qed
qed

lemma params_params:
  assumes "action_params env st projname url = Inr url'"
  shows "\<exists>platform proj base. prop_get_str st P_MONITOR_PLATFORM = Inr platform \<and> prop_get_str st P_BASE_DIR = Inr base \<and>
    (case projname of Some p \<Rightarrow> proj = Some p | None \<Rightarrow> prop_get_str st P_PROJECT_NAME = Inr proj) \<and>
    url' = add_params (ae_esc env) [(''client_platform'', platform), (''project_name'', proj),
      (''rwd'', util_get_rwd (cl_cwd (ae_cl env)) base)] url"
  using assms by (auto simp: action_params_def bindR_eq_Inr Let_def add_params_def split: option.splits)

lemma handle_keeps:
  assumes "http_get_curl_handle env ht = Inr (rq, ht')"
  shows "ht_requests ht' = ht_requests ht \<and> ht_props ht' = ht_props ht"
proof -
  obtain a b c d where "he_uname env = Some (a, b, c, d)"
    using assms by (cases "he_uname env") (auto simp: http_get_curl_handle_def bindR_eq_Inr)
  then show ?thesis
    using assms by (cases "ht_cookie ht") (auto simp: http_get_curl_handle_def bindR_eq_Inr Let_def)
qed

lemma exchange_request:
  assumes "action_exchange env rq rc ht = (rc', ht')"
  shows "\<exists>rq'. ht_requests ht' = ht_requests ht @ [rq'] \<and> ht_props ht' = ht_props ht \<and>
    rq_url rq' = add_params (ae_esc env) [(''clientver'', Some (he_version (ae_http env)))] (rq_url rq)"
  using assms by (auto simp: action_exchange_def http_connect_def Let_def add_params_def)

text \<open>All parameters of a request: those of the action, the flags, the words, and the common ones.\<close>

definition all_params ::
  "'h act_env \<Rightarrow> prop_state \<Rightarrow> string list \<Rightarrow> (string \<times> string option) list \<Rightarrow> bool" where
  "all_params env st argv ps =
     (\<exists>a m platform proj base. prop_is_true st P_ABSOLUTE_PATHS = Inr a \<and> prop_is_true st P_MEMBERS_ONLY = Inr m \<and>
        prop_get_str st P_MONITOR_PLATFORM = Inr platform \<and> prop_get_str st P_BASE_DIR = Inr base \<and>
        (case (if argv = [] then None else action_project argv) of
           Some p \<Rightarrow> proj = Some p | None \<Rightarrow> prop_get_str st P_PROJECT_NAME = Inr proj) \<and>
        ps = word_params ((if a then [''-a''] else []) @ (if m then [''-m''] else []) @ argv) @
             [(''client_platform'', platform), (''project_name'', proj), (''rwd'', util_get_rwd (cl_cwd (ae_cl env)) base),
              (''clientver'', Some (he_version (ae_http env)))])"

lemma connect_request:
  assumes "http_action_connect env argv statfiles url s = Inr (rc, s')"
  shows "\<exists>ps rq. all_params env (as_props s) argv ps \<and> ht_requests (cl_http (as_cl s')) = ht_requests (cl_http (as_cl s)) @ [rq] \<and>
    rq_url rq = add_params (ae_esc env) ps url"
proof -
  obtain url1 rq cl url2 rq2 rc2 s2 url3 s3 rc3 cl3 where
      f: "action_flags env (as_props s) url = Inr url1" and
      h: "with_http (http_get_curl_handle (ae_http env)) (as_cl s) = Inr (rq, cl)" and
      w: "(if argv = [] then Inr (arg_param env [] url1, rq, 0, s\<lparr>as_cl := cl\<rparr>)
           else action_words env statfiles argv (url1, rq, 0, s\<lparr>as_cl := cl\<rparr>)) = Inr (url2, rq2, rc2, s2)" and
      p: "action_params env (as_props s2) (if argv = [] then None else action_project argv) url2 = Inr url3" and
      o1: "action_output env s2 = Inr s3" and
      x: "with_http (\<lambda>ht. Inr (action_exchange env (rq2\<lparr>rq_url := url3\<rparr>) rc2 ht)) (as_cl s3) = Inr (rc3, cl3)" and
      s': "s' = s3\<lparr>as_cl := cl3\<rparr>"
    using assms by (clarsimp simp: http_action_connect_def bindR_eq_Inr)
  from flags_params [OF f] obtain a m where am: "prop_is_true (as_props s) P_ABSOLUTE_PATHS = Inr a"
      "prop_is_true (as_props s) P_MEMBERS_ONLY = Inr m"
      "url1 = add_params (ae_esc env) (word_params ((if a then [''-a''] else []) @ (if m then [''-m''] else []))) url" by blast
  have cl: "ht_requests (cl_http cl) = ht_requests (cl_http (as_cl s))" "cl_props cl = as_props s"
    using h by (auto simp: with_http_def bindR_eq_Inr dest!: handle_keeps)
  have "url2 = add_params (ae_esc env) (word_params argv) url1 \<and> as_cl s2 = cl"
  proof (cases "argv = []")
    case True
    then have "url2 = arg_param env [] url1" "s2 = s\<lparr>as_cl := cl\<rparr>" using w by simp_all
    then show ?thesis using True by (simp add: arg_param_def http_add_param_def word_params_def add_params_def)
  next
    case False
    then have "action_words env statfiles argv (url1, rq, 0, s\<lparr>as_cl := cl\<rparr>) = Inr (url2, rq2, rc2, s2)" using w by simp
    from words_params [OF this] show ?thesis by simp
  qed
  then have w2: "url2 = add_params (ae_esc env) (word_params argv) url1" "as_cl s2 = cl" by blast+
  have sp: "as_props s2 = as_props s" using w2(2) cl(2) by simp
  obtain platform proj base where pp:
      "prop_get_str (as_props s) P_MONITOR_PLATFORM = Inr platform" "prop_get_str (as_props s) P_BASE_DIR = Inr base"
      "case (if argv = [] then None else action_project argv) of
         Some p \<Rightarrow> proj = Some p | None \<Rightarrow> prop_get_str (as_props s) P_PROJECT_NAME = Inr proj"
      "url3 = add_params (ae_esc env) [(''client_platform'', platform), (''project_name'', proj),
         (''rwd'', util_get_rwd (cl_cwd (ae_cl env)) base)] url2"
    using params_params [OF p] unfolding sp by blast
  have "cl_http (as_cl s3) = cl_http (as_cl s2)"
    using o1 by (auto simp: action_output_def act_props_def bindR_eq_Inr split: option.splits)
  then have s3: "ht_requests (cl_http (as_cl s3)) = ht_requests (cl_http (as_cl s))" using w2(2) cl(1) by simp
  obtain ht where ht: "action_exchange env (rq2\<lparr>rq_url := url3\<rparr>) rc2 ((cl_http (as_cl s3))\<lparr>ht_props := as_props s3\<rparr>) = (rc3, ht)"
      "cl_http cl3 = ht"
    using x by (auto simp: with_http_def split: prod.splits)
  from exchange_request [OF ht(1)] ht(2) s3 obtain rq' where rq':
      "ht_requests (cl_http cl3) = ht_requests (cl_http (as_cl s)) @ [rq']"
      "rq_url rq' = add_params (ae_esc env) [(''clientver'', Some (he_version (ae_http env)))] url3" by auto
  define ps where "ps = word_params ((if a then [''-a''] else []) @ (if m then [''-m''] else []) @ argv) @
     [(''client_platform'', platform), (''project_name'', proj), (''rwd'', util_get_rwd (cl_cwd (ae_cl env)) base),
      (''clientver'', Some (he_version (ae_http env)))]"
  have "all_params env (as_props s) argv ps" unfolding all_params_def using am(1,2) pp(1-3) ps_def by blast
  moreover have "rq_url rq' = add_params (ae_esc env) ps url"
    using rq'(2) pp(4) w2(1) am(3) by (simp add: ps_def add_params_def word_params_def)
  ultimately show ?thesis using rq'(1) s' by auto
qed

lemma action_query:
  assumes "escape_laws (ae_esc env) unesc" and "CHR ''?'' \<notin> set url"
    and "http_action_connect env argv statfiles (add_params (ae_esc env) qs url) s = Inr (rc, s')"
  shows "\<exists>ps rq. all_params env (as_props s) argv ps \<and> ht_requests (cl_http (as_cl s')) = ht_requests (cl_http (as_cl s)) @ [rq] \<and>
    query_params unesc (rq_url rq) = given (qs @ ps)"
proof -
  from connect_request [OF assms(3)] obtain ps rq where r: "all_params env (as_props s) argv ps"
      "ht_requests (cl_http (as_cl s')) = ht_requests (cl_http (as_cl s)) @ [rq]"
      "rq_url rq = add_params (ae_esc env) (qs @ ps) url" by (auto simp: add_params_append)
  then show ?thesis using params_read [OF assms(1,2), of "qs @ ps"] by auto
qed

text \<open>
  C25. What the server reads off the request of an action: the flags known to both sides, the words of
  the command line which are not empty, in order, and who asks from where. There is one request.
\<close>

theorem action_request_carries:
  assumes "escape_laws (ae_esc env) unesc"
    and "http_make_url_pfx (as_props s) (Some ''action'') action = Inr url" and "CHR ''?'' \<notin> set url"
    and "http_action env action argv statfiles s = Inr (rc, s')"
  shows "\<exists>ps rq. all_params env (as_props s) argv ps \<and> ht_requests (cl_http (as_cl s')) = ht_requests (cl_http (as_cl s)) @ [rq] \<and>
    query_params unesc (rq_url rq) = given ps"
  using action_query [OF assms(1,3), of argv statfiles "[]" s rc s'] assms(2,4) by (simp add: http_action_def add_params_def)

definition act_cl_env :: "http_reply \<Rightarrow> (prop_state \<Rightarrow> subst_env) \<Rightarrow> out_env \<Rightarrow> cl_env" where
  "act_cl_env r sub oe = \<lparr>cl_subst = sub, cl_pid = 7, cl_chdir = (\<lambda>_. True), cl_realpath = Some, cl_cwd = Some ''/p'', cl_tempnam = ''t'',
     cl_tr = (tr_sample r)\<lparr>te_http := (te_http (tr_sample r))\<lparr>he_escape := hex_esc\<rparr>\<rparr>, cl_out = oe\<rparr>"

abbreviation act_sample :: "http_reply \<Rightarrow> (prop_state \<Rightarrow> subst_env) \<Rightarrow> out_env \<Rightarrow> 'h shop_env \<Rightarrow> git_env \<Rightarrow> 'h act_env" where
  "act_sample r sub oe sh g \<equiv> \<lparr>ae_cl = act_cl_env r sub oe, ae_shop = sh, ae_git = g, ae_stat = (\<lambda>_. None), ae_open = (\<lambda>_. True)\<rparr>"

abbreviation act_start :: "'h shop_world \<Rightarrow> 'h act_state" where
  "act_start w \<equiv> \<lparr>as_cl = (cl_start tr_props)\<lparr>cl_http := tr_start\<rparr>, as_world = w, as_out = Some Out_stdout, as_text = []\<rparr>"

lemma act_true: "prop_is_true tr_props P_ABSOLUTE_PATHS = Inr True" "prop_is_true tr_props P_MEMBERS_ONLY = Inr True"
proof -
  have "true_word ''yes''" by (simp add: true_word_def c_stricmp_eq_0)
  then show "prop_is_true tr_props P_ABSOLUTE_PATHS = Inr True" "prop_is_true tr_props P_MEMBERS_ONLY = Inr True"
    by (simp_all add: prop_is_true_def prop_get_ulong_def tr_props_str)
qed

lemma act_project: "action_project [''-l''] = None"
  by (simp add: action_project_def getopt_start_def bsd_getopt_reset_def getopt_through.simps bsd_getopt_def getopt_internal_def
      getopt_letter_def short_kind_def first_char_def BADCH_def nul_def Let_def)

lemma act_handle: "\<exists>rq. http_get_curl_handle (ae_http (act_sample r sub oe sh g)) tr_start = Inr (rq, tr_start)"
proof -
  have none: "pvals tr_props P_SESSIONID = None" by (simp add: tr_props_def)
  show ?thesis
    using handle_cookie [of tr_start None "ae_http (act_sample r sub oe sh g)"] no_session_id [OF none]
    by (auto simp: tr_start_def act_cl_env_def tr_sample_def)
qed

lemma act_runs:
  fixes sh :: "'h shop_env"
  assumes "statfiles \<longrightarrow> act_ps_stat (act_sample r sub oe sh g) (ps_newFromPath (ce_pn (se_ca sh)) ''-l'') (act_start w) = Inr (- 1, ps, act_start w)"
  shows "\<exists>rc s'. http_action (act_sample r sub oe sh g) ''lsbuilds'' [''-l''] statfiles (act_start w) = Inr (rc, s')"
proof -
  let ?env = "act_sample r sub oe sh g"
  obtain rq where h: "http_get_curl_handle (ae_http ?env) tr_start = Inr (rq, tr_start)" using act_handle by blast
  have t: "tr_start\<lparr>ht_props := tr_props\<rparr> = tr_start" by (simp add: tr_start_def)
  have stat: "\<not> statfiles \<or> act_ps_stat ?env (ps_newFromPath (ce_pn (se_ca sh)) ''-l'')
      \<lparr>as_cl = (cl_start tr_props)\<lparr>cl_http := tr_start\<rparr>, as_world = w, as_out = Some Out_stdout, as_text = []\<rparr> =
      Inr (- 1, ps, \<lparr>as_cl = (cl_start tr_props)\<lparr>cl_http := tr_start\<rparr>, as_world = w, as_out = Some Out_stdout, as_text = []\<rparr>)"
    using assms by blast
  show ?thesis
    using h stat by (cases statfiles) (simp add: http_action_def http_make_url_pfx_def http_action_connect_def tr_props_str cl_start_def with_http_def t
        action_flags_def act_true action_params_def action_output_def util_open_output_file_def act_props_def act_project Let_def
        split: prod.split; simp add: tr_start_def tr_props_str action_exchange_def http_connect_def Let_def)+
qed

theorem action_request_carries_witness:
  "\<forall>(sh :: 'h shop_env) g r sub oe w. \<exists>unesc rc s' rq.
     http_action (act_sample r sub oe sh g) ''lsbuilds'' [''-l''] False (act_start w) = Inr (rc, s') \<and>
     ht_requests (cl_http (as_cl s')) = [rq] \<and>
     query_params unesc (rq_url rq) = [(''ARGS'', ''-a''), (''ARGS'', ''-m''), (''ARGS'', ''-l''), (''client_platform'', ''yes''),
       (''project_name'', ''yes''), (''rwd'', ''.''), (''clientver'', ''1'')]"
proof (intro allI)
  fix sh :: "'h shop_env" and g r sub oe w
  let ?env = "act_sample r sub oe sh g"
  obtain unesc where u: "escape_laws (ae_esc ?env) unesc"
    using hex_esc_laws by (auto simp: act_cl_env_def tr_sample_def)
  obtain rc s' where run: "http_action ?env ''lsbuilds'' [''-l''] False (act_start w) = Inr (rc, s')"
    using act_runs [of False] by blast
  have url: "http_make_url_pfx (as_props (act_start w)) (Some ''action'') ''lsbuilds'' = Inr ''http://yes/yes/action/lsbuilds''"
    by (simp add: http_make_url_pfx_def tr_props_str cl_start_def)
  have "\<exists>ps rq. all_params ?env (as_props (act_start w)) [''-l''] ps \<and>
      ht_requests (cl_http (as_cl s')) = ht_requests (cl_http (as_cl (act_start w))) @ [rq] \<and> query_params unesc (rq_url rq) = given ps"
    by (rule action_request_carries [OF u url _ run]) simp
  then obtain ps rq where q: "all_params ?env tr_props [''-l''] ps" "ht_requests (cl_http (as_cl s')) = [rq]"
      "query_params unesc (rq_url rq) = given ps" by (auto simp: cl_start_def tr_start_def)
  have "given ps = [(''ARGS'', ''-a''), (''ARGS'', ''-m''), (''ARGS'', ''-l''), (''client_platform'', ''yes''),
       (''project_name'', ''yes''), (''rwd'', ''.''), (''clientver'', ''1'')]"
    using q(1) by (auto simp: all_params_def act_true tr_props_str act_project word_params_def given_def act_cl_env_def
        tr_sample_def util_get_rwd_def strneq0_def)
  then show "\<exists>unesc rc s' rq. http_action ?env ''lsbuilds'' [''-l''] False (act_start w) = Inr (rc, s') \<and>
     ht_requests (cl_http (as_cl s')) = [rq] \<and>
     query_params unesc (rq_url rq) = [(''ARGS'', ''-a''), (''ARGS'', ''-m''), (''ARGS'', ''-l''), (''client_platform'', ''yes''),
       (''project_name'', ''yes''), (''rwd'', ''.''), (''clientver'', ''1'')]"
    using run q(2,3) by metis
qed

section \<open>The name of the project\<close>

text \<open>
  The client looks for \<open>-p\<close> itself, to say to the server which project is meant. It does not know
  the other options of the actions; so it finds the option only if it comes before the argument
  of another one, which looks like the end of the options. The server takes all words.
\<close>

lemmas project_option_simps = action_project_def getopt_start_def bsd_getopt_reset_def getopt_through.simps bsd_getopt_def
  getopt_internal_def getopt_letter_def short_kind_def first_char_def BADCH_def nul_def Let_def no_option_def

theorem project_option_lost:
  assumes "no_option ws" and "first_char w \<noteq> CHR ''-''"
  shows "action_project (''-p'' # name # ws) = Some name \<and> action_project (''-i'' # w # ''-p'' # name # ws) = None"
proof -
  have "action_project (''-p'' # name # ws) = Some name"
    using assms(1) by (cases ws) (auto simp: project_option_simps split: list.splits)
  moreover have "action_project (''-i'' # w # ''-p'' # name # ws) = None"
    using assms(2) by (auto simp: project_option_simps split: list.splits)
  ultimately show ?thesis ..
qed

theorem project_option_lost_witness:
  "action_project [''-p'', ''other'', ''release-1''] = Some ''other'' \<and>
   action_project [''-i'', ''7'', ''-p'', ''other'', ''release-1''] = None"
  using project_option_lost [of "[''release-1'']" "''7''" "''other''"] by (simp add: no_option_def first_char_def)

section \<open>The output file\<close>

text \<open>
  What is written to the output file has its name only at the end: until then it is in a file of
  another name, and then it replaces what was there, and no other file is touched.
\<close>

theorem output_file_replaced_at_end:
  assumes "util_open_output_file env opens ofile None st = Inr (Out_file f t, st')" and "length f < PATH_MAX - 1" and "f \<noteq> []"
  shows "t \<noteq> f \<and> opens t \<and> (let files' = util_finalize_output_file env (Out_file f t) (files(t \<mapsto> text)) in
    files' f = Some text \<and> files' t = None \<and> (\<forall>g. g \<noteq> f \<longrightarrow> g \<noteq> t \<longrightarrow> files' g = files g))"
proof -
  obtain abuf where a: "f = snprintf PATH_MAX abuf" "t = tmp_name env abuf" "opens t"
    using assms(1) by (auto simp: util_open_output_file_def bindR_eq_Inr split: if_splits option.splits)
  have "abuf = f" using a(1) assms(2) by (auto simp: snprintf_def PATH_MAX_def split: if_splits)
  moreover have "tmp_name env x \<noteq> x" for x by (simp add: tmp_name_def)
  ultimately show ?thesis using a assms(3) by (simp add: util_finalize_output_file_def Let_def)
qed

section \<open>Words that are no files\<close>

lemma words_failed:
  assumes "action_words env statfiles ws (url, rq, 1, s) = Inr (url', rq', rc', s')"
  shows "rc' = 1"
  using assms
proof (induction ws arbitrary: url rq s)
  case (Cons w ws)
  show ?case
  proof (cases statfiles)
    case False
    then show ?thesis using Cons.prems Cons.IH by (simp add: Let_def)
  next
    case True
    obtain r ps s1 where "act_ps_stat env (ps_newFromPath (ae_pn env) w) s = Inr (r, ps, s1)"
      using Cons.prems True by (auto simp: bindR_eq_Inr Let_def)
    then obtain rq1 where "action_words env statfiles ws (arg_param env w url, rq1, 1, s1) = Inr (url', rq', rc', s')"
      using Cons.prems True by (auto simp: bindR_eq_Inr Let_def split: if_splits)
    then show ?thesis by (rule Cons.IH)
  qed
qed simp

lemma words_missing:
  assumes "action_words env True ws (url, rq, rc, s) = Inr (url', rq', rc', s')" and "w \<in> set ws"
    and "ps_get_abs (ps_newFromPath (ae_pn env) w) = Inr path"
    and "sys_lstat (fs_sys (se_fs (ae_shop env)) (sw_calls (as_world s))) path = None"
  shows "rc' = 1"
  using assms(1,2,4)
proof (induction ws arbitrary: url rq rc s)
  case (Cons v ws)
  show ?case
  proof (cases "v = w")
    case True
    have "act_ps_stat env (ps_newFromPath (ae_pn env) w) s = Inr (- 1, ps_newFromPath (ae_pn env) w, s)"
      using assms(3) Cons.prems(3) by (simp add: act_ps_stat_def ps_stat_def sw_sys_def)
    then have "action_words env True ws (arg_param env w url, rq, 1, s) = Inr (url', rq', rc', s')"
      using Cons.prems(1) True by (simp add: Let_def)
    then show ?thesis by (rule words_failed)
  next
    case False
    obtain r ps s1 where st: "act_ps_stat env (ps_newFromPath (ae_pn env) v) s = Inr (r, ps, s1)"
        "sw_calls (as_world s1) = sw_calls (as_world s)"
      using Cons.prems(1) by (auto simp: act_ps_stat_def bindR_eq_Inr Let_def)
    then obtain rq1 rc1 where "action_words env True ws (arg_param env v url, rq1, rc1, s1) = Inr (url', rq', rc', s')"
      using Cons.prems(1) by (auto simp: bindR_eq_Inr Let_def split: if_splits)
    then show ?thesis using Cons.IH Cons.prems(2,3) False st(2) by auto
  qed
qed simp

lemma body_keeps_rc: "bs_rc (foldl (\<lambda>bs x. http_stream_body x bs) bs xs) = Some rc" if "bs_rc bs = Some rc" and "rc \<noteq> 0"
  using that by (induction xs arbitrary: bs) (auto simp: http_stream_body_def Let_def split: prod.splits)

text \<open>
  The actions that list builds take every word for a file, flags included: if there is no such
  file, the action fails, whatever the server answers.
\<close>

theorem flag_taken_for_file:
  assumes "http_action env action argv True s = Inr (rc, s')" and "w \<in> set argv"
    and "ps_get_abs (ps_newFromPath (ae_pn env) w) = Inr path"
    and "sys_lstat (fs_sys (se_fs (ae_shop env)) (sw_calls (as_world s))) path = None"
  shows "rc = 1"
proof -
  have "argv \<noteq> []" using assms(2) by auto
  then obtain url1 rq cl url2 rq2 rc2 s2 url3 s3 cl3 where
      w: "action_words env True argv (url1, rq, 0, s\<lparr>as_cl := cl\<rparr>) = Inr (url2, rq2, rc2, s2)" and
      "action_output env s2 = Inr s3" and
      x: "with_http (\<lambda>ht. Inr (action_exchange env (rq2\<lparr>rq_url := url3\<rparr>) rc2 ht)) (as_cl s3) = Inr (rc, cl3)"
    using assms(1) by (clarsimp simp: http_action_def http_action_connect_def bindR_eq_Inr)
  have "rc2 = 1" using words_missing [OF w assms(2,3)] assms(4) by simp
  then show ?thesis
    using x by (auto simp: with_http_def action_exchange_def http_connect_def Let_def body_keeps_rc)
qed

definition no_files_env :: "unit shop_env" where
  "no_files_env = git_sample_env\<lparr>se_ca := sample_env\<lparr>ce_pn := \<lparr>pe_cwd = Some ''/p'', pe_base = ''/p''\<rparr>\<rparr>\<rparr>"

lemma no_files: "ps_get_abs (ps_newFromPath (ce_pn (se_ca no_files_env)) ''-l'') = Inr ''/p/-l''"
  by code_simp

theorem flag_taken_for_file_witness:
  "\<forall>g r sub oe w. \<exists>s'. http_action (act_sample r sub oe no_files_env g) ''lsbuilds'' [''-l''] True (act_start w) = Inr (1, s')"
proof (intro allI)
  fix g r sub oe w
  let ?env = "act_sample r sub oe no_files_env g"
  have none: "sys_lstat (fs_sys (se_fs no_files_env) cs) p = None" for cs p
    by (simp add: no_files_env_def git_sample_env_def)
  have "act_ps_stat ?env (ps_newFromPath (ce_pn (se_ca no_files_env)) ''-l'') (act_start w) =
      Inr (- 1, ps_newFromPath (ce_pn (se_ca no_files_env)) ''-l'', act_start w)"
    using no_files none by (simp add: act_ps_stat_def ps_stat_def sw_sys_def)
  then obtain rc s' where run: "http_action ?env ''lsbuilds'' [''-l''] True (act_start w) = Inr (rc, s')"
    using act_runs [of True] by blast
  have "rc = 1" by (rule flag_taken_for_file [OF run, of "''-l''" "''/p/-l''"]) (simp_all add: no_files none)
  then show "\<exists>s'. http_action ?env ''lsbuilds'' [''-l''] True (act_start w) = Inr (1, s')" using run by blast
qed

end
