(* ===== verification/PutilProofs.thy ===== *)
theory PutilProofs
  imports Putil
begin

text \<open>
  Links are read completely; the search for an absolute path ends, but cuts its guess; programs are
  searched for in the order of the path, unless it ends in a relative name; the name of a file
  system is the same whenever it is asked for.
\<close>

section \<open>Links\<close>

lemma readlink_loop_complete: "0 < len \<Longrightarrow> readlink_loop target len = target"
proof (induction target len rule: readlink_loop.induct)
  case (1 target len)
  show ?case
  proof (cases "min len (length target) = len")
    case True
    then show ?thesis using 1 by (subst readlink_loop.simps) simp
  next
    case False
    then have "length target < len" by (simp add: min_def split: if_splits)
    then show ?thesis by (subst readlink_loop.simps) simp
  qed
qed

text \<open>
  The target of a link is read completely, however long it is.
\<close>

theorem readlink_complete: "putil_readlink env path = fv_link env path"
  by (cases "fv_link env path") (simp_all add: putil_readlink_def readlink_loop_complete)

section \<open>Parent directories\<close>

lemma absolute_last: "putil_is_absolute path \<longleftrightarrow> rev path \<noteq> [] \<and> last (rev path) = CHR ''/''"
  by (cases path) (auto simp: putil_is_absolute_def)

lemma dropWhile_last: "dropWhile P xs \<noteq> [] \<Longrightarrow> last (dropWhile P xs) = last xs"
  by (induction xs) auto

lemma c_dirname_absolute:
  assumes "putil_is_absolute path"
  shows "putil_is_absolute (c_dirname path)" and "path \<noteq> ''/'' \<Longrightarrow> length (c_dirname path) < length path"
proof -
  let ?strip = "dropWhile (\<lambda>c. c = CHR ''/'')"
  define a where "a = ?strip (rev path)"
  define b where "b = dropWhile (\<lambda>c. c \<noteq> CHR ''/'') a"
  have p: "path \<noteq> []" "last (rev path) = CHR ''/''" using assms by (auto simp: absolute_last)
  have strip: "?strip (rev path) = a" by (simp add: a_def)
  have d: "c_dirname path = (if a = [] then ''/'' else if b = [] then ''.'' else if ?strip b = [] then ''/'' else rev (?strip b))"
    using p(1) unfolding c_dirname_def Let_def strip b_def by simp
  have a: "a \<noteq> [] \<Longrightarrow> last a = CHR ''/'' \<and> hd a \<noteq> CHR ''/''"
    using dropWhile_last [of "\<lambda>c. c = CHR ''/''" "rev path"] p(2) hd_dropWhile [of "\<lambda>c. c = CHR ''/''" "rev path"]
    unfolding strip by simp
  have b: "b \<noteq> []" "last b = CHR ''/''" "length b < length a" if "a \<noteq> []"
  proof -
    show "b \<noteq> []" using a [OF that] last_in_set [OF that] by (auto simp: b_def)
    then show "last b = CHR ''/''" using dropWhile_last [of "\<lambda>c. c \<noteq> CHR ''/''" a] a [OF that] by (simp add: b_def)
    show "length b < length a"
      using a [OF that] that length_dropWhile_le [of "\<lambda>c. c \<noteq> CHR ''/''" "tl a"] by (cases a) (auto simp: b_def)
  qed
  have la: "length a \<le> length path" using length_dropWhile_le [of "\<lambda>c. c = CHR ''/''" "rev path"] by (simp add: a_def)
  have ls: "length (?strip b) \<le> length b" by (rule length_dropWhile_le)
  show "putil_is_absolute (c_dirname path)"
    using b dropWhile_last [of "\<lambda>c. c = CHR ''/''" b] by (auto simp: d absolute_last simp del: dropWhile_eq_Nil_conv)
  show "length (c_dirname path) < length path" if "path \<noteq> ''/''"
  proof -
    have "2 \<le> length path" using p that by (cases path; cases "tl path") auto
    then show ?thesis using b(1,3) la ls by (auto simp: d simp del: dropWhile_eq_Nil_conv)
  qed
qed

section \<open>Absolute paths\<close>

lemma realpath_enough:
  assumes "putil_is_absolute path" and "fv_realpath env ''/'' = Inl root" and "length path < n"
  shows "putil_realpath n env guess path \<noteq> Inl (Fault ''stack'')"
  using assms(1,3)
proof (induction n arbitrary: path)
  case (Suc n)
  show ?case
  proof (cases "path = ''/''")
    case True
    then show ?thesis using assms(2) by simp
  next
    case False
    have "putil_realpath n env guess (c_dirname path) \<noteq> Inl (Fault ''stack'')"
      using Suc.IH [of "c_dirname path"] c_dirname_absolute [OF Suc.prems(1)] False Suc.prems(2) by simp
    then show ?thesis using Suc.prems(1)
      by (auto simp: guess_text_def bindR_def Let_def split: sum.splits option.splits if_splits)
  qed
qed simp

text \<open>
  C27. The search for the absolute path of a file ends: it goes to the parent directory, which is a
  shorter path, and the root exists.
\<close>

theorem realpath_ends:
  assumes "fv_realpath env ''/'' = Inl root"
  shows "putil_realpath (length path + 2) env guess path \<noteq> Inl (Fault ''stack'')"
proof (cases "putil_is_absolute path")
  case True
  then show ?thesis by (rule realpath_enough [OF _ assms]) simp
next
  case False
  then show ?thesis by (auto simp: numeral_2_eq_2 Let_def split: sum.splits option.splits)
qed

definition fs_sample :: "(string \<Rightarrow> string + nat \<times> string) \<Rightarrow> (string \<Rightarrow> bool) \<Rightarrow> fs_view" where
  "fs_sample rp ex = \<lparr>fv_realpath = rp, fv_getcwd = Some ''/p'', fv_exists = (\<lambda>_. True), fv_executable = ex, fv_link = (\<lambda>_. None),
     fv_behind_env = [], fv_statfs = (\<lambda>_. None), fv_mounts = []\<rparr>"

theorem realpath_ends_witness:
  "putil_realpath (length ''/a/b'' + 2) (fs_sample (\<lambda>p. if p = ''/'' then Inl ''/'' else Inr (ENOENT, p)) (\<lambda>_. False)) True ''/a/b'' \<noteq>
   Inl (Fault ''stack'')"
  using realpath_ends [of "fs_sample (\<lambda>p. if p = ''/'' then Inl ''/'' else Inr (ENOENT, p)) (\<lambda>_. False)" "''/''" "''/a/b''" True]
  by (simp add: fs_sample_def)

lemma guess_room_int: "int (guess_room left) = (8 - int (length left)) mod 2 ^ 64"
proof -
  have "uint (8 - of_nat (length left) :: u64) = (8 - int (length left)) mod 2 ^ 64"
    by (simp add: uint_word_ariths unsigned_of_nat take_bit_eq_mod zmod_int mod_simps)
  then show ?thesis by (simp add: guess_room_def)
qed

text \<open>
  C28. The guess for a file that does not exist, in a directory that does: whether it is whole depends on
  the length of what \<open>realpath\<close> left in the buffer, since the room for it is computed from the size
  of a pointer. If that is the path itself, as with the GNU library, paths of more than eight
  characters are right, and shorter ones are cut.
\<close>

theorem realpath_guess_cut:
  assumes "putil_is_absolute path" and "fv_realpath env path = Inr (ENOENT, left)"
    and "putil_realpath n env True (c_dirname path) = Inr (Some r)" and "length (r @ ''/'' @ c_basename path) \<le> putil_path_max"
    and "length left < 2 ^ 32"
  shows "putil_realpath (Suc n) env True path =
    Inr (Some (if length left < 8 then take (7 - length left) (r @ ''/'' @ c_basename path)
               else if length left = 8 then left else r @ ''/'' @ c_basename path))"
proof -
  let ?t = "r @ ''/'' @ c_basename path"
  have "putil_realpath (Suc n) env True path = bindR (guess_text left ?t) (\<lambda>t. Inr (Some t))"
    using assms(1-3) by simp
  moreover have "guess_text left ?t = Inr (if length left < 8 then take (7 - length left) ?t else if length left = 8 then left else ?t)"
  proof -
    consider "length left < 8" | "length left = 8" | "8 < length left" by linarith
    then show ?thesis
    proof cases
      case 1
      have "guess_room left = 8 - length left" using guess_room_int [of left] 1 by simp
      then show ?thesis using 1 assms(4) by (auto simp: guess_text_def snprintf_def Let_def min_def)
    next
      case 2
      then show ?thesis by (simp add: guess_text_def guess_room_def)
    next
      case 3
      have "guess_room left = 2 ^ 64 + 8 - length left"
      proof -
        have "(8 - int (length left)) mod 2 ^ 64 = (8 - int (length left) + 2 ^ 64) mod 2 ^ 64" by (rule mod_add_self2 [symmetric])
        also have "\<dots> = 8 - int (length left) + 2 ^ 64" using 3 assms(5) by (intro mod_pos_pos_trivial) simp_all
        finally have "int (guess_room left) = 8 - int (length left) + 2 ^ 64" using guess_room_int [of left] by simp
        then show ?thesis using assms(5) by simp
      qed
      then have "putil_path_max + 1 < guess_room left" using assms(5) by (simp add: putil_path_max_def PATH_MAX_def)
      then have "snprintf (guess_room left) ?t = ?t" "guess_room left \<noteq> 0"
        using assms(4) by (simp_all add: snprintf_def)
      then show ?thesis using 3 assms(4) by (auto simp: guess_text_def Let_def)
    qed
  qed
  ultimately show ?thesis by simp
qed

theorem realpath_guess_cut_witness:
  "let env = fs_sample (\<lambda>p. if p = ''/tmp'' then Inl ''/tmp'' else Inr (ENOENT, p)) (\<lambda>_. False) in
     putil_realpath 2 env True ''/tmp/x'' = Inr (Some ''/'') \<and> putil_realpath 2 env True ''/tmp/log.txt'' = Inr (Some ''/tmp/log.txt'')"
proof -
  let ?env = "fs_sample (\<lambda>p. if p = ''/tmp'' then Inl ''/tmp'' else Inr (ENOENT, p)) (\<lambda>_. False)"
  have d: "c_dirname ''/tmp/x'' = ''/tmp''" "c_basename ''/tmp/x'' = ''x''"
      "c_dirname ''/tmp/log.txt'' = ''/tmp''" "c_basename ''/tmp/log.txt'' = ''log.txt''"
    by (simp_all add: c_dirname_def c_basename_def)
  have r: "putil_realpath (Suc 0) ?env True ''/tmp'' = Inr (Some ''/tmp'')"
    by (simp add: fs_sample_def putil_path_max_def PATH_MAX_def)
  have "putil_realpath (Suc (Suc 0)) ?env True ''/tmp/x'' = Inr (Some ''/'')"
    using realpath_guess_cut [of "''/tmp/x''" ?env "''/tmp/x''" "Suc 0" "''/tmp''"] r d
    by (simp add: putil_is_absolute_def fs_sample_def putil_path_max_def PATH_MAX_def del: putil_realpath.simps)
  moreover have "putil_realpath (Suc (Suc 0)) ?env True ''/tmp/log.txt'' = Inr (Some ''/tmp/log.txt'')"
    using realpath_guess_cut [of "''/tmp/log.txt''" ?env "''/tmp/log.txt''" "Suc 0" "''/tmp''"] r d
    by (simp add: putil_is_absolute_def fs_sample_def putil_path_max_def PATH_MAX_def del: putil_realpath.simps)
  ultimately show ?thesis by (simp add: numeral_2_eq_2 Let_def del: putil_realpath.simps)
qed

section \<open>The search for programs\<close>

lemma colon_words_join: "CHR '':'' \<notin> set d \<Longrightarrow> colon_words (d @ CHR '':'' # s) = d # colon_words s"
  by (induction d) auto

lemma colon_words_one: "CHR '':'' \<notin> set d \<Longrightarrow> colon_words d = [d]"
  by (induction d) auto

fun join_path :: "string list \<Rightarrow> string" where
  "join_path [] = []"
| "join_path [d] = d"
| "join_path (d # ds) = d @ '':'' @ join_path ds"

lemma colon_words_path: "ds \<noteq> [] \<Longrightarrow> list_all (\<lambda>d. CHR '':'' \<notin> set d) ds \<Longrightarrow> colon_words (join_path ds) = ds"
  by (induction ds rule: join_path.induct) (simp_all add: colon_words_join colon_words_one)

definition dir_fits :: "nat \<Rightarrow> string \<Rightarrow> string \<Rightarrow> bool" where
  \<comment> \<open>an absolute directory, with room for the name of the program\<close>
  "dir_fits buflen prog d = (first_char d = CHR ''/'' \<and> CHR '':'' \<notin> set d \<and> length (d @ ''/'' @ prog) < buflen)"

lemma search_dirs_step:
  assumes "dir_fits buflen prog d"
  shows "search_dirs env prog buflen (d # ds) =
    (if fv_executable env (d @ ''/'' @ prog) then Inr (length (d @ ''/'' @ prog), d @ ''/'' @ prog)
     else if ds = [] then Inr (0, []) else search_dirs env prog buflen ds)"
  using assms by (simp add: dir_fits_def Let_def)

text \<open>
  C26. On a search path of absolute directories, whose names with that of the program fit into the
  buffer, a program is found in the first directory which has it. If none has it, nothing is found;
  but if a relative name follows these directories at the end of the path, the search goes on at
  the address 1.
\<close>

theorem program_search:
  assumes "CHR ''/'' \<notin> set prog" and "list_all (dir_fits buflen prog) ds" and "ds \<noteq> []"
    and "first_char r \<noteq> CHR ''/''" and "first_char r \<noteq> CHR ''.''" and "r \<noteq> []" and "CHR '':'' \<notin> set r"
  shows "putil_searchpath env vars (Some (join_path ds)) prog buflen =
      (case find (\<lambda>d. fv_executable env (d @ ''/'' @ prog)) ds of
         Some d \<Rightarrow> Inr (length (d @ ''/'' @ prog), d @ ''/'' @ prog) | None \<Rightarrow> Inr (0, [])) \<and>
    putil_searchpath env vars (Some (join_path (ds @ [r]))) prog buflen =
      (case find (\<lambda>d. fv_executable env (d @ ''/'' @ prog)) ds of
         Some d \<Rightarrow> Inr (length (d @ ''/'' @ prog), d @ ''/'' @ prog) | None \<Rightarrow> Inl (Fault ''strchr of 1''))"
proof -
  have no_colon: "list_all (\<lambda>d. CHR '':'' \<notin> set d) ds" using assms(2) by (auto simp: list_all_iff dir_fits_def)
  have path: "colon_words (join_path ds) = ds" "colon_words (join_path (ds @ [r])) = ds @ [r]"
    using colon_words_path [of ds] colon_words_path [of "ds @ [r]"] no_colon assms(3,7) by simp_all
  have "search_dirs env prog buflen ds = (case find (\<lambda>d. fv_executable env (d @ ''/'' @ prog)) ds of
      Some d \<Rightarrow> Inr (length (d @ ''/'' @ prog), d @ ''/'' @ prog) | None \<Rightarrow> Inr (0, []))"
    using assms(2,3)
  proof (induction ds)
    case (Cons d ds)
    then show ?case by (cases "ds = []") (simp_all add: search_dirs_step del: search_dirs.simps(2))
  qed simp
  moreover have "search_dirs env prog buflen (ds @ [r]) = (case find (\<lambda>d. fv_executable env (d @ ''/'' @ prog)) ds of
      Some d \<Rightarrow> Inr (length (d @ ''/'' @ prog), d @ ''/'' @ prog) | None \<Rightarrow> Inl (Fault ''strchr of 1''))"
    using assms(2)
  proof (induction ds)
    case Nil
    then show ?case using assms(4-6) by simp
  next
    case (Cons d ds)
    then show ?case by (simp add: search_dirs_step del: search_dirs.simps(2))
  qed
  ultimately show ?thesis using assms(1) path by (simp add: putil_searchpath_def)
qed

theorem program_search_witness:
  "putil_searchpath (fs_sample (\<lambda>p. Inl p) (\<lambda>p. p = ''/bin/ls'')) [] (Some ''/usr/bin:/bin'') ''ls'' 64 = Inr (7, ''/bin/ls'') \<and>
   putil_searchpath (fs_sample (\<lambda>p. Inl p) (\<lambda>_. False)) [] (Some ''/usr/bin:/bin:bin'') ''ls'' 64 = Inl (Fault ''strchr of 1'')"
proof -
  have fits: "list_all (dir_fits 64 ''ls'') [''/usr/bin'', ''/bin'']" by (simp add: dir_fits_def first_char_def)
  show ?thesis
    using program_search [of "''ls''" 64 "[''/usr/bin'', ''/bin'']" "''bin''" "fs_sample (\<lambda>p. Inl p) (\<lambda>p. p = ''/bin/ls'')" "[]"]
      program_search [of "''ls''" 64 "[''/usr/bin'', ''/bin'']" "''bin''" "fs_sample (\<lambda>p. Inl p) (\<lambda>_. False)" "[]"] fits
    by (simp add: fs_sample_def first_char_def)
qed

section \<open>The name of a file system\<close>

lemma lsearch_grows: "lsearch node m = Inr m' \<Longrightarrow> map_of m t = Some x \<Longrightarrow> map_of m' t = Some x"
  by (auto simp: lsearch_def split: if_splits)

lemma lsearch_adds: "lsearch node m = Inr m' \<Longrightarrow> map_of m' (fst node) \<noteq> None"
  by (auto simp: lsearch_def map_add_def split: if_splits option.splits)

lemma read_mounts_grows: "read_mounts env ms m = Inr m' \<Longrightarrow> map_of m t = Some x \<Longrightarrow> map_of m' t = Some x"
  by (induction env ms m rule: read_mounts.induct) (auto simp: bindR_eq_Inr lsearch_grows split: if_splits option.splits)

lemma read_mounts_again:
  assumes "read_mounts env ms m = Inr m'" and "\<And>t. map_of m' t \<noteq> None \<Longrightarrow> map_of m'' t \<noteq> None"
  shows "read_mounts env ms m'' = Inr m''"
  using assms
proof (induction env ms m rule: read_mounts.induct)
  case (2 env dir ty ms m)
  show ?case
  proof (cases "ty = ''rootfs'' \<or> fv_statfs env dir = None")
    case True
    then show ?thesis using 2 by (auto split: if_splits)
  next
    case False
    then obtain t m1 where t: "fv_statfs env dir = Some t" "length ty < 32" "lsearch (t, ty) m = Inr m1" "read_mounts env ms m1 = Inr m'"
      using 2(4) by (auto simp: bindR_eq_Inr split: if_splits option.splits)
    have "map_of m1 t \<noteq> None" using lsearch_adds [OF t(3)] by simp
    then have "map_of m'' t \<noteq> None" using read_mounts_grows [OF t(4), of t] 2(5) [of t] by auto
    moreover have "read_mounts env ms m'' = Inr m''" using False t 2(3,5) by simp
    ultimately show ?thesis using False t by (simp add: lsearch_def)
  qed
qed simp

text \<open>
  Asked again for the same path, with what was stored at the first time, the name of the file system
  is the same, and nothing more is stored.
\<close>

theorem fsname_stable:
  assumes "util_find_fsname n env path m = Inr (name, m')"
  shows "util_find_fsname n env path m' = Inr (name, m')"
  using assms
proof (induction n env path m rule: util_find_fsname.induct)
  case (2 n env path m)
  show ?case
  proof (cases "fv_exists env path")
    case True
    then show ?thesis using 2(2) read_mounts_again [of env "fv_mounts env" m m' m']
      by (auto simp: bindR_eq_Inr split: option.splits)
  next
    case False
    then show ?thesis using 2 by simp
  qed
qed simp

theorem fsname_stable_witness:
  "let env = (fs_sample (\<lambda>p. Inl p) (\<lambda>_. False))\<lparr>fv_statfs := (\<lambda>_. Some 7), fv_mounts := [(''/'', ''rootfs''), (''/'', ''ext4'')]\<rparr> in
   util_find_fsname 1 env ''/a'' [] = Inr (''ext4'', [(7, ''ext4'')]) \<and> util_find_fsname 1 env ''/a'' [(7, ''ext4'')] = Inr (''ext4'', [(7, ''ext4'')])"
proof -
  let ?env = "(fs_sample (\<lambda>p. Inl p) (\<lambda>_. False))\<lparr>fv_statfs := (\<lambda>_. Some 7), fv_mounts := [(''/'', ''rootfs''), (''/'', ''ext4'')]\<rparr>"
  have "util_find_fsname 1 ?env ''/a'' [] = Inr (''ext4'', [(7, ''ext4'')])"
    by (simp add: fs_sample_def lsearch_def)
  then show ?thesis using fsname_stable [of 1 ?env "''/a''" "[]"] by (simp add: Let_def)
qed

end
