(* ===== verification/RunCmd.thy ===== *)
theory RunCmd
  imports Session Http
begin

text \<open>
  The rest of what the monitoring process decides (\<open>run_cmd\<close> in \<open>src/unix.c\<close>): where the log goes,
  how long it waits and when it calls the server, and the loop around \<open>select\<close>.
\<close>

section \<open>The log, and a run without audit\<close>

datatype log_sink = Log_none | Log_file string | Log_tee string

definition log_sink :: "string \<Rightarrow> string option \<Rightarrow> prop_state \<Rightarrow> log_sink result" where
  \<comment> \<open>the first argument is the path of this program\<close>
  "log_sink exe logfile st =
     (case logfile of
        None \<Rightarrow> Inr Log_none
      | Some f \<Rightarrow>
          bindR (prop_get_str st P_SERVER_LOG_LEVEL) (\<lambda>loglevel.
            if loglevel = Some ''OFF'' then Inr (Log_file f)
            else bindR (prop_is_true st P_LOG_TIME_STAMP) (\<lambda>ts.
              Inr (Log_tee (exe @ '' --log-file '' @ [CHR 0x22] @ f @ [CHR 0x22] @ '' --log-tee''
                            @ (if ts then '' --log-time-stamp'' else []))))))"

definition execute_only_status :: "wait_status \<Rightarrow> int" where
  "execute_only_status w = (case w of WaitFailed \<Rightarrow> 5 | Exited n \<Rightarrow> n | Ended_otherwise \<Rightarrow> 2)"

section \<open>Times\<close>

definition HTTP_SESSION_TIMEOUT_SECS_DEFAULT :: int where "HTTP_SESSION_TIMEOUT_SECS_DEFAULT = 30 * 60"

definition session_times :: "prop_state \<Rightarrow> (int \<times> int) result" where
  \<comment> \<open>how long to wait at most, and the time between two calls of the server\<close>
  "session_times st =
     bindR (prop_get_ulong st P_MONITOR_TIMEOUT_SECS) (\<lambda>monitor.
     bindR (prop_get_ulong st P_SESSION_TIMEOUT_SECS) (\<lambda>session.
       let t = sint session
       in Inr (if t \<noteq> 0 then (if t sdiv 4 < sint monitor then t sdiv 4 else sint monitor, t sdiv 2)
               else (sint monitor, HTTP_SESSION_TIMEOUT_SECS_DEFAULT sdiv 2))))"

definition heartbeat_due :: "int \<Rightarrow> int \<Rightarrow> int \<Rightarrow> bool" where
  "heartbeat_due interval prev now = (interval \<le> now - prev)"

section \<open>The loop\<close>

text \<open>
  What \<open>select\<close> reports: an interruption, another error, or the connections which can be accepted,
  with their descriptors, and those from which can be read, with what they deliver until they
  end. The time is asked for after it. The signal that the build has ended may come at any time;
  in each round, the first component says that it came before the next test of \<open>doneflag\<close>.
\<close>

datatype select_result = Interrupted | Select_failed | Ready int "int list" "(int \<times> string) list"

record 'h select_state =
  sl_session :: "'h session"
  sl_last :: int
  sl_http :: http_state
  sl_open :: "int list"

definition send_heartbeat :: "http_env \<Rightarrow> int \<Rightarrow> int \<Rightarrow> 'h select_state \<Rightarrow> 'h select_state result" where
  "send_heartbeat he interval now s =
     (if prop_has_value (ht_props (sl_http s)) P_SERVER \<and> heartbeat_due interval (sl_last s) now
      then bindR (http_heartbeat he (sl_http s)) (\<lambda>(_, ht). Inr (s\<lparr>sl_http := ht, sl_last := now\<rparr>))
      else Inr s)"

fun read_deliveries ::
  "'h mon_env \<Rightarrow> (string \<Rightarrow> io list) \<Rightarrow> (nat \<Rightarrow> moment_s) \<Rightarrow> (int \<times> string) list \<Rightarrow> 'h select_state \<Rightarrow> 'h select_state result" where
  \<comment> \<open>each is read to its end, and then closed\<close>
  "read_deliveries env send clock [] s = Inr s"
| "read_deliveries env send clock ((fd, buffer) # ds) s =
     bindR (session_delivery env send clock buffer (sl_session s)) (\<lambda>ss.
       read_deliveries env send clock ds (s\<lparr>sl_session := ss, sl_open := remove1 fd (sl_open s)\<rparr>))"

definition child_ended :: "bool \<Rightarrow> 'h select_state \<Rightarrow> 'h select_state" where
  "child_ended sig s = (if sig then s\<lparr>sl_session := (sl_session s)\<lparr>ss_done := True\<rparr>\<rparr> else s)"

fun select_loop ::
  "'h mon_env \<Rightarrow> http_env \<Rightarrow> (string \<Rightarrow> io list) \<Rightarrow> (nat \<Rightarrow> moment_s) \<Rightarrow> int \<Rightarrow> (bool \<times> select_result) list \<Rightarrow> 'h select_state \<Rightarrow>
     'h select_state result option" where
  \<comment> \<open>\<open>None\<close> while it waits\<close>
  "select_loop env he send clock interval rounds s =
     (if ss_done (sl_session s) then Some (Inr s)
      else case rounds of
        [] \<Rightarrow> None
      | (sig, Interrupted) # rs \<Rightarrow> select_loop env he send clock interval rs (child_ended sig s)
      | (sig, Select_failed) # rs \<Rightarrow> Some (Inl (Exit 2))
      | (sig, Ready now fds ds) # rs \<Rightarrow>
          (case bindR (send_heartbeat he interval now s) (\<lambda>s.
                  read_deliveries env send clock ds (s\<lparr>sl_open := sl_open s @ fds\<rparr>)) of
             Inl e \<Rightarrow> Some (Inl e)
           | Inr s \<Rightarrow> select_loop env he send clock interval rs (child_ended sig s)))"

declare select_loop.simps [simp del]

end
