(* ===== verification/RunCmdProofs.thy ===== *)
theory RunCmdProofs
  imports RunCmd SessionProofs
begin

text \<open>
  What the loop around \<open>select\<close> records is what was delivered, unless the build ends in between; and
  the session with the server is kept alive.
\<close>

section \<open>Deliveries\<close>

fun deliver_all ::
  "'h mon_env \<Rightarrow> (string \<Rightarrow> io list) \<Rightarrow> (nat \<Rightarrow> moment_s) \<Rightarrow> string list \<Rightarrow> 'h session \<Rightarrow> 'h session result" where
  \<comment> \<open>one delivery after the other, and nothing else\<close>
  "deliver_all env send clock [] ss = Inr ss"
| "deliver_all env send clock (b # bs) ss = bindR (session_delivery env send clock b ss) (deliver_all env send clock bs)"

definition delivered :: "(bool \<times> select_result) list \<Rightarrow> string list" where
  "delivered rounds = concat (map (\<lambda>r. case snd r of Ready _ _ ds \<Rightarrow> map snd ds | _ \<Rightarrow> []) rounds)"

lemma deliver_all_append:
  "deliver_all env send clock (as @ bs) ss = bindR (deliver_all env send clock as ss) (deliver_all env send clock bs)"
proof (induction as arbitrary: ss)
  case (Cons a as)
  then show ?case by (cases "session_delivery env send clock a ss") simp_all
qed simp

lemma read_deliveries_all:
  assumes "read_deliveries env send clock ds s = Inr s'"
  shows "deliver_all env send clock (map snd ds) (sl_session s) = Inr (sl_session s')"
  using assms by (induction env send clock ds s rule: read_deliveries.induct) (auto simp: bindR_eq_Inr)

lemma heartbeat_session: "send_heartbeat he interval now s = Inr s' \<Longrightarrow> sl_session s' = sl_session s"
  by (auto simp: send_heartbeat_def bindR_eq_Inr split: if_splits)

lemma loop_step:
  assumes "\<not> ss_done (sl_session s)"
  shows "select_loop env he send clock interval ((sig, Interrupted) # rs) s = select_loop env he send clock interval rs (child_ended sig s)"
    and "select_loop env he send clock interval ((sig, Select_failed) # rs) s = Some (Inl (Exit 2))"
    and "select_loop env he send clock interval ((sig, Ready now fds ds) # rs) s =
      (case bindR (send_heartbeat he interval now s) (\<lambda>s.
              read_deliveries env send clock ds (s\<lparr>sl_open := sl_open s @ fds\<rparr>)) of
         Inl e \<Rightarrow> Some (Inl e)
       | Inr s \<Rightarrow> select_loop env he send clock interval rs (child_ended sig s))"
  using assms by (subst select_loop.simps, simp)+

text \<open>
  C9. If no signal comes in between, what is recorded when the loop ends is exactly what was delivered
  up to then, in order: neither interruptions nor calls of the server nor the order in which
  connections are accepted make a difference.
\<close>

theorem deliveries_recorded:
  assumes "select_loop env he send clock interval rounds s = Some (Inr s')" and "list_all (\<lambda>r. \<not> fst r) rounds"
  shows "\<exists>n. deliver_all env send clock (delivered (take n rounds)) (sl_session s) = Inr (sl_session s') \<and> ss_done (sl_session s')"
  using assms
proof (induction rounds arbitrary: s)
  case Nil
  then show ?case by (auto simp: select_loop.simps delivered_def split: if_splits)
next
  case (Cons r rounds)
  obtain res where r: "r = (False, res)" using Cons.prems(2) by (cases r) simp
  show ?case
  proof (cases "ss_done (sl_session s)")
    case True
    then have "s' = s" using Cons.prems(1) by (simp add: select_loop.simps)
    then show ?thesis using True by (intro exI [of _ 0]) (simp add: delivered_def)
  next
    case False
    have "\<exists>s1. deliver_all env send clock (delivered [r]) (sl_session s) = Inr (sl_session s1) \<and>
        select_loop env he send clock interval rounds s1 = Some (Inr s')"
    proof (cases res)
      case Interrupted
      then show ?thesis using Cons.prems(1) False r by (auto simp: loop_step child_ended_def delivered_def)
    next
      case Select_failed
      then show ?thesis using Cons.prems(1) False r by (simp add: loop_step)
    next
      case (Ready now fds ds)
      then obtain s0 s1 where "send_heartbeat he interval now s = Inr s0"
          "read_deliveries env send clock ds (s0\<lparr>sl_open := sl_open s0 @ fds\<rparr>) = Inr s1"
          "select_loop env he send clock interval rounds s1 = Some (Inr s')"
        using Cons.prems(1) False r
        by (auto simp: loop_step child_ended_def bindR_def split: sum.splits)
      then show ?thesis using read_deliveries_all heartbeat_session Ready r by (fastforce simp: delivered_def)
    qed
    then obtain s1 where s1: "deliver_all env send clock (delivered [r]) (sl_session s) = Inr (sl_session s1)"
        "select_loop env he send clock interval rounds s1 = Some (Inr s')" by blast
    obtain n where n: "deliver_all env send clock (delivered (take n rounds)) (sl_session s1) = Inr (sl_session s')"
        "ss_done (sl_session s')" using Cons.IH [OF s1(2)] Cons.prems(2) by auto
    have "delivered (take (Suc n) (r # rounds)) = delivered [r] @ delivered (take n rounds)" by (simp add: delivered_def)
    then have "deliver_all env send clock (delivered (take (Suc n) (r # rounds))) (sl_session s) = Inr (sl_session s')"
      using s1(1) n(1) by (simp add: deliver_all_append del: take_Suc_Cons)
    then show ?thesis using n(2) by blast
  qed
qed

section \<open>The build ends\<close>











definition ready_state :: "'h mon_env \<Rightarrow> http_env \<Rightarrow> (string \<Rightarrow> io list) \<Rightarrow> (nat \<Rightarrow> moment_s) \<Rightarrow> int \<Rightarrow> int \<Rightarrow> int list \<Rightarrow>
    (int \<times> string) list \<Rightarrow> 'h select_state \<Rightarrow> 'h select_state result" where
  \<comment> \<open>what a round does in which \<open>select\<close> reports something\<close>
  "ready_state env he send clock interval now fds ds s =
     bindR (send_heartbeat he interval now s) (\<lambda>s. read_deliveries env send clock ds (s\<lparr>sl_open := sl_open s @ fds\<rparr>))"


lemma loop_ready:
  "select_loop env he send clock interval ((sig, Ready now fds ds) # rs) s =
    (if ss_done (sl_session s) then Some (Inr s)
     else case ready_state env he send clock interval now fds ds s of Inl e \<Rightarrow> Some (Inl e)
       | Inr s \<Rightarrow> select_loop env he send clock interval rs (child_ended sig s))"
  by (subst select_loop.simps) (simp add: ready_state_def)










section \<open>The session with the server\<close>

text \<open>The state in which the loop waits again after some rounds; \<open>None\<close> if it ends before.\<close>

fun loop_after ::
  "'h mon_env \<Rightarrow> http_env \<Rightarrow> (string \<Rightarrow> io list) \<Rightarrow> (nat \<Rightarrow> moment_s) \<Rightarrow> int \<Rightarrow> (bool \<times> select_result) list \<Rightarrow> 'h select_state \<Rightarrow>
     'h select_state option" where
  "loop_after env he send clock interval [] s = (if ss_done (sl_session s) then None else Some s)"
| "loop_after env he send clock interval ((sig, r) # rs) s =
     (if ss_done (sl_session s) then None
      else case r of
        Interrupted \<Rightarrow> loop_after env he send clock interval rs (child_ended sig s)
      | Select_failed \<Rightarrow> None
      | Ready now fds ds \<Rightarrow>
          (case ready_state env he send clock interval now fds ds s of Inl e \<Rightarrow> None
           | Inr s \<Rightarrow> loop_after env he send clock interval rs (child_ended sig s)))"

lemma loop_after_goes_on:
  "loop_after env he send clock interval rounds s = Some s1 \<Longrightarrow>
   \<not> ss_done (sl_session s1) \<and>
   select_loop env he send clock interval (rounds @ later) s = select_loop env he send clock interval later s1"
proof (induction env he send clock interval rounds s rule: loop_after.induct)
  case (2 env he send clock interval sig r rs s)
  then show ?case
    by (cases r) (auto simp: loop_step(1) loop_ready split: if_splits sum.splits)
qed (simp split: if_splits)

definition ready_times :: "(bool \<times> select_result) list \<Rightarrow> int list" where
  \<comment> \<open>when \<open>select\<close> returned without an interruption\<close>
  "ready_times rounds = concat (map (\<lambda>r. case snd r of Ready now _ _ \<Rightarrow> [now] | _ \<Rightarrow> []) rounds)"

fun paced :: "int \<Rightarrow> int \<Rightarrow> int list \<Rightarrow> bool" where
  \<comment> \<open>each time is at most so long after the one before\<close>
  "paced d prev [] = True"
| "paced d prev (now # ts) = (now - prev \<le> d \<and> paced d now ts)"

lemma heartbeat_keeps:
  assumes "send_heartbeat he interval now s = Inr s'"
  shows "prop_has_value (ht_props (sl_http s)) P_SERVER \<Longrightarrow> 0 < interval \<Longrightarrow> now - sl_last s' < interval"
    and "ht_props (sl_http s') = ht_props (sl_http s)"
proof -
  have "ht_props ht' = ht_props ht" if "http_heartbeat he ht = Inr (rc, ht')" for ht rc ht'
    using that
    by (auto simp: http_heartbeat_def http_ping_def http_connect_def bindR_eq_Inr http_get_curl_handle_def Let_def
        split: if_splits option.splits)
  then show "ht_props (sl_http s') = ht_props (sl_http s)"
    using assms by (auto simp: send_heartbeat_def bindR_eq_Inr split: if_splits)
  show "prop_has_value (ht_props (sl_http s)) P_SERVER \<Longrightarrow> 0 < interval \<Longrightarrow> now - sl_last s' < interval"
    using assms by (auto simp: send_heartbeat_def heartbeat_due_def bindR_eq_Inr split: if_splits)
qed

lemma read_deliveries_keeps:
  "read_deliveries env send clock ds s = Inr s' \<Longrightarrow> sl_last s' = sl_last s \<and> sl_http s' = sl_http s"
  by (induction env send clock ds s rule: read_deliveries.induct) (auto simp: bindR_eq_Inr)

lemma ready_keeps:
  assumes "ready_state env he send clock interval now fds ds s = Inr s'"
    and "prop_has_value (ht_props (sl_http s)) P_SERVER" and "0 < interval"
  shows "now - sl_last s' < interval" and "prop_has_value (ht_props (sl_http s')) P_SERVER"
proof -
  obtain s1 where "send_heartbeat he interval now s = Inr s1" "read_deliveries env send clock ds (s1\<lparr>sl_open := sl_open s1 @ fds\<rparr>) = Inr s'"
    using assms(1) by (auto simp: ready_state_def bindR_eq_Inr)
  then show "now - sl_last s' < interval" "prop_has_value (ht_props (sl_http s')) P_SERVER"
    using heartbeat_keeps assms(2,3) read_deliveries_keeps by fastforce+
qed

lemma child_keeps: "sl_last (child_ended sig s) = sl_last s" "sl_http (child_ended sig s) = sl_http s"
  by (simp_all add: child_ended_def)

lemma paced_gap:
  assumes "0 < interval"
  shows "loop_after env he send clock interval rounds s = Some s1 \<Longrightarrow> prop_has_value (ht_props (sl_http s)) P_SERVER \<Longrightarrow>
    prev - sl_last s < interval \<Longrightarrow> paced d prev (ready_times rounds @ [now]) \<Longrightarrow>
    now - sl_last s1 < interval + d \<and> prop_has_value (ht_props (sl_http s1)) P_SERVER"
proof (induction rounds arbitrary: s prev)
  case Nil
  then show ?case by (auto simp: ready_times_def split: if_splits)
next
  case (Cons r rounds)
  obtain sig res where r: "r = (sig, res)" by (cases r)
  have go: "\<not> ss_done (sl_session s)" using Cons.prems(1) r by (auto split: if_splits)
  show ?case
  proof (cases res)
    case Interrupted
    then show ?thesis
      using Cons.prems r go Cons.IH [of "child_ended sig s" prev] by (simp add: child_keeps ready_times_def)
  next
    case Select_failed
    then show ?thesis using Cons.prems(1) r go by simp
  next
    case (Ready t fds ds)
    then obtain s2 where s2: "ready_state env he send clock interval t fds ds s = Inr s2"
      using Cons.prems(1) r go by (auto split: sum.splits)
    note k = ready_keeps [OF s2 Cons.prems(2) assms]
    show ?thesis
      using Cons.prems r go Ready s2 k Cons.IH [of "child_ended sig s2" t] by (simp add: child_keeps ready_times_def)
  qed
qed

text \<open>
  C11. Let the server be used, let the session last at least two seconds, and let \<open>d\<close> bound the time
  between two rounds of the loop in which \<open>select\<close> is not interrupted, from the start of the loop on:
  the waiting for \<open>select\<close>, the reading of the deliveries of a round, and rounds which are
  interrupted by signals, in which the server is not called. Then whenever \<open>select\<close> returns, the last
  call of the server is less than half the session and \<open>d\<close> ago, and after the round less than half the
  session. So the session is kept alive if \<open>d\<close> is at most half the session; and if \<open>d\<close> is no later
  than the waiting time asked for, the gap stays below three quarters of the session.
\<close>

theorem heartbeat_in_time:
  assumes "session_times st = Inr (wait, interval)" and "prop_get_ulong st P_SESSION_TIMEOUT_SECS = Inr t" and "2 \<le> sint t"
    and "prop_has_value (ht_props (sl_http s)) P_SERVER"
    and "loop_after env he send clock interval rounds s = Some s1"
    and "paced d (sl_last s) (ready_times rounds @ [now])"
    and "send_heartbeat he interval now s1 = Inr s2"
  shows "now - sl_last s1 < interval + d \<and> now - sl_last s2 < interval \<and>
    (2 * d \<le> sint t \<longrightarrow> now - sl_last s1 < sint t) \<and> (d \<le> wait \<longrightarrow> 4 * (now - sl_last s1) < 3 * sint t)"
proof -
  obtain m where m: "prop_get_ulong st P_MONITOR_TIMEOUT_SECS = Inr m"
    using assms(1) by (auto simp: session_times_def bindR_eq_Inr)
  have "sint t sdiv 2 = sint t div 2" "sint t sdiv 4 = sint t div 4"
    using assms(3) by (simp_all add: signed_divide_int_def sgn_if)
  then have t: "interval = sint t div 2" "wait \<le> sint t div 4"
    using assms(1-3) m by (auto simp: session_times_def Let_def split: if_splits)
  then have pos: "0 < interval" "2 * interval \<le> sint t" "4 * wait \<le> sint t" using assms(3) by linarith+
  have gap: "now - sl_last s1 < interval + d" "prop_has_value (ht_props (sl_http s1)) P_SERVER"
    using paced_gap [OF pos(1) assms(5,4), of "sl_last s" d now] assms(6) pos(1) by simp_all
  have "now - sl_last s2 < interval" using heartbeat_keeps(1) [OF assms(7) gap(2) pos(1)] .
  moreover have "2 * d \<le> sint t \<longrightarrow> now - sl_last s1 < sint t" using gap(1) pos by linarith
  moreover have "4 * g < 3 * y" if "g < i + d" "d \<le> w" "2 * i \<le> y" "4 * w \<le> y" for g i w y :: int using that by linarith
  then have "d \<le> wait \<longrightarrow> 4 * (now - sl_last s1) < 3 * sint t" using gap(1) pos by blast
  ultimately show ?thesis using gap(1) by blast
qed

section \<open>Examples\<close>

definition run_sample :: "'h mon_state \<Rightarrow> 'h session" where
  "run_sample m = \<lparr>ss_mon = m, ss_exit = 0, ss_done = False, ss_started = True, ss_next = 5, ss_acks = [], ss_ptx = []\<rparr>"

definition run_start :: "prop_state \<Rightarrow> 'h mon_state \<Rightarrow> 'h select_state" where
  "run_start st m = \<lparr>sl_session = run_sample m, sl_last = 0,
     sl_http = \<lparr>ht_props = st, ht_cookie = None, ht_requests = [], ht_body = \<lparr>bs_leftover = [], bs_lines = [], bs_rc = None\<rparr>\<rparr>,
     sl_open = [4]\<rparr>"

lemma done_delivered:
  "session_delivery env send clock (DONE_TOKEN @ [newline]) (run_sample m) = Inr ((run_sample m)\<lparr>ss_done := True\<rparr>)"
  by (simp add: session_delivery_def session_lines.simps [of _ _ _ "Some _"] util_strsep_def session_line_def DONE_TOKEN_def newline_def run_sample_def)

lemma no_server: "\<not> prop_has_value (prop_start []) P_SERVER"
  by (simp add: prop_has_value_def prop_start_def)

theorem deliveries_recorded_witness:
  "\<forall>env he m. \<exists>s' n. select_loop env he (\<lambda>_. []) (\<lambda>_. zero_moment) 900
      [(False, Interrupted), (False, Ready 7 [5] []), (False, Ready 9 [] [(5, DONE_TOKEN @ [newline])])] (run_start (prop_start []) m) = Some (Inr s') \<and>
    deliver_all env (\<lambda>_. []) (\<lambda>_. zero_moment) (delivered (take n
      [(False, Interrupted), (False, Ready 7 [5] []), (False, Ready 9 [] [(5, DONE_TOKEN @ [newline])])])) (run_sample m) = Inr (sl_session s') \<and>
    ss_done (sl_session s')"
proof (intro allI)
  fix env he and m :: "'a mon_state"
  let ?rounds = "[(False, Interrupted), (False, Ready 7 [5] []), (False, Ready 9 [] [(5, DONE_TOKEN @ [newline])])]"
  have "\<exists>s'. select_loop env he (\<lambda>_. []) (\<lambda>_. zero_moment) 900 ?rounds (run_start (prop_start []) m) = Some (Inr s')"
    using done_delivered [of env "\<lambda>_. []" "\<lambda>_. zero_moment" m] no_server
    by (simp add: select_loop.simps run_start_def run_sample_def child_ended_def send_heartbeat_def)
  then obtain s' where run: "select_loop env he (\<lambda>_. []) (\<lambda>_. zero_moment) 900 ?rounds (run_start (prop_start []) m) = Some (Inr s')"
    by blast
  have start: "sl_session (run_start (prop_start []) m) = run_sample m" by (simp add: run_start_def)
  show "\<exists>s' n. select_loop env he (\<lambda>_. []) (\<lambda>_. zero_moment) 900 ?rounds (run_start (prop_start []) m) = Some (Inr s') \<and>
    deliver_all env (\<lambda>_. []) (\<lambda>_. zero_moment) (delivered (take n ?rounds)) (run_sample m) = Inr (sl_session s') \<and> ss_done (sl_session s')"
    using deliveries_recorded [OF run] run unfolding start by auto
qed

definition run_props :: prop_state where
  "run_props = (prop_start [])\<lparr>pvals := [P_SERVER \<mapsto> ''h:1'', P_SERVER_CONTEXT \<mapsto> ''ao'', P_SESSIONID \<mapsto> ''s1'', P_SESSION_TIMEOUT_SECS \<mapsto> fmt_lu 100, P_MONITOR_TIMEOUT_SECS \<mapsto> fmt_lu 60]\<rparr>"

lemma run_numbers: "prop_get_ulong run_props P_SESSION_TIMEOUT_SECS = Inr 100" "prop_get_ulong run_props P_MONITOR_TIMEOUT_SECS = Inr 60"
proof -
  have t: "fmt_lu 100 = ''100''" "fmt_lu 60 = ''60''" by code_simp+
  have n: "prop_get_ulong run_props p = Inr (c_strtoul 10 (fmt_lu v))"
    if "pvals run_props p = Some (fmt_lu v)" "v = 100 \<or> v = 60" for p v
  proof -
    have "fmt_lu v \<noteq> PROP_NULL" "\<not> true_word (fmt_lu v)" "number_base (fmt_lu v) = 10"
      using that(2) t by (auto simp: PROP_NULL_def true_word_def c_stricmp_eq_0 PROP_TRUE_def number_base_def tolower_def isupper_def)
    then show ?thesis using prop_get_str_Some [OF that(1)] by (simp add: prop_get_ulong_def)
  qed
  show "prop_get_ulong run_props P_SESSION_TIMEOUT_SECS = Inr 100" "prop_get_ulong run_props P_MONITOR_TIMEOUT_SECS = Inr 60"
    using n [of P_SESSION_TIMEOUT_SECS 100] n [of P_MONITOR_TIMEOUT_SECS 60] by (simp_all add: run_props_def)
qed


definition run_http :: http_env where
  "run_http = \<lparr>he_escape = (\<lambda>s. s), he_reply = (\<lambda>_ _. \<lparr>hr_ok = True, hr_code = 200, hr_headers = [], hr_body = []\<rparr>),
     he_version = ''1'', he_uname = Some (''Linux'', ''5'', ''x86'', ''h''), he_handle = ''0x1'', he_locale = None\<rparr>"

lemma run_beat:
  "\<exists>ht. http_heartbeat run_http (sl_http (run_start run_props m)) = Inr (0, ht)"
proof -
  have "prop_get_str run_props P_SERVER = Inr (Some ''h:1'')" "prop_get_str run_props P_SERVER_CONTEXT = Inr (Some ''ao'')"
    "prop_get_str run_props P_SESSIONID = Inr (Some ''s1'')"
    by (rule prop_get_str_Some; simp add: run_props_def PROP_NULL_def)+
  then show ?thesis
    by (simp add: http_heartbeat_def http_ping_def http_get_curl_handle_def run_start_def run_http_def http_make_url_pfx_def http_connect_def Let_def)
qed

theorem heartbeat_in_time_witness:
  "\<forall>env (m :: unit mon_state). \<exists>s1 s2. session_times run_props = Inr (25, 50) \<and>
    loop_after env run_http (\<lambda>_. []) (\<lambda>_. zero_moment) 50
      [(False, Ready 20 [] []), (False, Interrupted), (False, Ready 45 [] [])] (run_start run_props m) = Some s1 \<and>
    send_heartbeat run_http 50 70 s1 = Inr s2 \<and> sl_last s1 = 0 \<and> sl_last s2 = 70 \<and> 70 - sl_last s1 < 50 + (25 :: int)"
proof (intro allI)
  fix env and m :: "unit mon_state"
  let ?s = "run_start run_props m" and ?rounds = "[(False, Ready 20 [] []), (False, Interrupted), (False, Ready 45 [] [])]"
  have times: "session_times run_props = Inr (25, 50)" by (simp add: session_times_def run_numbers signed_divide_int_def)
  have server: "prop_has_value (ht_props (sl_http ?s)) P_SERVER"
    by (simp add: run_start_def run_props_def prop_has_value_def)
  have last: "sl_last ?s = 0" by (simp add: run_start_def)
  have after: "loop_after env run_http (\<lambda>_. []) (\<lambda>_. zero_moment) 50 ?rounds ?s = Some ?s"
    by (simp add: ready_state_def send_heartbeat_def heartbeat_due_def child_ended_def last) (simp add: run_start_def run_sample_def)
  obtain ht where "http_heartbeat run_http (sl_http ?s) = Inr (0, ht)" using run_beat by blast
  then have beat: "send_heartbeat run_http 50 70 ?s = Inr (?s\<lparr>sl_http := ht, sl_last := 70\<rparr>)"
    using server by (simp add: send_heartbeat_def heartbeat_due_def last)
  have "paced 25 (sl_last ?s) (ready_times ?rounds @ [70])" by (simp add: ready_times_def last)
  then have "70 - sl_last ?s < 50 + (25 :: int)"
    using heartbeat_in_time [OF times run_numbers(1) _ server after _ beat, of 25] by simp
  then show "\<exists>s1 s2. session_times run_props = Inr (25, 50) \<and>
    loop_after env run_http (\<lambda>_. []) (\<lambda>_. zero_moment) 50 ?rounds ?s = Some s1 \<and>
    send_heartbeat run_http 50 70 s1 = Inr s2 \<and> sl_last s1 = 0 \<and> sl_last s2 = 70 \<and> 70 - sl_last s1 < 50 + (25 :: int)"
    using times after beat last
    by (intro exI [of _ ?s] exI [of _ "?s\<lparr>sl_http := ht, sl_last := 70\<rparr>"] conjI) (simp_all del: loop_after.simps)
qed

end
