(* ===== verification/Spec2Isabelle.thy ===== *)
theory Spec2Isabelle
  imports Moment Util Prop MonitorReach FileHash DeliverySample HttpProofs Transfers ActionsProofs PutilProofs RunCmdProofs
begin

text \<open>
  Audited objects: the client.

  The program (\<open>src/\<close>, in C) audits a build. A preloaded library, the auditor, reports the
  start of each command, the files it reads and writes and its end, as lines of text. The client
  \<open>ao\<close> reads these lines and hands them to the monitor. The monitor keeps the commands that
  are running, asks whether the result of a previous build can be used instead of running a
  command (shopping), puts related commands together (aggregation), and when a command or a
  group of them is complete it condenses what they did to their files to one action per file and
  hands the result over: to an output file, to the server, to a generated makefile. The settings
  come from properties, which the processes of the build inherit through the environment.

  Theories, with the source each models, bottom up:

  \<^item> \<open>Prelude\<close>: what the others share: the type of results (\<open>error + 'a\<close>, the errors being the
    ways the program ends: an exit, an abort, a memory fault), C strings and their comparison.
  \<^item> \<open>Radix\<close>: numbers as text (\<open>printf\<close>, \<open>strtoul\<close>, \<open>util_format_to_radix\<close>).
  \<^item> \<open>Moment\<close>: time stamps (\<open>moment.c\<close>).
  \<^item> \<open>Util\<close>: strings, paths, quoting, hashing, reading and writing (\<open>util.c\<close>).
  \<^item> \<open>PropTable\<close>, \<open>Prop\<close>: the table of properties and the operations on it (\<open>prop.c\<close>,
    \<open>PROP.h\<close>); \<open>prop_state\<close> has the values, the flags and the environment of the process.
  \<^item> \<open>Re\<close>: regular expressions held by properties (\<open>re.c\<close>).
  \<^item> \<open>PathName\<close>: canonical path names relative to the project (\<open>pn.c\<close>).
  \<^item> \<open>PathState\<close>: a file and its state, and the cache of identity hashes (\<open>ps.c\<close>).
  \<^item> \<open>Dict\<close>: what the code relies on of its dictionaries and hash tables, libraries which are
    not in the repository: the laws \<open>dict_laws\<close> and \<open>hash_laws\<close>, the locale \<open>comparator\<close> for
    the comparison functions the code passes to them, and list implementations for the examples.
  \<^item> \<open>PathAction\<close>: an action on a file (\<open>pa.c\<close>) and the order of actions.
  \<^item> \<open>CmdAction\<close>: a command, its key, its text, its actions, and groups (\<open>ca.c\<close>).
    Commands in a group refer to each other, so they live in a store from addresses to records.
    \<open>CmdProofs\<close> is about keys and headers, \<open>Coalesce\<close> about condensing the actions, \<open>Group\<close>
    about merging and publishing a group.
  \<^item> \<open>Shop\<close>, \<open>ShopProofs\<close>: shopping (\<open>shop.c\<close>), with the roadmap as a map from keys to the
    lists of their values and the calls into the file system recorded in order.
  \<^item> \<open>Sha1\<close>, \<open>IdentityHash\<close>, \<open>ZipFile\<close>, \<open>FileHash\<close>: identity hashes (\<open>sha1.c\<close>, \<open>code.c\<close>): the
    digest, the text of a hash, the clearing of the time stamps in archives and in zip files, and
    the hashing of a file, which is read or mapped.
  \<^item> \<open>Prefs\<close>: the search for properties files and the order in which they are loaded
    (\<open>prefs.c\<close>).
  \<^item> \<open>Monitor\<close>: the monitor (\<open>mon.c\<close>): \<open>mon_record\<close> is one step, on one line.
    \<open>MonitorInv\<close> states the invariant of the table and the groups, \<open>MonitorSafe\<close> shows that
    publishing and disbanding keep it, \<open>MonitorLines\<close> that each kind of line keeps it,
    \<open>MonitorRun\<close> treats the end of a command and the chain of commands one process went through
    by exec; \<open>MonitorSample\<close> has a small run; \<open>MonitorReach\<close> defines the reachable states as an
    inductive relation and draws the conclusions.
  \<^item> \<open>Auditor\<close>: the audit inside a process (\<open>libcommon.c\<close>); \<open>aud_state\<close> has its static variables,
    the contents of its temporary file and what went over its connections; \<open>aud_env\<close> has what the
    system answers. \<open>Wrappers\<close> are the functions around those of the C library (\<open>libunix.c\<close>).
    \<open>AuditorProofs\<close> is about the end of a process and about forks.
  \<^item> \<open>Session\<close>, \<open>SessionProofs\<close>: the loop of the monitoring process (\<open>run_cmd\<close> in \<open>unix.c\<close>):
    ports, reading of deliveries, answers, exit status. \<open>RunCmd\<close>, \<open>RunCmdProofs\<close>: the loop around
    \<open>select\<close>, the log, the calls which keep the session with the server; \<open>rounds_of\<close> gives the rounds
    of the loop for a sequence of connections, reports and signals.
  \<^item> \<open>Delivery\<close>, \<open>DeliverySample\<close>: auditor and monitor together: what one sends is what the
    other records, and what one answers the other obeys.
  \<^item> \<open>Verbosity\<close>: the kinds of messages and the mask of those which are wanted (\<open>vb.c\<close>).
  \<^item> \<open>Outputs\<close>: the makefile generator (\<open>make.c\<close>), the delivery into git and the objects of a
    repository (\<open>git.c\<close>), the log (\<open>tee.c\<close>), and the flags that are handed on (\<open>-W\<close> in
    \<open>aotool.c\<close>); \<open>out_state\<close> has the static variables and what was written to the pipes.
  \<^item> \<open>Http\<close>, \<open>HttpProofs\<close>: addresses, requests, headers and bodies of answers (\<open>http.c\<close>);
    \<open>http_state\<close> has the properties, the cookie of the session, the requests made so far and
    what is left over of the last body.
  \<^item> \<open>Transfers\<close>: the session with the server and the start and end of a build (the end of
    \<open>mon.c\<close>), uploads (\<open>up.c\<close>) with their compression (\<open>util_gzip_buffer\<close>), and downloads
    (\<open>down.c\<close>); \<open>tr_env\<close> has the answers of the server and what the libraries return.
  \<^item> \<open>Getopt\<close>, \<open>GetoptProofs\<close>: the reading of options (\<open>bsd_getopt.c\<close>); \<open>getopt_state\<close> has its
    static variables, \<open>getopt_all\<close> is the loop of its callers.
  \<^item> \<open>CommandLine\<close>, \<open>CommandLineProofs\<close>: the main program (\<open>aotool.c\<close>): the tables of options, the
    switch over them as a list from codes to effects (\<open>main_switch\<close>), what is worked out from
    the options (\<open>main_settle\<close>), and what comes before a build is run (\<open>run_setup\<close>); \<open>cl_state\<close> has
    the variables of \<open>main\<close> with the properties and the state of the connection to the server.
  \<^item> \<open>Putil\<close>, \<open>PutilProofs\<close>: the portability layer (\<open>Putil/putil.h\<close>) as it is on Linux: absolute
    paths, links, the search for programs, and the name of a file system (\<open>util.c\<close>).
  \<^item> \<open>Actions\<close>, \<open>ActionsProofs\<close>: the actions of the main program other than a build: those on files,
    shopping by hand, and those which the server does (\<open>http_action\<close>, \<open>http_label\<close>, \<open>http_namestate\<close>
    in \<open>http.c\<close>); and the output file (\<open>util_open_output_file\<close>).

  How the model corresponds to the code. A function of the source is a definition of the same
  name, without leading underscores; a long function is cut into definitions, each of which is a
  passage of it. A C structure is a record, \<open>unsigned long\<close> and \<open>uint64_t\<close> are \<open>64 word\<close>,
  \<open>unsigned\<close> is \<open>32 word\<close>, strings are character lists without the final zero. Static
  variables are fields of the record of the state. Functions return a result: \<open>Inl\<close> is the end
  of the program. The texts of messages and the freeing of memory are left out.

  Parameters of the model, for code outside the repository: the dictionaries and hash tables
  with their laws (\<open>ca_env\<close>), the file system and \<open>lstat\<close> (\<open>ps_sys\<close>, \<open>fs_env\<close>), CRC-32 and what an
  uninitialised context of SHA-1 holds, PCRE, the roadmap database (\<open>shop_env\<close>), the time of day
  and the addresses of new objects, the outcomes of system calls on sockets and files, what is
  on the stack where the code reads it uninitialised (\<open>aud_env\<close>, \<open>prefs_env\<close>), the answers of
  the server (\<open>he_reply\<close>), the escaping of \<open>libcurl\<close> (\<open>escape_laws\<close>), and \<open>zlib\<close>, call by call
  (\<open>zlib_laws\<close>, \<open>gzip_laws\<close>: \<open>deflate\<close> is given the size of the buffer, and may not finish in it).

  What is shown, by group: the environment carries the exported properties in every reachable
  state, and what is exported is loaded back; the properties table is in the order of its
  enumeration; a child's environment block fits its buffer; texts of times, numbers, actions and
  commands are read back as they were; paths are canonical, and stable; the comparison functions
  are orders, with the exceptions that the theorems name; condensing leaves one action per path;
  publishing a group hands over all its actions once; shopping recycles only a build that was
  compared and not invalidated; in all reachable states of the monitor the table has no reference
  to a command that is gone, and a command that ends leaves it, with its group; SHA-1 computes the
  digest of its standard, and the hash of an archive depends on the names and contents of its
  members only; the end of a process delivers all it collected once, also across forks, and the
  monitor records exactly that; the answer to the start of a command is obeyed, unless it arrives
  in pieces; what is delivered is recorded in order, unless the build ends before \<open>select\<close> has
  reported it twice, and the server is called often enough, given a bound on the time between two
  rounds of the loop. Of the socket it is assumed that it takes all texts, in any pieces
  (\<open>sends_all\<close>); what an interruption does is \<open>send_all_interrupted\<close>. Of the exchange with the server: the lines of an answer do not depend on the pieces
  in which it comes, the parameters of an address are read back, the cookie of the session is
  sent, an upload carries the contents of the file if the compressed text fits into the buffer made for
  it (and is cut if it does not), a download restores contents, mode and time, to the microsecond.
  Of the outputs: objects of a git repository are read back as they were, each line of the log is
  stamped once, flags reach the programs they are for. Of the command line: options are read in
  any of the ways to write them, the server given by
  an option is completed and used, settings in front of the command are in its environment; an action
  of the server gets its words and who asks. Programs are found in the order of the search path,
  and the search for an absolute path ends. Theorems about errors (as \<open>newline_in_path_aborts\<close>) show where the code fails.

  Bounds. \<open>mon_close_chain\<close> takes fuel, one more than the depth of the first command; theorem
  \<open>exec_chain_ends\<close> shows that this is enough, because the depth decreases along the chain.
  \<open>putil_mkdir_p\<close> takes two more than the length of the path: each call is for a shorter path,
  until \<open>/\<close> or \<open>.\<close>; running out of it stands for a recursion without end in the code. So does
  \<open>putil_realpath\<close>, for which \<open>realpath_ends\<close> shows that this is enough if the root exists, and
  \<open>util_find_fsname\<close>. The other
  loops are structural or have a termination proof.

  \<open>deflate_loop\<close>, \<open>inflate_loop\<close>, \<open>gzip_loop\<close>, \<open>tee_loop\<close> and \<open>select_loop\<close> take the outcomes of
  the calls they make; \<open>None\<close> is that these are used up and the loop still goes on.

  Not modelled: of the command line (\<open>aotool.c\<close>) the pager and the texts of usage, version and help;
  the permutation of words in \<open>bsd_getopt\<close>, which an option string with a plus sign in front turns
  off, as all of them have; the reuse of the handles of asynchronous transfers; the calls on sockets
  and the forking of the build in \<open>unix.c\<close>; the lookup of users in \<open>util.c\<close>; the messages and the
  memory functions of \<open>putil.h\<close>; \<open>git_map_blob\<close>, which nothing calls;
  the debug dumps and the freeing of memory; and the Windows client. These are calls into
  libraries and the operating system, with little logic of their own.
\<close>

end
